(* ===== verification/KHC_Prelude.thy ===== *)
theory KHC_Prelude
  imports Main "HOL-Library.Word" "HOL-Library.Multiset"
begin

text \<open>
  Shared vocabulary of the development.

  The C++ sources report every failure by throwing: \<open>FC_ASSERT\<close>, \<open>KHC_WASSERT\<close>,
  \<open>KHC_EASSERT\<close> and \<open>FC_THROW\<close> throw an \<open>fc::exception\<close>, an object lookup by an
  unknown id throws, checked integers throw on overflow, and \<open>boost::rational\<close> throws on a
  zero denominator.  A throwing computation is a value of the sum type \<open>'a result\<close>; the
  combinators \<open>require\<close> (an assertion followed by the rest of the body) and
  \<open>bind_res\<close> (a sub-computation followed by the rest of the body) keep the order in
  which the source performs its checks.  The theory also holds the lemmas on results, maps and
  lists that the component theories share.
\<close>

subsection \<open>Failures as values\<close>

datatype exn =
    Assert_Exception string   \<comment> \<open>a failed \<open>FC_ASSERT\<close> / \<open>KHC_WASSERT\<close> / \<open>KHC_EASSERT\<close>\<close>
  | Not_Found                 \<comment> \<open>\<open>object_database::get\<close> on an id that is not in the index\<close>
  | Overflow                  \<comment> \<open>checked integer arithmetic left its range\<close>
  | Bad_Rational              \<comment> \<open>\<open>boost::rational\<close> with a zero denominator\<close>
  | Divide_By_Zero            \<comment> \<open>integer division by zero (undefined in C++)\<close>
  | Out_Of_Range              \<comment> \<open>access past the end of a vector (undefined in C++)\<close>
  | Invalid_Argument          \<comment> \<open>\<open>std::stoll\<close> without a leading number\<close>
  | Nontermination            \<comment> \<open>not an exception: a loop of the code that never ends\<close>
  | Other_Exception string

type_synonym 'a result = "exn + 'a"

definition require :: "bool \<Rightarrow> string \<Rightarrow> 'a result \<Rightarrow> 'a result" where
  "require c msg k = (if c then k else Inl (Assert_Exception msg))"

primrec bind_res :: "'a result \<Rightarrow> ('a \<Rightarrow> 'b result) \<Rightarrow> 'b result" where
  "bind_res (Inl e) f = Inl e"
| "bind_res (Inr x) f = f x"

definition fetch :: "('k \<rightharpoonup> 'v) \<Rightarrow> 'k \<Rightarrow> 'v result" where
  "fetch m k = (case m k of None \<Rightarrow> Inl Not_Found | Some v \<Rightarrow> Inr v)"

fun fold_res :: "('a \<Rightarrow> 's \<Rightarrow> 's result) \<Rightarrow> 'a list \<Rightarrow> 's \<Rightarrow> 's result" where
  "fold_res f [] s = Inr s"
| "fold_res f (x # xs) s = bind_res (f x s) (fold_res f xs)"

named_theorems result_simps \<open>inversion of successful computations\<close>

lemma require_True [simp]: "require True msg k = k"
  by (simp add: require_def)

lemma require_False [simp]: "require False msg k = Inl (Assert_Exception msg)"
  by (simp add: require_def)

lemma require_Inr [simp, result_simps]: "require c msg k = Inr x \<longleftrightarrow> c \<and> k = Inr x"
  by (simp add: require_def)

lemma Inr_require [simp]: "Inr x = require c msg k \<longleftrightarrow> c \<and> k = Inr x"
  by (auto simp add: require_def)

lemma bind_res_Inr [simp, result_simps]:
  "bind_res r f = Inr y \<longleftrightarrow> (\<exists>x. r = Inr x \<and> f x = Inr y)"
  by (cases r) auto

lemma fetch_Inr [simp, result_simps]: "fetch m k = Inr v \<longleftrightarrow> m k = Some v"
  by (auto simp: fetch_def split: option.splits)

lemma require_cong [fundef_cong]:
  assumes "c = c'" and "msg = msg'" and "c' \<Longrightarrow> k = k'"
  shows "require c msg k = require c' msg' k'"
  using assms by (auto simp: require_def)

lemma bind_res_cong [fundef_cong]:
  assumes "r = r'" and "\<And>x. r' = Inr x \<Longrightarrow> f x = f' x"
  shows "bind_res r f = bind_res r' f'"
  using assms by (cases r') auto

lemma bind_res_assoc: "bind_res (bind_res r f) g = bind_res r (\<lambda>x. bind_res (f x) g)"
  by (cases r) auto

lemma isl_bind_res: "isl (bind_res r f) \<longleftrightarrow> isl r \<or> (\<exists>x. r = Inr x \<and> isl (f x))"
  by (cases r) auto

lemma fold_res_append:
  "fold_res f (xs @ ys) s = bind_res (fold_res f xs s) (fold_res f ys)"
  by (induction xs arbitrary: s) (auto simp: bind_res_assoc intro!: bind_res_cong)

text \<open>A property that every successful step keeps holds after a successful loop.\<close>

lemma fold_res_invariant:
  assumes "fold_res f xs s = Inr t"
    and "P s"
    and "\<And>x s s'. x \<in> set xs \<Longrightarrow> P s \<Longrightarrow> f x s = Inr s' \<Longrightarrow> P s'"
  shows "P t"
  using assms by (induction xs arbitrary: s) auto

subsection \<open>Loops\<close>

text \<open>
  A loop of the code that need not end.  One round either throws, asks for another round with a new
  state (\<open>Inl\<close>) or leaves the loop with a value (\<open>Inr\<close>).  A loop that goes on for ever
  is the value \<open>None\<close> of \<open>loop_rounds\<close>, which \<open>run_loop\<close> turns into the failure
  \<open>Nontermination\<close>; that a loop ends is proved with \<open>run_loop_ends\<close>, from a measure.
\<close>

partial_function (option) loop_rounds :: "('s \<Rightarrow> ('s + 'r) result) \<Rightarrow> 's \<Rightarrow> 'r result option" where
  "loop_rounds step s =
     (case step s of
        Inl e \<Rightarrow> Some (Inl e)
      | Inr (Inl s') \<Rightarrow> loop_rounds step s'
      | Inr (Inr r) \<Rightarrow> Some (Inr r))"

declare loop_rounds.simps [code]

definition run_loop :: "('s \<Rightarrow> ('s + 'r) result) \<Rightarrow> 's \<Rightarrow> 'r result" where
  "run_loop step s = (case loop_rounds step s of None \<Rightarrow> Inl Nontermination | Some r \<Rightarrow> r)"

lemma run_loop_step [simp]:
  "step s = Inl e \<Longrightarrow> run_loop step s = Inl e"
  "step s = Inr (Inr r) \<Longrightarrow> run_loop step s = Inr r"
  by (simp_all add: run_loop_def loop_rounds.simps [of step s])

lemma run_loop_next: "step s = Inr (Inl s') \<Longrightarrow> run_loop step s = run_loop step s'"
  by (simp add: run_loop_def loop_rounds.simps [of step s])

text \<open>Whatever every round keeps holds when the loop is left.\<close>

lemma loop_rounds_invariant:
  assumes "loop_rounds step s = Some (Inr r)" and "P s"
    and "\<And>s s'. P s \<Longrightarrow> step s = Inr (Inl s') \<Longrightarrow> P s'"
    and "\<And>s r. P s \<Longrightarrow> step s = Inr (Inr r) \<Longrightarrow> Q r"
  shows "Q r"
proof -
  have "st = step \<longrightarrow> P s \<longrightarrow> (\<forall>r. q = Inr r \<longrightarrow> Q r)" if "loop_rounds st s = Some q" for st s q
    using that
  proof (rule loop_rounds.raw_induct [rotated], goal_cases)
    case (1 rounds st s q)
    show ?case
    proof (intro impI allI)
      fix r assume *: "st = step" "P s" "q = Inr r"
      consider s' where "step s = Inr (Inl s')" "rounds step s' = Some q" | "step s = Inr (Inr r)"
        using 1(2) * by (auto split: sum.splits)
      then show "Q r" using 1(1) assms(3) [OF *(2)] assms(4) [OF *(2)] * by cases blast+
    qed
  qed
  then show ?thesis using assms(1,2) by blast
qed

lemma run_loop_invariant:
  assumes "run_loop step s = Inr r" and "P s"
    and "\<And>s s'. P s \<Longrightarrow> step s = Inr (Inl s') \<Longrightarrow> P s'"
    and "\<And>s r. P s \<Longrightarrow> step s = Inr (Inr r) \<Longrightarrow> Q r"
  shows "Q r"
  using assms loop_rounds_invariant [of step s r P Q] by (auto simp: run_loop_def split: option.splits)

text \<open>Computations that end, with a value or an exception.\<close>

definition ends :: "'a result \<Rightarrow> bool" where
  "ends r \<longleftrightarrow> r \<noteq> Inl Nontermination"

lemma ends_Inr [simp]: "ends (Inr x)"
  and ends_Inl [simp]: "ends (Inl e) \<longleftrightarrow> e \<noteq> Nontermination"
  by (simp_all add: ends_def)

lemma ends_bind [simp]: "ends (bind_res r f) \<longleftrightarrow> ends r \<and> (\<forall>x. r = Inr x \<longrightarrow> ends (f x))"
  by (cases r) auto

lemma ends_require [simp]: "ends (require c msg k) \<longleftrightarrow> (c \<longrightarrow> ends k)"
  by (simp add: require_def)

lemma ends_fold_res: "(\<And>x s. x \<in> set xs \<Longrightarrow> ends (f x s)) \<Longrightarrow> ends (fold_res f xs s)"
  by (induction xs arbitrary: s) auto

text \<open>A loop whose rounds decrease a measure ends.\<close>

lemma run_loop_ends:
  fixes m :: "'s \<Rightarrow> nat"
  assumes "P s" and "\<And>s s'. P s \<Longrightarrow> step s = Inr (Inl s') \<Longrightarrow> P s' \<and> m s' < m s"
    and "\<And>s. P s \<Longrightarrow> ends (step s)"
  shows "ends (run_loop step s)"
  using assms(1)
proof (induction "m s" arbitrary: s rule: less_induct)
  case less
  consider e where "step s = Inl e" | s' where "step s = Inr (Inl s')" | r where "step s = Inr (Inr r)"
    by (metis sum.exhaust)
  then show ?case
  proof cases
    case (2 s')
    then show ?thesis using assms(2) [OF less(2) 2] less(1) by (simp add: run_loop_next)
  qed (use assms(3) [OF less(2)] in auto)
qed

subsection \<open>Fixed-width integers\<close>

type_synonym u8 = "8 word"
type_synonym u16 = "16 word"
type_synonym u32 = "32 word"
type_synonym u64 = "64 word"
type_synonym u128 = "128 word"

definition in_int64 :: "int \<Rightarrow> bool" where
  "in_int64 x \<longleftrightarrow> - (2 ^ 63) \<le> x \<and> x < 2 ^ 63"

lemma in_int64_0 [simp]: "in_int64 0"
  by (simp add: in_int64_def)

lemma in_int64_between:
  "in_int64 a \<Longrightarrow> in_int64 b \<Longrightarrow> a \<le> c \<Longrightarrow> c \<le> b \<Longrightarrow> in_int64 c"
  by (simp add: in_int64_def)

lemma int64_product_bounds:
  fixes a b :: int
  assumes "0 \<le> a" "0 \<le> b" "in_int64 a" "in_int64 b"
  shows "a * b < 2 ^ 126"
proof -
  have "a \<le> 2 ^ 63 - 1" "b \<le> 2 ^ 63 - 1"
    using assms by (simp_all add: in_int64_def)
  then have "a * b \<le> (2 ^ 63 - 1) * (2 ^ 63 - 1)"
    using assms by (intro mult_mono) auto
  then show ?thesis by simp
qed

lemma unat_less_uint: "uint w < int n \<Longrightarrow> unat w < n"
  by (simp add: unat_eq_nat_uint nat_less_iff del: nat_uint_eq)

lemma uint_word_of_int_u128 [simp]:
  "0 \<le> x \<Longrightarrow> x < 2 ^ 128 \<Longrightarrow> uint (word_of_int x :: u128) = x"
  by (simp add: uint_word_of_int)

lemma word_of_int_u128_less:
  assumes "0 \<le> x" "x < 2 ^ 128" "0 \<le> y" "y < 2 ^ 128"
  shows "(word_of_int x :: u128) < word_of_int y \<longleftrightarrow> x < y"
  using assms by (simp add: word_less_def uint_word_of_int_u128)

lemma word_of_int_u128_le:
  assumes "0 \<le> x" "x < 2 ^ 128" "0 \<le> y" "y < 2 ^ 128"
  shows "(word_of_int x :: u128) \<le> word_of_int y \<longleftrightarrow> x \<le> y"
  using assms by (simp add: word_le_def uint_word_of_int_u128)

lemma word_of_int_u128_eq:
  assumes "0 \<le> x" "x < 2 ^ 128" "0 \<le> y" "y < 2 ^ 128"
  shows "(word_of_int x :: u128) = word_of_int y \<longleftrightarrow> x = y"
  using assms uint_word_of_int_u128 by metis

lemma word_of_int_u128_div:
  assumes "0 \<le> x" "x < 2 ^ 128" "0 < y" "y < 2 ^ 128"
  shows "uint ((word_of_int x :: u128) div word_of_int y) = x div y"
  using assms by (simp add: uint_div uint_word_of_int_u128)

subsection \<open>Division\<close>

lemma floor_div_le:
  fixes x b :: int
  assumes "0 < b"
  shows "(x div b) * b \<le> x"
  using minus_mod_eq_div_mult [of x b] pos_mod_sign [OF assms, of x] by linarith

lemma le_div_iff:
  fixes a b c :: int
  assumes "0 < b"
  shows "c \<le> a div b \<longleftrightarrow> c * b \<le> a"
proof
  assume "c \<le> a div b"
  then have "c * b \<le> (a div b) * b" using assms by (simp add: mult_right_mono)
  also have "\<dots> \<le> a" by (rule floor_div_le [OF assms])
  finally show "c * b \<le> a" .
next
  assume "c * b \<le> a"
  then have "(c * b) div b \<le> a div b" using assms by (intro zdiv_mono1) auto
  then show "c \<le> a div b" using assms by simp
qed

lemma ceil_div_le_iff:
  fixes a b c :: int
  assumes "0 < b"
  shows "(a + b - 1) div b \<le> c \<longleftrightarrow> a \<le> c * b"
proof -
  have "(a + b - 1) div b \<le> c \<longleftrightarrow> \<not> (c + 1 \<le> (a + b - 1) div b)" by linarith
  also have "\<dots> \<longleftrightarrow> \<not> ((c + 1) * b \<le> a + b - 1)" by (simp only: le_div_iff [OF assms])
  also have "\<dots> \<longleftrightarrow> a \<le> c * b" by (auto simp: algebra_simps)
  finally show ?thesis .
qed

subsection \<open>Lists\<close>

lemma sum_list_nonneg_int:
  fixes xs :: "int list"
  assumes "\<And>x. x \<in> set xs \<Longrightarrow> 0 \<le> x"
  shows "0 \<le> sum_list xs"
  using assms by (induction xs) auto

lemma elem_le_sum_list_int:
  fixes xs :: "int list"
  assumes "\<And>x. x \<in> set xs \<Longrightarrow> 0 \<le> x" and "y \<in> set xs"
  shows "y \<le> sum_list xs"
  using assms
proof (induction xs)
  case (Cons x xs)
  then have "0 \<le> sum_list xs" and "0 \<le> x" by (auto intro: sum_list_nonneg_int)
  moreover from Cons have "y = x \<or> y \<le> sum_list xs" by auto
  ultimately show ?case by auto
qed simp

lemma sum_list_map_update:
  fixes f :: "'a \<Rightarrow> int"
  assumes "i < length xs"
  shows "sum_list (map f (xs[i := x])) = sum_list (map f xs) - f (xs ! i) + f x"
  using assms by (induction xs arbitrary: i) (auto split: nat.split)

lemma map_update_same: "(i < length xs \<Longrightarrow> f y = f (xs ! i)) \<Longrightarrow> map f (xs[i := y]) = map f xs"
  by (cases "i < length xs") (simp_all add: map_update list_update_same_conv list_update_beyond)

lemma sum_list_filter_index:
  fixes f :: "'a \<Rightarrow> int"
  shows "(\<Sum>i\<leftarrow>filter (\<lambda>i. P (xs ! i)) [0..<length xs]. f (xs ! i)) = (\<Sum>x\<leftarrow>xs. if P x then f x else 0)"
proof (induction xs rule: rev_induct)
  case (snoc x xs)
  have "filter (\<lambda>i. P ((xs @ [x]) ! i)) [0..<length xs] = filter (\<lambda>i. P (xs ! i)) [0..<length xs]"
    by (rule filter_cong) (auto simp: nth_append)
  moreover have "map (\<lambda>i. f ((xs @ [x]) ! i)) (filter (\<lambda>i. P (xs ! i)) [0..<length xs])
      = map (\<lambda>i. f (xs ! i)) (filter (\<lambda>i. P (xs ! i)) [0..<length xs])"
    by (rule map_cong) (auto simp: nth_append)
  ultimately show ?case using snoc by (simp del: map_eq_conv)
qed simp

lemma sum_list_butlast_last: "xs \<noteq> [] \<Longrightarrow> sum_list (butlast xs) + last xs = sum_list xs" for xs :: "int list"
  by (metis append_butlast_last_id sum_list.append sum_list.Cons sum_list.Nil add.right_neutral)

end
