(* ===== verification/Undo_DB.thy ===== *)
theory Undo_DB
  imports KHC_Prelude "HOL-Library.AList"
begin

text \<open>
  The object store and its undo history: \<open>libraries/db/undo_database.cpp\<close>,
  \<open>undo_database.hpp\<close>, and the parts of \<open>generic_index.hpp\<close>, \<open>index.hpp\<close> and
  \<open>object_database.cpp\<close> through which objects are created, modified and removed.

  An object id is an index id (space and type) with an instance number.  The containers of an
  \<open>undo_state\<close> are hash tables; they are association lists here, in the order in which the
  loops visit them, and no result below depends on that order.  \<open>_stack\<close> is a list whose
  head is \<open>_stack.back()\<close>.  The index of a registered type has a next id; an unregistered
  one has none.  Uniqueness is that of the object id (the first index of every container).
\<close>

subsection \<open>State\<close>

datatype index_id = Index_id (id_space: nat) (id_type: nat)
datatype object_id = Object_id (id_index: index_id) (id_number: nat)

record 'v undo_state =
  old_values :: "(object_id \<times> 'v) list"
  old_index_next_ids :: "(index_id \<times> nat) list"
  new_ids :: "object_id list"
  removed :: "(object_id \<times> 'v) list"

definition empty_undo_state :: "'v undo_state" where
  "empty_undo_state = \<lparr>old_values = [], old_index_next_ids = [], new_ids = [], removed = []\<rparr>"

record 'v store =
  objects :: "object_id \<rightharpoonup> 'v"
  next_id :: "index_id \<rightharpoonup> nat"

record 'v undo_db =
  the_store :: "'v store"
  stack :: "'v undo_state list"
  active_sessions :: nat
  disabled :: bool
  max_size :: nat

subsection \<open>Change hooks: \<open>on_create\<close>, \<open>on_modify\<close>, \<open>on_remove\<close>\<close>

definition ensure_state :: "'v undo_state list \<Rightarrow> 'v undo_state list" where
  "ensure_state st = (if st = [] then [empty_undo_state] else st)"

definition upd_back :: "('v undo_state \<Rightarrow> 'v undo_state) \<Rightarrow> 'v undo_db \<Rightarrow> 'v undo_db" where
  "upd_back f d = (case ensure_state (stack d) of
     [] \<Rightarrow> d | s # ss \<Rightarrow> d\<lparr>stack := f s # ss\<rparr>)"

definition record_create :: "object_id \<Rightarrow> 'v undo_state \<Rightarrow> 'v undo_state" where
  "record_create i s =
     s\<lparr>old_index_next_ids :=
         (if map_of (old_index_next_ids s) (id_index i) = None
          then (id_index i, id_number i) # old_index_next_ids s else old_index_next_ids s),
       new_ids := List.insert i (new_ids s)\<rparr>"

definition record_modify :: "object_id \<Rightarrow> 'v \<Rightarrow> 'v undo_state \<Rightarrow> 'v undo_state" where
  "record_modify i v s =
     (if i \<in> set (new_ids s) then s
      else if map_of (old_values s) i \<noteq> None then s
      else s\<lparr>old_values := (i, v) # old_values s\<rparr>)"

definition record_remove :: "object_id \<Rightarrow> 'v \<Rightarrow> 'v undo_state \<Rightarrow> 'v undo_state" where
  "record_remove i v s =
     (if i \<in> set (new_ids s) then s\<lparr>new_ids := remove1 i (new_ids s)\<rparr>
      else case map_of (old_values s) i of
        Some w \<Rightarrow> s\<lparr>removed := AList.update i w (removed s), old_values := AList.delete i (old_values s)\<rparr>
      | None \<Rightarrow>
          if map_of (removed s) i \<noteq> None then s
          else s\<lparr>removed := (i, v) # removed s\<rparr>)"

definition on_create :: "object_id \<Rightarrow> 'v undo_db \<Rightarrow> 'v undo_db" where
  "on_create i d = (if disabled d then d else upd_back (record_create i) d)"

definition on_modify :: "object_id \<Rightarrow> 'v \<Rightarrow> 'v undo_db \<Rightarrow> 'v undo_db" where
  "on_modify i v d = (if disabled d then d else upd_back (record_modify i v) d)"

definition on_remove :: "object_id \<Rightarrow> 'v \<Rightarrow> 'v undo_db \<Rightarrow> 'v undo_db" where
  "on_remove i v d = (if disabled d then d else upd_back (record_remove i v) d)"

subsection \<open>Changes to the store\<close>

text \<open>
  \<open>create\<close> takes the next id of the index, inserts (the insertion fails when the id is
  taken), uses up the id and calls \<open>on_create\<close>; \<open>modify\<close> calls \<open>on_modify\<close> with the old
  value before it writes; \<open>remove\<close> calls \<open>on_remove\<close> before it erases.
\<close>

definition get_object :: "'v store \<Rightarrow> object_id \<Rightarrow> 'v result" where
  "get_object s i =
     bind_res (fetch (next_id s) (id_index i)) (\<lambda>_. fetch (objects s) i)"

definition store_create :: "index_id \<Rightarrow> 'v \<Rightarrow> 'v store \<Rightarrow> (object_id \<times> 'v store) result" where
  "store_create ix v s =
     bind_res (fetch (next_id s) ix) (\<lambda>n.
       require (objects s (Object_id ix n) = None) ''Could not create object! Most likely a uniqueness constraint is violated.''
         (Inr (Object_id ix n, s\<lparr>objects := (objects s)(Object_id ix n \<mapsto> v), next_id := (next_id s)(ix \<mapsto> n + 1)\<rparr>)))"

definition store_modify :: "object_id \<Rightarrow> ('v \<Rightarrow> 'v) \<Rightarrow> 'v store \<Rightarrow> 'v store result" where
  "store_modify i f s = bind_res (get_object s i) (\<lambda>v. Inr (s\<lparr>objects := (objects s)(i \<mapsto> f v)\<rparr>))"

definition store_remove :: "object_id \<Rightarrow> 'v store \<Rightarrow> 'v store result" where
  "store_remove i s = bind_res (get_object s i) (\<lambda>_. Inr (s\<lparr>objects := (objects s)(i := None)\<rparr>))"

definition store_insert :: "object_id \<Rightarrow> 'v \<Rightarrow> 'v store \<Rightarrow> 'v store result" where
  "store_insert i v s =
     bind_res (fetch (next_id s) (id_index i)) (\<lambda>_.
       require (objects s i = None) ''Could not insert object, most likely a uniqueness constraint was violated''
         (Inr (s\<lparr>objects := (objects s)(i \<mapsto> v)\<rparr>)))"

definition store_set_next_id :: "index_id \<Rightarrow> nat \<Rightarrow> 'v store \<Rightarrow> 'v store result" where
  "store_set_next_id ix n s =
     bind_res (fetch (next_id s) ix) (\<lambda>_. Inr (s\<lparr>next_id := (next_id s)(ix \<mapsto> n)\<rparr>))"

definition db_create :: "index_id \<Rightarrow> 'v \<Rightarrow> 'v undo_db \<Rightarrow> 'v undo_db result" where
  "db_create ix v d =
     bind_res (store_create ix v (the_store d)) (\<lambda>(i, s). Inr (on_create i (d\<lparr>the_store := s\<rparr>)))"

definition db_modify :: "object_id \<Rightarrow> ('v \<Rightarrow> 'v) \<Rightarrow> 'v undo_db \<Rightarrow> 'v undo_db result" where
  "db_modify i f d =
     bind_res (get_object (the_store d) i) (\<lambda>v.
     bind_res (store_modify i f (the_store d)) (\<lambda>s. Inr ((on_modify i v d)\<lparr>the_store := s\<rparr>)))"

definition db_remove :: "object_id \<Rightarrow> 'v undo_db \<Rightarrow> 'v undo_db result" where
  "db_remove i d =
     bind_res (get_object (the_store d) i) (\<lambda>v.
     bind_res (store_remove i (the_store d)) (\<lambda>s. Inr ((on_remove i v d)\<lparr>the_store := s\<rparr>)))"

subsection \<open>Sessions\<close>

text \<open>
  \<open>start_undo_session\<close> returns a session object; its destructor undoes unless the session
  was committed, merged or undone.  While recording is disabled and not forced, it returns a
  session without pushing a state.
\<close>

record session =
  apply_undo :: bool
  disable_on_exit :: bool

fun pop_front_while :: "nat \<Rightarrow> 'v undo_state list \<Rightarrow> 'v undo_state list" where
  "pop_front_while m st = (if length st > m then pop_front_while m (butlast st) else st)"

declare pop_front_while.simps [simp del]

definition start_undo_session :: "bool \<Rightarrow> 'v undo_db \<Rightarrow> session \<times> 'v undo_db" where
  "start_undo_session force_enable d =
     (if disabled d \<and> \<not> force_enable then (\<lparr>apply_undo = True, disable_on_exit = False\<rparr>, d)
      else
        (\<lparr>apply_undo = True, disable_on_exit = disabled d \<and> force_enable\<rparr>,
         d\<lparr>disabled := (if force_enable then False else disabled d),
           stack := empty_undo_state # pop_front_while (max_size d) (stack d),
           active_sessions := active_sessions d + 1\<rparr>))"

text \<open>The rollback loop that \<open>undo\<close> and \<open>pop_commit\<close> share.\<close>

definition rollback :: "'v undo_state \<Rightarrow> 'v store \<Rightarrow> 'v store result" where
  "rollback st s0 =
     bind_res (fold_res (\<lambda>(i, v) s. store_modify i (\<lambda>_. v) s) (old_values st) s0) (\<lambda>s1.
     bind_res (fold_res store_remove (new_ids st) s1) (\<lambda>s2.
     bind_res (fold_res (\<lambda>(ix, n) s. store_set_next_id ix n s) (old_index_next_ids st) s2) (\<lambda>s3.
       fold_res (\<lambda>(i, v) s. store_insert i v s) (removed st) s3)))"

definition undo :: "'v undo_db \<Rightarrow> 'v undo_db result" where
  "undo d =
     require (\<not> disabled d) ''!_disabled''
    (require (active_sessions d > 0) ''_active_sessions > 0''
    (case stack d of
       [] \<Rightarrow> Inl Out_Of_Range
     | st # rest \<Rightarrow>
         bind_res (rollback st (the_store d)) (\<lambda>s.
           Inr (d\<lparr>the_store := s, stack := rest, disabled := False,
                  active_sessions := active_sessions d - 1\<rparr>))))"

definition merge_states :: "'v undo_state \<Rightarrow> 'v undo_state \<Rightarrow> 'v undo_state" where
  "merge_states prev st =
     (let p1 = fold (\<lambda>(i, v) p.
            if i \<in> set (new_ids p) then p
            else if map_of (old_values p) i \<noteq> None then p
            else p\<lparr>old_values := (i, v) # old_values p\<rparr>) (old_values st) prev;
          p2 = fold (\<lambda>i p. p\<lparr>new_ids := List.insert i (new_ids p)\<rparr>) (new_ids st) p1;
          p3 = fold (\<lambda>(ix, n) p.
            if map_of (old_index_next_ids p) ix = None
            then p\<lparr>old_index_next_ids := (ix, n) # old_index_next_ids p\<rparr> else p)
            (old_index_next_ids st) p2
      in fold (\<lambda>(i, v) p.
            if i \<in> set (new_ids p) then p\<lparr>new_ids := remove1 i (new_ids p)\<rparr>
            else case map_of (old_values p) i of
              Some w \<Rightarrow> p\<lparr>removed := AList.update i w (removed p),
                          old_values := AList.delete i (old_values p)\<rparr>
            | None \<Rightarrow> p\<lparr>removed := AList.update i v (removed p)\<rparr>) (removed st) p3)"

definition merge :: "'v undo_db \<Rightarrow> 'v undo_db result" where
  "merge d =
     require (active_sessions d > 0) ''_active_sessions > 0''
    (if active_sessions d = 1 \<and> length (stack d) = 1 then
       Inr (d\<lparr>stack := tl (stack d), active_sessions := active_sessions d - 1\<rparr>)
     else
       require (length (stack d) \<ge> 2) ''_stack.size() >=2''
       (case stack d of
          st # prev # rest \<Rightarrow>
            Inr (d\<lparr>stack := merge_states prev st # rest, active_sessions := active_sessions d - 1\<rparr>)
        | _ \<Rightarrow> Inl Out_Of_Range))"

definition commit :: "'v undo_db \<Rightarrow> 'v undo_db result" where
  "commit d =
     require (active_sessions d > 0) ''_active_sessions > 0''
       (Inr (d\<lparr>active_sessions := active_sessions d - 1\<rparr>))"

definition pop_commit :: "'v undo_db \<Rightarrow> 'v undo_db result" where
  "pop_commit d =
     require (active_sessions d = 0) ''_active_sessions == 0''
    (require (stack d \<noteq> []) ''!_stack.empty()''
    (case stack d of
       [] \<Rightarrow> Inl Out_Of_Range
     | st # rest \<Rightarrow>
         bind_res (rollback st (the_store d)) (\<lambda>s.
           Inr (d\<lparr>the_store := s, stack := rest, disabled := False\<rparr>))))"

text \<open>The member functions and the destructor of a session object.\<close>

definition session_commit :: "session \<Rightarrow> 'v undo_db \<Rightarrow> (session \<times> 'v undo_db) result" where
  "session_commit se d = bind_res (commit d) (\<lambda>d'. Inr (se\<lparr>apply_undo := False\<rparr>, d'))"

definition session_undo :: "session \<Rightarrow> 'v undo_db \<Rightarrow> (session \<times> 'v undo_db) result" where
  "session_undo se d =
     bind_res (if apply_undo se then undo d else Inr d) (\<lambda>d'. Inr (se\<lparr>apply_undo := False\<rparr>, d'))"

definition session_merge :: "session \<Rightarrow> 'v undo_db \<Rightarrow> (session \<times> 'v undo_db) result" where
  "session_merge se d =
     bind_res (if apply_undo se then merge d else Inr d) (\<lambda>d'. Inr (se\<lparr>apply_undo := False\<rparr>, d'))"

definition session_destroy :: "session \<Rightarrow> 'v undo_db \<Rightarrow> 'v undo_db result" where
  "session_destroy se d =
     bind_res (if apply_undo se then undo d else Inr d) (\<lambda>d'.
       Inr (if disable_on_exit se then d'\<lparr>disabled := True\<rparr> else d'))"

subsection \<open>What an undo state records\<close>

text \<open>
  \<open>tracks st b c\<close>: the undo state \<open>st\<close> describes how the store \<open>b\<close>, in force when
  the state was pushed, became the current store \<open>c\<close>.  An id is new, updated, deleted or
  untouched, as the comment in \<open>undo_database::merge\<close> classifies them.
\<close>

definition wf_store :: "'v store \<Rightarrow> bool" where
  "wf_store s \<longleftrightarrow> (\<forall>i. objects s i \<noteq> None \<longrightarrow> (\<exists>m. next_id s (id_index i) = Some m \<and> id_number i < m))"

definition obj_tracked :: "bool \<Rightarrow> 'v option \<Rightarrow> 'v option \<Rightarrow> 'v option \<Rightarrow> 'v option \<Rightarrow> bool" where
  "obj_tracked is_new upd del b c \<longleftrightarrow>
     (if is_new then upd = None \<and> del = None \<and> b = None \<and> c \<noteq> None
      else case upd of
        Some v \<Rightarrow> del = None \<and> b = Some v \<and> c \<noteq> None
      | None \<Rightarrow> (case del of Some v \<Rightarrow> b = Some v \<and> c = None | None \<Rightarrow> b = c))"

definition distinct_records :: "'v undo_state \<Rightarrow> bool" where
  "distinct_records st \<longleftrightarrow>
     distinct (map fst (old_values st)) \<and> distinct (new_ids st)
     \<and> distinct (map fst (removed st)) \<and> distinct (map fst (old_index_next_ids st))"

definition tracks_objects :: "'v undo_state \<Rightarrow> (object_id \<rightharpoonup> 'v) \<Rightarrow> (object_id \<rightharpoonup> 'v) \<Rightarrow> bool" where
  "tracks_objects st b c \<longleftrightarrow> (\<forall>i.
     obj_tracked (i \<in> set (new_ids st)) (map_of (old_values st) i) (map_of (removed st) i) (b i) (c i))"

definition tracks_next_ids :: "'v undo_state \<Rightarrow> (index_id \<rightharpoonup> nat) \<Rightarrow> (index_id \<rightharpoonup> nat) \<Rightarrow> bool" where
  "tracks_next_ids st b c \<longleftrightarrow> (\<forall>ix.
     case map_of (old_index_next_ids st) ix of
       Some n \<Rightarrow> b ix = Some n \<and> (\<exists>m. c ix = Some m \<and> n \<le> m)
     | None \<Rightarrow> b ix = c ix)"

definition fresh_ids :: "'v undo_state \<Rightarrow> (index_id \<rightharpoonup> nat) \<Rightarrow> bool" where
  "fresh_ids st b \<longleftrightarrow> (\<forall>i\<in>set (new_ids st). \<exists>n. b (id_index i) = Some n \<and> n \<le> id_number i)"

definition tracks :: "'v undo_state \<Rightarrow> 'v store \<Rightarrow> 'v store \<Rightarrow> bool" where
  "tracks st b c \<longleftrightarrow> wf_store b \<and> wf_store c \<and> distinct_records st
     \<and> tracks_objects st (objects b) (objects c) \<and> tracks_next_ids st (next_id b) (next_id c)
     \<and> fresh_ids st (next_id b)"

lemma wf_storeD: "wf_store s \<Longrightarrow> objects s (Object_id ix n) = Some v \<Longrightarrow> \<exists>m. next_id s ix = Some m \<and> n < m"
  by (metis object_id.sel option.discI wf_store_def)

lemma tracks_next_idsD:
  assumes "tracks_next_ids st b c"
  shows "case map_of (old_index_next_ids st) ix of
       Some n \<Rightarrow> b ix = Some n \<and> (\<exists>m. c ix = Some m \<and> n \<le> m)
     | None \<Rightarrow> b ix = c ix"
  using assms unfolding tracks_next_ids_def by blast

lemma tracks_next_mono:
  "tracks_next_ids st b c \<Longrightarrow> b ix = Some n \<Longrightarrow> \<exists>m. c ix = Some m \<and> n \<le> m"
  by (drule tracks_next_idsD [of _ _ _ ix]) (auto split: option.splits)

lemma tracks_next_dom: "tracks_next_ids st b c \<Longrightarrow> b ix = None \<longleftrightarrow> c ix = None"
  by (drule tracks_next_idsD [of _ _ _ ix]) (auto split: option.splits)

lemma tracks_objectsD:
  "tracks_objects st b c \<Longrightarrow>
    obj_tracked (i \<in> set (new_ids st)) (map_of (old_values st) i) (map_of (removed st) i) (b i) (c i)"
  by (simp add: tracks_objects_def)

lemma obj_tracked_new: "obj_tracked True u r b c \<longleftrightarrow> u = None \<and> r = None \<and> b = None \<and> c \<noteq> None"
  by (simp add: obj_tracked_def)

lemma obj_tracked_upd: "obj_tracked n (Some v) r b c \<longleftrightarrow> \<not> n \<and> r = None \<and> b = Some v \<and> c \<noteq> None"
  by (simp add: obj_tracked_def)

lemma obj_tracked_del: "obj_tracked n u (Some v) b c \<longleftrightarrow> \<not> n \<and> u = None \<and> b = Some v \<and> c = None"
  by (auto simp: obj_tracked_def split: option.splits)

lemma obj_tracked_nop: "obj_tracked False None None b c \<longleftrightarrow> b = c"
  by (simp add: obj_tracked_def)

lemmas obj_tracked_simps = obj_tracked_new obj_tracked_upd obj_tracked_del obj_tracked_nop

lemma obj_tracked_cases:
  assumes "obj_tracked n u r b c"
  obtains (new) x where "n" "u = None" "r = None" "b = None" "c = Some x"
    | (upd) v x where "\<not> n" "u = Some v" "r = None" "b = Some v" "c = Some x"
    | (del) v where "\<not> n" "u = None" "r = Some v" "b = Some v" "c = None"
    | (nop) "\<not> n" "u = None" "r = None" "b = c"
  using assms by (cases n; cases u; cases r) (auto simp: obj_tracked_def)

lemma map_upd_add_map_of:
  "i \<notin> fst ` set xs \<Longrightarrow> m(i \<mapsto> v) ++ map_of xs = m ++ map_of ((i, v) # xs)"
  by (rule ext) (auto simp: map_add_def map_of_eq_None_iff [symmetric] split: option.splits)

subsection \<open>The loops of the rollback\<close>

lemma fold_store_modify:
  assumes "\<forall>i\<in>fst ` set xs. objects s i \<noteq> None \<and> next_id s (id_index i) \<noteq> None" "distinct (map fst xs)"
  shows "fold_res (\<lambda>(i, v) s. store_modify i (\<lambda>_. v) s) xs s = Inr (s\<lparr>objects := objects s ++ map_of xs\<rparr>)"
  using assms
proof (induction xs arbitrary: s)
  case (Cons x xs)
  obtain i v where x: "x = (i, v)" by fastforce
  let ?s = "s\<lparr>objects := (objects s)(i \<mapsto> v)\<rparr>"
  have step: "store_modify i (\<lambda>_. v) s = Inr ?s"
    using Cons.prems x by (auto simp: store_modify_def get_object_def fetch_def)
  have "fold_res (\<lambda>(i, v) s. store_modify i (\<lambda>_. v) s) xs ?s = Inr (?s\<lparr>objects := objects ?s ++ map_of xs\<rparr>)"
    by (rule Cons.IH) (use Cons.prems x in auto)
  then show ?case using step x Cons.prems by (simp add: map_upd_add_map_of del: map_of.simps)
qed simp

lemma fold_store_remove:
  assumes "\<forall>i\<in>set xs. objects s i \<noteq> None \<and> next_id s (id_index i) \<noteq> None" "distinct xs"
  shows "fold_res store_remove xs s = Inr (s\<lparr>objects := objects s |` (- set xs)\<rparr>)"
  using assms
proof (induction xs arbitrary: s)
  case (Cons i xs)
  let ?s = "s\<lparr>objects := (objects s)(i := None)\<rparr>"
  have step: "store_remove i s = Inr ?s"
    using Cons.prems by (auto simp: store_remove_def get_object_def fetch_def)
  have "fold_res store_remove xs ?s = Inr (?s\<lparr>objects := objects ?s |` (- set xs)\<rparr>)"
    by (rule Cons.IH) (use Cons.prems in auto)
  moreover have "((objects s)(i := None)) |` (- set xs) = objects s |` (- set (i # xs))"
    by (auto simp: restrict_map_def)
  ultimately show ?case using step by simp
qed (simp add: restrict_map_def)

lemma fold_store_set_next_id:
  assumes "\<forall>ix\<in>fst ` set xs. next_id s ix \<noteq> None" "distinct (map fst xs)"
  shows "fold_res (\<lambda>(ix, n) s. store_set_next_id ix n s) xs s = Inr (s\<lparr>next_id := next_id s ++ map_of xs\<rparr>)"
  using assms
proof (induction xs arbitrary: s)
  case (Cons x xs)
  obtain i v where x: "x = (i, v)" by fastforce
  let ?s = "s\<lparr>next_id := (next_id s)(i \<mapsto> v)\<rparr>"
  have step: "store_set_next_id i v s = Inr ?s"
    using Cons.prems x by (auto simp: store_set_next_id_def fetch_def)
  have "fold_res (\<lambda>(ix, n) s. store_set_next_id ix n s) xs ?s = Inr (?s\<lparr>next_id := next_id ?s ++ map_of xs\<rparr>)"
    by (rule Cons.IH) (use Cons.prems x in auto)
  then show ?case using step x Cons.prems by (simp add: map_upd_add_map_of del: map_of.simps)
qed simp

lemma fold_store_insert:
  assumes "\<forall>i\<in>fst ` set xs. objects s i = None \<and> next_id s (id_index i) \<noteq> None" "distinct (map fst xs)"
  shows "fold_res (\<lambda>(i, v) s. store_insert i v s) xs s = Inr (s\<lparr>objects := objects s ++ map_of xs\<rparr>)"
  using assms
proof (induction xs arbitrary: s)
  case (Cons x xs)
  obtain i v where x: "x = (i, v)" by fastforce
  let ?s = "s\<lparr>objects := (objects s)(i \<mapsto> v)\<rparr>"
  have step: "store_insert i v s = Inr ?s"
    using Cons.prems x by (auto simp: store_insert_def fetch_def)
  have "fold_res (\<lambda>(i, v) s. store_insert i v s) xs ?s = Inr (?s\<lparr>objects := objects ?s ++ map_of xs\<rparr>)"
    by (rule Cons.IH) (use Cons.prems x in auto)
  then show ?case using step x Cons.prems by (simp add: map_upd_add_map_of del: map_of.simps)
qed simp

text \<open>A rollback of a state that tracks the change from \<open>b\<close> to \<open>c\<close> turns \<open>c\<close> back into \<open>b\<close>.\<close>

lemma mem_map_of: "i \<in> fst ` set xs \<longleftrightarrow> (\<exists>v. map_of xs i = Some v)"
  by (metis map_of_eq_None_iff not_Some_eq)

lemma rollback_objects:
  assumes ob: "tracks_objects st b c"
  shows "((c ++ map_of (old_values st)) |` (- set (new_ids st))) ++ map_of (removed st) = b"
proof
  fix i
  show "(((c ++ map_of (old_values st)) |` (- set (new_ids st))) ++ map_of (removed st)) i = b i"
    using tracks_objectsD [OF ob, of i] by (cases rule: obj_tracked_cases) (auto simp: map_add_def restrict_map_def)
qed

lemma rollback_next_ids:
  assumes "tracks_next_ids st b c"
  shows "c ++ map_of (old_index_next_ids st) = b"
proof
  fix ix
  show "(c ++ map_of (old_index_next_ids st)) ix = b ix"
    using tracks_next_idsD [OF assms, of ix] by (auto simp: map_add_def split: option.splits)
qed

lemma rollback_tracks:
  assumes t: "tracks st b c"
  shows "rollback st c = Inr b"
proof -
  have wb: "wf_store b" and wc: "wf_store c" and D: "distinct_records st"
    and ob: "tracks_objects st (objects b) (objects c)" and nx: "tracks_next_ids st (next_id b) (next_id c)"
    using t by (auto simp: tracks_def)
  let ?o1 = "objects c ++ map_of (old_values st)"
  let ?o2 = "?o1 |` (- set (new_ids st))"
  let ?s1 = "c\<lparr>objects := ?o1\<rparr>" and ?s2 = "c\<lparr>objects := ?o2\<rparr>"
  let ?s3 = "?s2\<lparr>next_id := next_id c ++ map_of (old_index_next_ids st)\<rparr>"
  note C = tracks_objectsD [OF ob]
  have reg: "next_id c (id_index i) \<noteq> None" if "objects c i \<noteq> None \<or> objects b i \<noteq> None" for i
    using wb wc that tracks_next_dom [OF nx, of "id_index i"] unfolding wf_store_def
    by (metis option.distinct(1))
  have "\<forall>i\<in>fst ` set (old_values st). objects c i \<noteq> None \<and> next_id c (id_index i) \<noteq> None"
    using C reg unfolding Ball_def mem_map_of by (metis obj_tracked_upd)
  with D have e1: "fold_res (\<lambda>(i, v) s. store_modify i (\<lambda>_. v) s) (old_values st) c = Inr ?s1"
    by (intro fold_store_modify) (simp_all add: distinct_records_def)
  have "\<forall>i\<in>set (new_ids st). objects ?s1 i \<noteq> None \<and> next_id ?s1 (id_index i) \<noteq> None"
  proof
    fix i assume "i \<in> set (new_ids st)"
    with C [of i] have "objects c i \<noteq> None" by (simp add: obj_tracked_new)
    with reg [of i] show "objects ?s1 i \<noteq> None \<and> next_id ?s1 (id_index i) \<noteq> None"
      by (auto simp: map_add_def split: option.splits)
  qed
  from fold_store_remove [OF this] D have e2: "fold_res store_remove (new_ids st) ?s1 = Inr ?s2"
    by (simp add: distinct_records_def)
  have "\<forall>ix\<in>fst ` set (old_index_next_ids st). next_id ?s2 ix \<noteq> None"
  proof
    fix ix assume "ix \<in> fst ` set (old_index_next_ids st)"
    then obtain n where "map_of (old_index_next_ids st) ix = Some n" by (auto simp only: mem_map_of)
    then show "next_id ?s2 ix \<noteq> None" using tracks_next_idsD [OF nx, of ix] by auto
  qed
  from fold_store_set_next_id [OF this] D
  have e3: "fold_res (\<lambda>(ix, n) s. store_set_next_id ix n s) (old_index_next_ids st) ?s2 = Inr ?s3"
    by (simp add: distinct_records_def)
  have "\<forall>i\<in>fst ` set (removed st). objects ?s3 i = None \<and> next_id ?s3 (id_index i) \<noteq> None"
  proof
    fix i assume "i \<in> fst ` set (removed st)"
    then obtain v where "map_of (removed st) i = Some v" by (auto simp only: mem_map_of)
    with C [of i] have "objects c i = None" "objects b i = Some v" "map_of (old_values st) i = None"
      by (simp_all add: obj_tracked_del)
    then show "objects ?s3 i = None \<and> next_id ?s3 (id_index i) \<noteq> None"
      using reg [of i] by (simp add: map_add_def restrict_map_def split: option.splits)
  qed
  from fold_store_insert [OF this] D
  have e4: "fold_res (\<lambda>(i, v) s. store_insert i v s) (removed st) ?s3 = Inr b"
    using rollback_objects [OF ob] rollback_next_ids [OF nx] by (simp add: distinct_records_def)
  show ?thesis by (simp add: rollback_def e1 e2 e3 e4)
qed

subsection \<open>Every change is recorded\<close>

lemma wf_store_less:
  "wf_store s \<Longrightarrow> objects s i \<noteq> None \<Longrightarrow> next_id s (id_index i) = Some n \<Longrightarrow> id_number i < n"
  unfolding wf_store_def by (metis option.inject)

lemma tracks_empty: "wf_store s \<Longrightarrow> tracks empty_undo_state s s"
  by (simp add: tracks_def empty_undo_state_def distinct_records_def tracks_objects_def obj_tracked_nop
      tracks_next_ids_def fresh_ids_def)

lemma store_create_wf: "wf_store s \<Longrightarrow> store_create ix v s = Inr (i, s') \<Longrightarrow> wf_store s'"
  unfolding wf_store_def store_create_def by (fastforce split: if_splits)

lemma store_modify_wf: "wf_store s \<Longrightarrow> store_modify i f s = Inr s' \<Longrightarrow> wf_store s'"
  unfolding wf_store_def store_modify_def get_object_def by (fastforce split: if_splits)

lemma store_remove_wf: "wf_store s \<Longrightarrow> store_remove i s = Inr s' \<Longrightarrow> wf_store s'"
  unfolding wf_store_def store_remove_def get_object_def by (auto split: if_splits)

lemma tracks_create:
  assumes t: "tracks st b c" and cr: "store_create ix v c = Inr (i, c')"
  shows "tracks (record_create i st) b c'"
proof -
  from cr obtain n where n: "next_id c ix = Some n" "objects c i = None" "i = Object_id ix n"
    and c': "c' = c\<lparr>objects := (objects c)(i \<mapsto> v), next_id := (next_id c)(ix \<mapsto> n + 1)\<rparr>"
    by (auto simp: store_create_def)
  have D: "distinct_records st" and ob: "tracks_objects st (objects b) (objects c)"
    and nx: "tracks_next_ids st (next_id b) (next_id c)" and fr: "fresh_ids st (next_id b)"
    and wb: "wf_store b" and wc: "wf_store c"
    using t by (auto simp: tracks_def)
  obtain k where k: "next_id b ix = Some k" "k \<le> n"
    using tracks_next_dom [OF nx, of ix] tracks_next_mono [OF nx, of ix] n(1) by fastforce
  have b: "objects b i = None" using wf_store_less [OF wb, of i k] k n(3) by fastforce
  have none: "i \<notin> set (new_ids st)" "map_of (old_values st) i = None" "map_of (removed st) i = None"
    using tracks_objectsD [OF ob, of i] b n(2) by (auto elim: obj_tracked_cases)
  have "distinct_records (record_create i st)"
    using D by (auto simp: distinct_records_def record_create_def map_of_eq_None_iff)
  moreover have "tracks_objects (record_create i st) (objects b) (objects c')"
    unfolding tracks_objects_def
  proof
    fix j
    show "obj_tracked (j \<in> set (new_ids (record_create i st))) (map_of (old_values (record_create i st)) j)
       (map_of (removed (record_create i st)) j) (objects b j) (objects c' j)"
      using tracks_objectsD [OF ob, of j] none b c'
      by (cases "j = i") (simp_all add: record_create_def obj_tracked_new)
  qed
  moreover have "tracks_next_ids (record_create i st) (next_id b) (next_id c')"
    unfolding tracks_next_ids_def
  proof
    fix jx
    show "case map_of (old_index_next_ids (record_create i st)) jx of None \<Rightarrow> next_id b jx = next_id c' jx
      | Some n \<Rightarrow> next_id b jx = Some n \<and> (\<exists>m. next_id c' jx = Some m \<and> n \<le> m)"
      using tracks_next_idsD [OF nx, of jx] n c'
      by (cases "jx = ix") (auto simp: record_create_def split: option.splits)
  qed
  moreover have "fresh_ids (record_create i st) (next_id b)"
    using fr k n by (auto simp: fresh_ids_def record_create_def)
  ultimately show ?thesis
    using wb store_create_wf [OF wc cr] by (simp add: tracks_def)
qed

lemma tracks_modify:
  assumes t: "tracks st b c" and v: "get_object c i = Inr v" and m: "store_modify i f c = Inr c'"
  shows "tracks (record_modify i v st) b c'"
proof -
  have v': "objects c i = Some v" using v by (simp add: get_object_def)
  then have c': "c' = c\<lparr>objects := (objects c)(i \<mapsto> f v)\<rparr>" using m v by (simp add: store_modify_def)
  have D: "distinct_records st" and ob: "tracks_objects st (objects b) (objects c)"
    using t by (auto simp: tracks_def)
  have "distinct_records (record_modify i v st)"
    using D by (auto simp: distinct_records_def record_modify_def map_of_eq_None_iff)
  moreover have "tracks_objects (record_modify i v st) (objects b) (objects c')"
    unfolding tracks_objects_def
  proof
    fix j
    show "obj_tracked (j \<in> set (new_ids (record_modify i v st))) (map_of (old_values (record_modify i v st)) j)
       (map_of (removed (record_modify i v st)) j) (objects b j) (objects c' j)"
      using tracks_objectsD [OF ob, of j] v' c'
      by (cases "j = i") (auto simp: record_modify_def obj_tracked_simps elim: obj_tracked_cases)
  qed
  moreover have "tracks_next_ids (record_modify i v st) (next_id b) (next_id c')"
    using t c' by (simp add: tracks_def tracks_next_ids_def record_modify_def)
  moreover have "fresh_ids (record_modify i v st) (next_id b)"
    using t by (simp add: tracks_def fresh_ids_def record_modify_def)
  ultimately show ?thesis
    using t store_modify_wf [OF _ m] by (simp add: tracks_def)
qed

lemma tracks_remove:
  assumes t: "tracks st b c" and v: "get_object c i = Inr v" and m: "store_remove i c = Inr c'"
  shows "tracks (record_remove i v st) b c'"
proof -
  have v': "objects c i = Some v" using v by (simp add: get_object_def)
  then have c': "c' = c\<lparr>objects := (objects c)(i := None)\<rparr>" using m v by (simp add: store_remove_def)
  have D: "distinct_records st" and ob: "tracks_objects st (objects b) (objects c)"
    using t by (auto simp: tracks_def)
  have "distinct_records (record_remove i v st)"
    using D by (auto simp: distinct_records_def record_remove_def distinct_update distinct_delete map_of_eq_None_iff
        split: option.splits)
  moreover have "tracks_objects (record_remove i v st) (objects b) (objects c')"
    unfolding tracks_objects_def
  proof
    fix j
    show "obj_tracked (j \<in> set (new_ids (record_remove i v st))) (map_of (old_values (record_remove i v st)) j)
       (map_of (removed (record_remove i v st)) j) (objects b j) (objects c' j)"
      using tracks_objectsD [OF ob, of j] v' c' D
      by (cases "j = i")
         (auto simp: record_remove_def distinct_records_def obj_tracked_simps update_conv' delete_conv'
           split: option.splits elim: obj_tracked_cases)
  qed
  moreover have "tracks_next_ids (record_remove i v st) (next_id b) (next_id c')"
    using t c' by (simp add: tracks_def tracks_next_ids_def record_remove_def split: option.splits)
  moreover have "fresh_ids (record_remove i v st) (next_id b)"
    using t D by (auto simp: tracks_def fresh_ids_def distinct_records_def record_remove_def split: option.splits)
  ultimately show ?thesis
    using t store_remove_wf [OF _ m] by (simp add: tracks_def)
qed

subsection \<open>Merging two states composes them\<close>

abbreviation merge_upd :: "object_id \<times> 'v \<Rightarrow> 'v undo_state \<Rightarrow> 'v undo_state" where
  "merge_upd \<equiv> \<lambda>(i, v) p.
            if i \<in> set (new_ids p) then p
            else if map_of (old_values p) i \<noteq> None then p
            else p\<lparr>old_values := (i, v) # old_values p\<rparr>"

abbreviation merge_new :: "object_id \<Rightarrow> 'v undo_state \<Rightarrow> 'v undo_state" where
  "merge_new \<equiv> \<lambda>i p. p\<lparr>new_ids := List.insert i (new_ids p)\<rparr>"

abbreviation merge_next :: "index_id \<times> nat \<Rightarrow> 'v undo_state \<Rightarrow> 'v undo_state" where
  "merge_next \<equiv> \<lambda>(ix, n) p.
            if map_of (old_index_next_ids p) ix = None
            then p\<lparr>old_index_next_ids := (ix, n) # old_index_next_ids p\<rparr> else p"

abbreviation merge_del :: "object_id \<times> 'v \<Rightarrow> 'v undo_state \<Rightarrow> 'v undo_state" where
  "merge_del \<equiv> \<lambda>(i, v) p.
            if i \<in> set (new_ids p) then p\<lparr>new_ids := remove1 i (new_ids p)\<rparr>
            else case map_of (old_values p) i of
              Some w \<Rightarrow> p\<lparr>removed := AList.update i w (removed p),
                          old_values := AList.delete i (old_values p)\<rparr>
            | None \<Rightarrow> p\<lparr>removed := AList.update i v (removed p)\<rparr>"

lemma merge_upd_fold:
  fixes p :: "'v undo_state"
  assumes "distinct_records p"
  shows "distinct_records (fold merge_upd xs p) \<and> new_ids (fold merge_upd xs p) = new_ids p
    \<and> removed (fold merge_upd xs p) = removed p
    \<and> old_index_next_ids (fold merge_upd xs p) = old_index_next_ids p
    \<and> (\<forall>i. map_of (old_values (fold merge_upd xs p)) i =
          (if i \<in> set (new_ids p) then map_of (old_values p) i
           else case map_of (old_values p) i of Some w \<Rightarrow> Some w | None \<Rightarrow> map_of xs i))"
  using assms
proof (induction xs arbitrary: p)
  case (Cons x xs)
  obtain i v where x: "x = (i, v)" by fastforce
  have "distinct_records (merge_upd x p)"
    using Cons.prems x by (auto simp: distinct_records_def map_of_eq_None_iff)
  from Cons.IH [OF this] show ?case using x by (auto split: option.splits)
qed (simp split: option.splits)

lemma merge_new_fold:
  fixes p :: "'v undo_state"
  assumes "distinct_records p"
  shows "distinct_records (fold merge_new xs p) \<and> set (new_ids (fold merge_new xs p)) = set (new_ids p) \<union> set xs
    \<and> removed (fold merge_new xs p) = removed p \<and> old_values (fold merge_new xs p) = old_values p
    \<and> old_index_next_ids (fold merge_new xs p) = old_index_next_ids p"
  using assms
proof (induction xs arbitrary: p)
  case (Cons x xs)
  have "distinct_records (merge_new x p)" using Cons.prems by (auto simp: distinct_records_def)
  from Cons.IH [OF this] show ?case by auto
qed simp

lemma merge_next_fold:
  fixes p :: "'v undo_state"
  assumes "distinct_records p"
  shows "distinct_records (fold merge_next xs p) \<and> new_ids (fold merge_next xs p) = new_ids p
    \<and> removed (fold merge_next xs p) = removed p \<and> old_values (fold merge_next xs p) = old_values p
    \<and> (\<forall>ix. map_of (old_index_next_ids (fold merge_next xs p)) ix =
         (case map_of (old_index_next_ids p) ix of Some n \<Rightarrow> Some n | None \<Rightarrow> map_of xs ix))"
  using assms
proof (induction xs arbitrary: p)
  case (Cons x xs)
  obtain i v where x: "x = (i, v)" by fastforce
  have "distinct_records (merge_next x p)"
    using Cons.prems x by (auto simp: distinct_records_def map_of_eq_None_iff)
  from Cons.IH [OF this] show ?case using x by (auto split: option.splits)
qed (simp split: option.splits)

lemma merge_del_fold:
  fixes p :: "'v undo_state"
  assumes "distinct_records p" "distinct (map fst xs)"
  shows "distinct_records (fold merge_del xs p)
    \<and> set (new_ids (fold merge_del xs p)) = set (new_ids p) - fst ` set xs
    \<and> old_index_next_ids (fold merge_del xs p) = old_index_next_ids p
    \<and> (\<forall>i. map_of (old_values (fold merge_del xs p)) i =
         (if i \<in> fst ` set xs \<and> i \<notin> set (new_ids p) then None else map_of (old_values p) i))
    \<and> (\<forall>i. map_of (removed (fold merge_del xs p)) i =
         (if i \<in> fst ` set xs \<and> i \<notin> set (new_ids p)
          then (case map_of (old_values p) i of Some w \<Rightarrow> Some w | None \<Rightarrow> map_of xs i)
          else map_of (removed p) i))"
  using assms
proof (induction xs arbitrary: p)
  case (Cons x xs)
  obtain i v where x: "x = (i, v)" by fastforce
  have d: "distinct_records (merge_del x p)"
    using Cons.prems x by (auto simp: distinct_records_def distinct_update distinct_delete split: option.splits)
  have ixs: "i \<notin> fst ` set xs" "distinct (map fst xs)" "distinct (new_ids p)"
    using Cons.prems x by (auto simp: distinct_records_def)
  show ?case using Cons.IH [OF d ixs(2)] ixs x
    by (cases "i \<in> set (new_ids p)"; cases "map_of (old_values p) i")
       (auto simp: update_conv' delete_conv' split: option.splits)
qed simp

lemma merge_states_fields:
  assumes A: "distinct_records A" and B: "distinct_records B"
  shows "distinct_records (merge_states A B)"
    and "i \<in> set (new_ids (merge_states A B)) \<longleftrightarrow>
      (i \<in> set (new_ids A) \<or> i \<in> set (new_ids B)) \<and> map_of (removed B) i = None"
    and "map_of (old_values (merge_states A B)) i =
      (if map_of (removed B) i \<noteq> None \<and> i \<notin> set (new_ids A) \<and> i \<notin> set (new_ids B) then None
       else if i \<in> set (new_ids A) then map_of (old_values A) i
       else case map_of (old_values A) i of Some w \<Rightarrow> Some w | None \<Rightarrow> map_of (old_values B) i)"
    and "map_of (removed (merge_states A B)) i =
      (if map_of (removed B) i \<noteq> None \<and> i \<notin> set (new_ids A) \<and> i \<notin> set (new_ids B)
       then (case map_of (old_values A) i of Some w \<Rightarrow> Some w
             | None \<Rightarrow> (case map_of (old_values B) i of Some w \<Rightarrow> Some w | None \<Rightarrow> map_of (removed B) i))
       else map_of (removed A) i)"
    and "map_of (old_index_next_ids (merge_states A B)) ix =
      (case map_of (old_index_next_ids A) ix of Some n \<Rightarrow> Some n | None \<Rightarrow> map_of (old_index_next_ids B) ix)"
proof -
  define p1 where "p1 = fold merge_upd (old_values B) A"
  define p2 where "p2 = fold merge_new (new_ids B) p1"
  define p3 where "p3 = fold merge_next (old_index_next_ids B) p2"
  have m: "merge_states A B = fold merge_del (removed B) p3"
    by (simp add: merge_states_def p1_def p2_def p3_def)
  note f1 = merge_upd_fold [OF A, of "old_values B", folded p1_def]
  note f2 = merge_new_fold [OF f1 [THEN conjunct1], of "new_ids B", folded p2_def]
  note f3 = merge_next_fold [OF f2 [THEN conjunct1], of "old_index_next_ids B", folded p3_def]
  have "distinct (map fst (removed B))" using B by (simp add: distinct_records_def)
  note f4 = merge_del_fold [OF f3 [THEN conjunct1] this, folded m]
  have r: "i \<in> fst ` set (removed B) \<longleftrightarrow> map_of (removed B) i \<noteq> None"
    by (simp add: map_of_eq_None_iff)
  show "distinct_records (merge_states A B)" using f4 by simp
  show "i \<in> set (new_ids (merge_states A B)) \<longleftrightarrow>
      (i \<in> set (new_ids A) \<or> i \<in> set (new_ids B)) \<and> map_of (removed B) i = None"
    using f1 f2 f3 f4 r by auto
  show "map_of (old_values (merge_states A B)) i =
      (if map_of (removed B) i \<noteq> None \<and> i \<notin> set (new_ids A) \<and> i \<notin> set (new_ids B) then None
       else if i \<in> set (new_ids A) then map_of (old_values A) i
       else case map_of (old_values A) i of Some w \<Rightarrow> Some w | None \<Rightarrow> map_of (old_values B) i)"
    using f1 f2 f3 f4 r by simp
  show "map_of (removed (merge_states A B)) i =
      (if map_of (removed B) i \<noteq> None \<and> i \<notin> set (new_ids A) \<and> i \<notin> set (new_ids B)
       then (case map_of (old_values A) i of Some w \<Rightarrow> Some w
             | None \<Rightarrow> (case map_of (old_values B) i of Some w \<Rightarrow> Some w | None \<Rightarrow> map_of (removed B) i))
       else map_of (removed A) i)"
    using f1 f2 f3 f4 r by (simp split: option.splits)
  show "map_of (old_index_next_ids (merge_states A B)) ix =
      (case map_of (old_index_next_ids A) ix of Some n \<Rightarrow> Some n | None \<Rightarrow> map_of (old_index_next_ids B) ix)"
    using f1 f2 f3 f4 by simp
qed

lemma tracks_merge_objects:
  assumes "distinct_records A" "distinct_records B"
    and A: "tracks_objects A b m" and B: "tracks_objects B m c"
    and fresh: "\<And>i. i \<in> set (new_ids B) \<Longrightarrow> b i = None"
  shows "tracks_objects (merge_states A B) b c"
  unfolding tracks_objects_def merge_states_fields [OF assms(1,2)]
proof
  fix i
  let ?u = "\<lambda>i. if map_of (removed B) i \<noteq> None \<and> i \<notin> set (new_ids A) \<and> i \<notin> set (new_ids B) then None
       else if i \<in> set (new_ids A) then map_of (old_values A) i
       else case map_of (old_values A) i of Some w \<Rightarrow> Some w | None \<Rightarrow> map_of (old_values B) i"
  from tracks_objectsD [OF A, of i] tracks_objectsD [OF B, of i] fresh [of i]
  show "obj_tracked ((i \<in> set (new_ids A) \<or> i \<in> set (new_ids B)) \<and> map_of (removed B) i = None)
     (?u i)
     (if map_of (removed B) i \<noteq> None \<and> i \<notin> set (new_ids A) \<and> i \<notin> set (new_ids B)
       then (case map_of (old_values A) i of Some w \<Rightarrow> Some w
             | None \<Rightarrow> (case map_of (old_values B) i of Some w \<Rightarrow> Some w | None \<Rightarrow> map_of (removed B) i))
       else map_of (removed A) i) (b i) (c i)"
    by (elim obj_tracked_cases) (simp_all add: obj_tracked_simps)
qed

lemma tracks_merge:
  assumes tA: "tracks A b m" and tB: "tracks B m c"
  shows "tracks (merge_states A B) b c"
proof -
  have A: "distinct_records A" "tracks_objects A (objects b) (objects m)" "tracks_next_ids A (next_id b) (next_id m)"
      "fresh_ids A (next_id b)" "wf_store b"
    and B: "distinct_records B" "tracks_objects B (objects m) (objects c)" "tracks_next_ids B (next_id m) (next_id c)"
      "fresh_ids B (next_id m)" "wf_store c"
    using tA tB by (simp_all add: tracks_def)
  have fresh: "\<exists>n. next_id b (id_index i) = Some n \<and> n \<le> id_number i" if "i \<in> set (new_ids B)" for i
  proof -
    from B(4) that obtain k where k: "next_id m (id_index i) = Some k" "k \<le> id_number i"
      by (auto simp: fresh_ids_def)
    with tracks_next_dom [OF A(3), of "id_index i"] obtain n where n: "next_id b (id_index i) = Some n" by fastforce
    with tracks_next_mono [OF A(3), of "id_index i" n] k show ?thesis by auto
  qed
  then have "objects b i = None" if "i \<in> set (new_ids B)" for i
    using wf_store_less [OF A(5), of i] that by fastforce
  then have "tracks_objects (merge_states A B) (objects b) (objects c)"
    using tracks_merge_objects A B by blast
  moreover have "tracks_next_ids (merge_states A B) (next_id b) (next_id c)"
    unfolding tracks_next_ids_def merge_states_fields [OF A(1) B(1)]
  proof
    fix ix
    show "case case map_of (old_index_next_ids A) ix of None \<Rightarrow> map_of (old_index_next_ids B) ix | Some n \<Rightarrow> Some n of
         None \<Rightarrow> next_id b ix = next_id c ix
       | Some n \<Rightarrow> next_id b ix = Some n \<and> (\<exists>m. next_id c ix = Some m \<and> n \<le> m)"
      using tracks_next_idsD [OF A(3), of ix] tracks_next_idsD [OF B(3), of ix]
      by (auto split: option.splits)
  qed
  moreover have "fresh_ids (merge_states A B) (next_id b)"
    using A(4) fresh merge_states_fields(2) [OF A(1) B(1)] by (auto simp: fresh_ids_def)
  ultimately show ?thesis
    using A(5) B(5) merge_states_fields(1) [OF A(1) B(1)] by (simp add: tracks_def)
qed

end
