(* ===== verification/Undo_Refinement.thy ===== *)
theory Undo_Refinement
  imports Undo_DB
begin

text \<open>
  The contract of \<open>undo_database\<close> and its refinement.  The abstract machine keeps whole
  copies of the store: starting a session saves a copy, undoing restores the newest copy,
  merging forgets it, and committing keeps it for \<open>pop_commit\<close>.  The implementation keeps
  change records instead; the locale \<open>change_log\<close> states what the machine needs of such
  records, and the records of \<open>Undo_DB\<close> are an instance.
\<close>

subsection \<open>A stack of change records\<close>

fun log_chain :: "('l \<Rightarrow> 's \<Rightarrow> 's \<Rightarrow> bool) \<Rightarrow> 'l list \<Rightarrow> 's list \<Rightarrow> 's \<Rightarrow> bool" where
  "log_chain R [] [] c = True"
| "log_chain R (l # ls) (b # bs) c = (R l b c \<and> log_chain R ls bs b)"
| "log_chain R _ _ c = False"

lemma log_chain_length: "log_chain R ls bs c \<Longrightarrow> length ls = length bs"
  by (induction R ls bs c rule: log_chain.induct) auto

lemma log_chain_Nil_iff: "log_chain R ls bs c \<Longrightarrow> ls = [] \<longleftrightarrow> bs = []"
  by (auto dest: log_chain_length)

lemma log_chain_take: "log_chain R ls bs c \<Longrightarrow> log_chain R (take n ls) (take n bs) c"
proof (induction R ls bs c arbitrary: n rule: log_chain.induct)
  case (2 R l ls b bs c)
  then show ?case by (cases n) auto
qed auto

locale change_log =
  fixes describes :: "'l \<Rightarrow> 's \<Rightarrow> 's \<Rightarrow> bool"
    and empty_log :: 'l
    and compose :: "'l \<Rightarrow> 'l \<Rightarrow> 'l"
    and revert :: "'l \<Rightarrow> 's \<Rightarrow> 's result"
    and wf :: "'s \<Rightarrow> bool"
  assumes empty_log: "wf s \<Longrightarrow> describes empty_log s s"
    and compose: "describes A b m \<Longrightarrow> describes B m c \<Longrightarrow> describes (compose A B) b c"
    and revert: "describes l b c \<Longrightarrow> revert l c = Inr b"
begin

lemma chain_push:
  "log_chain describes ls bs c \<Longrightarrow> wf c \<Longrightarrow> log_chain describes (empty_log # ls) (c # bs) c"
  by (simp add: empty_log)

lemma chain_pop:
  "log_chain describes (l # ls) (b # bs) c \<Longrightarrow> revert l c = Inr b \<and> log_chain describes ls bs b"
  by (simp add: revert)

lemma chain_compose:
  assumes "log_chain describes (l # k # ls) (b # a # bs) c"
  shows "log_chain describes (compose k l # ls) (a # bs) c"
  using assms by (auto intro: compose)

end

interpretation undo_log: change_log tracks empty_undo_state merge_states rollback wf_store
  by unfold_locales (auto intro: tracks_empty tracks_merge rollback_tracks)

subsection \<open>Histories of the implementation and of the specification\<close>

datatype 'v change = Create index_id 'v | Modify object_id "'v \<Rightarrow> 'v" | Remove object_id

datatype 'v event = Start | Change "'v change" | Undo | Merge | Commit | Pop_commit

fun apply_change :: "'v change \<Rightarrow> 'v undo_db \<Rightarrow> 'v undo_db result" where
  "apply_change (Create ix v) d = db_create ix v d"
| "apply_change (Modify i f) d = db_modify i f d"
| "apply_change (Remove i) d = db_remove i d"

fun exec_event :: "'v event \<Rightarrow> 'v undo_db \<Rightarrow> 'v undo_db result" where
  "exec_event Start d = Inr (snd (start_undo_session False d))"
| "exec_event (Change ch) d = apply_change ch d"
| "exec_event Undo d = undo d"
| "exec_event Merge d = merge d"
| "exec_event Commit d = commit d"
| "exec_event Pop_commit d = pop_commit d"

fun store_change :: "'v change \<Rightarrow> 'v store \<Rightarrow> 'v store result" where
  "store_change (Create ix v) s = bind_res (store_create ix v s) (\<lambda>(i, s'). Inr s')"
| "store_change (Modify i f) s = store_modify i f s"
| "store_change (Remove i) s = store_remove i s"

text \<open>
  The specification: a current store and the saved copies, newest first.  A change outside
  every session saves a copy as well (the implementation pushes a state when the stack is empty).
\<close>

fun spec_event :: "nat \<Rightarrow> 'v event \<Rightarrow> 'v store \<times> 'v store list \<Rightarrow> ('v store \<times> 'v store list) result" where
  "spec_event m Start (c, ss) = Inr (c, c # take m ss)"
| "spec_event m (Change ch) (c, ss) =
     bind_res (store_change ch c) (\<lambda>c'. Inr (c', if ss = [] then [c] else ss))"
| "spec_event m Undo (c, ss) = (case ss of [] \<Rightarrow> Inl Out_Of_Range | b # bs \<Rightarrow> Inr (b, bs))"
| "spec_event m Merge (c, ss) = (case ss of [] \<Rightarrow> Inl Out_Of_Range | b # bs \<Rightarrow> Inr (c, bs))"
| "spec_event m Commit (c, ss) = Inr (c, ss)"
| "spec_event m Pop_commit (c, ss) = (case ss of [] \<Rightarrow> Inl Out_Of_Range | b # bs \<Rightarrow> Inr (b, bs))"

definition history_inv :: "'v undo_db \<Rightarrow> 'v store list \<Rightarrow> bool" where
  "history_inv d ss \<longleftrightarrow> \<not> disabled d \<and> wf_store (the_store d) \<and> log_chain tracks (stack d) ss (the_store d)"

subsection \<open>The simulation\<close>

lemma pop_front_while_take: "pop_front_while m st = take m st"
proof (induction m st rule: pop_front_while.induct)
  case (1 m st)
  show ?case
  proof (cases "length st > m")
    case True
    then have "pop_front_while m st = take m (butlast st)"
      using "1.IH" by (subst pop_front_while.simps) simp
    also have "\<dots> = take m st" using True by (simp add: take_butlast)
    finally show ?thesis .
  qed (subst pop_front_while.simps, simp)
qed

lemma ensure_chain:
  assumes "log_chain tracks (stack d) ss c" "wf_store c"
  obtains s sts b bs where "ensure_state (stack d) = s # sts" "(if ss = [] then [c] else ss) = b # bs"
    "tracks s b c" "log_chain tracks sts bs b"
proof (cases "stack d")
  case Nil
  with assms(1) have "ss = []" by (cases ss) auto
  with Nil that [of empty_undo_state "[]" c "[]"] assms(2) show ?thesis
    by (simp add: ensure_state_def tracks_empty)
next
  case (Cons s sts)
  then obtain b bs where "ss = b # bs" using assms(1) log_chain_Nil_iff by (metis list.exhaust list.distinct(1))
  with Cons assms that [of s sts b bs] show ?thesis by (simp add: ensure_state_def)
qed

lemma record_change_chain:
  assumes inv: "history_inv d ss"
    and rec: "\<And>st b. tracks st b (the_store d) \<Longrightarrow> tracks (f st) b c'"
    and wf: "wf_store c'"
  shows "history_inv ((upd_back f d)\<lparr>the_store := c'\<rparr>) (if ss = [] then [the_store d] else ss)"
proof -
  have ch: "log_chain tracks (stack d) ss (the_store d)" and wf0: "wf_store (the_store d)" and en: "\<not> disabled d"
    using inv by (simp_all add: history_inv_def)
  from ch wf0 obtain s sts b bs where e: "ensure_state (stack d) = s # sts"
      "(if ss = [] then [the_store d] else ss) = b # bs" "tracks s b (the_store d)" "log_chain tracks sts bs b"
    by (rule ensure_chain)
  have "upd_back f d = d\<lparr>stack := f s # sts\<rparr>" using e(1) by (simp add: upd_back_def)
  then show ?thesis
    using e rec [OF e(3)] wf en by (simp add: history_inv_def)
qed

lemma upd_back_store [simp]: "upd_back f (d\<lparr>the_store := s\<rparr>) = (upd_back f d)\<lparr>the_store := s\<rparr>"
  by (simp add: upd_back_def split: list.splits)

lemma upd_back_disabled [simp]: "disabled (upd_back f d) = disabled d" "max_size (upd_back f d) = max_size d"
    "active_sessions (upd_back f d) = active_sessions d"
  by (simp_all add: upd_back_def split: list.splits)

lemma apply_change_sim:
  assumes inv: "history_inv d ss" and ex: "apply_change ch d = Inr d'"
  shows "\<exists>c'. store_change ch (the_store d) = Inr c' \<and> the_store d' = c'
    \<and> history_inv d' (if ss = [] then [the_store d] else ss)
    \<and> max_size d' = max_size d \<and> active_sessions d' = active_sessions d"
proof -
  have en: "\<not> disabled d" and wf: "wf_store (the_store d)" using inv by (simp_all add: history_inv_def)
  show ?thesis
  proof (cases ch)
    case (Create ix v)
    with ex obtain i c' where c: "store_create ix v (the_store d) = Inr (i, c')"
      and d': "d' = (upd_back (record_create i) d)\<lparr>the_store := c'\<rparr>"
      using en by (auto simp: db_create_def on_create_def)
    from record_change_chain [OF inv, of "record_create i" c'] tracks_create [OF _ c] store_create_wf [OF wf c]
    show ?thesis using Create c d' by simp
  next
    case (Modify i f)
    with ex obtain v c' where c: "get_object (the_store d) i = Inr v" "store_modify i f (the_store d) = Inr c'"
      and d': "d' = (upd_back (record_modify i v) d)\<lparr>the_store := c'\<rparr>"
      using en by (auto simp: db_modify_def on_modify_def)
    from record_change_chain [OF inv, of "record_modify i v" c'] tracks_modify [OF _ c] store_modify_wf [OF wf c(2)]
    show ?thesis using Modify c d' by simp
  next
    case (Remove i)
    with ex obtain v c' where c: "get_object (the_store d) i = Inr v" "store_remove i (the_store d) = Inr c'"
      and d': "d' = (upd_back (record_remove i v) d)\<lparr>the_store := c'\<rparr>"
      using en by (auto simp: db_remove_def on_remove_def)
    from record_change_chain [OF inv, of "record_remove i v" c'] tracks_remove [OF _ c] store_remove_wf [OF wf c(2)]
    show ?thesis using Remove c d' by simp
  qed
qed

lemma log_chain_wf: "log_chain tracks ls (b # bs) c \<Longrightarrow> wf_store b"
  by (cases ls) (auto simp: tracks_def)

lemma exec_event_sim:
  assumes inv: "history_inv d ss" and ex: "exec_event e d = Inr d'"
  shows "\<exists>ss'. spec_event (max_size d) e (the_store d, ss) = Inr (the_store d', ss')
    \<and> history_inv d' ss' \<and> max_size d' = max_size d"
proof (cases e)
  case Start
  then show ?thesis
    using inv ex undo_log.chain_push log_chain_take [of tracks "stack d" ss _ "max_size d"]
    by (auto simp: history_inv_def start_undo_session_def pop_front_while_take tracks_empty)
next
  case (Change ch)
  with ex apply_change_sim [OF inv] show ?thesis by fastforce
next
  case Undo
  with ex obtain st rest s where st: "stack d = st # rest" "rollback st (the_store d) = Inr s"
    and d': "d' = d\<lparr>the_store := s, stack := rest, disabled := False, active_sessions := active_sessions d - 1\<rparr>"
    by (auto simp: undo_def split: list.splits)
  moreover from inv st(1) obtain b bs where "ss = b # bs" "log_chain tracks (st # rest) (b # bs) (the_store d)"
    by (cases ss) (auto simp: history_inv_def)
  ultimately show ?thesis
    using Undo inv undo_log.chain_pop [of st rest b bs] log_chain_wf by (fastforce simp: history_inv_def)
next
  case Merge
  consider (one) st where "stack d = [st]" "d' = d\<lparr>stack := [], active_sessions := active_sessions d - 1\<rparr>"
    | (two) st prev rest where "stack d = st # prev # rest"
        "d' = d\<lparr>stack := merge_states prev st # rest, active_sessions := active_sessions d - 1\<rparr>"
    using Merge ex by (cases "stack d"; cases "tl (stack d)") (auto simp: merge_def split: if_splits)
  then show ?thesis
  proof cases
    case one
    then show ?thesis using Merge inv by (cases ss) (auto simp: history_inv_def elim: log_chain.elims)
  next
    case two
    then obtain b a bs where "ss = b # a # bs" using inv by (cases ss; cases "tl ss") (auto simp: history_inv_def)
    with two Merge inv undo_log.chain_compose [of st prev rest b a bs] show ?thesis
      by (simp add: history_inv_def)
  qed
next
  case Commit
  with ex inv show ?thesis by (auto simp: commit_def history_inv_def)
next
  case Pop_commit
  with ex obtain st rest s where st: "stack d = st # rest" "rollback st (the_store d) = Inr s"
    and d': "d' = d\<lparr>the_store := s, stack := rest, disabled := False\<rparr>"
    by (auto simp: pop_commit_def split: list.splits)
  moreover from inv st(1) obtain b bs where "ss = b # bs" "log_chain tracks (st # rest) (b # bs) (the_store d)"
    by (cases ss) (auto simp: history_inv_def)
  ultimately show ?thesis
    using Pop_commit inv undo_log.chain_pop [of st rest b bs] log_chain_wf by (fastforce simp: history_inv_def)
qed

subsection \<open>Properties\<close>

text \<open>C3: Refinement.  Every successful run of \<open>undo_database\<close> and of the store (starting
  sessions, creating, modifying and removing objects, undoing, merging, committing and popping
  commits, in any order) has the same effect on the objects and on the next ids as the machine
  that saves and restores whole copies of the store.
\<close>

theorem undo_refines_snapshots:
  assumes "history_inv d ss" "fold_res exec_event es d = Inr d'"
  shows "\<exists>ss'. fold_res (spec_event (max_size d)) es (the_store d, ss) = Inr (the_store d', ss')
    \<and> history_inv d' ss'"
  using assms
proof (induction es arbitrary: d ss)
  case (Cons e es)
  from Cons.prems(2) obtain d1 where d1: "exec_event e d = Inr d1" "fold_res exec_event es d1 = Inr d'" by auto
  from exec_event_sim [OF Cons.prems(1) d1(1)] obtain ss1 where
    "spec_event (max_size d) e (the_store d, ss) = Inr (the_store d1, ss1)" "history_inv d1 ss1" "max_size d1 = max_size d"
    by blast
  with Cons.IH [OF _ d1(2)] show ?case by fastforce
qed auto

definition demo_undo_db :: "nat undo_db" where
  "demo_undo_db = \<lparr>the_store = \<lparr>objects = Map.empty, next_id = [Index_id 1 2 \<mapsto> 0]\<rparr>, stack = [],
     active_sessions = 0, disabled = False, max_size = 256\<rparr>"

lemma demo_undo_db_inv: "history_inv demo_undo_db []"
  by (simp add: history_inv_def demo_undo_db_def wf_store_def)

theorem undo_refines_snapshots_witness:
  "\<exists>d' ss'. fold_res exec_event [Start, Change (Create (Index_id 1 2) 7), Undo] demo_undo_db = Inr d'
     \<and> fold_res (spec_event 256) [Start, Change (Create (Index_id 1 2) 7), Undo] (the_store demo_undo_db, [])
         = Inr (the_store d', ss') \<and> history_inv d' ss'"
proof -
  have "\<exists>d'. fold_res exec_event [Start, Change (Create (Index_id 1 2) 7), Undo] demo_undo_db = Inr d'"
    by (simp add: demo_undo_db_def start_undo_session_def db_create_def store_create_def fetch_def on_create_def
        upd_back_def ensure_state_def record_create_def empty_undo_state_def undo_def rollback_def
        store_remove_def store_set_next_id_def get_object_def)
  then obtain d' where d': "fold_res exec_event [Start, Change (Create (Index_id 1 2) 7), Undo] demo_undo_db = Inr d'" ..
  from undo_refines_snapshots [OF demo_undo_db_inv d'] d' show ?thesis
    by (auto simp: demo_undo_db_def)
qed

lemma changes_tracked:
  assumes "tracks st b (the_store d)" "stack d = st # rest" "\<not> disabled d" "fold_res apply_change cs d = Inr d'"
  shows "\<exists>st'. tracks st' b (the_store d') \<and> stack d' = st' # rest \<and> \<not> disabled d'
    \<and> active_sessions d' = active_sessions d \<and> max_size d' = max_size d"
  using assms
proof (induction cs arbitrary: d st)
  case (Cons ch cs)
  from Cons.prems(4) obtain d1 where d1: "apply_change ch d = Inr d1" "fold_res apply_change cs d1 = Inr d'" by auto
  have "\<exists>st1. tracks st1 b (the_store d1) \<and> stack d1 = st1 # rest \<and> \<not> disabled d1
    \<and> active_sessions d1 = active_sessions d \<and> max_size d1 = max_size d"
    using d1(1) Cons.prems(1-3)
    by (cases ch)
       (auto simp: db_create_def db_modify_def db_remove_def on_create_def on_modify_def on_remove_def upd_back_def
         ensure_state_def intro: tracks_create tracks_modify tracks_remove)
  then obtain st1 where st1: "tracks st1 b (the_store d1)" "stack d1 = st1 # rest" "\<not> disabled d1"
    and eq: "active_sessions d1 = active_sessions d" "max_size d1 = max_size d" by blast
  from Cons.IH [OF st1 d1(2)] eq show ?case by metis
qed auto

lemma start_session_tracks:
  assumes "wf_store (the_store d)" "\<not> disabled d" "start_undo_session force d = (se, d1)"
  shows "the_store d1 = the_store d" "stack d1 = empty_undo_state # take (max_size d) (stack d)" "\<not> disabled d1"
    "active_sessions d1 = active_sessions d + 1" "max_size d1 = max_size d"
    "tracks empty_undo_state (the_store d) (the_store d1)"
  using assms by (auto simp: start_undo_session_def pop_front_while_take tracks_empty split: if_splits)

text \<open>C7: A session that is not committed leaves no trace.  After any successful sequence of object
  changes inside a session, undoing the session succeeds and restores every object, every next
  id, the session count and the older undo states.
\<close>

theorem session_undo_restores:
  assumes "wf_store (the_store d)" "\<not> disabled d"
    and "start_undo_session force d = (se, d1)" "fold_res apply_change cs d1 = Inr d2"
  shows "\<exists>d3. undo d2 = Inr d3 \<and> the_store d3 = the_store d
    \<and> active_sessions d3 = active_sessions d \<and> stack d3 = take (max_size d) (stack d)"
proof -
  note s = start_session_tracks [OF assms(1-3)]
  from changes_tracked [OF s(6) s(2) s(3) assms(4)] obtain st where
    "tracks st (the_store d) (the_store d2)" "stack d2 = st # take (max_size d) (stack d)" "\<not> disabled d2"
    "active_sessions d2 = active_sessions d + 1"
    using s(4) by auto
  then show ?thesis by (simp add: undo_def rollback_tracks)
qed

theorem session_undo_restores_witness:
  "\<exists>d3. undo (snd (start_undo_session False demo_undo_db)) = Inr d3 \<and> the_store d3 = the_store demo_undo_db"
  using session_undo_restores [of demo_undo_db False _ _ "[]"]
  by (fastforce simp: demo_undo_db_def wf_store_def start_undo_session_def)

text \<open>C8: Merging a nested session into the enclosing one and then undoing the enclosing one restores
  the state before both: the merged record is the composition of the two.
\<close>

theorem merged_sessions_undo_restores:
  assumes "wf_store (the_store d)" "\<not> disabled d" "max_size d > 0"
    and "start_undo_session f1 d = (se1, d1)" "fold_res apply_change cs1 d1 = Inr d2"
    and "start_undo_session f2 d2 = (se2, d3)" "fold_res apply_change cs2 d3 = Inr d4"
  shows "\<exists>d5 d6. merge d4 = Inr d5 \<and> the_store d5 = the_store d4 \<and> undo d5 = Inr d6
    \<and> the_store d6 = the_store d \<and> active_sessions d6 = active_sessions d"
proof -
  note s1 = start_session_tracks [OF assms(1,2,4)]
  from changes_tracked [OF s1(6) s1(2) s1(3) assms(5)] obtain A where
    A: "tracks A (the_store d) (the_store d2)" "stack d2 = A # take (max_size d) (stack d)" "\<not> disabled d2"
      "active_sessions d2 = active_sessions d + 1" "max_size d2 = max_size d"
    using s1 by auto
  have "wf_store (the_store d2)" using A(1) by (simp add: tracks_def)
  note s2 = start_session_tracks [OF this A(3) assms(6)]
  from changes_tracked [OF s2(6) s2(2) s2(3) assms(7)] obtain B where
    B: "tracks B (the_store d2) (the_store d4)" "stack d4 = B # take (max_size d) (stack d2)" "\<not> disabled d4"
      "active_sessions d4 = active_sessions d + 2"
    using s2 A by auto
  from B(2) A(2) assms(3) obtain rest where st: "stack d4 = B # A # rest" by (cases "max_size d") auto
  from tracks_merge [OF A(1) B(1)] rollback_tracks
  have "rollback (merge_states A B) (the_store d4) = Inr (the_store d)" by blast
  then show ?thesis using st B(3,4) by (simp add: merge_def undo_def)
qed

theorem merged_sessions_undo_restores_witness:
  "\<exists>d5 d6. merge (snd (start_undo_session False (snd (start_undo_session False demo_undo_db)))) = Inr d5
     \<and> undo d5 = Inr d6 \<and> the_store d6 = the_store demo_undo_db"
  using merged_sessions_undo_restores [of demo_undo_db False _ "snd (start_undo_session False demo_undo_db)" "[]"
      "snd (start_undo_session False demo_undo_db)" False _ "snd (start_undo_session False (snd (start_undo_session False demo_undo_db)))" "[]"
      "snd (start_undo_session False (snd (start_undo_session False demo_undo_db)))"]
  by (force simp: demo_undo_db_def wf_store_def start_undo_session_def)

text \<open>C9: Popping a committed block restores the state before it: a session that is committed while no
  other is active can be taken back by \<open>pop_commit\<close>.
\<close>

theorem pop_commit_restores:
  assumes "wf_store (the_store d)" "\<not> disabled d" "active_sessions d = 0"
    and "start_undo_session f d = (se, d1)" "fold_res apply_change cs d1 = Inr d2"
  shows "\<exists>d3 d4. commit d2 = Inr d3 \<and> the_store d3 = the_store d2 \<and> pop_commit d3 = Inr d4
    \<and> the_store d4 = the_store d \<and> stack d4 = take (max_size d) (stack d)"
proof -
  note s = start_session_tracks [OF assms(1,2,4)]
  from changes_tracked [OF s(6) s(2) s(3) assms(5)] obtain st where
    "tracks st (the_store d) (the_store d2)" "stack d2 = st # take (max_size d) (stack d)"
    "active_sessions d2 = 1"
    using s(4) assms(3) by auto
  then show ?thesis by (simp add: commit_def pop_commit_def rollback_tracks)
qed

theorem pop_commit_restores_witness:
  "\<exists>d3 d4. commit (snd (start_undo_session False demo_undo_db)) = Inr d3 \<and> pop_commit d3 = Inr d4
     \<and> the_store d4 = the_store demo_undo_db"
  using pop_commit_restores [of demo_undo_db False _ "snd (start_undo_session False demo_undo_db)" "[]"]
  by (force simp: demo_undo_db_def wf_store_def start_undo_session_def)

end
