(* ===== verification/Fc_Lib.thy ===== *)
theory Fc_Lib
  imports KHC_Prelude
begin

text \<open>
  The numeric types of the \<open>fc\<close> library, which the repository uses as a git submodule.
  \<open>share_type\<close> is \<open>fc::safe<int64_t>\<close> (\<open>protocol/types.hpp\<close>), an integer whose
  arithmetic throws when the exact result does not fit, and \<open>fc::uint128_t::to_uint64\<close>
  throws when the value does not fit.  Their code is not part of the repository, so the
  operations are a record \<open>fc_lib\<close> that every definition using them takes as an
  argument, and their documented behaviour is the locale \<open>fc_arith\<close>.  A share amount is an
  \<open>int\<close>; the parameter decides which results exist.
\<close>

record fc_lib =
  safe_add :: "int \<Rightarrow> int \<Rightarrow> int result"
  safe_sub :: "int \<Rightarrow> int \<Rightarrow> int result"
  safe_mul :: "int \<Rightarrow> int \<Rightarrow> int result"
  safe_neg :: "int \<Rightarrow> int result"
  u128_to_uint64 :: "u128 \<Rightarrow> u64 result"

locale fc_arith =
  fixes F :: fc_lib
  assumes safe_add_iff: "safe_add F a b = Inr c \<longleftrightarrow> c = a + b \<and> in_int64 c"
    and safe_sub_iff: "safe_sub F a b = Inr c \<longleftrightarrow> c = a - b \<and> in_int64 c"
    and safe_mul_iff: "safe_mul F a b = Inr c \<longleftrightarrow> c = a * b \<and> in_int64 c"
    and safe_neg_iff: "safe_neg F a = Inr c \<longleftrightarrow> c = - a \<and> in_int64 c"
    and to_uint64_iff: "u128_to_uint64 F w = Inr v \<longleftrightarrow> uint w < 2 ^ 64 \<and> v = ucast w"
    and fc_ends: "ends (safe_add F a b)" "ends (safe_sub F a b)" "ends (safe_mul F a b)" "ends (safe_neg F a)"
      "ends (u128_to_uint64 F w)"
begin

lemmas fc_iffs = safe_add_iff safe_sub_iff safe_mul_iff safe_neg_iff to_uint64_iff

lemma safe_add_exact: "in_int64 (a + b) \<Longrightarrow> safe_add F a b = Inr (a + b)"
  by (simp add: safe_add_iff)

lemma safe_sub_exact: "in_int64 (a - b) \<Longrightarrow> safe_sub F a b = Inr (a - b)"
  by (simp add: safe_sub_iff)

lemma safe_mul_exact: "in_int64 (a * b) \<Longrightarrow> safe_mul F a b = Inr (a * b)"
  by (simp add: safe_mul_iff)

lemma safe_neg_exact: "in_int64 (- a) \<Longrightarrow> safe_neg F a = Inr (- a)"
  by (simp add: safe_neg_iff)

end

text \<open>
  The constructor of \<open>share_type\<close> from an unsigned 64-bit value reads it as a signed one.
\<close>

definition share_of_u64 :: "u64 \<Rightarrow> int" where
  "share_of_u64 w = sint w"

definition to_share :: "fc_lib \<Rightarrow> u128 \<Rightarrow> int result" where
  "to_share F w = bind_res (u128_to_uint64 F w) (\<lambda>v. Inr (share_of_u64 v))"

lemma share_of_u64_small:
  assumes "uint w < 2 ^ 63"
  shows "share_of_u64 (ucast (w :: u128)) = uint w"
proof -
  have "uint (ucast w :: u64) = uint w"
    using assms by (simp add: unsigned_ucast_eq take_bit_eq_mod)
  moreover have "sint (ucast w :: u64) = uint (ucast w :: u64)"
    using assms calculation signed_take_bit_int_eq_self [of 63 "uint w"] uint_ge_0 [of w]
    by (simp add: sint_uint)
  ultimately show ?thesis by (simp add: share_of_u64_def)
qed

context fc_arith
begin

lemma to_share_small: "uint w < 2 ^ 63 \<Longrightarrow> to_share F w = Inr (uint w)"
proof -
  assume w: "uint w < 2 ^ 63"
  then have "u128_to_uint64 F w = Inr (ucast w)" by (simp add: to_uint64_iff)
  with w show ?thesis by (simp add: to_share_def share_of_u64_small)
qed

lemma to_share_in_int64: "to_share F w = Inr x \<Longrightarrow> in_int64 x"
  using sint_range_size [where 'a = 64]
  by (auto simp: to_share_def share_of_u64_def in_int64_def word_size)

end

text \<open>
  Checked 64-bit arithmetic satisfies the laws, so the hypothesis \<open>fc_arith F\<close> of the
  properties can hold; it is the instance at which the properties are evaluated on concrete
  inputs.
\<close>

definition chk64 :: "int \<Rightarrow> int result" where
  "chk64 x = (if in_int64 x then Inr x else Inl Overflow)"

definition fc64 :: fc_lib where
  "fc64 = \<lparr>safe_add = (\<lambda>a b. chk64 (a + b)), safe_sub = (\<lambda>a b. chk64 (a - b)),
     safe_mul = (\<lambda>a b. chk64 (a * b)), safe_neg = (\<lambda>a. chk64 (- a)),
     u128_to_uint64 = (\<lambda>w. if uint w < 2 ^ 64 then Inr (ucast w)
        else Inl (Assert_Exception ''hi == 0''))\<rparr>"

lemma chk64_Inr [simp]: "chk64 x = Inr c \<longleftrightarrow> c = x \<and> in_int64 c"
  by (auto simp: chk64_def)

interpretation fc64_arith: fc_arith fc64
  by unfold_locales (auto simp: fc64_def, auto simp: chk64_def)

lemmas fc64_eval = fc64_def chk64_def in_int64_def

end
