(* ===== verification/Asset_Price.thy ===== *)
theory Asset_Price
  imports Fc_Lib
begin

text \<open>
  Amounts and prices: \<open>libraries/chain/protocol/asset.cpp\<close> and
  \<open>include/graphene/chain/protocol/asset.hpp\<close>.  Products of two amounts are computed in
  128-bit unsigned arithmetic (\<open>boost::multiprecision::uint128_t\<close>), which is the type
  \<open>128 word\<close>; \<open>boost::rational<int128_t>\<close> is a pair in lowest terms with a positive
  denominator.
\<close>

subsection \<open>Constants of \<open>config.hpp\<close>\<close>

definition GRAPHENE_MAX_SHARE_SUPPLY :: int where
  "GRAPHENE_MAX_SHARE_SUPPLY = 1000000000000000000"

definition GRAPHENE_COLLATERAL_RATIO_DENOM :: int where
  "GRAPHENE_COLLATERAL_RATIO_DENOM = 1000"

definition GRAPHENE_MIN_COLLATERAL_RATIO :: int where
  "GRAPHENE_MIN_COLLATERAL_RATIO = 1001"

definition GRAPHENE_MAX_COLLATERAL_RATIO :: int where
  "GRAPHENE_MAX_COLLATERAL_RATIO = 32000"

definition GRAPHENE_100_PERCENT :: nat where "GRAPHENE_100_PERCENT = 10000"

lemmas config_defs = GRAPHENE_MAX_SHARE_SUPPLY_def GRAPHENE_COLLATERAL_RATIO_DENOM_def
  GRAPHENE_MIN_COLLATERAL_RATIO_def GRAPHENE_MAX_COLLATERAL_RATIO_def

subsection \<open>Assets\<close>

type_synonym asset_id_type = nat
type_synonym account_id_type = nat

record asset =
  amount :: int
  asset_id :: asset_id_type

abbreviation mk_asset :: "int \<Rightarrow> asset_id_type \<Rightarrow> asset" where
  "mk_asset a i \<equiv> \<lparr>amount = a, asset_id = i\<rparr>"

definition asset_plus :: "fc_lib \<Rightarrow> asset \<Rightarrow> asset \<Rightarrow> asset result" where
  "asset_plus F a b =
     require (asset_id a = asset_id b) ''asset_id == o.asset_id''
       (bind_res (safe_add F (amount a) (amount b)) (\<lambda>s. Inr (mk_asset s (asset_id a))))"

definition asset_minus :: "fc_lib \<Rightarrow> asset \<Rightarrow> asset \<Rightarrow> asset result" where
  "asset_minus F a b =
     require (asset_id a = asset_id b) ''asset_id == o.asset_id''
       (bind_res (safe_sub F (amount a) (amount b)) (\<lambda>s. Inr (mk_asset s (asset_id a))))"

definition asset_neg :: "fc_lib \<Rightarrow> asset \<Rightarrow> asset result" where
  "asset_neg F a = bind_res (safe_neg F (amount a)) (\<lambda>s. Inr (mk_asset s (asset_id a)))"

definition asset_less :: "asset \<Rightarrow> asset \<Rightarrow> bool result" where
  "asset_less a b =
     require (asset_id a = asset_id b) ''a.asset_id == b.asset_id'' (Inr (amount a < amount b))"

definition asset_le :: "asset \<Rightarrow> asset \<Rightarrow> bool result" where
  "asset_le a b = (if a = b then Inr True else asset_less a b)"

definition asset_greater :: "asset \<Rightarrow> asset \<Rightarrow> bool result" where
  "asset_greater a b = bind_res (asset_le a b) (\<lambda>x. Inr (\<not> x))"

definition asset_ge :: "asset \<Rightarrow> asset \<Rightarrow> bool result" where
  "asset_ge a b = bind_res (asset_less a b) (\<lambda>x. Inr (\<not> x))"

definition scaled_precision :: "nat \<Rightarrow> int result" where
  "scaled_precision precision = require (precision < 19) ''precision < 19'' (Inr (10 ^ precision))"

subsection \<open>Prices\<close>

record price =
  base :: asset
  quote :: asset

abbreviation mk_price :: "asset \<Rightarrow> asset \<Rightarrow> price" where
  "mk_price b q \<equiv> \<lparr>base = b, quote = q\<rparr>"

definition price_default :: price where
  "price_default = mk_price (mk_asset 0 0) (mk_asset 0 0)"

abbreviation to_u128 :: "int \<Rightarrow> u128" where
  "to_u128 \<equiv> word_of_int"

definition price_eq :: "price \<Rightarrow> price \<Rightarrow> bool" where
  "price_eq a b =
     (if asset_id (base a) \<noteq> asset_id (base b) \<or> asset_id (quote a) \<noteq> asset_id (quote b) then False
      else let amult = to_u128 (amount (quote b)) * to_u128 (amount (base a));
               bmult = to_u128 (amount (quote a)) * to_u128 (amount (base b))
           in amult = bmult)"

definition price_less :: "price \<Rightarrow> price \<Rightarrow> bool" where
  "price_less a b =
     (if asset_id (base a) < asset_id (base b) then True
      else if asset_id (base a) > asset_id (base b) then False
      else if asset_id (quote a) < asset_id (quote b) then True
      else if asset_id (quote a) > asset_id (quote b) then False
      else let amult = to_u128 (amount (quote b)) * to_u128 (amount (base a));
               bmult = to_u128 (amount (quote a)) * to_u128 (amount (base b))
           in amult < bmult)"

definition price_le :: "price \<Rightarrow> price \<Rightarrow> bool" where
  "price_le a b \<longleftrightarrow> price_eq a b \<or> price_less a b"

definition price_greater :: "price \<Rightarrow> price \<Rightarrow> bool" where
  "price_greater a b \<longleftrightarrow> \<not> price_le a b"

definition price_ge :: "price \<Rightarrow> price \<Rightarrow> bool" where
  "price_ge a b \<longleftrightarrow> \<not> price_less a b"

definition price_inv :: "price \<Rightarrow> price" where
  "price_inv p = mk_price (quote p) (base p)"

definition price_of :: "asset \<Rightarrow> asset \<Rightarrow> price result" where
  "price_of b q = require (asset_id b \<noteq> asset_id q) ''base.asset_id != quote.asset_id'' (Inr (mk_price b q))"

definition price_max :: "asset_id_type \<Rightarrow> asset_id_type \<Rightarrow> price result" where
  "price_max b q = price_of (mk_asset GRAPHENE_MAX_SHARE_SUPPLY b) (mk_asset 1 q)"

definition price_min :: "asset_id_type \<Rightarrow> asset_id_type \<Rightarrow> price result" where
  "price_min b q = price_of (mk_asset 1 b) (mk_asset GRAPHENE_MAX_SHARE_SUPPLY q)"

definition price_is_null :: "price \<Rightarrow> bool" where
  "price_is_null p = price_eq p price_default"

definition price_validate :: "price \<Rightarrow> unit result" where
  "price_validate p =
     require (amount (base p) > 0) ''base.amount > share_type(0)''
    (require (amount (quote p) > 0) ''quote.amount > share_type(0)''
    (require (asset_id (base p) \<noteq> asset_id (quote p)) ''base.asset_id != quote.asset_id''
    (Inr ())))"

text \<open>
  Multiplying an amount by a price converts it to the other asset of the price; the operator
  rounds down, \<open>multiply_and_round_up\<close> rounds up.
\<close>

definition mul_price :: "asset \<Rightarrow> price \<Rightarrow> asset result" where
  "mul_price a b =
     (if asset_id a = asset_id (base b) then
        require (amount (base b) > 0) ''b.base.amount.value > 0''
          (let r = (to_u128 (amount a) * to_u128 (amount (quote b))) div to_u128 (amount (base b))
           in require (r \<le> to_u128 GRAPHENE_MAX_SHARE_SUPPLY) ''result <= GRAPHENE_MAX_SHARE_SUPPLY''
                (Inr (mk_asset (uint r) (asset_id (quote b)))))
      else if asset_id a = asset_id (quote b) then
        require (amount (quote b) > 0) ''b.quote.amount.value > 0''
          (let r = (to_u128 (amount a) * to_u128 (amount (base b))) div to_u128 (amount (quote b))
           in require (r \<le> to_u128 GRAPHENE_MAX_SHARE_SUPPLY) ''result <= GRAPHENE_MAX_SHARE_SUPPLY''
                (Inr (mk_asset (uint r) (asset_id (base b)))))
      else Inl (Assert_Exception ''invalid asset * price''))"

definition multiply_and_round_up :: "asset \<Rightarrow> price \<Rightarrow> asset result" where
  "multiply_and_round_up a b =
     (if asset_id a = asset_id (base b) then
        require (amount (base b) > 0) ''b.base.amount.value > 0''
          (let r = (to_u128 (amount a) * to_u128 (amount (quote b))
                     + to_u128 (amount (base b)) - 1) div to_u128 (amount (base b))
           in require (r \<le> to_u128 GRAPHENE_MAX_SHARE_SUPPLY) ''result <= GRAPHENE_MAX_SHARE_SUPPLY''
                (Inr (mk_asset (uint r) (asset_id (quote b)))))
      else if asset_id a = asset_id (quote b) then
        require (amount (quote b) > 0) ''b.quote.amount.value > 0''
          (let r = (to_u128 (amount a) * to_u128 (amount (base b))
                     + to_u128 (amount (quote b)) - 1) div to_u128 (amount (quote b))
           in require (r \<le> to_u128 GRAPHENE_MAX_SHARE_SUPPLY) ''result <= GRAPHENE_MAX_SHARE_SUPPLY''
                (Inr (mk_asset (uint r) (asset_id (base b)))))
      else Inl (Assert_Exception ''invalid asset::multiply_and_round_up(price)''))"

subsection \<open>Call prices and feeds\<close>

text \<open>
  A rational number in lowest terms.  The loops below halve numerator and denominator until
  both fit into the share range; \<open>call_price\<close> adds one to each half, the short-squeeze
  price rounds each half up.
\<close>

definition rat_norm :: "int \<Rightarrow> int \<Rightarrow> int \<times> int" where
  "rat_norm n d = (let g = gcd n d in if d < 0 then (- (n div g), - (d div g)) else (n div g, d div g))"

definition rational :: "int \<Rightarrow> int \<Rightarrow> (int \<times> int) result" where
  "rational n d = (if d = 0 then Inl Bad_Rational else Inr (rat_norm n d))"

lemma abs_div_gcd_le: "\<bar>n div gcd n d\<bar> \<le> \<bar>n\<bar>" "\<bar>d div gcd n d\<bar> \<le> \<bar>d\<bar>" for n d :: int
proof -
  have *: "\<bar>x div g\<bar> \<le> \<bar>x\<bar>" if "g dvd x" "0 \<le> g" for x g :: int
  proof (cases "g = 0")
    case False
    from that obtain k where k: "x = g * k" by (elim dvdE)
    then have "x div g = k" using False by simp
    moreover have "1 * \<bar>k\<bar> \<le> g * \<bar>k\<bar>" using that False by (intro mult_right_mono) auto
    ultimately show ?thesis using k that by (simp add: abs_mult)
  qed (use that in simp)
  show "\<bar>n div gcd n d\<bar> \<le> \<bar>n\<bar>" "\<bar>d div gcd n d\<bar> \<le> \<bar>d\<bar>"
    by (rule *; simp)+
qed

lemma rat_norm_abs_le: "\<bar>fst (rat_norm n d)\<bar> \<le> \<bar>n\<bar>" "\<bar>snd (rat_norm n d)\<bar> \<le> \<bar>d\<bar>"
  using abs_div_gcd_le [where n = n and d = d] by (auto simp: rat_norm_def Let_def)

lemma sum_less_chain:
  fixes x y p u v q :: int
  assumes "x \<le> y" "u \<le> v" "y < p \<or> v < q" "y \<le> p" "v \<le> q"
  shows "x + u < p + q"
  using assms by linarith

lemma sum_less_chain':
  fixes x y p u v q :: int
  assumes "x \<le> y" "u \<le> v" "y < p - 1 \<or> v < q - 1" "y \<le> p + 1" "v \<le> q + 1"
  shows "x + u < p + q"
  using assms by linarith

lemma half_up_abs: "\<bar>x div 2 + x mod 2\<bar> \<le> \<bar>x\<bar>" for x :: int
  by presburger

lemma half_up_less: "1 < x \<Longrightarrow> \<bar>x div 2 + x mod 2\<bar> < \<bar>x\<bar>" for x :: int
  by presburger

lemma half_inc_abs: "\<bar>x div 2 + 1\<bar> \<le> \<bar>x\<bar> + 1" for x :: int
  by presburger

lemma half_inc_less: "5 < x \<Longrightarrow> \<bar>x div 2 + 1\<bar> < \<bar>x\<bar> - 1" for x :: int
  by presburger

function call_price_shrink :: "int \<Rightarrow> int \<Rightarrow> int \<times> int" where
  "call_price_shrink n d =
     (if n > GRAPHENE_MAX_SHARE_SUPPLY \<or> d > GRAPHENE_MAX_SHARE_SUPPLY then
        (case rat_norm (n div 2 + 1) (d div 2 + 1) of (n', d') \<Rightarrow> call_price_shrink n' d')
      else (n, d))"
  by pat_completeness auto
termination
proof (relation "measure (\<lambda>(n, d). nat (\<bar>n\<bar> + \<bar>d\<bar>))", goal_cases)
  case (2 n d n' d')
  from rat_norm_abs_le [of "n div 2 + 1" "d div 2 + 1"]
  have "\<bar>n'\<bar> \<le> \<bar>n div 2 + 1\<bar>" "\<bar>d'\<bar> \<le> \<bar>d div 2 + 1\<bar>" by (simp_all add: 2(2) [symmetric])
  moreover from 2(1) have "5 < n \<or> 5 < d" by (auto simp: GRAPHENE_MAX_SHARE_SUPPLY_def)
  then have "\<bar>n div 2 + 1\<bar> < \<bar>n\<bar> - 1 \<or> \<bar>d div 2 + 1\<bar> < \<bar>d\<bar> - 1"
    using half_inc_less by blast
  ultimately have "\<bar>n'\<bar> + \<bar>d'\<bar> < \<bar>n\<bar> + \<bar>d\<bar>"
    using half_inc_abs [of n] half_inc_abs [of d] sum_less_chain' by blast
  then show ?case by simp
qed simp

declare call_price_shrink.simps [simp del]

definition call_price :: "asset \<Rightarrow> asset \<Rightarrow> nat \<Rightarrow> price result" where
  "call_price debt collateral collateral_ratio =
     bind_res (rational (amount debt) (amount collateral)) (\<lambda>swan.
     bind_res (rational (int collateral_ratio) GRAPHENE_COLLATERAL_RATIO_DENOM) (\<lambda>ratio.
     bind_res (rational (fst swan * fst ratio) (snd swan * snd ratio)) (\<lambda>cp0.
       let cp = call_price_shrink (fst cp0) (snd cp0) in
       bind_res (price_of (mk_asset (fst cp) (asset_id debt)) (mk_asset (snd cp) (asset_id collateral)))
         (\<lambda>p. Inr (price_inv p)))))"

record price_feed =
  settlement_price :: price
  core_exchange_rate :: price
  maintenance_collateral_ratio :: nat
  maximum_short_squeeze_ratio :: nat

function squeeze_shrink :: "int \<Rightarrow> int \<Rightarrow> int \<times> int" where
  "squeeze_shrink n d =
     (if n > GRAPHENE_MAX_SHARE_SUPPLY \<or> d > GRAPHENE_MAX_SHARE_SUPPLY then
        (case rat_norm (n div 2 + n mod 2) (d div 2 + d mod 2) of (n', d') \<Rightarrow> squeeze_shrink n' d')
      else (n, d))"
  by pat_completeness auto
termination
proof (relation "measure (\<lambda>(n, d). nat (\<bar>n\<bar> + \<bar>d\<bar>))", goal_cases)
  case (2 n d n' d')
  from rat_norm_abs_le [of "n div 2 + n mod 2" "d div 2 + d mod 2"]
  have "\<bar>n'\<bar> \<le> \<bar>n div 2 + n mod 2\<bar>" "\<bar>d'\<bar> \<le> \<bar>d div 2 + d mod 2\<bar>" by (simp_all add: 2(2) [symmetric])
  moreover from 2(1) have "1 < n \<or> 1 < d" by (auto simp: GRAPHENE_MAX_SHARE_SUPPLY_def)
  then have "\<bar>n div 2 + n mod 2\<bar> < \<bar>n\<bar> \<or> \<bar>d div 2 + d mod 2\<bar> < \<bar>d\<bar>"
    using half_up_less by blast
  ultimately have "\<bar>n'\<bar> + \<bar>d'\<bar> < \<bar>n\<bar> + \<bar>d\<bar>"
    using half_up_abs [of n] half_up_abs [of d] sum_less_chain by blast
  then show ?case by simp
qed simp

declare squeeze_shrink.simps [simp del]

definition max_short_squeeze_price :: "price_feed \<Rightarrow> price result" where
  "max_short_squeeze_price f =
     bind_res (rational (amount (base (settlement_price f))) (amount (quote (settlement_price f)))) (\<lambda>sp.
     bind_res (rational GRAPHENE_COLLATERAL_RATIO_DENOM (int (maximum_short_squeeze_ratio f))) (\<lambda>ratio.
     bind_res (rational (fst sp * fst ratio) (snd sp * snd ratio)) (\<lambda>cp0.
       let cp = squeeze_shrink (fst cp0) (snd cp0) in
       price_of (mk_asset (fst cp) (asset_id (base (settlement_price f))))
                (mk_asset (snd cp) (asset_id (quote (settlement_price f)))))))"

definition price_feed_validate :: "price_feed \<Rightarrow> unit result" where
  "price_feed_validate f =
     bind_res (if price_is_null (settlement_price f) then Inr () else price_validate (settlement_price f)) (\<lambda>_.
     require (int (maximum_short_squeeze_ratio f) \<ge> GRAPHENE_MIN_COLLATERAL_RATIO) ''maximum_short_squeeze_ratio >= GRAPHENE_MIN_COLLATERAL_RATIO''
    (require (int (maximum_short_squeeze_ratio f) \<le> GRAPHENE_MAX_COLLATERAL_RATIO) ''maximum_short_squeeze_ratio <= GRAPHENE_MAX_COLLATERAL_RATIO''
    (require (int (maintenance_collateral_ratio f) \<ge> GRAPHENE_MIN_COLLATERAL_RATIO) ''maintenance_collateral_ratio >= GRAPHENE_MIN_COLLATERAL_RATIO''
    (require (int (maintenance_collateral_ratio f) \<le> GRAPHENE_MAX_COLLATERAL_RATIO) ''maintenance_collateral_ratio <= GRAPHENE_MAX_COLLATERAL_RATIO''
    (bind_res (max_short_squeeze_price f) (\<lambda>_. Inr ()))))))"

definition price_feed_is_for :: "price_feed \<Rightarrow> asset_id_type \<Rightarrow> bool" where
  "price_feed_is_for f i =
     (if \<not> price_is_null (settlement_price f) then asset_id (base (settlement_price f)) = i
      else if \<not> price_is_null (core_exchange_rate f) then asset_id (base (core_exchange_rate f)) = i
      else True)"

subsection \<open>Conversion by a price\<close>

text \<open>Amounts and prices as the chain holds them: non-negative, positive, within \<open>int64_t\<close>.\<close>

definition amount_ok :: "asset \<Rightarrow> bool" where
  "amount_ok a \<longleftrightarrow> 0 \<le> amount a \<and> in_int64 (amount a)"

definition price_ok :: "price \<Rightarrow> bool" where
  "price_ok p \<longleftrightarrow> 0 < amount (base p) \<and> 0 < amount (quote p)
     \<and> in_int64 (amount (base p)) \<and> in_int64 (amount (quote p))
     \<and> asset_id (base p) \<noteq> asset_id (quote p)"

lemma price_ok_inv [simp]: "price_ok (price_inv p) \<longleftrightarrow> price_ok p"
  by (auto simp: price_ok_def price_inv_def)

lemma u128_mul_div:
  assumes "0 \<le> a" "0 \<le> q" "0 < b" "in_int64 a" "in_int64 q" "in_int64 b"
  shows "uint ((to_u128 a * to_u128 q) div to_u128 b) = a * q div b"
proof -
  have "a * q < 2 ^ 126" using assms by (intro int64_product_bounds) auto
  then have "uint ((word_of_int (a * q) :: u128) div word_of_int b) = a * q div b"
    using assms by (intro word_of_int_u128_div) (auto simp: in_int64_def)
  then show ?thesis by simp
qed

lemma u128_mul_div_up:
  assumes "0 \<le> a" "0 \<le> q" "0 < b" "in_int64 a" "in_int64 q" "in_int64 b"
  shows "uint ((to_u128 a * to_u128 q + to_u128 b - 1) div to_u128 b) = (a * q + b - 1) div b"
proof -
  have "a * q < 2 ^ 126" using assms by (intro int64_product_bounds) auto
  moreover have "0 \<le> a * q" using assms by simp
  moreover have "b < 2 ^ 63" using assms by (simp add: in_int64_def)
  ultimately have "0 \<le> a * q + b - 1" "a * q + b - 1 < 2 ^ 128" "b < 2 ^ 128"
    using assms(3) by auto
  then have "uint ((word_of_int (a * q + b - 1) :: u128) div word_of_int b) = (a * q + b - 1) div b"
    using assms(3) by (intro word_of_int_u128_div) auto
  then show ?thesis by simp
qed

lemma u128_le_max_supply: "(r :: u128) \<le> to_u128 GRAPHENE_MAX_SHARE_SUPPLY \<longleftrightarrow> uint r \<le> GRAPHENE_MAX_SHARE_SUPPLY"
  by (simp add: word_le_def GRAPHENE_MAX_SHARE_SUPPLY_def)

lemma mul_price_base:
  assumes "amount_ok a" "price_ok p" "asset_id a = asset_id (base p)"
  shows "mul_price a p = Inr c \<longleftrightarrow>
    c = mk_asset (amount a * amount (quote p) div amount (base p)) (asset_id (quote p))
    \<and> amount c \<le> GRAPHENE_MAX_SHARE_SUPPLY"
  using assms
  by (auto simp: mul_price_def Let_def amount_ok_def price_ok_def u128_le_max_supply u128_mul_div)

lemma mul_price_quote:
  assumes "amount_ok a" "price_ok p" "asset_id a = asset_id (quote p)"
  shows "mul_price a p = Inr c \<longleftrightarrow>
    c = mk_asset (amount a * amount (base p) div amount (quote p)) (asset_id (base p))
    \<and> amount c \<le> GRAPHENE_MAX_SHARE_SUPPLY"
  using assms
  by (auto simp: mul_price_def Let_def amount_ok_def price_ok_def u128_le_max_supply u128_mul_div)

lemma round_up_base:
  assumes "amount_ok a" "price_ok p" "asset_id a = asset_id (base p)"
  shows "multiply_and_round_up a p = Inr c \<longleftrightarrow>
    c = mk_asset ((amount a * amount (quote p) + amount (base p) - 1) div amount (base p)) (asset_id (quote p))
    \<and> amount c \<le> GRAPHENE_MAX_SHARE_SUPPLY"
  using assms
  by (auto simp: multiply_and_round_up_def Let_def amount_ok_def price_ok_def u128_le_max_supply u128_mul_div_up)

lemma round_up_quote:
  assumes "amount_ok a" "price_ok p" "asset_id a = asset_id (quote p)"
  shows "multiply_and_round_up a p = Inr c \<longleftrightarrow>
    c = mk_asset ((amount a * amount (base p) + amount (quote p) - 1) div amount (quote p)) (asset_id (base p))
    \<and> amount c \<le> GRAPHENE_MAX_SHARE_SUPPLY"
  using assms
  by (auto simp: multiply_and_round_up_def Let_def amount_ok_def price_ok_def u128_le_max_supply u128_mul_div_up)

lemmas mul_price_baseD = mul_price_base [THEN iffD1]
lemmas mul_price_quoteD = mul_price_quote [THEN iffD1]
lemmas round_up_baseD = round_up_base [THEN iffD1]
lemmas round_up_quoteD = round_up_quote [THEN iffD1]

text \<open>An amount can be converted only when it is of one of the two assets of the price.\<close>

lemma mul_price_asset:
  "mul_price a p = Inr c \<Longrightarrow> asset_id a = asset_id (base p) \<or> asset_id a = asset_id (quote p)"
  by (auto simp: mul_price_def split: if_splits)

lemma mul_price_bounds:
  assumes "amount_ok a" "price_ok p" "mul_price a p = Inr c"
  shows "0 \<le> amount c" "amount c \<le> GRAPHENE_MAX_SHARE_SUPPLY" "amount_ok c"
proof -
  from mul_price_asset [OF assms(3)] have "0 \<le> amount c \<and> amount c \<le> GRAPHENE_MAX_SHARE_SUPPLY"
    using assms(1,2) mul_price_baseD [OF assms(1,2) _ assms(3)] mul_price_quoteD [OF assms(1,2) _ assms(3)]
    by (auto simp: amount_ok_def price_ok_def pos_imp_zdiv_nonneg_iff)
  then show "0 \<le> amount c" "amount c \<le> GRAPHENE_MAX_SHARE_SUPPLY" "amount_ok c"
    by (auto simp: amount_ok_def in_int64_def GRAPHENE_MAX_SHARE_SUPPLY_def)
qed

text \<open>C15: An amount in the base asset of a price is converted to the quote asset by exact integer
  arithmetic, rounded down: the 128-bit product never wraps, the result is
  \<open>amount * quote / base\<close>, and the conversion fails exactly when that exceeds the maximum
  share supply.
\<close>

theorem mul_price_exact:
  assumes "amount_ok a" "price_ok p" "asset_id a = asset_id (base p)"
  shows "mul_price a p =
    (let r = amount a * amount (quote p) div amount (base p)
     in if r \<le> GRAPHENE_MAX_SHARE_SUPPLY then Inr (mk_asset r (asset_id (quote p)))
        else Inl (Assert_Exception ''result <= GRAPHENE_MAX_SHARE_SUPPLY''))"
  using assms
  by (simp add: mul_price_def Let_def amount_ok_def price_ok_def u128_le_max_supply u128_mul_div require_def)

theorem mul_price_exact_witness:
  "mul_price (mk_asset 7 1) (mk_price (mk_asset 2 1) (mk_asset 3 0)) = Inr (mk_asset 10 0)"
proof -
  let ?p = "mk_price (mk_asset 2 1) (mk_asset 3 0)" and ?a = "mk_asset 7 1"
  have "amount_ok ?a" "price_ok ?p" "asset_id ?a = asset_id (base ?p)"
    by (simp_all add: amount_ok_def price_ok_def in_int64_def)
  from mul_price_exact [OF this] show ?thesis by (simp add: GRAPHENE_MAX_SHARE_SUPPLY_def)
qed

text \<open>C17: Converting an amount through a price and the result back through the same price never
  yields more than the original amount: rounding down cannot create value.
\<close>

theorem mul_price_roundtrip_le:
  assumes a: "amount_ok a" and p: "price_ok p"
    and there: "mul_price a p = Inr b" and ret: "mul_price b p = Inr c"
  shows "asset_id c = asset_id a \<and> amount c \<le> amount a"
proof -
  have b: "amount_ok b" by (rule mul_price_bounds [OF a p there])
  have *: "(x * q div bs) * bs div q \<le> x" if "0 < bs" "0 < q" for x q bs :: int
  proof -
    have "(x * q div bs) * bs div q \<le> x * q div q"
      using floor_div_le [OF that(1), of "x * q"] that by (intro zdiv_mono1) auto
    then show ?thesis using that by simp
  qed
  from mul_price_asset [OF there] show ?thesis
  proof
    assume "asset_id a = asset_id (base p)"
    moreover from mul_price_baseD [OF a p this there]
    have "amount b = amount a * amount (quote p) div amount (base p)" "asset_id b = asset_id (quote p)"
      by simp_all
    ultimately show ?thesis
      using mul_price_quoteD [OF b p _ ret] p * by (simp add: price_ok_def)
  next
    assume "asset_id a = asset_id (quote p)"
    moreover from mul_price_quoteD [OF a p this there]
    have "amount b = amount a * amount (base p) div amount (quote p)" "asset_id b = asset_id (base p)"
      by simp_all
    ultimately show ?thesis
      using mul_price_baseD [OF b p _ ret] p * by (simp add: price_ok_def)
  qed
qed

theorem mul_price_roundtrip_le_witness:
  "amount (mk_asset 6 1) \<le> amount (mk_asset 7 1)"
proof -
  let ?p = "mk_price (mk_asset 2 1) (mk_asset 3 0)"
  have ok: "amount_ok (mk_asset 7 1)" "price_ok ?p"
    by (simp_all add: amount_ok_def price_ok_def in_int64_def)
  have "mul_price (mk_asset 7 1) ?p = Inr (mk_asset 10 0)"
    "mul_price (mk_asset 10 0) ?p = Inr (mk_asset 6 1)"
    by (simp_all add: mul_price_def GRAPHENE_MAX_SHARE_SUPPLY_def)
  from mul_price_roundtrip_le [OF ok this] show ?thesis by simp
qed

text \<open>C16: \<open>multiply_and_round_up\<close> is the smallest payment that still covers an amount: an
  amount \<open>x\<close> of the quote asset converts back to at least the given base amount exactly when
  \<open>x\<close> is at least the rounded-up conversion.
\<close>

theorem round_up_is_least_cover:
  assumes a: "amount_ok a" and p: "price_ok p" and ida: "asset_id a = asset_id (base p)"
    and up: "multiply_and_round_up a p = Inr c"
    and x: "amount_ok (mk_asset x (asset_id (quote p)))"
    and conv: "mul_price (mk_asset x (asset_id (quote p))) p = Inr y"
  shows "amount a \<le> amount y \<longleftrightarrow> amount c \<le> x"
proof -
  have pos: "0 < amount (base p)" "0 < amount (quote p)" using p by (simp_all add: price_ok_def)
  have "amount y = x * amount (base p) div amount (quote p)"
    using mul_price_quoteD [OF x p _ conv] by simp
  then have "amount a \<le> amount y \<longleftrightarrow> amount a * amount (quote p) \<le> x * amount (base p)"
    by (simp add: le_div_iff [OF pos(2)])
  also have "\<dots> \<longleftrightarrow> (amount a * amount (quote p) + amount (base p) - 1) div amount (base p) \<le> x"
    by (simp add: ceil_div_le_iff [OF pos(1)])
  also have "\<dots> \<longleftrightarrow> amount c \<le> x"
    using round_up_baseD [OF a p ida up] by simp
  finally show ?thesis .
qed

theorem round_up_is_least_cover_witness:
  "amount (mk_asset 7 1) \<le> amount (mk_asset 7 1) \<longleftrightarrow> amount (mk_asset 11 0) \<le> (11 :: int)"
proof -
  let ?p = "mk_price (mk_asset 2 1) (mk_asset 3 0)"
  have ok: "amount_ok (mk_asset 7 1)" "price_ok ?p" "asset_id (mk_asset 7 1) = asset_id (base ?p)"
    by (simp_all add: amount_ok_def price_ok_def in_int64_def)
  have up: "multiply_and_round_up (mk_asset 7 1) ?p = Inr (mk_asset 11 0)"
    by (simp add: multiply_and_round_up_def GRAPHENE_MAX_SHARE_SUPPLY_def)
  have "amount_ok (mk_asset 11 (asset_id (quote ?p)))"
    "mul_price (mk_asset 11 (asset_id (quote ?p))) ?p = Inr (mk_asset 7 1)"
    by (simp_all add: amount_ok_def in_int64_def mul_price_def GRAPHENE_MAX_SHARE_SUPPLY_def)
  from round_up_is_least_cover [OF ok up this] show ?thesis by simp
qed

text \<open>The arithmetic of amounts and prices always ends.\<close>

lemma ends_price [simp]: "ends (mul_price a p)" "ends (multiply_and_round_up a p)" "ends (call_price x y r)"
    "ends (price_of x y)" "ends (price_max i j)" "ends (price_min i j)" "ends (price_validate p)"
    "ends (max_short_squeeze_price f)" "ends (asset_less a b)" "ends (asset_le a b)" "ends (asset_greater a b)" "ends (asset_ge a b)"
  by (auto simp: mul_price_def multiply_and_round_up_def call_price_def price_of_def price_max_def price_min_def
      price_validate_def max_short_squeeze_price_def rational_def asset_less_def asset_le_def asset_greater_def asset_ge_def Let_def)

context fc_arith
begin

lemma ends_asset [simp]: "ends (asset_plus F a b)" "ends (asset_minus F a b)" "ends (asset_neg F a)"
  by (simp_all add: asset_plus_def asset_minus_def asset_neg_def fc_ends)

end

subsection \<open>The order on prices\<close>

definition same_market :: "price \<Rightarrow> price \<Rightarrow> bool" where
  "same_market p q \<longleftrightarrow> asset_id (base p) = asset_id (base q) \<and> asset_id (quote p) = asset_id (quote q)"

lemma u128_cross:
  assumes "price_ok p" "price_ok q"
  shows "uint (to_u128 (amount (quote q)) * to_u128 (amount (base p))) = amount (quote q) * amount (base p)"
proof -
  have "amount (quote q) * amount (base p) < 2 ^ 126"
    using assms by (intro int64_product_bounds) (auto simp: price_ok_def)
  moreover have "0 \<le> amount (quote q) * amount (base p)"
    using assms by (simp add: price_ok_def)
  ultimately have "uint (word_of_int (amount (quote q) * amount (base p)) :: u128) = amount (quote q) * amount (base p)"
    by (intro uint_word_of_int_u128) auto
  then show ?thesis by simp
qed

lemma price_eq_iff:
  assumes "price_ok p" "price_ok q"
  shows "price_eq p q \<longleftrightarrow> same_market p q \<and> amount (base p) * amount (quote q) = amount (base q) * amount (quote p)"
  using assms u128_cross [of p q] u128_cross [of q p]
  by (auto simp: price_eq_def same_market_def Let_def word_uint_eq_iff mult.commute)

lemma price_less_iff:
  assumes "price_ok p" "price_ok q" "same_market p q"
  shows "price_less p q \<longleftrightarrow> amount (base p) * amount (quote q) < amount (base q) * amount (quote p)"
  using assms u128_cross [of p q] u128_cross [of q p]
  by (auto simp: price_less_def same_market_def Let_def word_less_def mult.commute)

lemma price_less_other_market:
  assumes "\<not> same_market p q"
  shows "price_less p q \<longleftrightarrow> (asset_id (base p), asset_id (quote p)) \<in> {(b, c). b < asset_id (base q) \<or> b = asset_id (base q) \<and> c < asset_id (quote q)}"
  using assms by (auto simp: price_less_def same_market_def)

lemma cross_less_trans:
  fixes a b c :: int
  assumes "a * y < b * x" "b * z < c * y" "0 < x" "0 < y" "0 < z"
  shows "a * z < c * x"
proof -
  have "(a * y) * z < (b * x) * z" using assms by simp
  also have "\<dots> = (b * z) * x" by simp
  also have "\<dots> < (c * y) * x" using assms by simp
  finally have "(a * z) * y < (c * x) * y" by (simp add: ac_simps)
  then show ?thesis using assms by simp
qed

lemma price_less_trans:
  assumes ok: "price_ok p" "price_ok q" "price_ok r" and less: "price_less p q" "price_less q r"
  shows "price_less p r"
proof (cases "same_market p q \<and> same_market q r")
  case True
  then have m: "same_market p q" "same_market q r" "same_market p r" by (auto simp: same_market_def)
  show ?thesis
    using less ok cross_less_trans [of "amount (base p)" "amount (quote q)" "amount (base q)" "amount (quote p)"
        "amount (quote r)" "amount (base r)"]
    unfolding price_less_iff [OF ok(1,2) m(1)] price_less_iff [OF ok(2,3) m(2)] price_less_iff [OF ok(1,3) m(3)]
    by (simp add: price_ok_def)
next
  case False
  then show ?thesis using less
    by (auto simp: price_less_def same_market_def split: if_splits)
qed

lemma price_trichotomy:
  assumes "price_ok a" "price_ok b"
  shows "(price_less a b \<and> \<not> price_eq a b \<and> \<not> price_less b a)
       \<or> (\<not> price_less a b \<and> price_eq a b \<and> \<not> price_less b a)
       \<or> (\<not> price_less a b \<and> \<not> price_eq a b \<and> price_less b a)"
proof (cases "same_market a b")
  case True
  then have "same_market b a" by (simp add: same_market_def)
  then show ?thesis
    using True price_less_iff [OF assms True] price_less_iff [OF assms(2,1)] price_eq_iff [OF assms]
    by auto
next
  case False
  then show ?thesis
    using price_eq_iff [OF assms] by (auto simp: price_less_def same_market_def)
qed

lemma price_eq_sym:
  assumes "price_ok a" "price_ok b"
  shows "price_eq a b = price_eq b a"
  using price_eq_iff [OF assms] price_eq_iff [OF assms(2,1)] by (auto simp: same_market_def)

text \<open>C18: On well-formed prices \<open>operator <\<close> is a strict total preorder with \<open>operator ==\<close> as its
  equivalence: exactly one of \<open>a < b\<close>, \<open>a == b\<close>, \<open>b < a\<close> holds, \<open><\<close> is transitive, and
  \<open>>\<close> and \<open>>=\<close> are its converses.  This is what the ordered order-book indices rely on.
\<close>

theorem price_order:
  assumes "price_ok a" "price_ok b" "price_ok c"
  shows "((price_less a b \<and> \<not> price_eq a b \<and> \<not> price_less b a)
       \<or> (\<not> price_less a b \<and> price_eq a b \<and> \<not> price_less b a)
       \<or> (\<not> price_less a b \<and> \<not> price_eq a b \<and> price_less b a))
    \<and> (price_less a b \<and> price_less b c \<longrightarrow> price_less a c)
    \<and> (price_greater a b \<longleftrightarrow> price_less b a)
    \<and> (price_ge a b \<longleftrightarrow> price_le b a)"
proof (intro conjI)
  note tri = price_trichotomy [OF assms(1,2)]
  note sym = price_eq_sym [OF assms(1,2)]
  show "(price_less a b \<and> \<not> price_eq a b \<and> \<not> price_less b a)
       \<or> (\<not> price_less a b \<and> price_eq a b \<and> \<not> price_less b a)
       \<or> (\<not> price_less a b \<and> \<not> price_eq a b \<and> price_less b a)" by (rule tri)
  show "price_less a b \<and> price_less b c \<longrightarrow> price_less a c"
    using price_less_trans assms by blast
  show "price_greater a b \<longleftrightarrow> price_less b a" "price_ge a b \<longleftrightarrow> price_le b a"
    using tri sym by (auto simp: price_greater_def price_ge_def price_le_def)
qed

theorem price_order_witness:
  "price_less (mk_price (mk_asset 1 1) (mk_asset 3 0)) (mk_price (mk_asset 5 1) (mk_asset 7 0))"
proof -
  let ?a = "mk_price (mk_asset 1 1) (mk_asset 3 0)" and ?b = "mk_price (mk_asset 1 1) (mk_asset 2 0)"
    and ?c = "mk_price (mk_asset 5 1) (mk_asset 7 0)"
  have ok: "price_ok ?a" "price_ok ?b" "price_ok ?c"
    by (simp_all add: price_ok_def in_int64_def)
  have "price_less ?a ?b" "price_less ?b ?c" by (simp_all add: price_less_def Let_def)
  with price_order [OF ok] show ?thesis by blast
qed

subsection \<open>Call prices stay in range\<close>

lemma rat_norm_pos:
  assumes "0 < n" "0 < d" "rat_norm n d = (n', d')"
  shows "0 < n'" "0 < d'" "n' * d = n * d'"
proof -
  let ?g = "gcd n d"
  have g: "0 < ?g" using assms by simp
  have e: "n' = n div ?g" "d' = d div ?g" using assms by (simp_all add: rat_norm_def Let_def)
  have nd: "n = ?g * n'" "d = ?g * d'" using e by simp_all
  from nd(1) assms(1) g show "0 < n'" by (metis zero_less_mult_pos)
  from nd(2) assms(2) g show "0 < d'" by (metis zero_less_mult_pos)
  have "n' * (?g * d') = (?g * n') * d'" by simp
  then show "n' * d = n * d'" using nd by metis
qed

lemma call_price_shrink_range:
  assumes "0 < n" "0 < d" "call_price_shrink n d = (n', d')"
  shows "0 < n' \<and> n' \<le> GRAPHENE_MAX_SHARE_SUPPLY \<and> 0 < d' \<and> d' \<le> GRAPHENE_MAX_SHARE_SUPPLY"
  using assms
proof (induction n d rule: call_price_shrink.induct)
  case (1 n d)
  show ?case
  proof (cases "n > GRAPHENE_MAX_SHARE_SUPPLY \<or> d > GRAPHENE_MAX_SHARE_SUPPLY")
    case True
    obtain m e where me: "rat_norm (n div 2 + 1) (d div 2 + 1) = (m, e)" by fastforce
    have "0 < n div 2 + 1" "0 < d div 2 + 1" using "1.prems" by (simp_all add: pos_imp_zdiv_nonneg_iff add_nonneg_pos)
    from rat_norm_pos [OF this me] have "0 < m" "0 < e" by simp_all
    moreover have "call_price_shrink m e = (n', d')"
      using "1.prems"(3) True me by (subst (asm) call_price_shrink.simps) simp
    ultimately show ?thesis using "1.IH" [OF True me [symmetric]] by simp
  next
    case False
    then show ?thesis using "1.prems" by (subst (asm) call_price_shrink.simps) auto
  qed
qed

text \<open>C19: For a positive debt, a positive collateral and a positive ratio the loop of
  \<open>price::call_price\<close> ends and the result is a valid price of collateral in debt whose two
  amounts lie between 1 and the maximum share supply, as its comment demands (the collateral
  part never goes to 0 and the debt never exceeds the maximum supply).
\<close>

theorem call_price_in_range:
  assumes "0 < amount debt" "0 < amount collateral" "0 < ratio"
    and "asset_id debt \<noteq> asset_id collateral"
  shows "\<exists>p. call_price debt collateral ratio = Inr p
    \<and> asset_id (base p) = asset_id collateral \<and> asset_id (quote p) = asset_id debt
    \<and> 1 \<le> amount (base p) \<and> amount (base p) \<le> GRAPHENE_MAX_SHARE_SUPPLY
    \<and> 1 \<le> amount (quote p) \<and> amount (quote p) \<le> GRAPHENE_MAX_SHARE_SUPPLY"
proof -
  obtain s1 s2 where s: "rat_norm (amount debt) (amount collateral) = (s1, s2)" by fastforce
  obtain r1 r2 where r: "rat_norm (int ratio) GRAPHENE_COLLATERAL_RATIO_DENOM = (r1, r2)" by fastforce
  obtain c1 c2 where c: "rat_norm (s1 * r1) (s2 * r2) = (c1, c2)" by fastforce
  obtain n d where nd: "call_price_shrink c1 c2 = (n, d)" by fastforce
  have "0 < s1" "0 < s2" "0 < r1" "0 < r2"
    using rat_norm_pos [OF _ _ s] rat_norm_pos [OF _ _ r] assms by (simp_all add: config_defs)
  moreover from this have "0 < c1" "0 < c2" using rat_norm_pos [OF _ _ c] by simp_all
  moreover from this nd have "0 < n \<and> n \<le> GRAPHENE_MAX_SHARE_SUPPLY \<and> 0 < d \<and> d \<le> GRAPHENE_MAX_SHARE_SUPPLY"
    by (rule call_price_shrink_range)
  ultimately show ?thesis
    using assms s r c nd
    by (auto simp: call_price_def rational_def price_of_def price_inv_def config_defs)
qed

theorem call_price_in_range_witness:
  "\<exists>p. call_price (mk_asset 1000 1) (mk_asset 3000 0) 1750 = Inr p
    \<and> asset_id (base p) = 0 \<and> asset_id (quote p) = 1 \<and> 1 \<le> amount (base p)"
  using call_price_in_range [of "mk_asset 1000 1" "mk_asset 3000 0" 1750] by auto

subsection \<open>Feeds with a null settlement price\<close>

lemma price_is_null_iff: "price_is_null p \<longleftrightarrow> asset_id (base p) = 0 \<and> asset_id (quote p) = 0"
  by (simp add: price_is_null_def price_eq_def price_default_def)

text \<open>C20: \<open>price_feed::validate\<close> skips the check of a null settlement price, but then calls
  \<open>max_short_squeeze_price\<close>, which throws on it: no feed with a null settlement price passes.
\<close>

theorem null_feed_never_validates:
  assumes "price_is_null (settlement_price f)"
  shows "\<exists>e. price_feed_validate f = Inl e"
proof -
  have "max_short_squeeze_price f \<noteq> Inr p" for p
    using assms by (auto simp: max_short_squeeze_price_def price_of_def price_is_null_iff Let_def)
  then have "price_feed_validate f \<noteq> Inr ()"
    by (auto simp: price_feed_validate_def)
  then show ?thesis by (cases "price_feed_validate f") auto
qed

theorem null_feed_never_validates_witness:
  "\<exists>e. price_feed_validate \<lparr>settlement_price = price_default, core_exchange_rate = price_default,
     maintenance_collateral_ratio = 1750, maximum_short_squeeze_ratio = 1500\<rparr> = Inl e"
  by (rule null_feed_never_validates) (simp add: price_is_null_iff price_default_def)

end
