(* ===== verification/Object_Table.thy ===== *)
theory Object_Table
  imports KHC_Prelude
begin

text \<open>
  Tables of objects that are created and removed: \<open>libraries/db/include/graphene/db/generic_index.hpp\<close>.
  An index hands out instance numbers in increasing order; its rows are kept here in the order of
  their ids, which is the order of the index \<open>by_id\<close>.  The other orders of a multi-index
  container are computed from the rows: \<open>sort_rows\<close> lists the rows in the order of a comparison
  of the objects, equal objects in the order of their ids.
\<close>

record 'o table =
  next_instance :: nat
  rows :: "(nat \<times> 'o) list"

definition empty_table :: "'o table" where
  "empty_table = \<lparr>next_instance = 0, rows = []\<rparr>"

definition tbl_find :: "'o table \<Rightarrow> nat \<Rightarrow> 'o option" where
  "tbl_find t i = map_of (rows t) i"

definition tbl_get :: "'o table \<Rightarrow> nat \<Rightarrow> 'o result" where
  "tbl_get t i = (case tbl_find t i of None \<Rightarrow> Inl Not_Found | Some x \<Rightarrow> Inr x)"

definition tbl_create :: "'o \<Rightarrow> 'o table \<Rightarrow> 'o table" where
  "tbl_create x t = t\<lparr>next_instance := next_instance t + 1, rows := rows t @ [(next_instance t, x)]\<rparr>"

definition tbl_set :: "nat \<Rightarrow> 'o \<Rightarrow> 'o table \<Rightarrow> 'o table" where
  "tbl_set i x t = t\<lparr>rows := map (\<lambda>(j, y). (j, if j = i then x else y)) (rows t)\<rparr>"

definition tbl_remove :: "nat \<Rightarrow> 'o table \<Rightarrow> 'o table" where
  "tbl_remove i t = t\<lparr>rows := filter (\<lambda>(j, y). j \<noteq> i) (rows t)\<rparr>"

definition tbl_sum :: "('o \<Rightarrow> int) \<Rightarrow> 'o table \<Rightarrow> int" where
  "tbl_sum f t = (\<Sum>(i, x)\<leftarrow>rows t. f x)"

definition tbl_wf :: "'o table \<Rightarrow> bool" where
  "tbl_wf t \<longleftrightarrow> distinct (map fst (rows t)) \<and> (\<forall>i\<in>set (map fst (rows t)). i < next_instance t)"

text \<open>Rows in the order of another index.\<close>

fun insert_row :: "('o \<Rightarrow> 'o \<Rightarrow> bool) \<Rightarrow> nat \<times> 'o \<Rightarrow> (nat \<times> 'o) list \<Rightarrow> (nat \<times> 'o) list" where
  "insert_row before x [] = [x]"
| "insert_row before x (y # ys) = (if before (snd y) (snd x) then y # insert_row before x ys else x # y # ys)"

fun sort_rows :: "('o \<Rightarrow> 'o \<Rightarrow> bool) \<Rightarrow> (nat \<times> 'o) list \<Rightarrow> (nat \<times> 'o) list" where
  "sort_rows before [] = []"
| "sort_rows before (x # xs) = insert_row before x (sort_rows before xs)"

lemma set_insert_row [simp]: "set (insert_row before x ys) = insert x (set ys)"
  by (induction ys) auto

lemma set_sort_rows [simp]: "set (sort_rows before xs) = set xs"
  by (induction xs) auto

lemma mset_insert_row [simp]: "mset (insert_row before x ys) = add_mset x (mset ys)"
  by (induction ys) auto

lemma mset_sort_rows [simp]: "mset (sort_rows before xs) = mset xs"
  by (induction xs) auto

subsection \<open>The interface of an index\<close>

text \<open>What the evaluators rely on: a lookup after a change, and how a sum over the objects changes.\<close>

locale object_index =
  fixes wf :: "'t \<Rightarrow> bool"
    and find :: "'t \<Rightarrow> nat \<Rightarrow> 'o option"
    and fresh :: "'t \<Rightarrow> nat"
    and create :: "'o \<Rightarrow> 't \<Rightarrow> 't"
    and set_obj :: "nat \<Rightarrow> 'o \<Rightarrow> 't \<Rightarrow> 't"
    and remove_obj :: "nat \<Rightarrow> 't \<Rightarrow> 't"
    and total :: "('o \<Rightarrow> int) \<Rightarrow> 't \<Rightarrow> int"
  assumes find_fresh: "wf t \<Longrightarrow> find t (fresh t) = None"
    and find_create: "wf t \<Longrightarrow> find (create x t) i = (if i = fresh t then Some x else find t i)"
    and find_set: "find (set_obj i x t) j = (if j = i \<and> find t i \<noteq> None then Some x else find t j)"
    and find_remove: "find (remove_obj i t) j = (if j = i then None else find t j)"
    and total_create: "total f (create x t) = total f t + f x"
    and total_set: "wf t \<Longrightarrow> find t i = Some y \<Longrightarrow> total f (set_obj i x t) = total f t - f y + f x"
    and total_remove: "wf t \<Longrightarrow> find t i = Some y \<Longrightarrow> total f (remove_obj i t) = total f t - f y"
    and wf_create: "wf t \<Longrightarrow> wf (create x t)"
    and wf_set: "wf t \<Longrightarrow> wf (set_obj i x t)"
    and wf_remove: "wf t \<Longrightarrow> wf (remove_obj i t)"
begin

lemmas wf_intros = wf_create wf_set wf_remove

text \<open>A set followed by a removal is a removal, and a creation followed by a removal changes no sum.\<close>

lemma total_set_remove:
  assumes "wf t" "find t i = Some y"
  shows "total f (remove_obj i (set_obj i x t)) = total f t - f y"
  using total_remove [of "set_obj i x t" i x f] total_set [OF assms, of f x] wf_set [OF assms(1)] find_set [of i x t i] assms
  by simp

lemma total_create_remove:
  assumes "wf t"
  shows "total f (remove_obj (fresh t) (create x t)) = total f t"
  using total_remove [of "create x t" "fresh t" x f] find_create [OF assms] wf_create [OF assms] total_create [of f x t]
  by simp

end

lemma tbl_sum_update:
  assumes "distinct (map fst xs)" "map_of xs i = Some y"
  shows "(\<Sum>(j, z)\<leftarrow>map (\<lambda>(j, z). (j, if j = i then x else z)) xs. f z) = (\<Sum>(j, z)\<leftarrow>xs. f z) - f y + (f x :: int)"
  using assms
proof (induction xs)
  case (Cons p xs)
  obtain k v where p: "p = (k, v)" by fastforce
  show ?case
  proof (cases "k = i")
    case True
    with Cons.prems p have "map (\<lambda>(j, z). (j, if j = i then x else z)) xs = xs" by (intro map_idI) force
    with True Cons.prems p show ?thesis by (simp del: map_eq_conv)
  next
    case False
    with Cons.prems p show ?thesis using Cons.IH by simp
  qed
qed simp

lemma tbl_sum_filter:
  assumes "distinct (map fst xs)" "map_of xs i = Some y"
  shows "(\<Sum>(j, z)\<leftarrow>filter (\<lambda>(j, z). j \<noteq> i) xs. f z) = (\<Sum>(j, z)\<leftarrow>xs. f z) - (f y :: int)"
  using assms
proof (induction xs)
  case (Cons p xs)
  obtain k v where p: "p = (k, v)" by fastforce
  show ?case
  proof (cases "k = i")
    case True
    with Cons.prems p have "filter (\<lambda>(j, z). j \<noteq> i) xs = xs" by (intro filter_True) force
    with True Cons.prems p show ?thesis by simp
  next
    case False
    with Cons.prems p show ?thesis using Cons.IH by simp
  qed
qed simp

lemma map_of_set_row: "map_of (map (\<lambda>(j, y). (j, if j = i then x else y)) xs) j
    = (if j = i \<and> map_of xs i \<noteq> None then Some x else map_of xs j)"
  by (induction xs) auto

lemma map_of_filter_row: "map_of (filter (\<lambda>(j, y). j \<noteq> i) xs) j = (if j = i then None else map_of xs j)"
  by (induction xs) auto

lemma fst_set_rows: "map fst (map (\<lambda>(j, y). (j, if j = i then x else y)) xs) = map fst xs"
  by (induction xs) auto

lemma distinct_fst_filter: "distinct (map fst xs) \<Longrightarrow> distinct (map fst (filter P xs))"
  by (induction xs) auto

lemma tbl_wf_create: "tbl_wf t \<Longrightarrow> tbl_wf (tbl_create x t)"
  by (fastforce simp: tbl_wf_def tbl_create_def)

lemma tbl_wf_set: "tbl_wf t \<Longrightarrow> tbl_wf (tbl_set i x t)"
  by (simp add: tbl_wf_def tbl_set_def fst_set_rows del: map_map set_map)

lemma tbl_wf_remove: "tbl_wf t \<Longrightarrow> tbl_wf (tbl_remove i t)"
  by (auto simp: tbl_wf_def tbl_remove_def distinct_fst_filter)

lemma tbl_find_fresh: "tbl_wf t \<Longrightarrow> tbl_find t (next_instance t) = None"
  by (auto simp: tbl_wf_def tbl_find_def map_of_eq_None_iff)

lemma tbl_find_create: "tbl_wf t \<Longrightarrow> tbl_find (tbl_create x t) i = (if i = next_instance t then Some x else tbl_find t i)"
  using tbl_find_fresh [of t] by (auto simp: tbl_find_def tbl_create_def map_add_def split: option.splits)

lemma tbl_total_set:
  assumes "tbl_wf t" "tbl_find t i = Some y"
  shows "tbl_sum f (tbl_set i x t) = tbl_sum f t - f y + f x"
  using tbl_sum_update [of "rows t" i y f x] assms by (simp add: tbl_sum_def tbl_set_def tbl_find_def tbl_wf_def)

interpretation tbl: object_index tbl_wf tbl_find next_instance tbl_create tbl_set tbl_remove tbl_sum
  by unfold_locales
    (simp_all add: tbl_find_fresh tbl_find_create tbl_wf_create tbl_wf_set tbl_wf_remove tbl_total_set,
     simp_all add: tbl_find_def tbl_set_def tbl_remove_def tbl_create_def tbl_sum_def tbl_wf_def
       map_of_set_row map_of_filter_row tbl_sum_filter)

lemma tbl_get_Inr [simp]: "tbl_get t i = Inr x \<longleftrightarrow> tbl_find t i = Some x"
  by (auto simp: tbl_get_def split: option.splits)

lemma empty_table_wf [simp]: "tbl_wf empty_table" "tbl_sum f empty_table = 0" "tbl_find empty_table i = None"
  by (simp_all add: empty_table_def tbl_wf_def tbl_sum_def tbl_find_def)

end
