(* ===== verification/Chain_DB.thy ===== *)
theory Chain_DB
  imports Asset_Price Object_Table
begin

unbundle bit_operations_syntax

text \<open>
  The objects of the chain database that the modelled components use, and the operations every
  evaluator calls: object lookup, \<open>get_balance\<close>, \<open>adjust_balance\<close>
  (\<open>libraries/chain/db_balance.cpp\<close>), \<open>is_authorized_asset\<close>
  (\<open>is_authorized_asset.cpp\<close>, \<open>is_authorized_asset.hpp\<close>) and the getters
  (\<open>db_getter.cpp\<close>).

  A table whose objects are never removed is a list indexed by the instance number of the object
  id; account balances are a map from (account, asset).  Times are seconds since the epoch and
  block numbers natural numbers.  Structure fields carry a short prefix (\<open>ao\<close> for
  \<open>asset_options\<close>, and so on) because different structures use the same field names.
\<close>

subsection \<open>Objects\<close>

record asset_options =
  ao_max_supply :: int
  ao_market_fee_percent :: nat
  ao_max_market_fee :: int
  ao_issuer_permissions :: u16
  ao_flags :: u16
  ao_core_exchange_rate :: price
  ao_whitelist_authorities :: "account_id_type set"
  ao_blacklist_authorities :: "account_id_type set"
  ao_whitelist_markets :: "asset_id_type set"
  ao_blacklist_markets :: "asset_id_type set"
  ao_description :: string

record project_asset_options =
  po_name :: string
  po_type :: nat
  po_project_cycle :: nat
  po_min_transfer_ratio :: nat
  po_max_transfer_ratio :: nat
  po_min_financing_amount :: int
  po_max_financing_amount :: int
  po_start_financing_block_num :: nat
  po_end_financing_block_num :: nat
  po_start_financing_time :: nat
  po_end_financing_time :: nat
  po_start_project_block_num :: nat
  po_end_project_block_num :: nat
  po_start_project_time :: nat
  po_end_project_time :: nat
  po_khd_exchange_rate :: price
  po_financing_cycle :: nat
  po_financing_type :: nat

record asset_object =
  symbol :: string
  precision :: nat
  issuer :: account_id_type
  options :: asset_options
  proj_options :: project_asset_options
  dynamic_asset_data_id :: nat
  bitasset_data_id :: "nat option"

datatype project_state =
  about_to_start | financing | financing_failue | project_in_progress | project_end

fun project_state_value :: "project_state \<Rightarrow> nat" where
  "project_state_value about_to_start = 0"
| "project_state_value financing = 1"
| "project_state_value financing_failue = 2"
| "project_state_value project_in_progress = 3"
| "project_state_value project_end = 4"

record asset_dynamic_data_object =
  current_supply :: int
  confidential_supply :: int
  accumulated_fees :: int
  fee_pool :: int
  financing_current_supply :: int
  financing_confidential_supply :: int
  state :: project_state
  claim_times :: nat
  investment_current_supply :: int
  investment_confidential_supply :: int

record bitasset_options =
  bo_feed_lifetime_sec :: nat
  bo_minimum_feeds :: nat
  bo_force_settlement_delay_sec :: nat
  bo_force_settlement_offset_percent :: nat
  bo_maximum_force_settlement_volume :: nat
  bo_short_backing_asset :: asset_id_type

record asset_bitasset_data_object =
  bd_asset_id :: asset_id_type
  bd_options :: bitasset_options
  bd_feeds :: "(account_id_type \<times> nat \<times> price_feed) list"
  bd_current_feed :: price_feed
  bd_current_feed_publication_time :: nat
  bd_is_prediction_market :: bool
  bd_force_settled_volume :: int
  bd_settlement_price :: price
  bd_settlement_fund :: int

record asset_investment_object =
  investment_account_id :: account_id_type
  investment_asset_id :: asset_id_type
  investment_khd_amount :: asset
  investment_height :: int
  investment_timestamp :: nat
  has_receive_token :: bool
  investment_tokens :: int
  return_financing_flag :: bool

text \<open>A vote id is 32 bits: the type in the lower 8, the instance above (\<open>protocol/vote.hpp\<close>).\<close>

type_synonym vote_id_type = u32

record account_options =
  voting_account :: account_id_type
  num_witness :: nat
  num_committee :: nat
  opt_votes :: "vote_id_type list"

record account_object =
  membership_expiration_date :: nat
  registrar :: account_id_type
  referrer :: account_id_type
  lifetime_referrer :: account_id_type
  network_fee_percentage :: nat
  lifetime_referrer_fee_percentage :: nat
  referrer_rewards_percentage :: nat
  account_name :: string
  statistics :: nat
  active_account_auths :: "account_id_type set"
  whitelisting_accounts :: "account_id_type set"
  blacklisting_accounts :: "account_id_type set"
  cashback_vb :: "nat option"
  allowed_assets :: "asset_id_type set option"
  account_opts :: account_options

record account_statistics_object =
  stat_owner :: account_id_type
  total_core_in_orders :: int
  lifetime_fees_paid :: int
  pending_fees :: int
  pending_vested_fees :: int

record account_power_object =
  power_owner :: account_id_type
  power_from :: nat
  power_value :: int

record account_locked_power_object =
  lp_owner :: account_id_type
  lp_power_from :: nat
  lp_power_value :: int
  lp_unlock_height :: int
  lp_asset_id :: asset_id_type

text \<open>Vesting policies: \<open>vesting_balance_object.hpp\<close>.\<close>

record linear_vesting_policy =
  lv_begin_timestamp :: nat
  lv_vesting_cliff_seconds :: nat
  lv_vesting_duration_seconds :: nat
  lv_begin_balance :: int

record cdd_vesting_policy =
  cv_vesting_seconds :: nat
  cv_coin_seconds_earned :: u128
  cv_start_claim :: nat
  cv_coin_seconds_earned_last_update :: nat

datatype vesting_policy = Linear linear_vesting_policy | Cdd cdd_vesting_policy

record vesting_balance_object =
  vb_owner :: account_id_type
  vb_balance :: asset
  vb_policy :: vesting_policy

record witness_object =
  witness_account :: account_id_type
  last_aslot :: nat
  pay_vb :: "nat option"
  witness_vote_id :: vote_id_type
  total_votes :: nat
  total_missed :: int
  last_confirmed_block_num :: nat

text \<open>Orders, margin positions, settlement requests and bids: \<open>market_object.hpp\<close>.\<close>

record limit_order_object =
  lo_expiration :: nat
  lo_seller :: account_id_type
  lo_for_sale :: int
  lo_sell_price :: price
  lo_deferred_fee :: int
  lo_deferred_paid_fee :: asset

record call_order_object =
  co_borrower :: account_id_type
  co_collateral :: int
  co_debt :: int
  co_call_price :: price
  co_target_collateral_ratio :: "nat option"

record force_settlement_object =
  fs_owner :: account_id_type
  fs_balance :: asset
  fs_settlement_date :: nat

record collateral_bid_object =
  cbo_bidder :: account_id_type
  cbo_inv_swan_price :: price

text \<open>\<open>chain_parameters.hpp\<close>, with the part of the fee schedule that the chain itself reads (its
  scale and the fee of a cancelled limit order), and the dynamic properties of
  \<open>global_property_object.hpp\<close>; the number and the time of the head block are fields of the
  database.\<close>

record fee_schedule =
  fsch_scale :: nat
  fsch_limit_order_cancel :: "nat option"

record chain_parameters =
  current_fees :: fee_schedule
  block_interval :: nat
  maintenance_interval :: nat
  maintenance_skip_slots :: nat
  committee_proposal_review_period :: nat
  maximum_transaction_size :: nat
  maximum_block_size :: nat
  maximum_time_until_expiration :: nat
  maximum_proposal_lifetime :: nat
  maximum_asset_whitelist_authorities :: nat
  maximum_asset_feed_publishers :: nat
  maximum_witness_count :: nat
  maximum_committee_count :: nat
  maximum_authority_membership :: nat
  reserve_percent_of_fee :: nat
  network_percent_of_fee :: nat
  lifetime_referrer_percent_of_fee :: nat
  cashback_vesting_period_seconds :: nat
  cashback_vesting_threshold :: int
  count_non_member_votes :: bool
  allow_non_member_whitelists :: bool
  witness_pay_per_block :: int
  witness_pay_vesting_seconds :: nat
  worker_budget_per_day :: int
  max_predicate_opcode :: nat
  fee_liquidation_threshold :: int
  accounts_per_fee_scale :: nat
  account_fee_scale_bitshifts :: nat
  max_authority_depth :: nat

record dynamic_global_property_object =
  current_witness :: nat
  next_maintenance_time :: nat
  last_budget_time :: nat
  witness_budget :: int
  accounts_registered_this_interval :: nat
  recently_missed_count :: u32
  current_aslot :: u64
  recent_slots_filled :: u128
  dynamic_flags :: u32
  last_irreversible_block_num :: nat

record database =
  accounts :: "account_object list"
  account_stats :: "account_statistics_object list"
  assets :: "asset_object list"
  asset_dyn :: "asset_dynamic_data_object list"
  bitassets :: "asset_bitasset_data_object list"
  balances :: "account_id_type \<times> asset_id_type \<rightharpoonup> int"
  vestings :: "vesting_balance_object list"
  witnesses :: "witness_object list"
  investments :: "asset_investment_object list"
  powers :: "account_power_object list"
  locked_powers :: "account_locked_power_object list"
  limit_orders :: "limit_order_object table"
  call_orders :: "call_order_object table"
  settle_orders :: "force_settlement_object table"
  collateral_bids :: "collateral_bid_object table"
  head_block_time :: nat
  head_block_number :: nat
  parameters :: chain_parameters
  dgp :: dynamic_global_property_object
  active_witnesses :: "nat list"
  current_shuffled_witnesses :: "nat list"

subsection \<open>Lookup and update of objects\<close>

definition get_obj :: "'o list \<Rightarrow> nat \<Rightarrow> 'o result" where
  "get_obj tbl i = (if i < length tbl then Inr (tbl ! i) else Inl Not_Found)"

definition modify_obj :: "nat \<Rightarrow> ('o \<Rightarrow> 'o result) \<Rightarrow> 'o list \<Rightarrow> 'o list result" where
  "modify_obj i f tbl = bind_res (get_obj tbl i) (\<lambda>x. bind_res (f x) (\<lambda>y. Inr (tbl[i := y])))"

lemma get_obj_Inr [simp]: "get_obj tbl i = Inr x \<longleftrightarrow> i < length tbl \<and> tbl ! i = x"
  by (auto simp: get_obj_def)

lemma modify_obj_Inr [simp]:
  "modify_obj i f tbl = Inr tbl' \<longleftrightarrow> i < length tbl \<and> (\<exists>y. f (tbl ! i) = Inr y \<and> tbl' = tbl[i := y])"
  by (auto simp: modify_obj_def)

definition modify_dyn :: "nat \<Rightarrow> (asset_dynamic_data_object \<Rightarrow> asset_dynamic_data_object result)
    \<Rightarrow> database \<Rightarrow> database result" where
  "modify_dyn i f d = bind_res (modify_obj i f (asset_dyn d)) (\<lambda>t. Inr (d\<lparr>asset_dyn := t\<rparr>))"

subsection \<open>Asset flags\<close>

definition charge_market_fee :: u16 where "charge_market_fee = 0x01"
definition white_list :: u16 where "white_list = 0x02"
definition override_authority :: u16 where "override_authority = 0x04"
definition transfer_restricted :: u16 where "transfer_restricted = 0x08"
definition disable_force_settle :: u16 where "disable_force_settle = 0x10"
definition global_settle :: u16 where "global_settle = 0x20"
definition disable_confidential :: u16 where "disable_confidential = 0x40"
definition witness_fed_asset :: u16 where "witness_fed_asset = 0x80"
definition committee_fed_asset :: u16 where "committee_fed_asset = 0x100"

definition ASSET_ISSUER_PERMISSION_MASK :: u16 where
  "ASSET_ISSUER_PERMISSION_MASK = charge_market_fee OR white_list OR override_authority
     OR transfer_restricted OR disable_force_settle OR global_settle OR disable_confidential
     OR witness_fed_asset OR committee_fed_asset"

definition UIA_ASSET_ISSUER_PERMISSION_MASK :: u16 where
  "UIA_ASSET_ISSUER_PERMISSION_MASK = charge_market_fee OR white_list OR override_authority
     OR transfer_restricted OR disable_confidential"

lemmas asset_flag_defs = charge_market_fee_def white_list_def override_authority_def
  transfer_restricted_def disable_force_settle_def global_settle_def disable_confidential_def
  witness_fed_asset_def committee_fed_asset_def

definition has_flag :: "u16 \<Rightarrow> u16 \<Rightarrow> bool" where
  "has_flag flags f \<longleftrightarrow> flags AND f \<noteq> 0"

definition is_market_issued :: "asset_object \<Rightarrow> bool" where
  "is_market_issued a \<longleftrightarrow> bitasset_data_id a \<noteq> None"

definition can_force_settle :: "asset_object \<Rightarrow> bool" where
  "can_force_settle a \<longleftrightarrow> \<not> has_flag (ao_flags (options a)) disable_force_settle"

definition can_global_settle :: "asset_object \<Rightarrow> bool" where
  "can_global_settle a \<longleftrightarrow> has_flag (ao_issuer_permissions (options a)) global_settle"

definition charges_market_fees :: "asset_object \<Rightarrow> bool" where
  "charges_market_fees a \<longleftrightarrow> has_flag (ao_flags (options a)) charge_market_fee"

definition is_transfer_restricted :: "asset_object \<Rightarrow> bool" where
  "is_transfer_restricted a \<longleftrightarrow> has_flag (ao_flags (options a)) transfer_restricted"

definition can_override :: "asset_object \<Rightarrow> bool" where
  "can_override a \<longleftrightarrow> has_flag (ao_flags (options a)) override_authority"

subsection \<open>Balances\<close>

definition balance_of :: "database \<Rightarrow> account_id_type \<Rightarrow> asset_id_type \<Rightarrow> int" where
  "balance_of d owner a = (case balances d (owner, a) of None \<Rightarrow> 0 | Some b \<Rightarrow> b)"

definition get_balance :: "database \<Rightarrow> account_id_type \<Rightarrow> asset_id_type \<Rightarrow> asset" where
  "get_balance d owner a =
     (case balances d (owner, a) of None \<Rightarrow> mk_asset 0 a | Some b \<Rightarrow> mk_asset b a)"

definition adjust_balance :: "fc_lib \<Rightarrow> account_id_type \<Rightarrow> asset \<Rightarrow> database \<Rightarrow> database result" where
  "adjust_balance F account delta d =
     (if amount delta = 0 then Inr d
      else case balances d (account, asset_id delta) of
        None \<Rightarrow>
          require (amount delta > 0) ''Insufficient Balance''
            (Inr (d\<lparr>balances := (balances d)((account, asset_id delta) \<mapsto> amount delta)\<rparr>))
      | Some b \<Rightarrow>
          bind_res
            (if amount delta < 0 then
               bind_res (asset_neg F delta) (\<lambda>need.
               bind_res (asset_ge (mk_asset b (asset_id delta)) need) (\<lambda>enough.
                 require enough ''Insufficient Balance'' (Inr ())))
             else Inr ())
            (\<lambda>_. bind_res (safe_add F b (amount delta)) (\<lambda>b'.
               Inr (d\<lparr>balances := (balances d)((account, asset_id delta) \<mapsto> b')\<rparr>))))"

text \<open>Subtracting: the callers write \<open>adjust_balance( account, -amount )\<close>.\<close>

definition deduct_balance :: "fc_lib \<Rightarrow> account_id_type \<Rightarrow> asset \<Rightarrow> database \<Rightarrow> database result" where
  "deduct_balance F account x d =
     bind_res (asset_neg F x) (\<lambda>delta. adjust_balance F account delta d)"

subsection \<open>Authorisation by white and black lists\<close>

definition HARDFORK_415_TIME :: nat where "HARDFORK_415_TIME = 1446652800"
definition HARDFORK_419_TIME :: nat where "HARDFORK_419_TIME = 1446652800"

definition is_authorized_asset_slow :: "database \<Rightarrow> account_object \<Rightarrow> asset_id_type \<Rightarrow> asset_object \<Rightarrow> bool" where
  "is_authorized_asset_slow d acct aid a =
     (if (case allowed_assets acct of None \<Rightarrow> False | Some s \<Rightarrow> aid \<notin> s) then False
      else if blacklisting_accounts acct \<inter> ao_blacklist_authorities (options a) \<noteq> {} then False
      else if head_block_time d > HARDFORK_415_TIME \<and> ao_whitelist_authorities (options a) = {} then True
      else whitelisting_accounts acct \<inter> ao_whitelist_authorities (options a) \<noteq> {})"

definition is_authorized_asset :: "database \<Rightarrow> account_object \<Rightarrow> asset_id_type \<Rightarrow> asset_object \<Rightarrow> bool" where
  "is_authorized_asset d acct aid a =
     (if \<not> has_flag (ao_flags (options a)) white_list \<and> allowed_assets acct = None then True
      else is_authorized_asset_slow d acct aid a)"

subsection \<open>Getters\<close>

fun index_of :: "('a \<Rightarrow> bool) \<Rightarrow> 'a list \<Rightarrow> nat \<Rightarrow> nat option" where
  "index_of P [] n = None"
| "index_of P (x # xs) n = (if P x then Some n else index_of P xs (n + 1))"

definition get_asset_id :: "database \<Rightarrow> string \<Rightarrow> asset_id_type result" where
  "get_asset_id d s =
     (case index_of (\<lambda>a. symbol a = s) (assets d) 0 of
        None \<Rightarrow> Inl (Assert_Exception ''Unable to find asset'')
      | Some i \<Rightarrow> Inr i)"

subsection \<open>Reserved accounts\<close>

definition GRAPHENE_COMMITTEE_ACCOUNT :: account_id_type where "GRAPHENE_COMMITTEE_ACCOUNT = 0"
definition GRAPHENE_WITNESS_ACCOUNT :: account_id_type where "GRAPHENE_WITNESS_ACCOUNT = 1"
definition GRAPHENE_RELAXED_COMMITTEE_ACCOUNT :: account_id_type where "GRAPHENE_RELAXED_COMMITTEE_ACCOUNT = 2"
definition GRAPHENE_NULL_ACCOUNT :: account_id_type where "GRAPHENE_NULL_ACCOUNT = 3"
definition GRAPHENE_TEMP_ACCOUNT :: account_id_type where "GRAPHENE_TEMP_ACCOUNT = 4"

lemmas reserved_account_defs = GRAPHENE_COMMITTEE_ACCOUNT_def GRAPHENE_WITNESS_ACCOUNT_def
  GRAPHENE_RELAXED_COMMITTEE_ACCOUNT_def GRAPHENE_NULL_ACCOUNT_def GRAPHENE_TEMP_ACCOUNT_def

subsection \<open>The ledger interface\<close>

text \<open>
  What the evaluators rely on when they move funds: an adjustment changes one balance by exactly
  the given amount and never takes a balance below zero.
\<close>

locale ledger =
  fixes bal :: "'d \<Rightarrow> account_id_type \<Rightarrow> asset_id_type \<Rightarrow> int"
    and adjust :: "account_id_type \<Rightarrow> asset \<Rightarrow> 'd \<Rightarrow> 'd result"
  assumes adjust_bal: "adjust a x d = Inr d' \<Longrightarrow>
      bal d' b y = bal d b y + (if b = a \<and> y = asset_id x then amount x else 0)"
    and adjust_nonneg: "adjust a x d = Inr d' \<Longrightarrow> 0 \<le> bal d a (asset_id x) \<Longrightarrow> 0 \<le> bal d' a (asset_id x)"
begin

lemma adjust_sum:
  assumes "adjust a x d = Inr d'" "finite A" "a \<in> A"
  shows "(\<Sum>c\<in>A. bal d' c y) = (\<Sum>c\<in>A. bal d c y) + (if y = asset_id x then amount x else 0)"
proof -
  have "(\<Sum>c\<in>A. bal d' c y) = (\<Sum>c\<in>A. bal d c y + (if c = a then (if y = asset_id x then amount x else 0) else 0))"
    by (intro sum.cong refl) (auto simp: adjust_bal [OF assms(1)])
  also have "\<dots> = (\<Sum>c\<in>A. bal d c y) + (if y = asset_id x then amount x else 0)"
    using assms by (simp add: sum.distrib)
  finally show ?thesis .
qed

lemma move_sum:
  assumes "adjust a (mk_asset (- n) i) d = Inr d1" "adjust b (mk_asset n i) d1 = Inr d2"
    and "finite A" "a \<in> A" "b \<in> A"
  shows "(\<Sum>c\<in>A. bal d2 c y) = (\<Sum>c\<in>A. bal d c y)"
  using adjust_sum [OF assms(1,3,4), of y] adjust_sum [OF assms(2,3,5), of y] by simp

lemma nonneg_preserved:
  assumes "adjust a x d = Inr d'" "\<forall>b y. 0 \<le> bal d b y"
  shows "\<forall>b y. 0 \<le> bal d' b y"
proof (intro allI)
  fix b y
  show "0 \<le> bal d' b y"
    using adjust_bal [OF assms(1), of b y] adjust_nonneg [OF assms(1)] assms(2)
    by (cases "b = a \<and> y = asset_id x") auto
qed

end

lemma get_balance_amount [simp]: "amount (get_balance d a x) = balance_of d a x"
  by (simp add: get_balance_def balance_of_def split: option.splits)

lemma get_balance_id [simp]: "asset_id (get_balance d a x) = x"
  by (simp add: get_balance_def split: option.splits)

lemma adjust_balance_frame:
  "adjust_balance F a x d = Inr d' \<Longrightarrow> d' = d\<lparr>balances := balances d'\<rparr>"
  by (auto simp: adjust_balance_def split: if_splits option.splits)

lemma deduct_balance_frame:
  "deduct_balance F a x d = Inr d' \<Longrightarrow> d' = d\<lparr>balances := balances d'\<rparr>"
  by (auto simp: deduct_balance_def dest: adjust_balance_frame)

lemma adjust_balance_only: "adjust_balance F a x d = Inr d' \<Longrightarrow> \<exists>b. d' = d\<lparr>balances := b\<rparr>"
  by (drule adjust_balance_frame) blast

lemma deduct_balance_only: "deduct_balance F a x d = Inr d' \<Longrightarrow> \<exists>b. d' = d\<lparr>balances := b\<rparr>"
  by (drule deduct_balance_frame) blast

context fc_arith
begin

lemma adjust_balance_bal:
  assumes "adjust_balance F a x d = Inr d'"
  shows "balance_of d' b y = balance_of d b y + (if b = a \<and> y = asset_id x then amount x else 0)"
  using assms
  by (auto simp: adjust_balance_def balance_of_def fc_iffs split: if_splits option.splits)

lemma adjust_balance_nonneg:
  assumes "adjust_balance F a x d = Inr d'" "0 \<le> balance_of d a (asset_id x)"
  shows "0 \<le> balance_of d' a (asset_id x)"
  using assms
  by (auto simp: adjust_balance_def balance_of_def asset_neg_def asset_ge_def asset_less_def fc_iffs
      split: if_splits option.splits)

lemma deduct_balance_iff:
  "deduct_balance F a x d = Inr d' \<longleftrightarrow>
     in_int64 (- amount x) \<and> adjust_balance F a (mk_asset (- amount x) (asset_id x)) d = Inr d'"
  by (auto simp: deduct_balance_def asset_neg_def fc_iffs)

lemma adjust_balance_covered:
  assumes "adjust_balance F a (mk_asset (- n) i) d = Inr d'" "0 < n" "0 \<le> balance_of d a i"
  shows "n \<le> balance_of d a i"
  using adjust_balance_nonneg [OF assms(1)] adjust_balance_bal [OF assms(1), of a i] assms by simp

text \<open>An adjustment succeeds whenever the new balance is a non-negative 64-bit amount.\<close>

lemma adjust_balance_success:
  assumes "0 \<le> balance_of d a (asset_id x)" "in_int64 (balance_of d a (asset_id x))" "in_int64 (- amount x)"
    and "0 \<le> balance_of d a (asset_id x) + amount x" "in_int64 (balance_of d a (asset_id x) + amount x)"
  shows "\<exists>d'. adjust_balance F a x d = Inr d'"
proof (cases "balances d (a, asset_id x)")
  case None
  then show ?thesis using assms by (auto simp: adjust_balance_def balance_of_def)
next
  case (Some b)
  then have b: "balance_of d a (asset_id x) = b" by (simp add: balance_of_def)
  have "safe_add F b (amount x) = Inr (b + amount x)" "safe_neg F (amount x) = Inr (- amount x)"
    using assms b by (simp_all add: fc_iffs)
  then show ?thesis using Some assms b
    by (simp add: adjust_balance_def asset_neg_def asset_ge_def asset_less_def)
qed

end

sublocale fc_arith \<subseteq> ledger balance_of "adjust_balance F"
  by unfold_locales (rule adjust_balance_bal adjust_balance_nonneg; assumption)+

definition total_balance :: "database \<Rightarrow> asset_id_type \<Rightarrow> int" where
  "total_balance d y = (\<Sum>a<length (accounts d). balance_of d a y)"

definition balances_ok :: "database \<Rightarrow> bool" where
  "balances_ok d \<longleftrightarrow> (\<forall>a y. 0 \<le> balance_of d a y)"

lemma balance_of_update [simp]:
  "balance_of (d\<lparr>accounts := v1\<rparr>) = balance_of d" "balance_of (d\<lparr>account_stats := v2\<rparr>) = balance_of d"
  "balance_of (d\<lparr>assets := v3\<rparr>) = balance_of d" "balance_of (d\<lparr>asset_dyn := v4\<rparr>) = balance_of d"
  "balance_of (d\<lparr>bitassets := v5\<rparr>) = balance_of d" "balance_of (d\<lparr>vestings := v6\<rparr>) = balance_of d"
  "balance_of (d\<lparr>investments := v7\<rparr>) = balance_of d" "balance_of (d\<lparr>powers := v8\<rparr>) = balance_of d"
  "balance_of (d\<lparr>locked_powers := v9\<rparr>) = balance_of d" "balance_of (d\<lparr>witnesses := v10\<rparr>) = balance_of d"
  "balance_of (d\<lparr>limit_orders := v11\<rparr>) = balance_of d" "balance_of (d\<lparr>call_orders := v12\<rparr>) = balance_of d"
  "balance_of (d\<lparr>settle_orders := v13\<rparr>) = balance_of d" "balance_of (d\<lparr>collateral_bids := v14\<rparr>) = balance_of d"
  "balance_of (d\<lparr>dgp := v15\<rparr>) = balance_of d" "balance_of (d\<lparr>current_shuffled_witnesses := v16\<rparr>) = balance_of d"
  by (auto simp: balance_of_def fun_eq_iff)

subsection \<open>A small chain state\<close>

text \<open>A chain with the core asset (0), KHD (1) and a project token (2), at which the properties are
  evaluated.\<close>

definition demo_price :: "int \<Rightarrow> asset_id_type \<Rightarrow> int \<Rightarrow> asset_id_type \<Rightarrow> price" where
  "demo_price x i y j = \<lparr>base = mk_asset x i, quote = mk_asset y j\<rparr>"

definition demo_options :: "price \<Rightarrow> asset_options" where
  "demo_options cer = \<lparr>ao_max_supply = 1000000, ao_market_fee_percent = 0, ao_max_market_fee = 0,
     ao_issuer_permissions = 0, ao_flags = 0, ao_core_exchange_rate = cer, ao_whitelist_authorities = {},
     ao_blacklist_authorities = {}, ao_whitelist_markets = {}, ao_blacklist_markets = {}, ao_description = []\<rparr>"

definition demo_project :: "string \<Rightarrow> project_asset_options" where
  "demo_project nm = \<lparr>po_name = nm, po_type = 4, po_project_cycle = 30, po_min_transfer_ratio = 10, po_max_transfer_ratio = 20,
     po_min_financing_amount = 500, po_max_financing_amount = 1000, po_start_financing_block_num = 10,
     po_end_financing_block_num = 20, po_start_financing_time = 0, po_end_financing_time = 0,
     po_start_project_block_num = 21, po_end_project_block_num = 50, po_start_project_time = 0,
     po_end_project_time = 0, po_khd_exchange_rate = demo_price 1 1 2 0, po_financing_cycle = 0,
     po_financing_type = 1\<rparr>"

definition demo_asset :: "string \<Rightarrow> nat \<Rightarrow> price \<Rightarrow> string \<Rightarrow> asset_object" where
  "demo_asset s dyn cer nm = \<lparr>symbol = s, precision = 5, issuer = 5, options = demo_options cer,
     proj_options = demo_project nm, dynamic_asset_data_id = dyn, bitasset_data_id = None\<rparr>"

definition demo_dyn :: "int \<Rightarrow> asset_dynamic_data_object" where
  "demo_dyn supply = \<lparr>current_supply = supply, confidential_supply = 0, accumulated_fees = 0, fee_pool = 0,
     financing_current_supply = 0, financing_confidential_supply = 0, state = about_to_start, claim_times = 0,
     investment_current_supply = 0, investment_confidential_supply = 0\<rparr>"

definition demo_account :: "nat \<Rightarrow> account_object" where
  "demo_account st = \<lparr>membership_expiration_date = 2000, registrar = 5, referrer = 5, lifetime_referrer = 5,
     network_fee_percentage = 2000, lifetime_referrer_fee_percentage = 3000, referrer_rewards_percentage = 5000,
     account_name = ''acct'', statistics = st, active_account_auths = {}, whitelisting_accounts = {}, blacklisting_accounts = {},
     cashback_vb = None, allowed_assets = None,
     account_opts = \<lparr>voting_account = 5, num_witness = 0, num_committee = 0, opt_votes = []\<rparr>\<rparr>"

definition demo_stats :: "nat \<Rightarrow> account_statistics_object" where
  "demo_stats i = \<lparr>stat_owner = i, total_core_in_orders = 0, lifetime_fees_paid = 0, pending_fees = 0,
     pending_vested_fees = 0\<rparr>"

definition demo_parameters :: chain_parameters where
  "demo_parameters = \<lparr>current_fees = \<lparr>fsch_scale = 10000, fsch_limit_order_cancel = Some 5\<rparr>, block_interval = 3, maintenance_interval = 60, maintenance_skip_slots = 3,
     committee_proposal_review_period = 1209600, maximum_transaction_size = 2048, maximum_block_size = 2000000,
     maximum_time_until_expiration = 86400, maximum_proposal_lifetime = 2419200,
     maximum_asset_whitelist_authorities = 10, maximum_asset_feed_publishers = 10, maximum_witness_count = 1001,
     maximum_committee_count = 1001, maximum_authority_membership = 10, reserve_percent_of_fee = 2000,
     network_percent_of_fee = 2000, lifetime_referrer_percent_of_fee = 3000, cashback_vesting_period_seconds = 100,
     cashback_vesting_threshold = 50, count_non_member_votes = True, allow_non_member_whitelists = False,
     witness_pay_per_block = 1000000, witness_pay_vesting_seconds = 86400, worker_budget_per_day = 50000000000,
     max_predicate_opcode = 1, fee_liquidation_threshold = 10000000, accounts_per_fee_scale = 1000,
     account_fee_scale_bitshifts = 4, max_authority_depth = 2\<rparr>"

definition demo_dgp :: dynamic_global_property_object where
  "demo_dgp = \<lparr>current_witness = 0, next_maintenance_time = 1060, last_budget_time = 0, witness_budget = 0,
     accounts_registered_this_interval = 0, recently_missed_count = 0, current_aslot = 12, recent_slots_filled = 0,
     dynamic_flags = 0, last_irreversible_block_num = 0\<rparr>"

definition demo_db :: database where
  "demo_db = \<lparr>accounts = map demo_account [0, 1, 2, 3, 4, 5, 6, 7], account_stats = map demo_stats [0, 1, 2, 3, 4, 5, 6, 7],
     assets = [demo_asset ''KHC'' 0 (demo_price 1 0 1 0) [], demo_asset ''KHD'' 1 (demo_price 1 0 1 1) [],
               demo_asset ''TOKEN'' 2 (demo_price 1 0 3 2) ''project''],
     asset_dyn = [demo_dyn 5000, demo_dyn 2000, demo_dyn 0], bitassets = [],
     balances = [(6, 0) \<mapsto> 2000, (7, 0) \<mapsto> 3000, (6, 1) \<mapsto> 1500, (7, 1) \<mapsto> 500],
     vestings = [], witnesses = [], investments = [], powers = [], locked_powers = [],
     limit_orders = empty_table, call_orders = empty_table, settle_orders = empty_table, collateral_bids = empty_table,
     head_block_time = 1000, head_block_number = 12, parameters = demo_parameters, dgp = demo_dgp,
     active_witnesses = [], current_shuffled_witnesses = []\<rparr>"

lemmas demo_defs = demo_price_def demo_options_def demo_project_def demo_asset_def demo_dyn_def
  demo_account_def demo_stats_def demo_parameters_def demo_dgp_def demo_db_def

end
