(* ===== verification/Evaluator.thy ===== *)
theory Evaluator
  imports Chain_DB
begin

text \<open>
  The generic evaluator (\<open>libraries/chain/evaluator.cpp\<close>, \<open>evaluator.hpp\<close>): every operation
  is evaluated by preparing its fee and running its checks, and applied by converting and
  booking the fee, running its state change and charging the payer.  The fee schedule is an
  argument (\<open>required_fee\<close>); the pointers an evaluator keeps from evaluation to application are
  the value its \<open>do_evaluate\<close> returns.
\<close>

record fee_state =
  fee_from_account :: asset
  core_fee_paid :: int
  fee_paying_account :: account_id_type
  fee_paying_statistics :: nat
  fee_asset_dyn_data :: nat

record trx_state =
  skip_fee :: bool
  skip_fee_schedule_check :: bool

definition prepare_fee :: "database \<Rightarrow> account_id_type \<Rightarrow> asset \<Rightarrow> fee_state result" where
  "prepare_fee d account_id fee =
     require (amount fee \<ge> 0) ''fee.amount >= 0''
    (bind_res (get_obj (accounts d) account_id) (\<lambda>payer.
     bind_res (get_obj (account_stats d) (statistics payer)) (\<lambda>_.
     bind_res (get_obj (assets d) (asset_id fee)) (\<lambda>fa.
     bind_res (get_obj (asset_dyn d) (dynamic_asset_data_id fa)) (\<lambda>dyn.
     require (head_block_time d > HARDFORK_419_TIME \<longrightarrow> is_authorized_asset d payer (asset_id fee) fa)
        ''attempted to pay fee by using an unauthorized asset''
    (bind_res
       (if asset_id fee = 0 then Inr (amount fee)
        else
          bind_res (mul_price fee (ao_core_exchange_rate (options fa))) (\<lambda>pool.
          require (asset_id pool = 0) ''fee_from_pool.asset_id == asset_id_type()''
         (require (amount pool \<le> fee_pool dyn) ''Fee pool balance is less than the required''
         (Inr (amount pool))))) (\<lambda>core.
     Inr \<lparr>fee_from_account = fee, core_fee_paid = core, fee_paying_account = account_id,
          fee_paying_statistics = statistics payer, fee_asset_dyn_data = dynamic_asset_data_id fa\<rparr>)))))))"

definition convert_fee :: "fc_lib \<Rightarrow> trx_state \<Rightarrow> fee_state \<Rightarrow> database \<Rightarrow> database result" where
  "convert_fee F ts fs d =
     (if \<not> skip_fee ts \<and> asset_id (fee_from_account fs) \<noteq> 0 then
        modify_dyn (fee_asset_dyn_data fs) (\<lambda>x.
          bind_res (safe_add F (accumulated_fees x) (amount (fee_from_account fs))) (\<lambda>af.
          bind_res (safe_sub F (fee_pool x) (core_fee_paid fs)) (\<lambda>fp.
          Inr (x\<lparr>accumulated_fees := af, fee_pool := fp\<rparr>)))) d
      else Inr d)"

definition statistics_pay_fee :: "fc_lib \<Rightarrow> int \<Rightarrow> int \<Rightarrow> account_statistics_object
    \<Rightarrow> account_statistics_object result" where
  "statistics_pay_fee F core_fee threshold s =
     (if core_fee > threshold
      then bind_res (safe_add F (pending_fees s) core_fee) (\<lambda>p. Inr (s\<lparr>pending_fees := p\<rparr>))
      else bind_res (safe_add F (pending_vested_fees s) core_fee) (\<lambda>p. Inr (s\<lparr>pending_vested_fees := p\<rparr>)))"

definition pay_fee :: "fc_lib \<Rightarrow> trx_state \<Rightarrow> fee_state \<Rightarrow> database \<Rightarrow> database result" where
  "pay_fee F ts fs d =
     (if \<not> skip_fee ts then
        bind_res (modify_obj (fee_paying_statistics fs)
            (statistics_pay_fee F (core_fee_paid fs) (cashback_vesting_threshold (parameters d)))
            (account_stats d)) (\<lambda>t. Inr (d\<lparr>account_stats := t\<rparr>))
      else Inr d)"

definition evaluate_op :: "trx_state \<Rightarrow> int \<Rightarrow> account_id_type \<Rightarrow> asset \<Rightarrow> (database \<Rightarrow> 'c result)
    \<Rightarrow> database \<Rightarrow> (fee_state \<times> 'c) result" where
  "evaluate_op ts required_fee fee_payer fee do_evaluate d =
     bind_res (prepare_fee d fee_payer fee) (\<lambda>fs.
     require (\<not> skip_fee_schedule_check ts \<longrightarrow> core_fee_paid fs \<ge> required_fee) ''Insufficient Fee Paid''
    (bind_res (do_evaluate d) (\<lambda>c. Inr (fs, c))))"

definition apply_op :: "fc_lib \<Rightarrow> trx_state \<Rightarrow> account_id_type \<Rightarrow> fee_state
    \<Rightarrow> (database \<Rightarrow> database result) \<Rightarrow> database \<Rightarrow> database result" where
  "apply_op F ts fee_payer fs do_apply d =
     bind_res (convert_fee F ts fs d) (\<lambda>d1.
     bind_res (pay_fee F ts fs d1) (\<lambda>d2.
     bind_res (do_apply d2) (\<lambda>d3.
     deduct_balance F fee_payer (fee_from_account fs) d3)))"

definition start_evaluate :: "fc_lib \<Rightarrow> trx_state \<Rightarrow> int \<Rightarrow> account_id_type \<Rightarrow> asset
    \<Rightarrow> (database \<Rightarrow> 'c result) \<Rightarrow> ('c \<Rightarrow> database \<Rightarrow> database result) \<Rightarrow> database \<Rightarrow> database result" where
  "start_evaluate F ts required_fee fee_payer fee do_evaluate do_apply d =
     bind_res (evaluate_op ts required_fee fee_payer fee do_evaluate d) (\<lambda>(fs, c).
       apply_op F ts fee_payer fs (do_apply c) d)"

subsection \<open>Transfers\<close>

text \<open>\<open>libraries/chain/transfer_evaluator.cpp\<close>\<close>

record transfer_operation =
  tr_fee :: asset
  tr_from :: account_id_type
  tr_to :: account_id_type
  tr_amount :: asset

definition transfer_validate :: "transfer_operation \<Rightarrow> unit result" where
  "transfer_validate op =
     require (amount (tr_fee op) \<ge> 0) ''fee.amount >= 0''
    (require (tr_from op \<noteq> tr_to op) ''from != to''
    (require (amount (tr_amount op) > 0) ''amount.amount > 0'' (Inr ())))"

definition transfer_do_evaluate :: "transfer_operation \<Rightarrow> database \<Rightarrow> unit result" where
  "transfer_do_evaluate op d =
     bind_res (get_obj (accounts d) (tr_from op)) (\<lambda>from_account.
     bind_res (get_obj (accounts d) (tr_to op)) (\<lambda>to_account.
     bind_res (get_obj (assets d) (asset_id (tr_amount op))) (\<lambda>asset_type.
     require (is_authorized_asset d from_account (asset_id (tr_amount op)) asset_type)
        ''transfer_from_account_not_whitelisted''
    (require (is_authorized_asset d to_account (asset_id (tr_amount op)) asset_type)
        ''transfer_to_account_not_whitelisted''
    (require (is_transfer_restricted asset_type \<longrightarrow>
          tr_from op = issuer asset_type \<or> tr_to op = issuer asset_type)
        ''transfer_restricted_transfer_asset''
    (require (amount (get_balance d (tr_from op) (asset_id (tr_amount op))) \<ge> amount (tr_amount op))
        ''Insufficient Balance''
    (Inr ())))))))"

definition transfer_do_apply :: "fc_lib \<Rightarrow> transfer_operation \<Rightarrow> database \<Rightarrow> database result" where
  "transfer_do_apply F op d =
     bind_res (deduct_balance F (tr_from op) (tr_amount op) d) (\<lambda>d1.
     adjust_balance F (tr_to op) (tr_amount op) d1)"

record override_transfer_operation =
  ot_fee :: asset
  ot_issuer :: account_id_type
  ot_from :: account_id_type
  ot_to :: account_id_type
  ot_amount :: asset

definition override_transfer_validate :: "override_transfer_operation \<Rightarrow> unit result" where
  "override_transfer_validate op =
     require (amount (ot_fee op) \<ge> 0) ''fee.amount >= 0''
    (require (ot_from op \<noteq> ot_to op) ''from != to''
    (require (amount (ot_amount op) > 0) ''amount.amount > 0''
    (require (ot_issuer op \<noteq> ot_from op) ''issuer != from'' (Inr ()))))"

definition override_transfer_do_evaluate :: "override_transfer_operation \<Rightarrow> database \<Rightarrow> unit result" where
  "override_transfer_do_evaluate op d =
     bind_res (get_obj (assets d) (asset_id (ot_amount op))) (\<lambda>asset_type.
     require (can_override asset_type) ''override_transfer_not_permitted''
    (require (issuer asset_type = ot_issuer op) ''asset_type.issuer == op.issuer''
    (bind_res (get_obj (accounts d) (ot_from op)) (\<lambda>from_account.
     bind_res (get_obj (accounts d) (ot_to op)) (\<lambda>to_account.
     require (is_authorized_asset d to_account (asset_id (ot_amount op)) asset_type) ''to authorized''
    (require (is_authorized_asset d from_account (asset_id (ot_amount op)) asset_type) ''from authorized''
    (require (head_block_time d \<le> HARDFORK_419_TIME \<longrightarrow>
          is_authorized_asset d from_account (asset_id (ot_amount op)) asset_type) ''from authorized''
    (require (amount (get_balance d (ot_from op) (asset_id (ot_amount op))) \<ge> amount (ot_amount op))
        ''balance >= amount''
    (Inr ())))))))))"

definition override_transfer_do_apply :: "fc_lib \<Rightarrow> override_transfer_operation \<Rightarrow> database \<Rightarrow> database result" where
  "override_transfer_do_apply F op d =
     bind_res (deduct_balance F (ot_from op) (ot_amount op) d) (\<lambda>d1.
     adjust_balance F (ot_to op) (ot_amount op) d1)"

text \<open>The whole handlers: validation, fees, checks and state change.\<close>

definition transfer_evaluate :: "fc_lib \<Rightarrow> trx_state \<Rightarrow> int \<Rightarrow> transfer_operation \<Rightarrow> database \<Rightarrow> database result" where
  "transfer_evaluate F ts required_fee op d =
     bind_res (transfer_validate op) (\<lambda>_.
     start_evaluate F ts required_fee (tr_from op) (tr_fee op) (transfer_do_evaluate op)
       (\<lambda>_. transfer_do_apply F op) d)"

definition override_transfer_evaluate :: "fc_lib \<Rightarrow> trx_state \<Rightarrow> int \<Rightarrow> override_transfer_operation
    \<Rightarrow> database \<Rightarrow> database result" where
  "override_transfer_evaluate F ts required_fee op d =
     bind_res (override_transfer_validate op) (\<lambda>_.
     start_evaluate F ts required_fee (ot_issuer op) (ot_fee op) (override_transfer_do_evaluate op)
       (\<lambda>_. override_transfer_do_apply F op) d)"

subsection \<open>The fee phase\<close>

text \<open>What the fee phase of an operation leaves alone: everything but the fee statistics and the
  fee fields of the dynamic asset data.\<close>

definition strip_fees :: "asset_dynamic_data_object \<Rightarrow> asset_dynamic_data_object" where
  "strip_fees x = x\<lparr>accumulated_fees := 0, fee_pool := 0\<rparr>"

definition fee_frame :: "database \<Rightarrow> database \<Rightarrow> bool" where
  "fee_frame d d' \<longleftrightarrow>
     d' = d\<lparr>account_stats := account_stats d', asset_dyn := asset_dyn d'\<rparr>
     \<and> map strip_fees (asset_dyn d') = map strip_fees (asset_dyn d)"

lemma fee_frame_refl [simp]: "fee_frame d d"
  by (simp add: fee_frame_def)

lemma convert_fee_frame: "convert_fee F ts fs d = Inr d' \<Longrightarrow> fee_frame d d'"
  by (auto simp: convert_fee_def modify_dyn_def fee_frame_def strip_fees_def split: if_splits
      intro!: map_update_same)

lemma pay_fee_frame: "pay_fee F ts fs d = Inr d' \<Longrightarrow> fee_frame d d'"
  by (auto simp: pay_fee_def fee_frame_def split: if_splits)

lemma fee_frame_trans:
  assumes "fee_frame a b" "fee_frame b c"
  shows "fee_frame a c"
proof -
  have "c = b\<lparr>account_stats := account_stats c, asset_dyn := asset_dyn c\<rparr>"
    "b = a\<lparr>account_stats := account_stats b, asset_dyn := asset_dyn b\<rparr>"
    using assms by (simp_all add: fee_frame_def)
  then have "c = a\<lparr>account_stats := account_stats c, asset_dyn := asset_dyn c\<rparr>"
    by (cases a; cases b; cases c) simp
  then show ?thesis using assms by (simp add: fee_frame_def)
qed

text \<open>A successful operation: the checks passed in the state before the fees are booked, the change
  was made in a state that differs only in fees, and at last the fee is taken from the payer.\<close>

lemma start_evaluateE:
  assumes "start_evaluate F ts required_fee fee_payer fee do_evaluate do_apply d = Inr d'"
  obtains c d2 d3 where "do_evaluate d = Inr c" "fee_frame d d2" "do_apply c d2 = Inr d3"
    "deduct_balance F fee_payer fee d3 = Inr d'"
proof -
  from assms obtain fs c d1 d2 d3 where *: "prepare_fee d fee_payer fee = Inr fs" "do_evaluate d = Inr c"
    "convert_fee F ts fs d = Inr d1" "pay_fee F ts fs d1 = Inr d2" "do_apply c d2 = Inr d3"
    "deduct_balance F fee_payer (fee_from_account fs) d3 = Inr d'"
    by (auto simp: start_evaluate_def evaluate_op_def apply_op_def) blast+
  have "fee_from_account fs = fee" using *(1) by (auto simp: prepare_fee_def)
  moreover have "fee_frame d d2" using * convert_fee_frame pay_fee_frame fee_frame_trans by blast
  ultimately show ?thesis using * that by simp
qed


lemma fee_frame_balance [simp]: "fee_frame d d' \<Longrightarrow> balance_of d' = balance_of d"
  by (metis fee_frame_def balance_of_update(2,4))

subsection \<open>What a transfer does\<close>

context fc_arith
begin

lemma deduct_balance_bal:
  assumes "deduct_balance F a x d = Inr d'"
  shows "balance_of d' b y = balance_of d b y - (if b = a \<and> y = asset_id x then amount x else 0)"
  using assms adjust_balance_bal [of a "mk_asset (- amount x) (asset_id x)" d d' b y]
  by (auto simp: deduct_balance_iff)

lemma deduct_balance_nonneg:
  assumes "deduct_balance F a x d = Inr d'" "balances_ok d"
  shows "balances_ok d'"
  using assms nonneg_preserved [of a "mk_asset (- amount x) (asset_id x)" d d']
  by (auto simp: deduct_balance_iff balances_ok_def)

lemma adjust_balance_keeps_ok:
  assumes "adjust_balance F a x d = Inr d'" "balances_ok d"
  shows "balances_ok d'"
  using assms nonneg_preserved [of a x d d'] by (auto simp: balances_ok_def)

lemma transfer_effect:
  assumes "transfer_evaluate F ts required_fee op d = Inr d'"
  shows "balance_of d' b y = balance_of d b y
      - (if b = tr_from op \<and> y = asset_id (tr_amount op) then amount (tr_amount op) else 0)
      + (if b = tr_to op \<and> y = asset_id (tr_amount op) then amount (tr_amount op) else 0)
      - (if b = tr_from op \<and> y = asset_id (tr_fee op) then amount (tr_fee op) else 0)"
    and "balances_ok d \<Longrightarrow> balances_ok d'"
    and "d' = d\<lparr>account_stats := account_stats d', asset_dyn := asset_dyn d', balances := balances d'\<rparr>"
proof -
  from assms have run: "start_evaluate F ts required_fee (tr_from op) (tr_fee op) (transfer_do_evaluate op)
      (\<lambda>_. transfer_do_apply F op) d = Inr d'" by (simp add: transfer_evaluate_def)
  from run obtain c d2 d3 d4 where *: "fee_frame d d2" "deduct_balance F (tr_from op) (tr_amount op) d2 = Inr d3"
      "adjust_balance F (tr_to op) (tr_amount op) d3 = Inr d4" "deduct_balance F (tr_from op) (tr_fee op) d4 = Inr d'"
    by (rule start_evaluateE) (auto simp: transfer_do_apply_def)
  show "balance_of d' b y = balance_of d b y
      - (if b = tr_from op \<and> y = asset_id (tr_amount op) then amount (tr_amount op) else 0)
      + (if b = tr_to op \<and> y = asset_id (tr_amount op) then amount (tr_amount op) else 0)
      - (if b = tr_from op \<and> y = asset_id (tr_fee op) then amount (tr_fee op) else 0)"
    using deduct_balance_bal [OF *(2), of b y] adjust_balance_bal [OF *(3), of b y] deduct_balance_bal [OF *(4), of b y]
    by (simp add: fee_frame_balance [OF *(1)])
  show "balances_ok d \<Longrightarrow> balances_ok d'"
    using deduct_balance_nonneg [OF *(2)] adjust_balance_keeps_ok [OF *(3)] deduct_balance_nonneg [OF *(4)]
    by (simp add: balances_ok_def fee_frame_balance [OF *(1)])
  from *(1) have "d2 = d\<lparr>account_stats := account_stats d2, asset_dyn := asset_dyn d2\<rparr>" by (simp add: fee_frame_def)
  moreover obtain b2 b3 b4 where "d3 = d2\<lparr>balances := b2\<rparr>" "d4 = d3\<lparr>balances := b3\<rparr>" "d' = d4\<lparr>balances := b4\<rparr>"
    using deduct_balance_only [OF *(2)] adjust_balance_only [OF *(3)] deduct_balance_only [OF *(4)] by blast
  ultimately show "d' = d\<lparr>account_stats := account_stats d', asset_dyn := asset_dyn d', balances := balances d'\<rparr>"
    by (cases d; cases d2) simp
qed

end

text \<open>C10: A successful transfer takes exactly the amount and the fee from the sender, gives exactly the
  amount to the receiver, changes no other balance and nothing else but the fee statistics, and no
  balance becomes negative; it succeeds only between accounts authorised for the asset and, where
  transfers are restricted, only from or to the issuer.\<close>

theorem transfer_moves_funds:
  assumes "fc_arith F" "transfer_evaluate F ts required_fee op d = Inr d'" "balances_ok d"
  shows "(\<forall>b y. balance_of d' b y = balance_of d b y
      - (if b = tr_from op \<and> y = asset_id (tr_amount op) then amount (tr_amount op) else 0)
      + (if b = tr_to op \<and> y = asset_id (tr_amount op) then amount (tr_amount op) else 0)
      - (if b = tr_from op \<and> y = asset_id (tr_fee op) then amount (tr_fee op) else 0))
    \<and> balances_ok d'
    \<and> d' = d\<lparr>account_stats := account_stats d', asset_dyn := asset_dyn d', balances := balances d'\<rparr>
    \<and> is_authorized_asset d (accounts d ! tr_from op) (asset_id (tr_amount op)) (assets d ! asset_id (tr_amount op))
    \<and> is_authorized_asset d (accounts d ! tr_to op) (asset_id (tr_amount op)) (assets d ! asset_id (tr_amount op))
    \<and> (is_transfer_restricted (assets d ! asset_id (tr_amount op)) \<longrightarrow>
         tr_from op = issuer (assets d ! asset_id (tr_amount op)) \<or> tr_to op = issuer (assets d ! asset_id (tr_amount op)))"
proof -
  from assms(2) have "start_evaluate F ts required_fee (tr_from op) (tr_fee op) (transfer_do_evaluate op)
      (\<lambda>_. transfer_do_apply F op) d = Inr d'" by (simp add: transfer_evaluate_def)
  then have "transfer_do_evaluate op d = Inr ()" by (rule start_evaluateE) simp
  then show ?thesis
    using fc_arith.transfer_effect(1,2) [OF assms(1,2)] fc_arith.transfer_effect(3) [OF assms(1,2)] assms(3)
    by (simp add: transfer_do_evaluate_def)
qed

lemmas fee_eval = start_evaluate_def evaluate_op_def apply_op_def prepare_fee_def convert_fee_def pay_fee_def
  statistics_pay_fee_def get_obj_def modify_obj_def modify_dyn_def deduct_balance_def adjust_balance_def asset_neg_def
  asset_ge_def asset_less_def balance_of_def is_authorized_asset_def has_flag_def HARDFORK_419_TIME_def Let_def

definition demo_ts :: trx_state where
  "demo_ts = \<lparr>skip_fee = False, skip_fee_schedule_check = False\<rparr>"

definition demo_transfer :: transfer_operation where
  "demo_transfer = \<lparr>tr_fee = mk_asset 10 0, tr_from = 6, tr_to = 7, tr_amount = mk_asset 300 0\<rparr>"

theorem transfer_moves_funds_witness:
  "\<exists>d'. transfer_evaluate fc64 demo_ts 10 demo_transfer demo_db = Inr d' \<and> balance_of d' 6 0 = 1690 \<and> balance_of d' 7 0 = 3300"
proof -
  have "\<exists>d'. transfer_evaluate fc64 demo_ts 10 demo_transfer demo_db = Inr d'"
    by (simp add: transfer_evaluate_def transfer_validate_def transfer_do_evaluate_def transfer_do_apply_def
        is_transfer_restricted_def fee_eval demo_defs demo_ts_def demo_transfer_def fc64_eval)
  then obtain d' where d': "transfer_evaluate fc64 demo_ts 10 demo_transfer demo_db = Inr d'" by blast
  have "balances_ok demo_db" by (simp add: balances_ok_def balance_of_def demo_db_def)
  from transfer_moves_funds [OF fc64_arith.fc_arith_axioms d' this]
  show ?thesis using d' by (simp add: demo_transfer_def demo_db_def balance_of_def)
qed

end
