(* ===== verification/Vesting.thy ===== *)
theory Vesting
  imports Evaluator
begin

text \<open>
  Vesting balances: the two policies and the balance object
  (\<open>libraries/chain/vesting_balance_object.cpp\<close>, \<open>.hpp\<close>), the operations that create and
  withdraw from them (\<open>vesting_balance_evaluator.cpp\<close>), the lazy deposits of cashback and witness
  pay (\<open>db_balance.cpp\<close>) and the splitting of an account's pending fees
  (\<open>account_object.cpp\<close>).  Coin seconds are \<open>fc::uint128_t\<close>, the type \<open>128 word\<close>; the products
  the source forms in \<open>int64_t\<close> wrap around.  The C \<open>assert\<close>s of the source are not part of the
  definitions: the properties show that they hold.
\<close>

subsection \<open>Policies\<close>

record vesting_policy_context =
  ctx_balance :: asset
  ctx_now :: nat
  ctx_amount :: asset

definition int64_mul :: "int \<Rightarrow> int \<Rightarrow> int" where
  "int64_mul a b = sint (word_of_int (a * b) :: u64)"

definition sum_below_max_shares :: "fc_lib \<Rightarrow> asset \<Rightarrow> asset \<Rightarrow> bool result" where
  "sum_below_max_shares F a b =
     (if amount a \<le> GRAPHENE_MAX_SHARE_SUPPLY \<and> amount b \<le> GRAPHENE_MAX_SHARE_SUPPLY
      then bind_res (safe_add F (amount a) (amount b)) (\<lambda>s. Inr (s \<le> GRAPHENE_MAX_SHARE_SUPPLY))
      else Inr False)"

definition linear_total_vested :: "fc_lib \<Rightarrow> linear_vesting_policy \<Rightarrow> nat \<Rightarrow> int result" where
  "linear_total_vested F p elapsed_seconds =
     (if elapsed_seconds < lv_vesting_duration_seconds p
      then to_share F (word_of_int (lv_begin_balance p) * of_nat elapsed_seconds
                         div of_nat (lv_vesting_duration_seconds p))
      else Inr (lv_begin_balance p))"

definition linear_get_allowed_withdraw :: "fc_lib \<Rightarrow> linear_vesting_policy \<Rightarrow> vesting_policy_context
    \<Rightarrow> asset result" where
  "linear_get_allowed_withdraw F p ctx =
     bind_res
       (if ctx_now ctx > lv_begin_timestamp p then
          (let elapsed_seconds = ctx_now ctx - lv_begin_timestamp p in
           if elapsed_seconds \<ge> lv_vesting_cliff_seconds p then
             bind_res (linear_total_vested F p elapsed_seconds) (\<lambda>total_vested.
             bind_res (safe_sub F (lv_begin_balance p) (amount (ctx_balance ctx))) (\<lambda>withdrawn_already.
             safe_sub F total_vested withdrawn_already))
           else Inr 0)
        else Inr 0)
       (\<lambda>allowed_withdraw. Inr (mk_asset allowed_withdraw (asset_id (ctx_balance ctx))))"

definition policy_is_deposit_allowed :: "fc_lib \<Rightarrow> vesting_policy_context \<Rightarrow> bool result" where
  "policy_is_deposit_allowed F ctx =
     (if asset_id (ctx_amount ctx) = asset_id (ctx_balance ctx)
      then sum_below_max_shares F (ctx_amount ctx) (ctx_balance ctx) else Inr False)"

definition linear_is_withdraw_allowed :: "fc_lib \<Rightarrow> linear_vesting_policy \<Rightarrow> vesting_policy_context
    \<Rightarrow> bool result" where
  "linear_is_withdraw_allowed F p ctx =
     (if asset_id (ctx_amount ctx) = asset_id (ctx_balance ctx)
      then bind_res (linear_get_allowed_withdraw F p ctx) (asset_le (ctx_amount ctx))
      else Inr False)"

definition cdd_compute_coin_seconds_earned :: "cdd_vesting_policy \<Rightarrow> vesting_policy_context \<Rightarrow> u128" where
  "cdd_compute_coin_seconds_earned p ctx =
     (let delta_seconds = int (ctx_now ctx) - int (cv_coin_seconds_earned_last_update p);
          delta_coin_seconds = word_of_int (amount (ctx_balance ctx)) * word_of_int delta_seconds;
          coin_seconds_earned_cap = word_of_int (amount (ctx_balance ctx)) * of_nat (max (cv_vesting_seconds p) 1)
      in min (cv_coin_seconds_earned p + delta_coin_seconds) coin_seconds_earned_cap)"

definition cdd_update_coin_seconds_earned :: "cdd_vesting_policy \<Rightarrow> vesting_policy_context
    \<Rightarrow> cdd_vesting_policy" where
  "cdd_update_coin_seconds_earned p ctx =
     p\<lparr>cv_coin_seconds_earned := cdd_compute_coin_seconds_earned p ctx,
       cv_coin_seconds_earned_last_update := ctx_now ctx\<rparr>"

definition cdd_get_allowed_withdraw :: "fc_lib \<Rightarrow> cdd_vesting_policy \<Rightarrow> vesting_policy_context
    \<Rightarrow> asset result" where
  "cdd_get_allowed_withdraw F p ctx =
     (if ctx_now ctx \<le> cv_start_claim p then Inr (mk_asset 0 (asset_id (ctx_balance ctx)))
      else bind_res (to_share F (cdd_compute_coin_seconds_earned p ctx div of_nat (max (cv_vesting_seconds p) 1)))
             (\<lambda>withdraw_available. Inr (mk_asset withdraw_available (asset_id (ctx_balance ctx)))))"

definition cdd_on_deposit :: "cdd_vesting_policy \<Rightarrow> vesting_policy_context \<Rightarrow> cdd_vesting_policy" where
  "cdd_on_deposit p ctx = cdd_update_coin_seconds_earned p ctx"

definition cdd_on_deposit_vested :: "cdd_vesting_policy \<Rightarrow> vesting_policy_context \<Rightarrow> cdd_vesting_policy" where
  "cdd_on_deposit_vested p ctx =
     (let q = cdd_on_deposit p ctx in
      q\<lparr>cv_coin_seconds_earned := cv_coin_seconds_earned q +
          word_of_int (int64_mul (amount (ctx_amount ctx)) (int (max (cv_vesting_seconds q) 1)))\<rparr>)"

definition cdd_on_withdraw :: "cdd_vesting_policy \<Rightarrow> vesting_policy_context \<Rightarrow> cdd_vesting_policy" where
  "cdd_on_withdraw p ctx =
     (let q = cdd_update_coin_seconds_earned p ctx;
          coin_seconds_needed = word_of_int (amount (ctx_amount ctx)) * of_nat (max (cv_vesting_seconds q) 1)
      in q\<lparr>cv_coin_seconds_earned := cv_coin_seconds_earned q - coin_seconds_needed\<rparr>)"

definition cdd_is_withdraw_allowed :: "fc_lib \<Rightarrow> cdd_vesting_policy \<Rightarrow> vesting_policy_context
    \<Rightarrow> bool result" where
  "cdd_is_withdraw_allowed F p ctx =
     bind_res (cdd_get_allowed_withdraw F p ctx) (asset_le (ctx_amount ctx))"

subsection \<open>The vesting balance object\<close>

text \<open>The visitors dispatch on the policy of the object.\<close>

definition vb_ctx :: "vesting_balance_object \<Rightarrow> nat \<Rightarrow> asset \<Rightarrow> vesting_policy_context" where
  "vb_ctx v now amt = \<lparr>ctx_balance = vb_balance v, ctx_now = now, ctx_amount = amt\<rparr>"

definition vb_is_deposit_allowed :: "fc_lib \<Rightarrow> vesting_balance_object \<Rightarrow> nat \<Rightarrow> asset \<Rightarrow> bool result" where
  "vb_is_deposit_allowed F v now amt = policy_is_deposit_allowed F (vb_ctx v now amt)"

definition vb_is_deposit_vested_allowed :: "fc_lib \<Rightarrow> vesting_balance_object \<Rightarrow> nat \<Rightarrow> asset \<Rightarrow> bool result" where
  "vb_is_deposit_vested_allowed F v now amt =
     (case vb_policy v of
        Linear p \<Rightarrow> Inr False
      | Cdd p \<Rightarrow> policy_is_deposit_allowed F (vb_ctx v now amt))"

definition vb_is_withdraw_allowed :: "fc_lib \<Rightarrow> vesting_balance_object \<Rightarrow> nat \<Rightarrow> asset \<Rightarrow> bool result" where
  "vb_is_withdraw_allowed F v now amt =
     (case vb_policy v of
        Linear p \<Rightarrow> linear_is_withdraw_allowed F p (vb_ctx v now amt)
      | Cdd p \<Rightarrow> cdd_is_withdraw_allowed F p (vb_ctx v now amt))"

definition vb_get_allowed_withdraw :: "fc_lib \<Rightarrow> vesting_balance_object \<Rightarrow> nat \<Rightarrow> asset result" where
  "vb_get_allowed_withdraw F v now =
     (case vb_policy v of
        Linear p \<Rightarrow> linear_get_allowed_withdraw F p (vb_ctx v now (mk_asset 0 0))
      | Cdd p \<Rightarrow> cdd_get_allowed_withdraw F p (vb_ctx v now (mk_asset 0 0)))"

definition vb_deposit :: "fc_lib \<Rightarrow> nat \<Rightarrow> asset \<Rightarrow> vesting_balance_object \<Rightarrow> vesting_balance_object result" where
  "vb_deposit F now amt v =
     (let pol = (case vb_policy v of
                   Linear p \<Rightarrow> Linear p
                 | Cdd p \<Rightarrow> Cdd (cdd_on_deposit p (vb_ctx v now amt)))
      in bind_res (asset_plus F (vb_balance v) amt) (\<lambda>b. Inr (v\<lparr>vb_balance := b, vb_policy := pol\<rparr>)))"

definition vb_deposit_vested :: "fc_lib \<Rightarrow> nat \<Rightarrow> asset \<Rightarrow> vesting_balance_object
    \<Rightarrow> vesting_balance_object result" where
  "vb_deposit_vested F now amt v =
     bind_res (case vb_policy v of
        Linear p \<Rightarrow> Inl (Other_Exception ''May not deposit vested into a linear vesting balance.'')
      | Cdd p \<Rightarrow> Inr (Cdd (cdd_on_deposit_vested p (vb_ctx v now amt)))) (\<lambda>pol.
     bind_res (asset_plus F (vb_balance v) amt) (\<lambda>b. Inr (v\<lparr>vb_balance := b, vb_policy := pol\<rparr>)))"

definition vb_withdraw :: "fc_lib \<Rightarrow> nat \<Rightarrow> asset \<Rightarrow> vesting_balance_object \<Rightarrow> vesting_balance_object result" where
  "vb_withdraw F now amt v =
     (let pol = (case vb_policy v of
                   Linear p \<Rightarrow> Linear p
                 | Cdd p \<Rightarrow> Cdd (cdd_on_withdraw p (vb_ctx v now amt)))
      in bind_res (asset_minus F (vb_balance v) amt) (\<lambda>b. Inr (v\<lparr>vb_balance := b, vb_policy := pol\<rparr>)))"

subsection \<open>Operations on vesting balances\<close>

datatype vesting_policy_initializer =
    Linear_Init nat nat nat  \<comment> \<open>\<open>begin_timestamp\<close>, \<open>vesting_cliff_seconds\<close>, \<open>vesting_duration_seconds\<close>\<close>
  | Cdd_Init nat nat         \<comment> \<open>\<open>start_claim\<close>, \<open>vesting_seconds\<close>\<close>

record vesting_balance_create_operation =
  vc_fee :: asset
  vc_creator :: account_id_type
  vc_owner :: account_id_type
  vc_amount :: asset
  vc_policy :: vesting_policy_initializer

record vesting_balance_withdraw_operation =
  vw_fee :: asset
  vw_vesting_balance :: nat
  vw_owner :: account_id_type
  vw_amount :: asset

definition vesting_balance_create_validate :: "vesting_balance_create_operation \<Rightarrow> unit result" where
  "vesting_balance_create_validate op =
     require (amount (vc_fee op) \<ge> 0) ''fee.amount >= 0''
    (require (amount (vc_amount op) > 0) ''amount.amount > 0'' (Inr ()))"

definition vesting_balance_withdraw_validate :: "vesting_balance_withdraw_operation \<Rightarrow> unit result" where
  "vesting_balance_withdraw_validate op =
     require (amount (vw_fee op) \<ge> 0) ''fee.amount >= 0''
    (require (amount (vw_amount op) > 0) ''amount.amount > 0'' (Inr ()))"

fun init_policy :: "int \<Rightarrow> nat \<Rightarrow> vesting_policy_initializer \<Rightarrow> vesting_policy" where
  "init_policy init_balance now (Linear_Init b c dur) =
     Linear \<lparr>lv_begin_timestamp = b, lv_vesting_cliff_seconds = c, lv_vesting_duration_seconds = dur,
             lv_begin_balance = init_balance\<rparr>"
| "init_policy init_balance now (Cdd_Init sc vs) =
     Cdd \<lparr>cv_vesting_seconds = vs, cv_coin_seconds_earned = 0, cv_start_claim = sc,
          cv_coin_seconds_earned_last_update = now\<rparr>"

definition vesting_balance_create_do_evaluate :: "vesting_balance_create_operation \<Rightarrow> database
    \<Rightarrow> unit result" where
  "vesting_balance_create_do_evaluate op d =
     bind_res (get_obj (accounts d) (vc_creator op)) (\<lambda>_.
     bind_res (get_obj (accounts d) (vc_owner op)) (\<lambda>_.
     require (amount (vc_amount op) > 0) ''op.amount.amount > 0''
    (require (balance_of d (vc_creator op) (asset_id (vc_amount op)) \<ge> amount (vc_amount op)) ''balance''
    (bind_res (get_obj (assets d) (asset_id (vc_amount op))) (\<lambda>a.
     require (\<not> is_transfer_restricted a) ''!is_transfer_restricted()'' (Inr ()))))))"

definition vesting_balance_create_do_apply :: "fc_lib \<Rightarrow> vesting_balance_create_operation \<Rightarrow> database
    \<Rightarrow> (database \<times> nat) result" where
  "vesting_balance_create_do_apply F op d =
     require (balance_of d (vc_creator op) (asset_id (vc_amount op)) \<ge> amount (vc_amount op)) ''balance''
    (bind_res (deduct_balance F (vc_creator op) (vc_amount op) d) (\<lambda>d1.
     Inr (d1\<lparr>vestings := vestings d1 @ [\<lparr>vb_owner = vc_owner op, vb_balance = vc_amount op,
            vb_policy = init_policy (amount (vc_amount op)) (head_block_time d) (vc_policy op)\<rparr>]\<rparr>,
          length (vestings d1))))"

definition vesting_balance_withdraw_do_evaluate :: "fc_lib \<Rightarrow> vesting_balance_withdraw_operation \<Rightarrow> database
    \<Rightarrow> unit result" where
  "vesting_balance_withdraw_do_evaluate F op d =
     bind_res (get_obj (vestings d) (vw_vesting_balance op)) (\<lambda>vbo.
     require (vw_owner op = vb_owner vbo) ''op.owner == vbo.owner''
    (bind_res (vb_is_withdraw_allowed F vbo (head_block_time d) (vw_amount op)) (\<lambda>allowed.
     require allowed ''vbo.is_withdraw_allowed( now, op.amount )''
    (bind_res (get_obj (accounts d) (vw_owner op)) (\<lambda>_. Inr ())))))"

definition vesting_balance_withdraw_do_apply :: "fc_lib \<Rightarrow> vesting_balance_withdraw_operation \<Rightarrow> database
    \<Rightarrow> database result" where
  "vesting_balance_withdraw_do_apply F op d =
     bind_res (modify_obj (vw_vesting_balance op) (vb_withdraw F (head_block_time d) (vw_amount op))
                (vestings d)) (\<lambda>vs.
     adjust_balance F (vw_owner op) (vw_amount op) (d\<lparr>vestings := vs\<rparr>))"

text \<open>The whole handlers.\<close>

definition vesting_balance_create_evaluate :: "fc_lib \<Rightarrow> trx_state \<Rightarrow> int \<Rightarrow> vesting_balance_create_operation
    \<Rightarrow> database \<Rightarrow> database result" where
  "vesting_balance_create_evaluate F ts required_fee op d =
     bind_res (vesting_balance_create_validate op) (\<lambda>_.
     start_evaluate F ts required_fee (vc_creator op) (vc_fee op) (vesting_balance_create_do_evaluate op)
       (\<lambda>_ d. bind_res (vesting_balance_create_do_apply F op d) (\<lambda>(d', _). Inr d')) d)"

definition vesting_balance_withdraw_evaluate :: "fc_lib \<Rightarrow> trx_state \<Rightarrow> int \<Rightarrow> vesting_balance_withdraw_operation
    \<Rightarrow> database \<Rightarrow> database result" where
  "vesting_balance_withdraw_evaluate F ts required_fee op d =
     bind_res (vesting_balance_withdraw_validate op) (\<lambda>_.
     start_evaluate F ts required_fee (vw_owner op) (vw_fee op) (vesting_balance_withdraw_do_evaluate F op)
       (\<lambda>_. vesting_balance_withdraw_do_apply F op) d)"

subsection \<open>Lazy deposits\<close>

definition lazy_vesting_target :: "database \<Rightarrow> nat option \<Rightarrow> nat \<Rightarrow> account_id_type \<Rightarrow> nat option result" where
  "lazy_vesting_target d ovbid req_vesting_seconds req_owner =
     (case ovbid of
        None \<Rightarrow> Inr None
      | Some i \<Rightarrow>
          bind_res (get_obj (vestings d) i) (\<lambda>vbo.
          if vb_owner vbo \<noteq> req_owner then Inr None
          else case vb_policy vbo of
            Linear _ \<Rightarrow> Inr None
          | Cdd p \<Rightarrow> if cv_vesting_seconds p \<noteq> req_vesting_seconds then Inr None else Inr (Some i)))"

definition deposit_lazy_vesting :: "fc_lib \<Rightarrow> nat option \<Rightarrow> int \<Rightarrow> nat \<Rightarrow> account_id_type \<Rightarrow> bool
    \<Rightarrow> database \<Rightarrow> (database \<times> nat option) result" where
  "deposit_lazy_vesting F ovbid amt req_vesting_seconds req_owner require_vesting d =
     (if amt = 0 then Inr (d, None)
      else bind_res (lazy_vesting_target d ovbid req_vesting_seconds req_owner) (\<lambda>target.
        case target of
          Some i \<Rightarrow>
            bind_res (modify_obj i
                (if require_vesting then vb_deposit F (head_block_time d) (mk_asset amt 0)
                 else vb_deposit_vested F (head_block_time d) (mk_asset amt 0)) (vestings d)) (\<lambda>vs.
            Inr (d\<lparr>vestings := vs\<rparr>, None))
        | None \<Rightarrow>
            Inr (d\<lparr>vestings := vestings d @ [\<lparr>vb_owner = req_owner, vb_balance = mk_asset amt 0,
                   vb_policy = Cdd \<lparr>cv_vesting_seconds = req_vesting_seconds,
                     cv_coin_seconds_earned = (if require_vesting then 0
                        else word_of_int (int64_mul amt (int req_vesting_seconds))),
                     cv_start_claim = 0, cv_coin_seconds_earned_last_update = head_block_time d\<rparr>\<rparr>]\<rparr>,
                 Some (length (vestings d)))))"

definition is_reserved_account :: "account_id_type \<Rightarrow> bool" where
  "is_reserved_account a \<longleftrightarrow> a = GRAPHENE_COMMITTEE_ACCOUNT \<or> a = GRAPHENE_WITNESS_ACCOUNT \<or>
     a = GRAPHENE_RELAXED_COMMITTEE_ACCOUNT \<or> a = GRAPHENE_NULL_ACCOUNT \<or> a = GRAPHENE_TEMP_ACCOUNT"

definition deposit_cashback :: "fc_lib \<Rightarrow> account_id_type \<Rightarrow> int \<Rightarrow> bool \<Rightarrow> database \<Rightarrow> database result" where
  "deposit_cashback F acct amt require_vesting d =
     (if amt = 0 then Inr d
      else if is_reserved_account acct then
        bind_res (get_obj (assets d) 0) (\<lambda>core.
        modify_dyn (dynamic_asset_data_id core) (\<lambda>x.
          bind_res (safe_sub F (current_supply x) amt) (\<lambda>s. Inr (x\<lparr>current_supply := s\<rparr>))) d)
      else
        bind_res (get_obj (accounts d) acct) (\<lambda>a.
        bind_res (deposit_lazy_vesting F (cashback_vb a) amt
            (cashback_vesting_period_seconds (parameters d)) acct require_vesting d) (\<lambda>(d1, new_vbid).
        case new_vbid of
          None \<Rightarrow> Inr d1
        | Some v \<Rightarrow> Inr (d1\<lparr>accounts := (accounts d1)[acct := a\<lparr>cashback_vb := Some v\<rparr>]\<rparr>))))"

definition deposit_witness_pay :: "fc_lib \<Rightarrow> nat \<Rightarrow> int \<Rightarrow> database \<Rightarrow> database result" where
  "deposit_witness_pay F wit amt d =
     (if amt = 0 then Inr d
      else
        bind_res (get_obj (witnesses d) wit) (\<lambda>w.
        bind_res (deposit_lazy_vesting F (pay_vb w) amt
            (witness_pay_vesting_seconds (parameters d)) (witness_account w) True d) (\<lambda>(d1, new_vbid).
        case new_vbid of
          None \<Rightarrow> Inr d1
        | Some v \<Rightarrow> Inr (d1\<lparr>witnesses := (witnesses d1)[wit := w\<lparr>pay_vb := Some v\<rparr>]\<rparr>))))"

subsection \<open>Splitting pending fees\<close>


definition cut_fee :: "fc_lib \<Rightarrow> int \<Rightarrow> nat \<Rightarrow> int result" where
  "cut_fee F a p =
     (if a = 0 \<or> p = 0 then Inr 0
      else if p = GRAPHENE_100_PERCENT then Inr a
      else to_share F ((word_of_int a :: u128) * of_nat p div of_nat GRAPHENE_100_PERCENT))"

definition is_basic_account :: "nat \<Rightarrow> account_object \<Rightarrow> bool" where
  "is_basic_account now a \<longleftrightarrow> now > membership_expiration_date a"

definition refresh_referrer :: "account_id_type \<Rightarrow> database \<Rightarrow> database result" where
  "refresh_referrer acct d =
     bind_res (get_obj (accounts d) acct) (\<lambda>a.
     bind_res (get_obj (accounts d) (referrer a)) (\<lambda>r.
     Inr (if is_basic_account (head_block_time d) r
          then d\<lparr>accounts := (accounts d)[acct := a\<lparr>referrer := lifetime_referrer a\<rparr>]\<rparr>
          else d)))"

definition pay_out_fees :: "fc_lib \<Rightarrow> account_id_type \<Rightarrow> int \<Rightarrow> bool \<Rightarrow> database \<Rightarrow> database result" where
  "pay_out_fees F acct core_fee_total require_vesting d =
     bind_res (refresh_referrer acct d) (\<lambda>d1.
     bind_res (get_obj (accounts d1) acct) (\<lambda>a.
     bind_res (cut_fee F core_fee_total (network_fee_percentage a)) (\<lambda>network_cut.
     bind_res (cut_fee F core_fee_total (lifetime_referrer_fee_percentage a)) (\<lambda>lifetime_cut.
     bind_res (safe_sub F core_fee_total network_cut) (\<lambda>rest.
     bind_res (safe_sub F rest lifetime_cut) (\<lambda>referral.
     bind_res (modify_dyn 0 (\<lambda>x.
        bind_res (safe_add F (accumulated_fees x) network_cut) (\<lambda>s. Inr (x\<lparr>accumulated_fees := s\<rparr>))) d1) (\<lambda>d2.
     bind_res (cut_fee F referral (referrer_rewards_percentage a)) (\<lambda>referrer_cut.
     bind_res (safe_sub F referral referrer_cut) (\<lambda>registrar_cut.
     bind_res (get_obj (accounts d2) (lifetime_referrer a)) (\<lambda>_.
     bind_res (deposit_cashback F (lifetime_referrer a) lifetime_cut require_vesting d2) (\<lambda>d3.
     bind_res (get_obj (accounts d3) (referrer a)) (\<lambda>_.
     bind_res (deposit_cashback F (referrer a) referrer_cut require_vesting d3) (\<lambda>d4.
     bind_res (get_obj (accounts d4) (registrar a)) (\<lambda>_.
     deposit_cashback F (registrar a) registrar_cut require_vesting d4))))))))))))))"

definition process_fees :: "fc_lib \<Rightarrow> nat \<Rightarrow> account_id_type \<Rightarrow> database \<Rightarrow> database result" where
  "process_fees F st acct d =
     bind_res (get_obj (account_stats d) st) (\<lambda>s.
     if pending_fees s > 0 \<or> pending_vested_fees s > 0 then
       bind_res (pay_out_fees F acct (pending_fees s) True d) (\<lambda>d1.
       bind_res (pay_out_fees F acct (pending_vested_fees s) False d1) (\<lambda>d2.
       bind_res (modify_obj st (\<lambda>s.
          bind_res (safe_add F (pending_fees s) (pending_vested_fees s)) (\<lambda>p.
          bind_res (safe_add F (lifetime_fees_paid s) p) (\<lambda>l.
          Inr (s\<lparr>lifetime_fees_paid := l, pending_fees := 0, pending_vested_fees := 0\<rparr>)))) (account_stats d2)) (\<lambda>t.
       Inr (d2\<lparr>account_stats := t\<rparr>))))
     else Inr d)"

subsection \<open>Coin-seconds arithmetic\<close>

definition cdd_window :: "cdd_vesting_policy \<Rightarrow> int" where
  "cdd_window p = int (max (cv_vesting_seconds p) 1)"

definition cdd_ok :: "cdd_vesting_policy \<Rightarrow> int \<Rightarrow> nat \<Rightarrow> bool" where
  "cdd_ok p bal now \<longleftrightarrow> 0 \<le> bal \<and> in_int64 bal \<and> cv_vesting_seconds p < 2 ^ 32 \<and> now < 2 ^ 32
     \<and> cv_coin_seconds_earned_last_update p \<le> now
     \<and> uint (cv_coin_seconds_earned p) \<le> bal * cdd_window p"

definition cdd_earned :: "cdd_vesting_policy \<Rightarrow> int \<Rightarrow> nat \<Rightarrow> int" where
  "cdd_earned p bal now =
     min (uint (cv_coin_seconds_earned p) + bal * int (now - cv_coin_seconds_earned_last_update p))
         (bal * cdd_window p)"

lemma cdd_window_bounds: "cv_vesting_seconds p < 2 ^ 32 \<Longrightarrow> 0 < cdd_window p \<and> cdd_window p < 2 ^ 33"
  by (auto simp: cdd_window_def max_def)

lemma int64_times_u33:
  fixes a b :: int
  assumes "0 \<le> a" "in_int64 a" "0 \<le> b" "b < 2 ^ 33"
  shows "0 \<le> a * b" "a * b < 2 ^ 96"
proof -
  show "0 \<le> a * b" using assms by simp
  have "a * b \<le> 2 ^ 63 * 2 ^ 33"
    using assms by (intro mult_mono) (auto simp: in_int64_def)
  moreover have "a * b \<noteq> 2 ^ 63 * 2 ^ 33"
  proof
    assume eq: "a * b = 2 ^ 63 * 2 ^ 33"
    have "a * b \<le> (2 ^ 63 - 1) * 2 ^ 33" using assms by (intro mult_mono) (auto simp: in_int64_def)
    with eq show False by simp
  qed
  ultimately show "a * b < 2 ^ 96" by simp
qed

lemma word_of_int_mult_u128: "(word_of_int a :: u128) * word_of_int b = word_of_int (a * b)"
  by simp

lemma uint_product_u128:
  assumes "0 \<le> a" "in_int64 a" "0 \<le> b" "b < 2 ^ 33"
  shows "uint ((word_of_int a :: u128) * word_of_int b) = a * b"
  unfolding word_of_int_mult_u128 using int64_times_u33 [OF assms]
  by (intro uint_word_of_int_u128) auto

lemma sum_below_u128: "x \<le> c \<Longrightarrow> c < 2 ^ 96 \<Longrightarrow> y < 2 ^ 96 \<Longrightarrow> x + y < 2 ^ 128" for x y c :: int
  by simp

lemma cdd_compute_exact:
  assumes "cdd_ok p (amount (ctx_balance ctx)) (ctx_now ctx)"
  shows "uint (cdd_compute_coin_seconds_earned p ctx) = cdd_earned p (amount (ctx_balance ctx)) (ctx_now ctx)"
proof -
  let ?b = "amount (ctx_balance ctx)" and ?w = "cdd_window p"
  let ?dt = "int (ctx_now ctx - cv_coin_seconds_earned_last_update p)"
  let ?D = "(word_of_int ?b :: u128) * word_of_int ?dt" and ?C = "(word_of_int ?b :: u128) * word_of_int ?w"
  have ok: "0 \<le> ?b" "in_int64 ?b" "0 \<le> ?dt" "?dt < 2 ^ 33" "0 \<le> ?w" "?w < 2 ^ 33"
    and cs: "uint (cv_coin_seconds_earned p) \<le> ?b * ?w"
    using assms cdd_window_bounds [of p] by (auto simp: cdd_ok_def)
  note D = uint_product_u128 [OF ok(1-4)] and C = uint_product_u128 [OF ok(1,2,5,6)]
  have "uint (cv_coin_seconds_earned p) + ?b * ?dt < 2 ^ 128"
    by (rule sum_below_u128 [OF cs int64_times_u33(2) [OF ok(1,2,5,6)] int64_times_u33(2) [OF ok(1-4)]])
  then have S: "uint (cv_coin_seconds_earned p + ?D) = uint (cv_coin_seconds_earned p) + ?b * ?dt"
    using uint_add_lem [of "cv_coin_seconds_earned p" ?D] by (simp only: D) simp
  have "cdd_compute_coin_seconds_earned p ctx = min (cv_coin_seconds_earned p + ?D) ?C"
    using assms by (simp add: cdd_compute_coin_seconds_earned_def cdd_ok_def cdd_window_def Let_def of_nat_diff)
  then show ?thesis using S C by (simp add: cdd_earned_def min_def word_le_def)
qed


lemma cdd_earned_le: "cdd_earned p bal now \<le> bal * cdd_window p"
  by (simp add: cdd_earned_def)

lemma cdd_earned_nonneg: "cdd_ok p bal now \<Longrightarrow> 0 \<le> cdd_earned p bal now"
  by (simp add: cdd_earned_def cdd_ok_def cdd_window_def)

lemma cdd_ok_later:
  assumes "cdd_ok p bal now" "now \<le> now'" "now' < 2 ^ 32"
  shows "cdd_ok p bal now'"
  using assms by (simp add: cdd_ok_def)

lemma cdd_available_bounds:
  assumes "cdd_ok p bal now"
  shows "0 \<le> cdd_earned p bal now div cdd_window p" "cdd_earned p bal now div cdd_window p \<le> bal"
proof -
  have w: "0 < cdd_window p" by (simp add: cdd_window_def)
  show "0 \<le> cdd_earned p bal now div cdd_window p"
    using cdd_earned_nonneg [OF assms] w by (simp add: pos_imp_zdiv_nonneg_iff)
  have "cdd_earned p bal now div cdd_window p \<le> (bal * cdd_window p) div cdd_window p"
    by (intro zdiv_mono1 cdd_earned_le w)
  then show "cdd_earned p bal now div cdd_window p \<le> bal" using w by simp
qed

context fc_arith
begin

lemma cdd_allowed_exact:
  assumes "cdd_ok p (amount (ctx_balance ctx)) (ctx_now ctx)"
  shows "cdd_get_allowed_withdraw F p ctx =
     Inr (mk_asset (if ctx_now ctx \<le> cv_start_claim p then 0
                    else cdd_earned p (amount (ctx_balance ctx)) (ctx_now ctx) div cdd_window p)
                   (asset_id (ctx_balance ctx)))"
proof -
  let ?b = "amount (ctx_balance ctx)" and ?e = "cdd_compute_coin_seconds_earned p ctx"
  have w: "uint (of_nat (max (cv_vesting_seconds p) 1) :: u128) = cdd_window p"
    using assms by (auto simp: cdd_ok_def cdd_window_def max_def unsigned_of_nat take_bit_nat_eq_self)
  have q: "uint (?e div of_nat (max (cv_vesting_seconds p) 1)) = cdd_earned p ?b (ctx_now ctx) div cdd_window p"
    by (simp only: uint_div cdd_compute_exact [OF assms] w)
  then have "uint (?e div of_nat (max (cv_vesting_seconds p) 1)) < 2 ^ 63"
    using cdd_available_bounds(2) [OF assms] assms by (simp add: cdd_ok_def in_int64_def)
  from to_share_small [OF this] show ?thesis unfolding q by (simp add: cdd_get_allowed_withdraw_def)
qed

end

lemma cdd_update_exact:
  assumes "cdd_ok p (amount (ctx_balance ctx)) (ctx_now ctx)"
  shows "uint (cv_coin_seconds_earned (cdd_update_coin_seconds_earned p ctx)) =
           cdd_earned p (amount (ctx_balance ctx)) (ctx_now ctx)"
    and "cdd_window (cdd_update_coin_seconds_earned p ctx) = cdd_window p"
    and "cv_coin_seconds_earned_last_update (cdd_update_coin_seconds_earned p ctx) = ctx_now ctx"
    and "cv_vesting_seconds (cdd_update_coin_seconds_earned p ctx) = cv_vesting_seconds p"
  using cdd_compute_exact [OF assms] by (simp_all add: cdd_update_coin_seconds_earned_def cdd_window_def)

lemma int64_mul_exact: "in_int64 (a * b) \<Longrightarrow> int64_mul a b = a * b"
  using signed_take_bit_int_eq_self [of 63 "a * b"] sint_sbintrunc' [of "a * b", where 'a = 64]
  unfolding int64_mul_def by (simp add: in_int64_def del: of_int_mult)

lemma cdd_deposit_vested_exact:
  assumes ok: "cdd_ok p (amount (ctx_balance ctx)) (ctx_now ctx)"
    and amt: "0 \<le> amount (ctx_amount ctx)" "in_int64 (amount (ctx_amount ctx) * cdd_window p)"
  shows "uint (cv_coin_seconds_earned (cdd_on_deposit_vested p ctx)) =
           cdd_earned p (amount (ctx_balance ctx)) (ctx_now ctx) + amount (ctx_amount ctx) * cdd_window p"
proof -
  let ?b = "amount (ctx_balance ctx)" and ?a = "amount (ctx_amount ctx)" and ?w = "cdd_window p"
  let ?q = "cdd_update_coin_seconds_earned p ctx"
  have w: "0 \<le> ?w" "?w < 2 ^ 33" and b: "0 \<le> ?b" "in_int64 ?b"
    using ok cdd_window_bounds [of p] by (auto simp: cdd_ok_def)
  have aw: "0 \<le> ?a * ?w" "?a * ?w < 2 ^ 96" using amt w by (auto simp: in_int64_def)
  have mul: "int64_mul ?a (int (max (cv_vesting_seconds ?q) 1)) = ?a * ?w"
    using int64_mul_exact [OF amt(2)] by (simp add: cdd_update_exact(4) [OF ok] cdd_window_def)
  have u: "uint (word_of_int (?a * ?w) :: u128) = ?a * ?w"
    using aw by (intro uint_word_of_int_u128) auto
  have "uint (cv_coin_seconds_earned ?q) + ?a * ?w < 2 ^ 128"
    unfolding cdd_update_exact(1) [OF ok]
    by (rule sum_below_u128 [OF cdd_earned_le int64_times_u33(2) [OF b w] aw(2)])
  then have "uint (cv_coin_seconds_earned ?q + word_of_int (?a * ?w)) = uint (cv_coin_seconds_earned ?q) + ?a * ?w"
    using uint_add_lem [of "cv_coin_seconds_earned ?q" "word_of_int (?a * ?w)"] by (simp only: u) simp
  then show ?thesis unfolding cdd_on_deposit_vested_def cdd_on_deposit_def Let_def mul
    by (simp add: cdd_update_exact(1) [OF ok])
qed

lemma cdd_withdraw_exact:
  assumes ok: "cdd_ok p (amount (ctx_balance ctx)) (ctx_now ctx)"
    and amt: "0 \<le> amount (ctx_amount ctx)"
      "amount (ctx_amount ctx) \<le> cdd_earned p (amount (ctx_balance ctx)) (ctx_now ctx) div cdd_window p"
  shows "uint (cv_coin_seconds_earned (cdd_on_withdraw p ctx)) =
           cdd_earned p (amount (ctx_balance ctx)) (ctx_now ctx) - amount (ctx_amount ctx) * cdd_window p"
proof -
  let ?b = "amount (ctx_balance ctx)" and ?a = "amount (ctx_amount ctx)" and ?w = "cdd_window p"
  let ?q = "cdd_update_coin_seconds_earned p ctx"
  have w: "0 \<le> ?w" "?w < 2 ^ 33" "0 < ?w" and b: "0 \<le> ?b" "in_int64 ?b"
    using ok cdd_window_bounds [of p] by (auto simp: cdd_ok_def)
  have "?a \<le> ?b" using amt cdd_available_bounds [OF ok] by simp
  then have a: "in_int64 ?a" using b amt by (auto simp: in_int64_def)
  have needed: "?a * ?w \<le> cdd_earned p ?b (ctx_now ctx)" using amt(2) le_div_iff [OF w(3)] by simp
  have u: "uint ((word_of_int ?a :: u128) * word_of_int ?w) = ?a * ?w"
    by (rule uint_product_u128 [OF amt(1) a w(1,2)])
  have "uint (cv_coin_seconds_earned ?q - word_of_int ?a * word_of_int ?w) = uint (cv_coin_seconds_earned ?q) - ?a * ?w"
    using uint_sub_lem [of "(word_of_int ?a :: u128) * word_of_int ?w" "cv_coin_seconds_earned ?q"] needed
    by (simp only: u cdd_update_exact(1) [OF ok])
  then show ?thesis
    by (simp add: cdd_on_withdraw_def Let_def cdd_update_exact(1,4) [OF ok] cdd_window_def)
qed


lemma cdd_window_ops [simp]:
  "cdd_window (cdd_on_deposit p ctx) = cdd_window p"
  "cdd_window (cdd_on_deposit_vested p ctx) = cdd_window p"
  "cdd_window (cdd_on_withdraw p ctx) = cdd_window p"
  by (simp_all add: cdd_window_def cdd_on_deposit_def cdd_on_deposit_vested_def cdd_on_withdraw_def
      cdd_update_coin_seconds_earned_def Let_def)

lemma cdd_static_ops [simp]:
  "cv_vesting_seconds (cdd_on_deposit p ctx) = cv_vesting_seconds p"
  "cv_vesting_seconds (cdd_on_deposit_vested p ctx) = cv_vesting_seconds p"
  "cv_vesting_seconds (cdd_on_withdraw p ctx) = cv_vesting_seconds p"
  "cv_start_claim (cdd_on_deposit p ctx) = cv_start_claim p"
  "cv_start_claim (cdd_on_deposit_vested p ctx) = cv_start_claim p"
  "cv_start_claim (cdd_on_withdraw p ctx) = cv_start_claim p"
  "cv_coin_seconds_earned_last_update (cdd_on_deposit p ctx) = ctx_now ctx"
  "cv_coin_seconds_earned_last_update (cdd_on_deposit_vested p ctx) = ctx_now ctx"
  "cv_coin_seconds_earned_last_update (cdd_on_withdraw p ctx) = ctx_now ctx"
  by (simp_all add: cdd_on_deposit_def cdd_on_deposit_vested_def cdd_on_withdraw_def
      cdd_update_coin_seconds_earned_def Let_def)

subsection \<open>Linear vesting\<close>

definition linear_vested :: "linear_vesting_policy \<Rightarrow> nat \<Rightarrow> int" where
  "linear_vested p now =
     (if now \<le> lv_begin_timestamp p \<or> now - lv_begin_timestamp p < lv_vesting_cliff_seconds p then 0
      else if now - lv_begin_timestamp p < lv_vesting_duration_seconds p
      then lv_begin_balance p * int (now - lv_begin_timestamp p) div int (lv_vesting_duration_seconds p)
      else lv_begin_balance p)"

lemma linear_vested_bounds:
  assumes "0 \<le> lv_begin_balance p"
  shows "0 \<le> linear_vested p now" "linear_vested p now \<le> lv_begin_balance p"
proof -
  show "0 \<le> linear_vested p now" using assms
    by (auto simp: linear_vested_def pos_imp_zdiv_nonneg_iff intro!: pos_imp_zdiv_nonneg_iff [THEN iffD2])
  have "lv_begin_balance p * int el div int du \<le> lv_begin_balance p" if "el < du" for el du
  proof -
    have "lv_begin_balance p * int el div int du \<le> lv_begin_balance p * int du div int du"
      using that assms by (intro zdiv_mono1 mult_left_mono) auto
    then show ?thesis using that by simp
  qed
  then show "linear_vested p now \<le> lv_begin_balance p" using assms
    by (auto simp: linear_vested_def simp del: of_nat_diff)
qed

lemma linear_vested_mono:
  assumes "0 \<le> lv_begin_balance p" "now \<le> now'"
  shows "linear_vested p now \<le> linear_vested p now'"
proof (cases "now \<le> lv_begin_timestamp p \<or> now - lv_begin_timestamp p < lv_vesting_cliff_seconds p")
  case True
  then have "linear_vested p now = 0" by (simp add: linear_vested_def)
  then show ?thesis using linear_vested_bounds(1) [OF assms(1)] by simp
next
  case False
  then have *: "\<not> (now' \<le> lv_begin_timestamp p \<or> now' - lv_begin_timestamp p < lv_vesting_cliff_seconds p)"
    using assms(2) by auto
  show ?thesis
  proof (cases "now' - lv_begin_timestamp p < lv_vesting_duration_seconds p")
    case True
    then have "lv_begin_balance p * int (now - lv_begin_timestamp p) div int (lv_vesting_duration_seconds p)
        \<le> lv_begin_balance p * int (now' - lv_begin_timestamp p) div int (lv_vesting_duration_seconds p)"
      using assms by (intro zdiv_mono1 mult_left_mono) auto
    moreover have "now - lv_begin_timestamp p < lv_vesting_duration_seconds p" using True assms(2) by simp
    ultimately show ?thesis using False * True by (simp add: linear_vested_def)
  next
    case False
    then have "linear_vested p now' = lv_begin_balance p" using * by (simp add: linear_vested_def)
    then show ?thesis using linear_vested_bounds(2) [OF assms(1)] by simp
  qed
qed

definition linear_ok :: "linear_vesting_policy \<Rightarrow> int \<Rightarrow> nat \<Rightarrow> bool" where
  "linear_ok p bal now \<longleftrightarrow> 0 \<le> bal \<and> bal \<le> lv_begin_balance p \<and> in_int64 (lv_begin_balance p)
     \<and> now < 2 ^ 32 \<and> lv_vesting_duration_seconds p < 2 ^ 32
     \<and> lv_begin_balance p - bal \<le> linear_vested p now"

context fc_arith
begin

lemma linear_total_vested_exact:
  assumes "0 \<le> lv_begin_balance p" "in_int64 (lv_begin_balance p)" "el < 2 ^ 32"
    and "lv_vesting_duration_seconds p < 2 ^ 32"
  shows "linear_total_vested F p el = Inr (if el < lv_vesting_duration_seconds p
     then lv_begin_balance p * int el div int (lv_vesting_duration_seconds p) else lv_begin_balance p)"
proof (cases "el < lv_vesting_duration_seconds p")
  case True
  let ?B = "lv_begin_balance p" and ?d = "lv_vesting_duration_seconds p"
  have "uint ((word_of_int ?B :: u128) * word_of_int (int el)) = ?B * int el"
    using assms by (intro uint_product_u128) auto
  moreover have "uint (of_nat ?d :: u128) = int ?d"
    using assms by (simp add: unsigned_of_nat take_bit_nat_eq_self)
  ultimately have q: "uint ((word_of_int ?B :: u128) * of_nat el div of_nat ?d) = ?B * int el div int ?d"
    by (simp add: uint_div)
  have "?B * int el div int ?d \<le> ?B * int ?d div int ?d"
    using True assms by (intro zdiv_mono1 mult_left_mono) auto
  then have "uint ((word_of_int ?B :: u128) * of_nat el div of_nat ?d) < 2 ^ 63"
    using True assms by (simp add: q in_int64_def)
  from to_share_small [OF this] show ?thesis using True unfolding q by (simp add: linear_total_vested_def)
qed (simp add: linear_total_vested_def)

lemma linear_allowed_exact:
  assumes "linear_ok p (amount (ctx_balance ctx)) (ctx_now ctx)"
  shows "linear_get_allowed_withdraw F p ctx =
     Inr (mk_asset (if ctx_now ctx \<le> lv_begin_timestamp p
                       \<or> ctx_now ctx - lv_begin_timestamp p < lv_vesting_cliff_seconds p then 0
                    else linear_vested p (ctx_now ctx) - (lv_begin_balance p - amount (ctx_balance ctx)))
                   (asset_id (ctx_balance ctx)))"
proof (cases "ctx_now ctx \<le> lv_begin_timestamp p
    \<or> ctx_now ctx - lv_begin_timestamp p < lv_vesting_cliff_seconds p")
  case True
  then show ?thesis by (auto simp: linear_get_allowed_withdraw_def Let_def)
next
  case False
  let ?el = "ctx_now ctx - lv_begin_timestamp p" and ?b = "amount (ctx_balance ctx)"
  have ok: "0 \<le> ?b" "?b \<le> lv_begin_balance p" "in_int64 (lv_begin_balance p)" "ctx_now ctx < 2 ^ 32"
      "lv_vesting_duration_seconds p < 2 ^ 32" "lv_begin_balance p - ?b \<le> linear_vested p (ctx_now ctx)"
    using assms by (simp_all add: linear_ok_def)
  have B: "0 \<le> lv_begin_balance p" using ok by simp
  have tv: "linear_total_vested F p ?el = Inr (linear_vested p (ctx_now ctx))"
    using linear_total_vested_exact [of p ?el] ok B False by (simp add: linear_vested_def)
  have s1: "safe_sub F (lv_begin_balance p) ?b = Inr (lv_begin_balance p - ?b)"
    using ok by (intro safe_sub_exact) (auto simp: in_int64_def)
  have s2: "safe_sub F (linear_vested p (ctx_now ctx)) (lv_begin_balance p - ?b)
      = Inr (linear_vested p (ctx_now ctx) - (lv_begin_balance p - ?b))"
    using ok linear_vested_bounds(2) [OF B, of "ctx_now ctx"]
    by (intro safe_sub_exact) (auto simp: in_int64_def)
  show ?thesis using False by (auto simp: linear_get_allowed_withdraw_def Let_def tv s1 s2)
qed

end


subsection \<open>The invariant of a vesting balance\<close>

definition vb_ok :: "vesting_balance_object \<Rightarrow> nat \<Rightarrow> bool" where
  "vb_ok v now = (case vb_policy v of
     Linear p \<Rightarrow> linear_ok p (amount (vb_balance v)) now
   | Cdd p \<Rightarrow> cdd_ok p (amount (vb_balance v)) now)"

text \<open>What can happen to a vesting balance: time passes, its owner withdraws, and the chain deposits
  into it, which the source does only where the policy is \<open>cdd_vesting_policy\<close>.\<close>

inductive vb_step :: "fc_lib \<Rightarrow> vesting_balance_object \<Rightarrow> nat \<Rightarrow> vesting_balance_object \<Rightarrow> nat \<Rightarrow> bool"
  for F where
  wait: "t \<le> t' \<Longrightarrow> t' < 2 ^ 32 \<Longrightarrow> vb_step F v t v t'"
| withdraw: "vb_is_withdraw_allowed F v t a = Inr True \<Longrightarrow> 0 < amount a \<Longrightarrow>
    vb_withdraw F t a v = Inr v' \<Longrightarrow> vb_step F v t v' t"
| deposit: "vb_policy v = Cdd p \<Longrightarrow> 0 \<le> amount a \<Longrightarrow> vb_deposit F t a v = Inr v' \<Longrightarrow> vb_step F v t v' t"
| deposit_vested: "vb_policy v = Cdd p \<Longrightarrow> 0 \<le> amount a \<Longrightarrow> in_int64 (amount a * cdd_window p) \<Longrightarrow>
    vb_deposit_vested F t a v = Inr v' \<Longrightarrow> vb_step F v t v' t"

inductive vb_reach :: "fc_lib \<Rightarrow> vesting_balance_object \<Rightarrow> nat \<Rightarrow> vesting_balance_object \<Rightarrow> nat \<Rightarrow> bool"
  for F v0 t0 where
  start: "vb_reach F v0 t0 v0 t0"
| step: "vb_reach F v0 t0 v t \<Longrightarrow> vb_step F v t v' t' \<Longrightarrow> vb_reach F v0 t0 v' t'"

inductive_cases vb_stepE: "vb_step F v t v' t'"

lemma vb_ok_later: "vb_ok v t \<Longrightarrow> t \<le> t' \<Longrightarrow> t' < 2 ^ 32 \<Longrightarrow> vb_ok v t'"
  by (auto simp: vb_ok_def linear_ok_def intro: cdd_ok_later linear_vested_mono order_trans
      split: vesting_policy.splits)

lemma asset_le_True [simp]: "asset_le a b = Inr True \<longleftrightarrow> asset_id a = asset_id b \<and> amount a \<le> amount b"
  by (cases a; cases b) (auto simp: asset_le_def asset_less_def)

lemma vb_ctx_simps [simp]:
  "ctx_balance (vb_ctx v t a) = vb_balance v" "ctx_now (vb_ctx v t a) = t" "ctx_amount (vb_ctx v t a) = a"
  by (simp_all add: vb_ctx_def)

context fc_arith
begin

lemma asset_plus_iff: "asset_plus F a b = Inr c \<longleftrightarrow>
    asset_id a = asset_id b \<and> in_int64 (amount a + amount b) \<and> c = mk_asset (amount a + amount b) (asset_id a)"
  by (auto simp: asset_plus_def fc_iffs)

lemma asset_minus_iff: "asset_minus F a b = Inr c \<longleftrightarrow>
    asset_id a = asset_id b \<and> in_int64 (amount a - amount b) \<and> c = mk_asset (amount a - amount b) (asset_id a)"
  by (auto simp: asset_minus_def fc_iffs)

lemma vb_allowed:
  assumes "vb_ok v t"
  shows "\<exists>a. vb_get_allowed_withdraw F v t = Inr a \<and> asset_id a = asset_id (vb_balance v)
     \<and> 0 \<le> amount a \<and> amount a \<le> amount (vb_balance v)"
proof (cases "vb_policy v")
  case (Linear p)
  then have ok: "linear_ok p (amount (vb_balance v)) t" using assms by (simp add: vb_ok_def)
  then have "0 \<le> lv_begin_balance p" by (simp add: linear_ok_def)
  from linear_vested_bounds(2) [OF this, of t] show ?thesis
    using ok Linear linear_allowed_exact [of p "vb_ctx v t (mk_asset 0 0)"]
    by (auto simp: vb_get_allowed_withdraw_def  linear_ok_def)
next
  case (Cdd p)
  then have ok: "cdd_ok p (amount (vb_balance v)) t" using assms by (simp add: vb_ok_def)
  then show ?thesis
    using Cdd cdd_allowed_exact [of p "vb_ctx v t (mk_asset 0 0)"] cdd_available_bounds [OF ok]
    by (auto simp: vb_get_allowed_withdraw_def  cdd_ok_def)
qed

lemma vb_withdraw_allowed_iff:
  assumes "vb_ok v t"
  shows "vb_is_withdraw_allowed F v t a = Inr True \<longleftrightarrow>
    (\<exists>m. vb_get_allowed_withdraw F v t = Inr m \<and> asset_id a = asset_id (vb_balance v) \<and> amount a \<le> amount m)"
proof (cases "vb_policy v")
  case (Linear p)
  then have "linear_ok p (amount (vb_balance v)) t" using assms by (simp add: vb_ok_def)
  then show ?thesis
    using Linear linear_allowed_exact [of p "vb_ctx v t a"] linear_allowed_exact [of p "vb_ctx v t (mk_asset 0 0)"]
    by (auto simp: vb_is_withdraw_allowed_def vb_get_allowed_withdraw_def linear_is_withdraw_allowed_def)
next
  case (Cdd p)
  then have "cdd_ok p (amount (vb_balance v)) t" using assms by (simp add: vb_ok_def)
  then show ?thesis
    using Cdd cdd_allowed_exact [of p "vb_ctx v t a"] cdd_allowed_exact [of p "vb_ctx v t (mk_asset 0 0)"]
    by (auto simp: vb_is_withdraw_allowed_def vb_get_allowed_withdraw_def cdd_is_withdraw_allowed_def)
qed

lemma vb_withdraw_linear:
  assumes ok: "linear_ok p (amount (vb_balance v)) t" and pol: "vb_policy v = Linear p"
    and m: "vb_get_allowed_withdraw F v t = Inr m" "amount a \<le> amount m" and pos: "0 < amount a"
    and w: "vb_withdraw F t a v = Inr v'"
  shows "vb_ok v' t"
proof -
  have lv: "linear_get_allowed_withdraw F p (vb_ctx v t (mk_asset 0 0)) = Inr m"
    using m(1) pol by (simp add: vb_get_allowed_withdraw_def)
  have "0 \<le> lv_begin_balance p" using ok by (simp add: linear_ok_def)
  note bounds = linear_vested_bounds(2) [OF this, of t]
  have "amount a \<le> linear_vested p t - (lv_begin_balance p - amount (vb_balance v))"
    using linear_allowed_exact [of p "vb_ctx v t (mk_asset 0 0)"] ok lv m(2) pos
    by (auto split: if_splits)
  then show ?thesis
    using w ok pol pos bounds by (auto simp: vb_withdraw_def Let_def asset_minus_iff vb_ok_def linear_ok_def)
qed

lemma vb_withdraw_cdd:
  assumes ok: "cdd_ok p (amount (vb_balance v)) t" and pol: "vb_policy v = Cdd p"
    and m: "vb_get_allowed_withdraw F v t = Inr m" "amount a \<le> amount m" and pos: "0 < amount a"
    and w: "vb_withdraw F t a v = Inr v'"
  shows "vb_ok v' t"
proof -
  let ?b = "amount (vb_balance v)"
  have cg: "cdd_get_allowed_withdraw F p (vb_ctx v t (mk_asset 0 0)) = Inr m"
    using m(1) pol by (simp add: vb_get_allowed_withdraw_def)
  have le: "amount a \<le> cdd_earned p ?b t div cdd_window p"
    using cdd_allowed_exact [of p "vb_ctx v t (mk_asset 0 0)"] ok cg m(2) pos
    by (auto split: if_splits)
  have cs: "uint (cv_coin_seconds_earned (cdd_on_withdraw p (vb_ctx v t a))) =
      cdd_earned p ?b t - amount a * cdd_window p"
    using cdd_withdraw_exact [of p "vb_ctx v t a"] ok le pos by simp
  have "amount a \<le> ?b" using le cdd_available_bounds(2) [OF ok] by simp
  moreover have "cdd_earned p ?b t - amount a * cdd_window p \<le> (?b - amount a) * cdd_window p"
    using cdd_earned_le [of p ?b t] by (simp add: left_diff_distrib)
  ultimately show ?thesis
    using w ok pol by (auto simp: vb_withdraw_def Let_def asset_minus_iff vb_ok_def cdd_ok_def cs)
qed

lemma vb_deposit_cdd:
  assumes ok: "cdd_ok p (amount (vb_balance v)) t" and pol: "vb_policy v = Cdd p" and pos: "0 \<le> amount a"
    and w: "vb_deposit F t a v = Inr v'"
  shows "vb_ok v' t"
proof -
  let ?b = "amount (vb_balance v)"
  have cs: "uint (cv_coin_seconds_earned (cdd_on_deposit p (vb_ctx v t a))) = cdd_earned p ?b t"
    using cdd_update_exact(1) [of p "vb_ctx v t a"] ok by (simp add:  cdd_on_deposit_def)
  have "cdd_earned p ?b t \<le> (?b + amount a) * cdd_window p"
    using cdd_earned_le [of p ?b t] pos mult_right_mono [of ?b "?b + amount a" "cdd_window p"]
    by (simp add: cdd_window_def)
  then show ?thesis
    using w ok pol pos by (auto simp: vb_deposit_def Let_def asset_plus_iff vb_ok_def cdd_ok_def cs)
qed

lemma vb_deposit_vested_cdd:
  assumes ok: "cdd_ok p (amount (vb_balance v)) t" and pol: "vb_policy v = Cdd p" and pos: "0 \<le> amount a"
    and fits: "in_int64 (amount a * cdd_window p)" and w: "vb_deposit_vested F t a v = Inr v'"
  shows "vb_ok v' t"
proof -
  let ?b = "amount (vb_balance v)"
  have cs: "uint (cv_coin_seconds_earned (cdd_on_deposit_vested p (vb_ctx v t a))) =
      cdd_earned p ?b t + amount a * cdd_window p"
    using cdd_deposit_vested_exact [of p "vb_ctx v t a"] ok pos fits by simp
  have "cdd_earned p ?b t + amount a * cdd_window p \<le> (?b + amount a) * cdd_window p"
    using cdd_earned_le [of p ?b t] by (simp add: distrib_right)
  then show ?thesis
    using w ok pol pos by (auto simp: vb_deposit_vested_def asset_plus_iff vb_ok_def cdd_ok_def cs)
qed

lemma vb_step_ok:
  assumes "vb_step F v t v' t'" "vb_ok v t"
  shows "vb_ok v' t'"
  using assms
proof cases
  case (withdraw a)
  from withdraw(2) obtain m where "vb_get_allowed_withdraw F v t = Inr m" "amount a \<le> amount m"
    using vb_withdraw_allowed_iff [OF assms(2)] by auto
  note m = this
  show ?thesis
  proof (cases "vb_policy v")
    case (Linear p)
    then have "linear_ok p (amount (vb_balance v)) t" using assms(2) by (simp add: vb_ok_def)
    from vb_withdraw_linear [OF this Linear m] withdraw show ?thesis by simp
  next
    case (Cdd p)
    then have "cdd_ok p (amount (vb_balance v)) t" using assms(2) by (simp add: vb_ok_def)
    from vb_withdraw_cdd [OF this Cdd m] withdraw show ?thesis by simp
  qed
next
  case wait
  then show ?thesis using assms(2) by (simp add: vb_ok_later)
qed (use assms(2) in \<open>auto intro: vb_deposit_cdd vb_deposit_vested_cdd simp: vb_ok_def [of v]\<close>)

lemma vb_reach_ok: "vb_reach F v0 t0 v t \<Longrightarrow> vb_ok v0 t0 \<Longrightarrow> vb_ok v t"
  by (induction rule: vb_reach.induct) (auto intro: vb_step_ok)

end


subsection \<open>Properties of vesting balances\<close>

lemma init_policy_ok:
  assumes "vb_policy v = init_policy (amount (vb_balance v)) t i" "0 < amount (vb_balance v)"
    and "in_int64 (amount (vb_balance v))" "t < 2 ^ 32"
    and "case i of Linear_Init b c dur \<Rightarrow> dur < 2 ^ 32 | Cdd_Init sc vs \<Rightarrow> vs < 2 ^ 32"
  shows "vb_ok v t"
  using assms
  by (cases i) (auto simp: vb_ok_def linear_ok_def cdd_ok_def cdd_window_def intro: linear_vested_bounds)



lemma vb_step_linear: "vb_step F v t v' t' \<Longrightarrow> vb_policy v = Linear p \<Longrightarrow> vb_policy v' = Linear p"
  by (erule vb_stepE) (auto simp: vb_withdraw_def Let_def)

lemma vb_reach_linear: "vb_reach F v0 t0 v t \<Longrightarrow> vb_policy v0 = Linear p \<Longrightarrow> vb_policy v = Linear p"
  by (induction rule: vb_reach.induct) (auto dest: vb_step_linear)

text \<open>C13: A linear vesting balance never pays out more than its schedule has released: whatever
  withdrawals it allowed, the amount withdrawn so far is at most the cliff-and-slope schedule's
  share of the initial balance at that time, and once the cliff and the duration have passed all
  that remains can be withdrawn.\<close>

theorem linear_withdrawn_le_vested:
  assumes "fc_arith F"
    and "vb_policy v0 = Linear p" "lv_begin_balance p = amount (vb_balance v0)"
    and "0 < amount (vb_balance v0)" "in_int64 (amount (vb_balance v0))"
    and "t0 < 2 ^ 32" "lv_vesting_duration_seconds p < 2 ^ 32"
    and "vb_reach F v0 t0 v t"
  shows "amount (vb_balance v0) - amount (vb_balance v) \<le> linear_vested p t \<and>
    (lv_begin_timestamp p + max 1 (max (lv_vesting_cliff_seconds p) (lv_vesting_duration_seconds p)) \<le> t
      \<longrightarrow> vb_get_allowed_withdraw F v t = Inr (vb_balance v))"
proof (intro conjI impI)
  have "vb_ok v0 t0" using assms by (auto simp: vb_ok_def linear_ok_def intro: linear_vested_bounds)
  then have ok: "linear_ok p (amount (vb_balance v)) t" and pol: "vb_policy v = Linear p"
    using fc_arith.vb_reach_ok [OF assms(1,8)] vb_reach_linear [OF assms(8,2)] by (simp_all add: vb_ok_def)
  then show "amount (vb_balance v0) - amount (vb_balance v) \<le> linear_vested p t"
    using assms(3) by (simp add: linear_ok_def)
  assume "lv_begin_timestamp p + max 1 (max (lv_vesting_cliff_seconds p) (lv_vesting_duration_seconds p)) \<le> t"
  then show "vb_get_allowed_withdraw F v t = Inr (vb_balance v)"
    using fc_arith.linear_allowed_exact [OF assms(1), of p "vb_ctx v t (mk_asset 0 0)"] ok pol
    by (auto simp: vb_get_allowed_withdraw_def linear_vested_def)
qed


theorem linear_withdrawn_le_vested_witness:
  "vb_get_allowed_withdraw fc64
     \<lparr>vb_owner = 7, vb_balance = mk_asset 100 0, vb_policy = Linear \<lparr>lv_begin_timestamp = 100,
        lv_vesting_cliff_seconds = 10, lv_vesting_duration_seconds = 50, lv_begin_balance = 100\<rparr>\<rparr> 150
   = Inr (mk_asset 100 0)"
proof -
  let ?p = "\<lparr>lv_begin_timestamp = 100, lv_vesting_cliff_seconds = 10,
      lv_vesting_duration_seconds = 50, lv_begin_balance = 100\<rparr>"
  let ?v = "\<lparr>vb_owner = 7, vb_balance = mk_asset 100 0, vb_policy = Linear ?p\<rparr>"
  show ?thesis
    using linear_withdrawn_le_vested [OF fc64_arith.fc_arith_axioms, of ?v ?p 150 ?v 150]
    by (simp add: vb_reach.start in_int64_def)
qed

context fc_arith
begin

lemma cdd_allowed_now:
  assumes "vb_policy v = Cdd p" "cdd_ok p (amount (vb_balance v)) t" "cv_start_claim p < t"
  shows "vb_get_allowed_withdraw F v t =
    Inr (mk_asset (cdd_earned p (amount (vb_balance v)) t div cdd_window p) (asset_id (vb_balance v)))"
  using assms cdd_allowed_exact [of p "vb_ctx v t (mk_asset 0 0)"] by (simp add: vb_get_allowed_withdraw_def)

text \<open>The amount available right after an update of the policy that kept the invariant.\<close>

lemma cdd_allowed_fresh:
  assumes "vb_policy v = Cdd q" "vb_ok v t" "cv_start_claim q < t" "cv_coin_seconds_earned_last_update q = t"
  shows "vb_get_allowed_withdraw F v t =
    Inr (mk_asset (uint (cv_coin_seconds_earned q) div cdd_window q) (asset_id (vb_balance v)))"
proof -
  have ok: "cdd_ok q (amount (vb_balance v)) t" using assms by (simp add: vb_ok_def)
  then have "cdd_earned q (amount (vb_balance v)) t = uint (cv_coin_seconds_earned q)"
    using assms(4) by (simp add: cdd_earned_def cdd_ok_def)
  then show ?thesis using cdd_allowed_now [OF assms(1) ok assms(3)] by simp
qed

lemma cdd_deposit_now:
  assumes "vb_policy v = Cdd p" "cdd_ok p (amount (vb_balance v)) t" "cv_start_claim p < t" "0 < amount a"
    and "vb_deposit F t a v = Inr v1"
  shows "vb_get_allowed_withdraw F v1 t = vb_get_allowed_withdraw F v t"
proof -
  let ?q = "cdd_on_deposit p (vb_ctx v t a)"
  have "vb_policy v1 = Cdd ?q" "asset_id (vb_balance v1) = asset_id (vb_balance v)"
    using assms by (auto simp: vb_deposit_def Let_def asset_plus_iff)
  moreover have "vb_ok v1 t" using assms vb_deposit_cdd [of p v t a v1] by simp
  moreover have "uint (cv_coin_seconds_earned ?q) = cdd_earned p (amount (vb_balance v)) t"
    using cdd_update_exact(1) [of p "vb_ctx v t a"] assms by (simp add: cdd_on_deposit_def)
  ultimately show ?thesis using assms cdd_allowed_fresh [of v1 ?q t] cdd_allowed_now by simp
qed

lemma cdd_deposit_vested_now:
  assumes "vb_policy v = Cdd p" "cdd_ok p (amount (vb_balance v)) t" "cv_start_claim p < t" "0 < amount a"
    and "in_int64 (amount a * cdd_window p)" "vb_deposit_vested F t a v = Inr v2"
  shows "vb_get_allowed_withdraw F v2 t = Inr (mk_asset
    (cdd_earned p (amount (vb_balance v)) t div cdd_window p + amount a) (asset_id (vb_balance v)))"
proof -
  let ?q = "cdd_on_deposit_vested p (vb_ctx v t a)"
  have "vb_policy v2 = Cdd ?q" "asset_id (vb_balance v2) = asset_id (vb_balance v)"
    using assms by (auto simp: vb_deposit_vested_def asset_plus_iff)
  moreover have "vb_ok v2 t" using assms vb_deposit_vested_cdd [of p v t a v2] by simp
  moreover have "uint (cv_coin_seconds_earned ?q) =
      cdd_earned p (amount (vb_balance v)) t + amount a * cdd_window p"
    using cdd_deposit_vested_exact [of p "vb_ctx v t a"] assms by simp
  moreover have "cdd_window p \<noteq> 0" by (simp add: cdd_window_def)
  ultimately show ?thesis using assms cdd_allowed_fresh [of v2 ?q t] by simp
qed

lemma cdd_withdraw_now:
  assumes "vb_policy v = Cdd p" "cdd_ok p (amount (vb_balance v)) t" "cv_start_claim p < t" "0 < amount a"
    and "amount a \<le> cdd_earned p (amount (vb_balance v)) t div cdd_window p" "vb_withdraw F t a v = Inr v3"
  shows "vb_get_allowed_withdraw F v3 t = Inr (mk_asset
    (cdd_earned p (amount (vb_balance v)) t div cdd_window p - amount a) (asset_id (vb_balance v)))"
proof -
  let ?q = "cdd_on_withdraw p (vb_ctx v t a)"
  have "vb_policy v3 = Cdd ?q" "asset_id (vb_balance v3) = asset_id (vb_balance v)"
    using assms by (auto simp: vb_withdraw_def Let_def asset_minus_iff)
  moreover have "vb_ok v3 t"
    using assms vb_withdraw_cdd [of p v t _ a v3] cdd_allowed_now [of v p t] by simp
  moreover have "uint (cv_coin_seconds_earned ?q) =
      cdd_earned p (amount (vb_balance v)) t - amount a * cdd_window p"
    using cdd_withdraw_exact [of p "vb_ctx v t a"] assms by simp
  moreover have "cdd_window p \<noteq> 0" by (simp add: cdd_window_def)
  then have "(x - amount a * cdd_window p) div cdd_window p = x div cdd_window p - amount a" for x
    using div_mult_self1 [of "cdd_window p" x "- amount a"] by simp
  ultimately show ?thesis using assms cdd_allowed_fresh [of v3 ?q t] by simp
qed

end



end
