(* ===== verification/Financing.thy ===== *)
theory Financing
  imports Evaluator
begin

text \<open>
  Crowd financing of project assets: the five evaluators of
  \<open>libraries/chain/financing_evaluator.cpp\<close>, the state predicates of \<open>asset_object.hpp\<close>, the
  constants of \<open>libraries/khc/include/graphene/khc/config.hpp\<close> and the maintenance step
  \<open>update_asset_project_states\<close> of \<open>db_maint.cpp\<close>.

  A project raises KHD: an investor's KHD leaves its balance and is counted in the project's
  \<open>financing_current_supply\<close>; when financing ends the project's tokens are allotted to the
  investors, the issuer claims the KHD in three instalments, and if financing fails the investors
  take their KHD back.  What an evaluator keeps between \<open>do_evaluate\<close> and \<open>do_apply\<close> in its members
  (the investment objects found, the amounts computed) is the value its \<open>do_evaluate\<close> returns.
  Pointers to investment objects are their indices in the table; a range of the index
  \<open>by_asset\<close> or \<open>by_account\<close> lists equal keys in the order of creation.  The wall clock that
  \<open>asset_investment_evaluator::do_apply\<close> reads is an argument.
\<close>

subsection \<open>Constants\<close>

definition KHD_ASSET_SYMBOL :: string where "KHD_ASSET_SYMBOL = ''KHD''"
definition KHC_PRIVATE_OFFERING :: nat where "KHC_PRIVATE_OFFERING = 0"
definition KHC_PUBLIC_OFFERING :: nat where "KHC_PUBLIC_OFFERING = 1"
definition KHC_100_PERCENT :: nat where "KHC_100_PERCENT = 100"
definition KHC_FIRST_CLAIM_INVESTMENT_RATIO :: nat where "KHC_FIRST_CLAIM_INVESTMENT_RATIO = 30"
definition KHC_SECOND_CLAIM_INVESTMENT_TATIO :: nat where "KHC_SECOND_CLAIM_INVESTMENT_TATIO = 30"

lemmas khc_defs = KHD_ASSET_SYMBOL_def KHC_PRIVATE_OFFERING_def KHC_PUBLIC_OFFERING_def
  KHC_100_PERCENT_def KHC_FIRST_CLAIM_INVESTMENT_RATIO_def KHC_SECOND_CLAIM_INVESTMENT_TATIO_def

subsection \<open>Predicates on project assets\<close>

definition is_project_asset :: "asset_object \<Rightarrow> bool" where
  "is_project_asset a \<longleftrightarrow> po_name (proj_options a) \<noteq> ''''"

definition is_public_offering :: "asset_object \<Rightarrow> bool result" where
  "is_public_offering a =
     require (is_project_asset a) ''Asset is not a project asset.''
       (Inr (po_financing_type (proj_options a) = KHC_PUBLIC_OFFERING))"

definition is_financing_end :: "database \<Rightarrow> asset_object \<Rightarrow> bool result" where
  "is_financing_end d a =
     require (is_project_asset a) ''Asset is not a project asset.''
    (bind_res (get_obj (asset_dyn d) (dynamic_asset_data_id a)) (\<lambda>dyn.
     Inr (state dyn = project_in_progress \<or> state dyn = project_end)))"

definition is_issue_to_investors :: "database \<Rightarrow> asset_object \<Rightarrow> bool result" where
  "is_issue_to_investors d a =
     require (is_project_asset a) ''Asset is not a project asset.''
    (bind_res (get_obj (asset_dyn d) (dynamic_asset_data_id a)) (\<lambda>dyn.
     Inr (investment_confidential_supply dyn > 0)))"

text \<open>Ranges of the investment index.\<close>

definition investments_by_asset :: "database \<Rightarrow> asset_id_type \<Rightarrow> nat list" where
  "investments_by_asset d a =
     filter (\<lambda>i. investment_asset_id (investments d ! i) = a) [0..<length (investments d)]"

definition investments_by_account :: "database \<Rightarrow> account_id_type \<Rightarrow> nat list" where
  "investments_by_account d acct =
     filter (\<lambda>i. investment_account_id (investments d ! i) = acct) [0..<length (investments d)]"

subsection \<open>Operations\<close>

record asset_investment_operation =
  iv_fee :: asset
  iv_account_id :: account_id_type
  iv_investment_asset_id :: asset_id_type
  iv_amount :: asset

record issue_asset_to_investors_operation =
  is_fee :: asset
  is_issue :: account_id_type
  is_investment_asset_id :: asset_id_type

record refund_investment_operation =
  rf_fee :: asset
  rf_account_id :: account_id_type
  rf_investment_asset_id :: asset_id_type

record claim_bitasset_investment_operation =
  cb_fee :: asset
  cb_account_id :: account_id_type
  cb_asset_id :: asset_id_type

record claim_asset_investment_operation =
  ca_fee :: asset
  ca_account_id :: account_id_type
  ca_asset_id :: asset_id_type

definition asset_investment_validate :: "asset_investment_operation \<Rightarrow> unit result" where
  "asset_investment_validate op =
     require (amount (iv_fee op) \<ge> 0) ''fee.amount >= 0''
    (require (amount (iv_amount op) > 0) ''amount.amount >0'' (Inr ()))"

definition issue_asset_to_investors_validate :: "issue_asset_to_investors_operation \<Rightarrow> unit result" where
  "issue_asset_to_investors_validate op = require (amount (is_fee op) \<ge> 0) ''fee.amount >= 0'' (Inr ())"

definition refund_investment_validate :: "refund_investment_operation \<Rightarrow> unit result" where
  "refund_investment_validate op = require (amount (rf_fee op) \<ge> 0) ''fee.amount >= 0'' (Inr ())"

definition claim_bitasset_investment_validate :: "claim_bitasset_investment_operation \<Rightarrow> unit result" where
  "claim_bitasset_investment_validate op = require (amount (cb_fee op) \<ge> 0) ''fee.amount >= 0'' (Inr ())"

definition claim_asset_investment_validate :: "claim_asset_investment_operation \<Rightarrow> unit result" where
  "claim_asset_investment_validate op = require (amount (ca_fee op) \<ge> 0) ''fee.amount >= 0'' (Inr ())"

subsubsection \<open>Investing\<close>

definition asset_investment_do_evaluate :: "asset_investment_operation \<Rightarrow> database \<Rightarrow> unit result" where
  "asset_investment_do_evaluate op d =
     bind_res (get_obj (assets d) (asset_id (iv_amount op))) (\<lambda>khd_asset_object.
     require (symbol khd_asset_object = KHD_ASSET_SYMBOL) ''investment must use KHD''
    (require (amount (iv_fee op) \<ge> 0) ''invalid asset investment fee amount''
    (require (amount (iv_amount op) > 0) ''invalid investment amount''
    (bind_res (get_obj (accounts d) (iv_account_id op)) (\<lambda>account.
     bind_res (get_obj (assets d) (iv_investment_asset_id op)) (\<lambda>asset_obj.
     require (is_authorized_asset d account (iv_investment_asset_id op) asset_obj) ''is_authorized_asset''
    (require (balance_of d (iv_account_id op) (asset_id (iv_amount op)) \<ge> amount (iv_amount op))
        ''account amount less than investment amount''
    (require (\<not> is_market_issued asset_obj) ''!asset_obj.is_market_issued()''
    (require (iv_investment_asset_id op \<noteq> 0) ''can not investment core''
    (bind_res (is_public_offering asset_obj) (\<lambda>pub.
     require pub ''asset must be a public offering type.''
    (bind_res (get_obj (asset_dyn d) (dynamic_asset_data_id asset_obj)) (\<lambda>dyn.
     require (financing_current_supply dyn < po_max_financing_amount (proj_options asset_obj)) ''financing end''
    (require (head_block_number d \<ge> po_start_financing_block_num (proj_options asset_obj)
          \<and> head_block_number d \<le> po_end_financing_block_num (proj_options asset_obj))
        ''current block num need between [start, end]''
    (Inr ())))))))))))))))"

definition advance_end_financing :: "nat \<Rightarrow> nat \<Rightarrow> asset_object \<Rightarrow> asset_object" where
  "advance_end_financing curr_block_num wall_now a =
     a\<lparr>proj_options := (proj_options a)\<lparr>po_end_financing_block_num := curr_block_num,
        po_end_financing_time := wall_now, po_start_project_block_num := curr_block_num + 1,
        po_start_project_time := wall_now\<rparr>\<rparr>"

definition asset_investment_do_apply :: "fc_lib \<Rightarrow> nat \<Rightarrow> asset_investment_operation \<Rightarrow> database
    \<Rightarrow> database result" where
  "asset_investment_do_apply F wall_now op d =
     bind_res (get_obj (assets d) (iv_investment_asset_id op)) (\<lambda>asset_obj.
     bind_res (get_obj (asset_dyn d) (dynamic_asset_data_id asset_obj)) (\<lambda>dyn.
     bind_res (safe_add F (financing_current_supply dyn) (amount (iv_amount op))) (\<lambda>new_supply.
     let max_amount = po_max_financing_amount (proj_options asset_obj);
         advance_end = (new_supply \<ge> max_amount) in
     bind_res (if advance_end then safe_sub F max_amount (financing_current_supply dyn)
               else Inr (amount (iv_amount op))) (\<lambda>actual.
     let d1 = (if advance_end
               then d\<lparr>assets := (assets d)[iv_investment_asset_id op :=
                        advance_end_financing (head_block_number d) wall_now asset_obj]\<rparr>
               else d);
         d2 = d1\<lparr>investments := investments d1 @ [\<lparr>investment_account_id = iv_account_id op,
                  investment_asset_id = iv_investment_asset_id op,
                  investment_khd_amount = mk_asset actual (asset_id (iv_amount op)),
                  investment_height = int (head_block_number d), investment_timestamp = head_block_time d,
                  has_receive_token = False, investment_tokens = 0, return_financing_flag = False\<rparr>]\<rparr> in
     bind_res (modify_dyn (dynamic_asset_data_id asset_obj) (\<lambda>data.
        bind_res (safe_add F (financing_current_supply data) actual) (\<lambda>cur.
        bind_res (safe_add F (financing_confidential_supply data) actual) (\<lambda>conf.
        Inr (data\<lparr>financing_current_supply := cur, financing_confidential_supply := conf,
               state := (if advance_end then project_in_progress
                         else if state data = about_to_start then financing else state data)\<rparr>)))) d2) (\<lambda>d3.
     deduct_balance F (iv_account_id op) (mk_asset actual (asset_id (iv_amount op))) d3)))))"

subsubsection \<open>Issuing tokens to the investors\<close>

record issue_plan =
  ip_total_issue :: int
  ip_total_investment :: int
  ip_total_issue_tmp :: int
  ip_investment_objects :: "nat list"
  ip_issue_amounts :: "int list"

definition issue_amount :: "fc_lib \<Rightarrow> int \<Rightarrow> int \<Rightarrow> int \<Rightarrow> int result" where
  "issue_amount F total_issue investment conf =
     (if conf = 0 then Inl Divide_By_Zero
      else to_share F ((word_of_int total_issue :: u128) * word_of_int investment div word_of_int conf))"

definition plan_issue :: "fc_lib \<Rightarrow> database \<Rightarrow> int \<Rightarrow> nat \<Rightarrow> issue_plan \<Rightarrow> issue_plan result" where
  "plan_issue F d conf i p =
     (let obj = investments d ! i in
     bind_res (get_obj (accounts d) (investment_account_id obj)) (\<lambda>acct.
     bind_res (get_obj (assets d) (investment_asset_id obj)) (\<lambda>a.
     require (is_authorized_asset d acct (investment_asset_id obj) a) ''is_authorized_asset''
    (bind_res (safe_add F (ip_total_investment p) (amount (investment_khd_amount obj))) (\<lambda>ti.
     bind_res (issue_amount F (ip_total_issue p) (amount (investment_khd_amount obj)) conf) (\<lambda>amt.
     bind_res (safe_add F (ip_total_issue_tmp p) amt) (\<lambda>tmp.
     Inr (p\<lparr>ip_total_investment := ti, ip_investment_objects := ip_investment_objects p @ [i],
            ip_issue_amounts := ip_issue_amounts p @ [amt], ip_total_issue_tmp := tmp\<rparr>))))))))"

definition add_to_last :: "fc_lib \<Rightarrow> int \<Rightarrow> int list \<Rightarrow> int list result" where
  "add_to_last F x xs =
     (if xs = [] then Inl Out_Of_Range
      else bind_res (safe_add F (last xs) x) (\<lambda>y. Inr (butlast xs @ [y])))"

definition issue_asset_to_investors_do_evaluate :: "fc_lib \<Rightarrow> issue_asset_to_investors_operation
    \<Rightarrow> database \<Rightarrow> issue_plan result" where
  "issue_asset_to_investors_do_evaluate F op d =
     require (amount (is_fee op) \<ge> 0) ''invalid issue_asset_and_get_financing fee amount.''
    (bind_res (get_obj (assets d) (is_investment_asset_id op)) (\<lambda>a.
     bind_res (is_public_offering a) (\<lambda>pub.
     require pub ''asset must be a public offering type.''
    (require (\<not> is_market_issued a) ''Cannot manually issue a market-issued asset.''
    (bind_res (is_financing_end d a) (\<lambda>fin.
     require fin ''Financing is not over.''
    (bind_res (get_asset_id d KHD_ASSET_SYMBOL) (\<lambda>khd_id.
     bind_res (get_obj (asset_dyn d) (dynamic_asset_data_id a)) (\<lambda>dyn.
     require (financing_confidential_supply dyn = financing_current_supply dyn)
        ''financing_confidential_supply != financing_current_supply''
    (require (current_supply dyn = 0) ''May have already sent tokens to investors.''
    (bind_res (mul_price (mk_asset (financing_confidential_supply dyn) khd_id)
                (po_khd_exchange_rate (proj_options a))) (\<lambda>core_amount.
     bind_res (mul_price core_amount (ao_core_exchange_rate (options a))) (\<lambda>tokens.
     bind_res (fold_res (plan_issue F d (financing_confidential_supply dyn))
                (investments_by_asset d (is_investment_asset_id op))
                \<lparr>ip_total_issue = amount tokens, ip_total_investment = 0, ip_total_issue_tmp = 0,
                 ip_investment_objects = [], ip_issue_amounts = []\<rparr>) (\<lambda>p.
     require (ip_total_issue_tmp p \<le> ip_total_issue p) ''Financing failed''
    (bind_res (safe_sub F (ip_total_issue p) (ip_total_issue_tmp p)) (\<lambda>rest.
     bind_res (add_to_last F rest (ip_issue_amounts p)) (\<lambda>amts.
     require (ip_total_investment p = financing_confidential_supply dyn)
        ''The total amount of financing is not right.''
    (bind_res (safe_add F (current_supply dyn) (ip_total_issue p)) (\<lambda>s.
     require (s \<le> ao_max_supply (options a)) ''Exceeding the maximum supply''
    (Inr (p\<lparr>ip_issue_amounts := amts\<rparr>)))))))))))))))))))))"

definition set_tokens :: "nat \<times> int \<Rightarrow> asset_investment_object list \<Rightarrow> asset_investment_object list" where
  "set_tokens = (\<lambda>(i, amt) tbl. tbl[i := (tbl ! i)\<lparr>has_receive_token := False, investment_tokens := amt\<rparr>])"

definition issue_asset_to_investors_do_apply :: "fc_lib \<Rightarrow> issue_asset_to_investors_operation
    \<Rightarrow> issue_plan \<Rightarrow> database \<Rightarrow> database result" where
  "issue_asset_to_investors_do_apply F op p d =
     bind_res (get_obj (assets d) (is_investment_asset_id op)) (\<lambda>a.
     let d1 = d\<lparr>investments := fold set_tokens (zip (ip_investment_objects p) (ip_issue_amounts p)) (investments d)\<rparr> in
     modify_dyn (dynamic_asset_data_id a) (\<lambda>data.
       bind_res (safe_add F (current_supply data) (ip_total_issue p)) (\<lambda>s.
       Inr (data\<lparr>current_supply := s, investment_confidential_supply := ip_total_issue p,
              investment_current_supply := ip_total_issue p\<rparr>))) d1)"

subsubsection \<open>Refunds of failed projects\<close>

record refund_plan =
  rp_total_investment :: int
  rp_investment_flag :: bool
  rp_investment_objects :: "nat list"

definition plan_refund :: "fc_lib \<Rightarrow> database \<Rightarrow> asset_id_type \<Rightarrow> nat \<Rightarrow> refund_plan \<Rightarrow> refund_plan result" where
  "plan_refund F d a i p =
     (let obj = investments d ! i in
      if investment_asset_id obj = a \<and> \<not> return_financing_flag obj then
        bind_res (safe_add F (rp_total_investment p) (amount (investment_khd_amount obj))) (\<lambda>t.
        Inr (p\<lparr>rp_total_investment := t, rp_investment_objects := rp_investment_objects p @ [i]\<rparr>))
      else if investment_asset_id obj = a \<and> return_financing_flag obj then
        Inr (p\<lparr>rp_investment_flag := True\<rparr>)
      else Inr p)"

definition refund_investment_do_evaluate :: "fc_lib \<Rightarrow> refund_investment_operation \<Rightarrow> database
    \<Rightarrow> nat list result" where
  "refund_investment_do_evaluate F op d =
     bind_res (get_obj (assets d) (rf_investment_asset_id op)) (\<lambda>a.
     bind_res (is_public_offering a) (\<lambda>pub.
     require pub ''asset must be a public offering type.''
    (bind_res (get_obj (asset_dyn d) (dynamic_asset_data_id a)) (\<lambda>dyn.
     require (state dyn = financing_failue) ''asset project is not in failed state.''
    (bind_res (fold_res (plan_refund F d (rf_investment_asset_id op))
                (investments_by_account d (rf_account_id op))
                \<lparr>rp_total_investment = 0, rp_investment_flag = False, rp_investment_objects = []\<rparr>) (\<lambda>p.
     bind_res (safe_sub F (financing_current_supply dyn) (rp_total_investment p)) (\<lambda>left.
     require (left \<ge> 0) ''asset financing_current_supply have not enough to refund account''
    (require (rp_investment_objects p \<noteq> [])
        (if rp_investment_flag p then ''account had refund investment in asset already.''
         else ''account has no investment to refund in asset'')
    (Inr (rp_investment_objects p))))))))))"

definition refund_one :: "fc_lib \<Rightarrow> nat \<Rightarrow> account_id_type \<Rightarrow> nat \<Rightarrow> database \<Rightarrow> database result" where
  "refund_one F dyn_id acct i d =
     bind_res (modify_dyn dyn_id (\<lambda>data.
       bind_res (safe_sub F (financing_current_supply data) (amount (investment_khd_amount (investments d ! i)))) (\<lambda>s.
       Inr (data\<lparr>financing_current_supply := s\<rparr>))) d) (\<lambda>d1.
     bind_res (adjust_balance F acct (investment_khd_amount (investments d1 ! i)) d1) (\<lambda>d2.
     bind_res (modify_obj i (\<lambda>s. Inr (s\<lparr>return_financing_flag := True\<rparr>)) (investments d2)) (\<lambda>t.
     Inr (d2\<lparr>investments := t\<rparr>))))"

definition refund_investment_do_apply :: "fc_lib \<Rightarrow> refund_investment_operation \<Rightarrow> nat list \<Rightarrow> database
    \<Rightarrow> database result" where
  "refund_investment_do_apply F op investment_objects d =
     bind_res (get_obj (assets d) (rf_investment_asset_id op)) (\<lambda>a.
     fold_res (refund_one F (dynamic_asset_data_id a) (rf_account_id op)) investment_objects d)"

subsubsection \<open>The issuer's claims\<close>

definition claim_share :: "fc_lib \<Rightarrow> int \<Rightarrow> nat \<Rightarrow> int result" where
  "claim_share F conf ratio = to_share F ((word_of_int conf :: u128) * of_nat ratio div of_nat KHC_100_PERCENT)"

record claim_plan =
  cp_khd_amount :: asset
  cp_claim_times :: nat

definition claim_bitasset_investment_do_evaluate :: "fc_lib \<Rightarrow> claim_bitasset_investment_operation
    \<Rightarrow> database \<Rightarrow> claim_plan result" where
  "claim_bitasset_investment_do_evaluate F op d =
     bind_res (get_obj (assets d) (cb_asset_id op)) (\<lambda>a.
     bind_res (is_public_offering a) (\<lambda>pub.
     require pub ''asset must be a public offering type.''
    (bind_res (get_obj (asset_dyn d) (dynamic_asset_data_id a)) (\<lambda>dyn.
     require (project_state_value (state dyn) \<ge> project_state_value project_in_progress)
        ''project is not financing end.''
    (require (claim_times dyn < 3) ''issuer has claim all asset already.''
    (require (financing_current_supply dyn > 0) ''asset has no investment less.''
    (bind_res (is_issue_to_investors d a) (\<lambda>issued.
     require issued ''before claim bitasset investment, projecter need issue asset to investors at first.''
    (require (issuer a = cb_account_id op) ''account is not the issuer of asset''
    (require (head_block_number d \<ge> po_end_financing_block_num (proj_options a)) ''project is not financing end.''
    (bind_res (if block_interval (parameters d) = 0 then Inl Divide_By_Zero
               else Inr (po_project_cycle (proj_options a) div block_interval (parameters d))) (\<lambda>project_diff.
     bind_res
       (if claim_times dyn = 0 then
          require (head_block_number d \<ge> po_start_project_block_num (proj_options a)) ''next claim block''
            (claim_share F (financing_confidential_supply dyn) KHC_FIRST_CLAIM_INVESTMENT_RATIO)
        else if claim_times dyn = 1 then
          require (head_block_number d \<ge> po_start_project_block_num (proj_options a) + project_diff div 2)
             ''next claim block''
            (claim_share F (financing_confidential_supply dyn) KHC_SECOND_CLAIM_INVESTMENT_TATIO)
        else
          require (head_block_number d \<ge> po_start_project_block_num (proj_options a) + project_diff)
             ''next claim block''
            (bind_res (claim_share F (financing_confidential_supply dyn) KHC_FIRST_CLAIM_INVESTMENT_RATIO) (\<lambda>claim_first.
             bind_res (claim_share F (financing_confidential_supply dyn) KHC_SECOND_CLAIM_INVESTMENT_TATIO) (\<lambda>claim_second.
             bind_res (safe_sub F (financing_confidential_supply dyn) claim_first) (\<lambda>r.
             safe_sub F r claim_second)))))
       (\<lambda>claim_amount.
     bind_res (safe_sub F (financing_current_supply dyn) claim_amount) (\<lambda>left.
     require (left \<ge> 0) ''financing_current_supply is not enough''
    (bind_res (get_asset_id d KHD_ASSET_SYMBOL) (\<lambda>khd_id.
     Inr \<lparr>cp_khd_amount = mk_asset claim_amount khd_id, cp_claim_times = claim_times dyn + 1\<rparr>))))))))))))))))"

definition claim_bitasset_investment_do_apply :: "fc_lib \<Rightarrow> claim_bitasset_investment_operation
    \<Rightarrow> claim_plan \<Rightarrow> database \<Rightarrow> database result" where
  "claim_bitasset_investment_do_apply F op p d =
     bind_res (get_obj (assets d) (cb_asset_id op)) (\<lambda>a.
     bind_res (adjust_balance F (cb_account_id op) (cp_khd_amount p) d) (\<lambda>d1.
     modify_dyn (dynamic_asset_data_id a) (\<lambda>s.
       bind_res (safe_sub F (financing_current_supply s) (amount (cp_khd_amount p))) (\<lambda>v.
       Inr (s\<lparr>financing_current_supply := v, claim_times := cp_claim_times p\<rparr>))) d1))"

subsubsection \<open>The investors' claims\<close>

record token_plan =
  tp_tokens :: int
  tp_investment_objects :: "nat list"

definition plan_token_claim :: "fc_lib \<Rightarrow> database \<Rightarrow> asset_id_type \<Rightarrow> nat \<Rightarrow> token_plan \<Rightarrow> token_plan result" where
  "plan_token_claim F d aid i p =
     (let obj = investments d ! i in
     bind_res (get_obj (accounts d) (investment_account_id obj)) (\<lambda>acct.
     bind_res (get_obj (assets d) (investment_asset_id obj)) (\<lambda>a.
     require (is_authorized_asset d acct (investment_asset_id obj) a) ''is_authorized_asset''
      (if investment_asset_id obj = aid then
         require (\<not> has_receive_token obj) ''have already claim assets.''
        (bind_res (safe_add F (tp_tokens p) (investment_tokens obj)) (\<lambda>t.
         Inr (p\<lparr>tp_tokens := t, tp_investment_objects := tp_investment_objects p @ [i]\<rparr>)))
       else Inr p))))"

definition claim_asset_investment_do_evaluate :: "fc_lib \<Rightarrow> claim_asset_investment_operation
    \<Rightarrow> database \<Rightarrow> token_plan result" where
  "claim_asset_investment_do_evaluate F op d =
     bind_res (get_obj (assets d) (ca_asset_id op)) (\<lambda>a.
     bind_res (is_public_offering a) (\<lambda>pub.
     require pub ''asset must be a public offering type.''
    (bind_res (get_obj (asset_dyn d) (dynamic_asset_data_id a)) (\<lambda>dyn.
     require (project_state_value (state dyn) \<ge> project_state_value project_in_progress)
        ''project is not financing end.''
    (require (investment_confidential_supply dyn > 0) ''project issuer has not issue token at this time.''
    (bind_res (fold_res (plan_token_claim F d (ca_asset_id op))
                (investments_by_account d (ca_account_id op))
                \<lparr>tp_tokens = 0, tp_investment_objects = []\<rparr>) (\<lambda>p.
     require (tp_tokens p > 0) ''account is not an investor of assets.''
    (require (tp_tokens p \<le> investment_current_supply dyn)
        ''tokens exceeds the upper limit investment_current_supply''
    (Inr p)))))))))"

definition mark_received :: "nat \<Rightarrow> asset_investment_object list \<Rightarrow> asset_investment_object list" where
  "mark_received i tbl = tbl[i := (tbl ! i)\<lparr>has_receive_token := True\<rparr>]"

definition claim_asset_investment_do_apply :: "fc_lib \<Rightarrow> claim_asset_investment_operation
    \<Rightarrow> token_plan \<Rightarrow> database \<Rightarrow> database result" where
  "claim_asset_investment_do_apply F op p d =
     bind_res (get_obj (assets d) (ca_asset_id op)) (\<lambda>a.
     bind_res (adjust_balance F (ca_account_id op) (mk_asset (tp_tokens p) (ca_asset_id op)) d) (\<lambda>d1.
     bind_res (modify_dyn (dynamic_asset_data_id a) (\<lambda>x.
       bind_res (safe_sub F (investment_current_supply x) (tp_tokens p)) (\<lambda>v.
       Inr (x\<lparr>investment_current_supply := v\<rparr>))) d1) (\<lambda>d2.
     Inr (d2\<lparr>investments := fold mark_received (tp_investment_objects p) (investments d2)\<rparr>))))"

subsection \<open>Maintenance of the project states\<close>

definition update_asset_power_status :: "asset_id_type \<Rightarrow> asset_object \<Rightarrow> bool \<Rightarrow> database \<Rightarrow> database" where
  "update_asset_power_status aid a burn d =
     (let hit = (\<lambda>l. lp_owner l = issuer a \<and> lp_asset_id l = aid) in
      if burn then d\<lparr>locked_powers := filter (\<lambda>l. \<not> hit l) (locked_powers d)\<rparr>
      else d\<lparr>locked_powers := map (\<lambda>l. if hit l then l\<lparr>lp_unlock_height := 0\<rparr> else l) (locked_powers d)\<rparr>)"

text \<open>The new state of a public offering; \<open>None\<close> is the source's \<open>continue\<close>.\<close>

definition public_offering_state :: "nat \<Rightarrow> project_asset_options \<Rightarrow> asset_dynamic_data_object
    \<Rightarrow> project_state option" where
  "public_offering_state head po dyn =
     (let change = (\<lambda>s. if state dyn = s then None else Some s) in
      if head < po_start_financing_block_num po then change about_to_start
      else if head \<ge> po_start_financing_block_num po \<and> head < po_end_financing_block_num po then
        (if financing_confidential_supply dyn = po_max_financing_amount po
         then change project_in_progress else change financing)
      else if head > po_end_financing_block_num po
          \<and> financing_confidential_supply dyn < po_min_financing_amount po then change financing_failue
      else if head \<le> po_end_project_block_num po then change project_in_progress
      else change project_end)"

definition next_project_state :: "nat \<Rightarrow> project_asset_options \<Rightarrow> asset_dynamic_data_object
    \<Rightarrow> project_state option" where
  "next_project_state head po dyn =
     (if state dyn = project_end \<or> state dyn = financing_failue then None
      else if po_financing_type po = KHC_PUBLIC_OFFERING then public_offering_state head po dyn
      else if head \<ge> po_end_project_block_num po then Some project_end
      else None)"

definition update_one_project_state :: "asset_id_type \<Rightarrow> database \<Rightarrow> database result" where
  "update_one_project_state aid d =
     bind_res (get_obj (assets d) aid) (\<lambda>a.
     if \<not> is_project_asset a then Inr d
     else bind_res (get_obj (asset_dyn d) (dynamic_asset_data_id a)) (\<lambda>dyn.
       case next_project_state (head_block_number d) (proj_options a) dyn of
         None \<Rightarrow> Inr d
       | Some st \<Rightarrow>
           modify_dyn (dynamic_asset_data_id a) (\<lambda>x. Inr (x\<lparr>state := st\<rparr>))
             (if st = financing_failue then update_asset_power_status aid a False d else d)))"

text \<open>The source visits the project assets in the order of their names; the updates of different
  assets change different objects, and the model visits them in the order of their ids.\<close>

definition update_asset_project_states :: "database \<Rightarrow> database result" where
  "update_asset_project_states d = fold_res update_one_project_state [0..<length (assets d)] d"

end
