(* ===== verification/Financing_Escrow.thy ===== *)
theory Financing_Escrow
  imports Financing
begin

text \<open>
  Correctness of crowd financing: how issued tokens are divided, the escrow invariant that every
  financing operation keeps (the KHD a project holds is what was invested less what was paid out or
  refunded), what refunds and claims pay, and the progress of the project states.
\<close>

subsection \<open>Sums over investments\<close>

definition invested :: "database \<Rightarrow> asset_id_type \<Rightarrow> int" where
  "invested d a = (\<Sum>v\<leftarrow>investments d. if investment_asset_id v = a then amount (investment_khd_amount v) else 0)"

definition refunded :: "database \<Rightarrow> asset_id_type \<Rightarrow> int" where
  "refunded d a = (\<Sum>v\<leftarrow>investments d. if investment_asset_id v = a \<and> return_financing_flag v
     then amount (investment_khd_amount v) else 0)"

definition allotted :: "database \<Rightarrow> asset_id_type \<Rightarrow> int" where
  "allotted d a = (\<Sum>v\<leftarrow>investments d. if investment_asset_id v = a then investment_tokens v else 0)"

definition dyn_of :: "database \<Rightarrow> asset_id_type \<Rightarrow> asset_dynamic_data_object" where
  "dyn_of d a = asset_dyn d ! dynamic_asset_data_id (assets d ! a)"

subsection \<open>Issue amounts\<close>


context fc_arith
begin

lemma issue_amount_exact:
  assumes "0 \<le> t" "in_int64 t" "0 \<le> x" "x \<le> c" "0 < c" "in_int64 c"
  shows "issue_amount F t x c = Inr (t * x div c)"
proof -
  have x: "in_int64 x" using assms by (auto simp: in_int64_def)
  have q: "uint ((word_of_int t :: u128) * word_of_int x div word_of_int c) = t * x div c"
    using assms x by (intro u128_mul_div) auto
  have "t * x div c \<le> t * c div c" using assms by (intro zdiv_mono1 mult_left_mono) auto
  then have "t * x div c < 2 ^ 63" using assms by (simp add: in_int64_def)
  then show ?thesis using assms(5) to_share_small [of "word_of_int t * word_of_int x div word_of_int c"] q
    by (simp add: issue_amount_def)
qed

lemma plan_issue_fold:
  assumes "fold_res (plan_issue F d conf) is p = Inr p'"
  shows "\<exists>amts. list_all2 (\<lambda>i x. issue_amount F (ip_total_issue p) (amount (investment_khd_amount (investments d ! i))) conf = Inr x) is amts
     \<and> ip_total_issue p' = ip_total_issue p
     \<and> ip_total_investment p' = ip_total_investment p + (\<Sum>i\<leftarrow>is. amount (investment_khd_amount (investments d ! i)))
     \<and> ip_investment_objects p' = ip_investment_objects p @ is
     \<and> ip_issue_amounts p' = ip_issue_amounts p @ amts
     \<and> ip_total_issue_tmp p' = ip_total_issue_tmp p + sum_list amts
     \<and> (in_int64 (ip_total_investment p) \<longrightarrow> in_int64 (ip_total_investment p'))"
  using assms
proof (induction "is" arbitrary: p)
  case (Cons i "is")
  from Cons.prems obtain q where q: "plan_issue F d conf i p = Inr q" "fold_res (plan_issue F d conf) is q = Inr p'"
    by auto
  from q(1) obtain amt where step:
    "issue_amount F (ip_total_issue p) (amount (investment_khd_amount (investments d ! i))) conf = Inr amt"
    "ip_total_issue q = ip_total_issue p"
    "ip_total_investment q = ip_total_investment p + amount (investment_khd_amount (investments d ! i))"
    "ip_investment_objects q = ip_investment_objects p @ [i]" "ip_issue_amounts q = ip_issue_amounts p @ [amt]"
    "ip_total_issue_tmp q = ip_total_issue_tmp p + amt" "in_int64 (ip_total_investment q)"
    by (auto simp: plan_issue_def Let_def fc_iffs)
  from Cons.IH [OF q(2)] obtain amts where
    "list_all2 (\<lambda>i x. issue_amount F (ip_total_issue q) (amount (investment_khd_amount (investments d ! i))) conf = Inr x) is amts"
    "ip_total_issue p' = ip_total_issue q"
    "ip_total_investment p' = ip_total_investment q + (\<Sum>i\<leftarrow>is. amount (investment_khd_amount (investments d ! i)))"
    "ip_investment_objects p' = ip_investment_objects q @ is"
    "ip_issue_amounts p' = ip_issue_amounts q @ amts" "ip_total_issue_tmp p' = ip_total_issue_tmp q + sum_list amts"
    "in_int64 (ip_total_investment q) \<longrightarrow> in_int64 (ip_total_investment p')"
    by auto
  then show ?case using step by (intro exI [of _ "amt # amts"]) auto
qed simp

lemma add_to_last_iff:
  "add_to_last F x xs = Inr ys \<longleftrightarrow> xs \<noteq> [] \<and> in_int64 (last xs + x) \<and> ys = butlast xs @ [last xs + x]"
  by (auto simp: add_to_last_def fc_iffs)

end

lemma distinct_investments_by_asset [simp]: "distinct (investments_by_asset d a)"
  by (simp add: investments_by_asset_def)

lemma set_investments_by_asset [simp]:
  "i \<in> set (investments_by_asset d a) \<longleftrightarrow> i < length (investments d) \<and> investment_asset_id (investments d ! i) = a"
  by (auto simp: investments_by_asset_def)

lemma invested_by_index: "(\<Sum>i\<leftarrow>investments_by_asset d a. amount (investment_khd_amount (investments d ! i))) = invested d a"
  unfolding investments_by_asset_def invested_def by (rule sum_list_filter_index)

lemma fold_set_tokens:
  assumes "distinct is" "length is = length xs"
    and "\<And>i. i \<in> set is \<Longrightarrow> i < length tbl \<and> investment_asset_id (tbl ! i) = a"
  shows "(\<Sum>v\<leftarrow>fold set_tokens (zip is xs) tbl. if investment_asset_id v = a then investment_tokens v else 0) =
    (\<Sum>v\<leftarrow>tbl. if investment_asset_id v = a then investment_tokens v else 0)
      - (\<Sum>i\<leftarrow>is. investment_tokens (tbl ! i)) + sum_list xs"
  using assms
proof (induction "is" arbitrary: xs tbl)
  case (Cons i "is")
  then obtain x ys where xs: "xs = x # ys" by (cases xs) auto
  let ?t = "set_tokens (i, x) tbl"
  have "map (\<lambda>j. investment_tokens (?t ! j)) is = map (\<lambda>j. investment_tokens (tbl ! j)) is"
    using Cons.prems(1) by (auto simp: set_tokens_def) (metis nth_list_update_neq)
  moreover have "(\<Sum>v\<leftarrow>?t. if investment_asset_id v = a then investment_tokens v else 0) =
      (\<Sum>v\<leftarrow>tbl. if investment_asset_id v = a then investment_tokens v else 0) - investment_tokens (tbl ! i) + x"
    using Cons.prems(3) [of i] by (simp add: set_tokens_def sum_list_map_update)
  moreover have "j < length ?t \<and> investment_asset_id (?t ! j) = a" if "j \<in> set is" for j
    using Cons.prems(1,3) that by (auto simp: set_tokens_def nth_list_update)
  ultimately show ?case
    using Cons.IH [of ys ?t] Cons.prems(1,2) xs by (simp del: map_eq_conv)
qed simp


context fc_arith
begin

lemma issue_plan_facts:
  assumes "issue_asset_to_investors_do_evaluate F op d = Inr p" "a = is_investment_asset_id op"
  shows "ip_investment_objects p = investments_by_asset d a" "length (ip_issue_amounts p) = length (ip_investment_objects p)"
    and "sum_list (ip_issue_amounts p) = ip_total_issue p" "invested d a = financing_confidential_supply (dyn_of d a)"
    and "list_all2 (\<lambda>i x. issue_amount F (ip_total_issue p) (amount (investment_khd_amount (investments d ! i)))
           (financing_confidential_supply (dyn_of d a)) = Inr x)
         (butlast (ip_investment_objects p)) (butlast (ip_issue_amounts p))"
    and "a < length (assets d)" "current_supply (dyn_of d a) = 0" "ip_total_issue p \<le> ao_max_supply (options (assets d ! a))"
    and "dynamic_asset_data_id (assets d ! a) < length (asset_dyn d)" "in_int64 (ip_total_issue p)"
    and "in_int64 (invested d a)"
    and "financing_current_supply (dyn_of d a) = financing_confidential_supply (dyn_of d a)"
proof -
  let ?conf = "financing_confidential_supply (dyn_of d a)"
  from assms obtain p0 amts t where
    a: "a < length (assets d)" "dynamic_asset_data_id (assets d ! a) < length (asset_dyn d)"
      "current_supply (dyn_of d a) = 0" "financing_current_supply (dyn_of d a) = ?conf"
    and fold: "fold_res (plan_issue F d ?conf) (investments_by_asset d a)
       \<lparr>ip_total_issue = t, ip_total_investment = 0, ip_total_issue_tmp = 0,
        ip_investment_objects = [], ip_issue_amounts = []\<rparr> = Inr p0"
    and last: "add_to_last F (ip_total_issue p0 - ip_total_issue_tmp p0) (ip_issue_amounts p0) = Inr amts"
    and p: "p = p0\<lparr>ip_issue_amounts := amts\<rparr>"
    and chk: "ip_total_investment p0 = ?conf" "in_int64 (ip_total_issue p0)"
      "ip_total_issue p0 \<le> ao_max_supply (options (assets d ! a))"
    by (auto simp: issue_asset_to_investors_do_evaluate_def dyn_of_def fc_iffs)
  from plan_issue_fold [OF fold] obtain xs where xs:
    "list_all2 (\<lambda>i x. issue_amount F t (amount (investment_khd_amount (investments d ! i))) ?conf = Inr x)
       (investments_by_asset d a) xs"
    "ip_total_issue p0 = t" "ip_total_investment p0 = invested d a"
    "ip_investment_objects p0 = investments_by_asset d a" "ip_issue_amounts p0 = xs" "ip_total_issue_tmp p0 = sum_list xs"
    "in_int64 (invested d a)"
    by (auto simp: invested_by_index)
  have amts: "xs \<noteq> []" "amts = butlast xs @ [last xs + (t - sum_list xs)]"
    using last xs by (auto simp: add_to_last_iff)
  have len: "length xs = length (investments_by_asset d a)" using list_all2_lengthD [OF xs(1)] by simp
  show "ip_investment_objects p = investments_by_asset d a" using p xs by simp
  have "0 < length (investments_by_asset d a)" using amts(1) len by (metis length_greater_0_conv)
  then show "length (ip_issue_amounts p) = length (ip_investment_objects p)" using p xs amts len by simp
  show "sum_list (ip_issue_amounts p) = ip_total_issue p"
    using p xs amts sum_list_butlast_last [OF amts(1)] by simp
  show "in_int64 (invested d a)" by (rule xs(7))
  show "invested d a = ?conf" using xs chk by simp
  show "list_all2 (\<lambda>i x. issue_amount F (ip_total_issue p) (amount (investment_khd_amount (investments d ! i))) ?conf = Inr x)
         (butlast (ip_investment_objects p)) (butlast (ip_issue_amounts p))"
    using xs amts p len by (auto simp: butlast_append list_all2_conv_all_nth nth_butlast)
qed (use assms in \<open>auto simp: issue_asset_to_investors_do_evaluate_def dyn_of_def fc_iffs\<close>)

end


text \<open>C6: \<open>issue_asset_to_investors\<close> gives away exactly the tokens it issues: the tokens allotted
  to the investments of the project add up to the issued total, which becomes both the supply of the
  token and the pool the investors claim from; every investor but the last gets the rounded-down
  proportional share and the last one also gets the rounding remainder.\<close>

theorem issue_splits_total:
  assumes "fc_arith F"
    and "issue_asset_to_investors_do_evaluate F op d = Inr p"
    and "issue_asset_to_investors_do_apply F op p d = Inr d'"
    and "\<forall>v \<in> set (investments d). 0 < amount (investment_khd_amount v)" "0 \<le> ip_total_issue p"
    and "a = is_investment_asset_id op"
  shows "allotted d' a = ip_total_issue p \<and> current_supply (dyn_of d' a) = ip_total_issue p
    \<and> investment_current_supply (dyn_of d' a) = ip_total_issue p
    \<and> ip_total_issue p \<le> ao_max_supply (options (assets d ! a))
    \<and> (\<forall>k < length (investments_by_asset d a) - 1. ip_issue_amounts p ! k =
         ip_total_issue p * amount (investment_khd_amount (investments d ! (investments_by_asset d a ! k))) div invested d a)"
proof -
  note plan = fc_arith.issue_plan_facts [OF assms(1,2,6)]
  let ?n = "length (investments_by_asset d a)"
  have d': "d' = d\<lparr>investments := fold set_tokens (zip (investments_by_asset d a) (ip_issue_amounts p)) (investments d),
      asset_dyn := (asset_dyn d)[dynamic_asset_data_id (assets d ! a) := (dyn_of d a)
        \<lparr>current_supply := ip_total_issue p, investment_confidential_supply := ip_total_issue p,
         investment_current_supply := ip_total_issue p\<rparr>]\<rparr>"
    using assms(3,6) plan(1,7)
    by (auto simp: issue_asset_to_investors_do_apply_def modify_dyn_def fc_arith.fc_iffs [OF assms(1)] dyn_of_def)
  have len: "length (investments_by_asset d a) = length (ip_issue_amounts p)" using plan(1,2) by simp
  have "(\<Sum>i\<leftarrow>investments_by_asset d a. investment_tokens (investments d ! i)) =
      (\<Sum>v\<leftarrow>investments d. if investment_asset_id v = a then investment_tokens v else 0)"
    unfolding investments_by_asset_def by (rule sum_list_filter_index)
  then have tok: "allotted d' a = ip_total_issue p"
    using fold_set_tokens [OF distinct_investments_by_asset len, of "investments d" a] plan(3)
    by (simp add: d' allotted_def)
  have dyn: "current_supply (dyn_of d' a) = ip_total_issue p" "investment_current_supply (dyn_of d' a) = ip_total_issue p"
    using plan(9) by (simp_all add: d' dyn_of_def)
  have "ip_issue_amounts p ! k =
      ip_total_issue p * amount (investment_khd_amount (investments d ! (investments_by_asset d a ! k))) div invested d a"
    if k: "k < ?n - 1" for k
  proof -
    let ?x = "amount (investment_khd_amount (investments d ! (investments_by_asset d a ! k)))"
    have "investments_by_asset d a ! k \<in> set (investments_by_asset d a)" using k by (intro nth_mem) simp
    then have mem: "investments d ! (investments_by_asset d a ! k) \<in> set (investments d)"
        "investment_asset_id (investments d ! (investments_by_asset d a ! k)) = a" by simp_all
    have pos: "0 < ?x" using assms(4) mem(1) by auto
    have "?x \<le> invested d a" unfolding invested_def
      using mem assms(4) by (intro elem_le_sum_list_int) (auto simp: image_iff intro!: bexI [OF _ mem(1)])
    moreover have "issue_amount F (ip_total_issue p) ?x (invested d a) = Inr (ip_issue_amounts p ! k)"
      using plan(5) k len by (auto simp: list_all2_conv_all_nth nth_butlast plan(1,4))
    ultimately show ?thesis
      using fc_arith.issue_amount_exact [OF assms(1,5) plan(10), of ?x "invested d a"] pos plan(11) by simp
  qed
  with tok dyn plan(8) show ?thesis by simp
qed

subsection \<open>The escrow invariant\<close>

definition dyn_wf :: "database \<Rightarrow> bool" where
  "dyn_wf d \<longleftrightarrow> distinct (map dynamic_asset_data_id (assets d))
     \<and> (\<forall>a < length (assets d). dynamic_asset_data_id (assets d ! a) < length (asset_dyn d))"

definition claim_paid :: "int \<Rightarrow> nat \<Rightarrow> int" where
  "claim_paid conf n = (if n = 0 then 0 else if n = 1 then conf * 30 div 100
     else if n = 2 then conf * 30 div 100 + conf * 30 div 100 else conf)"

definition escrow_ok :: "database \<Rightarrow> asset_id_type \<Rightarrow> bool" where
  "escrow_ok d a \<longleftrightarrow>
     (let po = proj_options (assets d ! a); dyn = dyn_of d a in
      (is_project_asset (assets d ! a) \<longrightarrow> po_end_financing_block_num po < po_start_project_block_num po)
      \<and> claim_times dyn \<le> 3 \<and> (0 < claim_times dyn \<longrightarrow> po_end_financing_block_num po < head_block_number d)
      \<and> financing_confidential_supply dyn = invested d a \<and> in_int64 (invested d a)
      \<and> financing_current_supply dyn = invested d a - claim_paid (invested d a) (claim_times dyn) - refunded d a)"

definition financing_ok :: "database \<Rightarrow> bool" where
  "financing_ok d \<longleftrightarrow> dyn_wf d \<and> (\<forall>v \<in> set (investments d). 0 < amount (investment_khd_amount v))
     \<and> (\<forall>a < length (assets d). escrow_ok d a)"

lemma dyn_of_update:
  assumes "dyn_wf d" "a < length (assets d)" "b < length (assets d)"
  shows "(asset_dyn d)[dynamic_asset_data_id (assets d ! a) := x] ! dynamic_asset_data_id (assets d ! b)
    = (if b = a then x else dyn_of d b)"
proof -
  have "dynamic_asset_data_id (assets d ! a) = dynamic_asset_data_id (assets d ! b) \<longleftrightarrow> a = b"
    using assms nth_eq_iff_index_eq [of "map dynamic_asset_data_id (assets d)" a b] by (auto simp: dyn_wf_def)
  then show ?thesis using assms by (auto simp: dyn_wf_def dyn_of_def nth_list_update)
qed

text \<open>The invariant reads only what neither the fee phase nor a balance adjustment touches.\<close>

lemma strip_fees_eqD:
  assumes "strip_fees x = strip_fees y"
  shows "claim_times x = claim_times y" "financing_confidential_supply x = financing_confidential_supply y"
    "financing_current_supply x = financing_current_supply y" "state x = state y" "current_supply x = current_supply y"
    "investment_current_supply x = investment_current_supply y"
    "investment_confidential_supply x = investment_confidential_supply y"
  using assms by (cases x; cases y; auto simp: strip_fees_def)+

definition financing_frame :: "database \<Rightarrow> database \<Rightarrow> bool" where
  "financing_frame d d' \<longleftrightarrow> assets d' = assets d \<and> investments d' = investments d
     \<and> head_block_number d' = head_block_number d \<and> map strip_fees (asset_dyn d') = map strip_fees (asset_dyn d)"

lemma fee_frame_financing: "fee_frame d d' \<Longrightarrow> financing_frame d d'"
  unfolding fee_frame_def financing_frame_def
  by (metis database.select_convs database.surjective database.update_convs)


lemma financing_frame_balances [simp]: "financing_frame d (d\<lparr>balances := b\<rparr>)"
  by (simp add: financing_frame_def)

lemma financing_frame_dyn:
  assumes "financing_frame d d'" "dyn_wf d" "a < length (assets d)"
  shows "strip_fees (dyn_of d' a) = strip_fees (dyn_of d a)" "assets d' = assets d"
proof -
  let ?i = "dynamic_asset_data_id (assets d ! a)"
  have m: "map strip_fees (asset_dyn d') = map strip_fees (asset_dyn d)" and as: "assets d' = assets d"
    using assms(1) by (simp_all add: financing_frame_def)
  then have len: "length (asset_dyn d') = length (asset_dyn d)" by (metis length_map)
  have i: "?i < length (asset_dyn d)" using assms by (simp add: dyn_wf_def)
  have "map strip_fees (asset_dyn d') ! ?i = map strip_fees (asset_dyn d) ! ?i" using m by simp
  then show "strip_fees (dyn_of d' a) = strip_fees (dyn_of d a)" using i len as by (simp add: dyn_of_def)
  show "assets d' = assets d" by (rule as)
qed

lemma financing_frame_wf: "financing_frame d d' \<Longrightarrow> dyn_wf d \<Longrightarrow> dyn_wf d'"
  by (simp add: financing_frame_def dyn_wf_def) (metis length_map)

lemma financing_frame_ok:
  assumes "financing_frame d d'" "financing_ok d"
  shows "financing_ok d'"
proof -
  have wf: "dyn_wf d" using assms(2) by (simp add: financing_ok_def)
  have same: "assets d' = assets d" "investments d' = investments d" "head_block_number d' = head_block_number d"
    using assms(1) by (simp_all add: financing_frame_def)
  have "escrow_ok d' a" if "a < length (assets d)" for a
    using strip_fees_eqD [OF financing_frame_dyn(1) [OF assms(1) wf that]] assms(2) that
    by (simp add: financing_ok_def escrow_ok_def Let_def same invested_def refunded_def)
  then show ?thesis
    using assms financing_frame_wf [OF assms(1) wf] by (simp add: financing_ok_def same)
qed

text \<open>Replacing the data of one project: the rest of the invariant is untouched.\<close>

lemma dyn_wf_update:
  assumes "dyn_wf d" "map dynamic_asset_data_id as' = map dynamic_asset_data_id (assets d)"
    "length (asset_dyn d') = length (asset_dyn d)" "assets d' = as'"
  shows "dyn_wf d'"
proof -
  have "length as' = length (assets d)" using assms(2) by (metis length_map)
  moreover have "dynamic_asset_data_id (as' ! a) = dynamic_asset_data_id (assets d ! a)" if "a < length (assets d)" for a
    using assms(2) that calculation by (metis nth_map)
  ultimately show ?thesis using assms by (simp add: dyn_wf_def)
qed

lemma escrow_update:
  assumes ok: "financing_ok d" and a: "a < length (assets d)" and b: "b < length (assets d)" and ne: "b \<noteq> a"
    and ids: "assets d' ! b = assets d ! b" "head_block_number d' = head_block_number d"
    and dyn: "asset_dyn d' = (asset_dyn d)[dynamic_asset_data_id (assets d ! a) := x]"
    and inv: "invested d' b = invested d b" "refunded d' b = refunded d b"
  shows "escrow_ok d' b"
proof -
  have "dyn_of d' b = dyn_of d b"
    using dyn_of_update [of d a b x] ok a b ne ids(1) dyn by (simp add: financing_ok_def dyn_of_def)
  then show ?thesis
    using ok b ids inv by (simp add: financing_ok_def escrow_ok_def Let_def)
qed

subsection \<open>Every financing operation keeps the escrow invariant\<close>

context fc_arith
begin

lemma asset_investment_keeps:
  assumes ok: "financing_ok d" and a: "a = iv_investment_asset_id op" "a < length (assets d)"
    and open_: "financing_current_supply (dyn_of d a) < po_max_financing_amount (proj_options (assets d ! a))"
      "0 < amount (iv_amount op)" "head_block_number d \<le> po_end_financing_block_num (proj_options (assets d ! a))"
    and ap: "asset_investment_do_apply F now op d = Inr d'"
  shows "financing_ok d'"
proof -
  let ?A = "assets d ! a" and ?D = "dyn_of d a" and ?amt = "amount (iv_amount op)"
  let ?cur = "financing_current_supply ?D" and ?max = "po_max_financing_amount (proj_options ?A)"
  let ?adv = "?max \<le> ?cur + ?amt"
  define actual where "actual = (if ?adv then ?max - ?cur else ?amt)"
  define v where "v = \<lparr>investment_account_id = iv_account_id op, investment_asset_id = a,
      investment_khd_amount = mk_asset actual (asset_id (iv_amount op)), investment_height = int (head_block_number d),
      investment_timestamp = head_block_time d, has_receive_token = False, investment_tokens = 0,
      return_financing_flag = False\<rparr>"
  define as' where "as' = (if ?adv then (assets d)[a := advance_end_financing (head_block_number d) now ?A] else assets d)"
  from ap obtain x where d': "assets d' = as'" "investments d' = investments d @ [v]"
      "head_block_number d' = head_block_number d" "asset_dyn d' = (asset_dyn d)[dynamic_asset_data_id ?A := x]"
    and x: "financing_current_supply x = ?cur + actual" "claim_times x = claim_times ?D"
      "financing_confidential_supply x = financing_confidential_supply ?D + actual" "in_int64 (financing_confidential_supply ?D + actual)"
    using a
    by (auto simp: asset_investment_do_apply_def Let_def fc_iffs modify_dyn_def dyn_of_def actual_def v_def as'_def
        dest!: deduct_balance_only split: if_splits)
  have wf: "dyn_wf d" and ok_a: "escrow_ok d a" using ok a(2) by (simp_all add: financing_ok_def)
  have unclaimed: "claim_times ?D = 0" using ok_a open_(3) by (auto simp: escrow_ok_def Let_def)
  have pos: "0 < actual" using open_ by (simp add: actual_def)
  have inv: "invested d' b = invested d b + (if b = a then actual else 0)" "refunded d' b = refunded d b" for b
    by (simp_all add: invested_def refunded_def d'(2) v_def)
  have as': "length as' = length (assets d)" "map dynamic_asset_data_id as' = map dynamic_asset_data_id (assets d)"
    using a(2) by (auto simp: as'_def advance_end_financing_def intro!: map_update_same)
  have wf': "dyn_wf d'" using dyn_wf_update [OF wf as'(2)] d' by simp
  have dyn: "dyn_of d' a = x"
    using dyn_of_update [OF wf a(2) a(2), of x] d' a(2)
    by (simp add: dyn_of_def as'_def advance_end_financing_def)
  have "escrow_ok d' a"
    using ok_a unclaimed x inv(1) [of a] inv(2) [of a] a(2)
    by (simp add: escrow_ok_def Let_def dyn d' as'_def advance_end_financing_def is_project_asset_def claim_paid_def)
  moreover have "escrow_ok d' b" if "b < length (assets d)" "b \<noteq> a" for b
    using escrow_update [OF ok a(2) that _ d'(3,4)] inv [of b] that(2) d'(1) by (simp add: as'_def)
  ultimately show ?thesis
    using wf' ok pos as'(1) d'(1,2) by (auto simp: financing_ok_def v_def)
qed

end

definition inv_view :: "asset_investment_object \<Rightarrow> asset_id_type \<times> asset \<times> bool" where
  "inv_view v = (investment_asset_id v, investment_khd_amount v, return_financing_flag v)"

lemma inv_view_sums:
  assumes "map inv_view (investments d') = map inv_view (investments d)"
  shows "invested d' a = invested d a" "refunded d' a = refunded d a"
    "(\<forall>v \<in> set (investments d'). 0 < amount (investment_khd_amount v)) \<longleftrightarrow>
     (\<forall>v \<in> set (investments d). 0 < amount (investment_khd_amount v))"
proof -
  have 1: "invested e a = sum_list (map (\<lambda>(i, x, f). if i = a then amount x else 0) (map inv_view (investments e)))"
    and 2: "refunded e a = sum_list (map (\<lambda>(i, x, f). if i = a \<and> f then amount x else 0) (map inv_view (investments e)))"
    and 3: "(\<forall>v \<in> set (investments e). 0 < amount (investment_khd_amount v)) \<longleftrightarrow>
      (\<forall>w \<in> set (map inv_view (investments e)). 0 < amount (fst (snd w)))" for e
    by (simp_all add: invested_def refunded_def inv_view_def comp_def)
  show "invested d' a = invested d a" "refunded d' a = refunded d a"
    "(\<forall>v \<in> set (investments d'). 0 < amount (investment_khd_amount v)) \<longleftrightarrow>
     (\<forall>v \<in> set (investments d). 0 < amount (investment_khd_amount v))"
    unfolding 1 2 3 assms by simp_all
qed

lemma financing_ok_local:
  assumes ok: "financing_ok d" and a: "a < length (assets d)"
    and same: "assets d' = assets d" "head_block_number d' = head_block_number d"
      "map inv_view (investments d') = map inv_view (investments d)"
    and dyn: "asset_dyn d' = (asset_dyn d)[dynamic_asset_data_id (assets d ! a) := x]"
    and new: "escrow_ok (d\<lparr>asset_dyn := (asset_dyn d)[dynamic_asset_data_id (assets d ! a) := x]\<rparr>) a"
  shows "financing_ok d'"
proof -
  have wf: "dyn_wf d" using ok by (simp add: financing_ok_def)
  then have "dyn_wf d'" using dyn_wf_update [OF wf refl _ same(1)] dyn by simp
  moreover have "escrow_ok d' a" using new
    by (simp add: escrow_ok_def Let_def same dyn dyn_of_def inv_view_sums [OF same(3)])
      (simp add: invested_def refunded_def)
  moreover have "escrow_ok d' b" if "b < length (assets d)" "b \<noteq> a" for b
    using escrow_update [OF ok a that _ same(2) dyn] by (simp add: same inv_view_sums [OF same(3)])
  ultimately show ?thesis
    using ok inv_view_sums(3) [OF same(3)] by (auto simp: financing_ok_def same)
qed

lemma escrow_same_fields:
  assumes "financing_ok d" "a < length (assets d)"
    and "claim_times x = claim_times (dyn_of d a)"
      "financing_confidential_supply x = financing_confidential_supply (dyn_of d a)"
      "financing_current_supply x = financing_current_supply (dyn_of d a)"
  shows "escrow_ok (d\<lparr>asset_dyn := (asset_dyn d)[dynamic_asset_data_id (assets d ! a) := x]\<rparr>) a"
proof -
  have "dyn_wf d" "escrow_ok d a" using assms by (simp_all add: financing_ok_def)
  then show ?thesis
    using assms dyn_of_update [of d a a x] by (simp add: escrow_ok_def Let_def dyn_of_def invested_def refunded_def)
qed

lemma view_fold_set_tokens: "map inv_view (fold set_tokens zs tbl) = map inv_view tbl"
proof (induction zs arbitrary: tbl)
  case (Cons z zs)
  obtain i x where z: "z = (i, x)" by (cases z)
  have "map inv_view (set_tokens z tbl) = map inv_view tbl"
    by (auto simp: z set_tokens_def inv_view_def intro!: map_update_same)
  then show ?case using Cons by simp
qed simp

lemma view_fold_mark_received: "map inv_view (fold mark_received is tbl) = map inv_view tbl"
proof (induction "is" arbitrary: tbl)
  case (Cons i "is")
  have "map inv_view (mark_received i tbl) = map inv_view tbl"
    by (auto simp: mark_received_def inv_view_def intro!: map_update_same)
  then show ?case using Cons by simp
qed simp

context fc_arith
begin

lemma issue_keeps:
  assumes ok: "financing_ok d" and ap: "issue_asset_to_investors_do_apply F op p d = Inr d'"
  shows "financing_ok d'"
proof -
  let ?a = "is_investment_asset_id op"
  from ap obtain x where d': "?a < length (assets d)" "assets d' = assets d" "head_block_number d' = head_block_number d"
      "map inv_view (investments d') = map inv_view (investments d)"
      "asset_dyn d' = (asset_dyn d)[dynamic_asset_data_id (assets d ! ?a) := x]"
    and x: "claim_times x = claim_times (dyn_of d ?a)"
      "financing_confidential_supply x = financing_confidential_supply (dyn_of d ?a)"
      "financing_current_supply x = financing_current_supply (dyn_of d ?a)"
    by (auto simp: issue_asset_to_investors_do_apply_def Let_def modify_dyn_def dyn_of_def view_fold_set_tokens)
  show ?thesis by (rule financing_ok_local [OF ok d' escrow_same_fields [OF ok d'(1) x]])
qed

lemma claim_asset_keeps:
  assumes ok: "financing_ok d" and ap: "claim_asset_investment_do_apply F op p d = Inr d'"
  shows "financing_ok d'"
proof -
  let ?a = "ca_asset_id op"
  from ap obtain x where d': "?a < length (assets d)" "assets d' = assets d" "head_block_number d' = head_block_number d"
      "map inv_view (investments d') = map inv_view (investments d)"
      "asset_dyn d' = (asset_dyn d)[dynamic_asset_data_id (assets d ! ?a) := x]"
    and x: "claim_times x = claim_times (dyn_of d ?a)"
      "financing_confidential_supply x = financing_confidential_supply (dyn_of d ?a)"
      "financing_current_supply x = financing_current_supply (dyn_of d ?a)"
    by (auto simp: claim_asset_investment_do_apply_def modify_dyn_def dyn_of_def view_fold_mark_received
        dest!: adjust_balance_only)
  show ?thesis by (rule financing_ok_local [OF ok d' escrow_same_fields [OF ok d'(1) x]])
qed


lemma claim_share_exact:
  assumes "0 \<le> conf" "in_int64 conf" "r \<le> 100"
  shows "claim_share F conf r = Inr (conf * int r div 100)"
proof -
  have q: "uint ((word_of_int conf :: u128) * word_of_int (int r) div word_of_int 100) = conf * int r div 100"
    using assms by (intro u128_mul_div) (auto simp: in_int64_def)
  have "conf * int r div 100 \<le> conf * 100 div 100" using assms by (intro zdiv_mono1 mult_left_mono) auto
  then have "conf * int r div 100 < 2 ^ 63" using assms by (simp add: in_int64_def)
  then show ?thesis using to_share_small [of "word_of_int conf * word_of_int (int r) div word_of_int 100"] q
    by (simp add: claim_share_def KHC_100_PERCENT_def)
qed

lemma claim_amount_exact:
  assumes "claim_bitasset_investment_do_evaluate F op d = Inr p" "a = cb_asset_id op"
    and "0 \<le> financing_confidential_supply (dyn_of d a)" "in_int64 (financing_confidential_supply (dyn_of d a))"
  shows "claim_times (dyn_of d a) < 3" "cp_claim_times p = Suc (claim_times (dyn_of d a))"
    and "claim_paid (financing_confidential_supply (dyn_of d a)) (cp_claim_times p) =
      claim_paid (financing_confidential_supply (dyn_of d a)) (claim_times (dyn_of d a)) + amount (cp_khd_amount p)"
    and "amount (cp_khd_amount p) \<le> financing_current_supply (dyn_of d a)"
    and "is_project_asset (assets d ! a)"
    and "po_start_project_block_num (proj_options (assets d ! a)) \<le> head_block_number d" "a < length (assets d)"
proof -
  let ?c = "financing_confidential_supply (dyn_of d a)"
  have s: "claim_share F ?c 30 = Inr (?c * 30 div 100)" using claim_share_exact [OF assms(3,4), of 30] by simp
  show "claim_paid ?c (cp_claim_times p) = claim_paid ?c (claim_times (dyn_of d a)) + amount (cp_khd_amount p)"
    using assms(1,2) s
    by (auto simp: claim_bitasset_investment_do_evaluate_def claim_paid_def khc_defs dyn_of_def [symmetric] fc_iffs
        split: if_splits)
qed (use assms(1,2) in \<open>auto simp: claim_bitasset_investment_do_evaluate_def dyn_of_def fc_iffs is_public_offering_def
       split: if_splits\<close>)


lemma claim_bitasset_keeps:
  assumes ok: "financing_ok d" and ok0: "financing_ok d0" and fr: "financing_frame d0 d"
    and ev: "claim_bitasset_investment_do_evaluate F op d0 = Inr p"
    and ap: "claim_bitasset_investment_do_apply F op p d = Inr d'"
  shows "financing_ok d'"
proof -
  let ?a = "cb_asset_id op"
  from ap obtain x where d': "?a < length (assets d)" "assets d' = assets d" "head_block_number d' = head_block_number d"
      "map inv_view (investments d') = map inv_view (investments d)"
      "asset_dyn d' = (asset_dyn d)[dynamic_asset_data_id (assets d ! ?a) := x]"
    and x: "claim_times x = cp_claim_times p"
      "financing_confidential_supply x = financing_confidential_supply (dyn_of d ?a)"
      "financing_current_supply x = financing_current_supply (dyn_of d ?a) - amount (cp_khd_amount p)"
    by (auto simp: claim_bitasset_investment_do_apply_def modify_dyn_def dyn_of_def fc_iffs dest!: adjust_balance_only)
  have wf0: "dyn_wf d0" and wf: "dyn_wf d" and oka: "escrow_ok d ?a"
    using ok0 ok d'(1) by (simp_all add: financing_ok_def)
  have as: "assets d = assets d0" "head_block_number d = head_block_number d0" "investments d = investments d0"
    using fr by (simp_all add: financing_frame_def)
  have a0: "?a < length (assets d0)" using d'(1) as by simp
  note fields = strip_fees_eqD [OF financing_frame_dyn(1) [OF fr wf0 a0]]
  have "0 \<le> invested d0 ?a" unfolding invested_def
    using ok0 by (intro sum_list_nonneg_int) (auto simp: financing_ok_def less_imp_le)
  moreover have "escrow_ok d0 ?a" using ok0 a0 by (simp add: financing_ok_def)
  ultimately have conf: "0 \<le> financing_confidential_supply (dyn_of d0 ?a)" "in_int64 (financing_confidential_supply (dyn_of d0 ?a))"
    by (simp_all add: escrow_ok_def Let_def)
  note claim = claim_amount_exact [OF ev refl conf]
  have "escrow_ok (d\<lparr>asset_dyn := (asset_dyn d)[dynamic_asset_data_id (assets d ! ?a) := x]\<rparr>) ?a"
    using oka claim x dyn_of_update [OF wf d'(1) d'(1), of x] fields as
    by (simp add: escrow_ok_def Let_def dyn_of_def [symmetric] dyn_of_def [of "d\<lparr>asset_dyn := _\<rparr>"] invested_def refunded_def)
  from financing_ok_local [OF ok d' this] show ?thesis .
qed

lemma refund_one_keeps:
  assumes ok: "financing_ok d" and a: "a < length (assets d)"
    and i: "i < length (investments d)" "investment_asset_id (investments d ! i) = a"
      "\<not> return_financing_flag (investments d ! i)"
    and ap: "refund_one F (dynamic_asset_data_id (assets d ! a)) acct i d = Inr d'"
  shows "financing_ok d'" "assets d' = assets d"
    "investments d' = (investments d)[i := (investments d ! i)\<lparr>return_financing_flag := True\<rparr>]"
proof -
  let ?amt = "amount (investment_khd_amount (investments d ! i))"
  from ap obtain x where d': "assets d' = assets d" "head_block_number d' = head_block_number d"
      "investments d' = (investments d)[i := (investments d ! i)\<lparr>return_financing_flag := True\<rparr>]"
      "asset_dyn d' = (asset_dyn d)[dynamic_asset_data_id (assets d ! a) := x]"
    and x: "claim_times x = claim_times (dyn_of d a)"
      "financing_confidential_supply x = financing_confidential_supply (dyn_of d a)"
      "financing_current_supply x = financing_current_supply (dyn_of d a) - ?amt"
    by (auto simp: refund_one_def modify_dyn_def dyn_of_def fc_iffs dest!: adjust_balance_only)
  have wf: "dyn_wf d" and oka: "escrow_ok d a" using ok a by (simp_all add: financing_ok_def)
  have inv: "invested d' b = invested d b" "refunded d' b = refunded d b + (if b = a then ?amt else 0)" for b
    using i by (simp_all add: invested_def refunded_def d'(3) sum_list_map_update)
  have "dyn_wf d'" using dyn_wf_update [OF wf refl _ d'(1)] d' by simp
  moreover have "escrow_ok d' a"
    using oka x inv [of a] dyn_of_update [OF wf a a, of x] d'
    by (simp add: escrow_ok_def Let_def dyn_of_def)
  moreover have "escrow_ok d' b" if "b < length (assets d)" "b \<noteq> a" for b
    using escrow_update [OF ok a that _ d'(2,4)] inv [of b] that(2) d'(1) by simp
  moreover have "\<forall>v \<in> set (investments d'). 0 < amount (investment_khd_amount v)"
    using ok i(1) d'(3) by (auto simp: financing_ok_def dest!: set_update_subset_insert [THEN subsetD])
  ultimately show "financing_ok d'" by (auto simp: financing_ok_def d'(1))
  show "assets d' = assets d" "investments d' = (investments d)[i := (investments d ! i)\<lparr>return_financing_flag := True\<rparr>]"
    by (rule d')+
qed

lemma refund_fold_keeps:
  assumes "financing_ok d" "a < length (assets d)" "distinct is" "did = dynamic_asset_data_id (assets d ! a)"
    and "\<forall>i \<in> set is. i < length (investments d) \<and> investment_asset_id (investments d ! i) = a
       \<and> \<not> return_financing_flag (investments d ! i)"
    and "fold_res (refund_one F did acct) is d = Inr d'"
  shows "financing_ok d'"
  using assms
proof (induction "is" arbitrary: d)
  case (Cons i "is")
  from Cons.prems obtain d1 where d1: "refund_one F did acct i d = Inr d1" "fold_res (refund_one F did acct) is d1 = Inr d'"
    by auto
  note step = refund_one_keeps [OF Cons.prems(1,2), of i acct d1]
  have *: "financing_ok d1" "assets d1 = assets d"
    "investments d1 = (investments d)[i := (investments d ! i)\<lparr>return_financing_flag := True\<rparr>]"
    using step Cons.prems(4,5) d1(1) by simp_all
  have "\<forall>j \<in> set is. j < length (investments d1) \<and> investment_asset_id (investments d1 ! j) = a
       \<and> \<not> return_financing_flag (investments d1 ! j)"
    using Cons.prems(3,5) * by (auto simp: nth_list_update)
  then show ?case using Cons.IH [OF *(1)] Cons.prems * d1(2) by simp
qed simp


lemma plan_refund_fold:
  assumes "fold_res (plan_refund F d a) is p = Inr p'"
  shows "rp_investment_objects p' = rp_investment_objects p @
      filter (\<lambda>i. investment_asset_id (investments d ! i) = a \<and> \<not> return_financing_flag (investments d ! i)) is"
    and "rp_total_investment p' = rp_total_investment p + (\<Sum>i\<leftarrow>filter (\<lambda>i. investment_asset_id (investments d ! i) = a
      \<and> \<not> return_financing_flag (investments d ! i)) is. amount (investment_khd_amount (investments d ! i)))"
proof -
  have "rp_investment_objects p' = rp_investment_objects p @
      filter (\<lambda>i. investment_asset_id (investments d ! i) = a \<and> \<not> return_financing_flag (investments d ! i)) is
    \<and> rp_total_investment p' = rp_total_investment p + (\<Sum>i\<leftarrow>filter (\<lambda>i. investment_asset_id (investments d ! i) = a
      \<and> \<not> return_financing_flag (investments d ! i)) is. amount (investment_khd_amount (investments d ! i)))"
    using assms
    by (induction "is" arbitrary: p) (auto simp: plan_refund_def Let_def fc_iffs split: if_splits)
  then show "rp_investment_objects p' = rp_investment_objects p @
      filter (\<lambda>i. investment_asset_id (investments d ! i) = a \<and> \<not> return_financing_flag (investments d ! i)) is"
    "rp_total_investment p' = rp_total_investment p + (\<Sum>i\<leftarrow>filter (\<lambda>i. investment_asset_id (investments d ! i) = a
      \<and> \<not> return_financing_flag (investments d ! i)) is. amount (investment_khd_amount (investments d ! i)))"
    by blast+
qed

lemma refund_plan_facts:
  assumes "refund_investment_do_evaluate F op d = Inr objs"
  shows "objs = filter (\<lambda>i. investment_asset_id (investments d ! i) = rf_investment_asset_id op
      \<and> \<not> return_financing_flag (investments d ! i)) (investments_by_account d (rf_account_id op))"
    and "state (dyn_of d (rf_investment_asset_id op)) = financing_failue"
    and "rf_investment_asset_id op < length (assets d)"
  using assms
  by (auto simp: refund_investment_do_evaluate_def dyn_of_def dest!: plan_refund_fold(1))

lemma refund_keeps:
  assumes ok: "financing_ok d" and fr: "financing_frame d0 d"
    and ev: "refund_investment_do_evaluate F op d0 = Inr objs"
    and ap: "refund_investment_do_apply F op objs d = Inr d'"
  shows "financing_ok d'"
proof -
  let ?a = "rf_investment_asset_id op"
  have same: "investments d = investments d0" "assets d = assets d0" using fr by (simp_all add: financing_frame_def)
  note objs = refund_plan_facts(1) [OF ev]
  have "distinct objs" by (simp add: objs investments_by_account_def)
  moreover have "\<forall>i \<in> set objs. i < length (investments d) \<and> investment_asset_id (investments d ! i) = ?a
       \<and> \<not> return_financing_flag (investments d ! i)"
    by (auto simp: objs same investments_by_account_def)
  moreover have "?a < length (assets d)"
    "fold_res (refund_one F (dynamic_asset_data_id (assets d ! ?a)) (rf_account_id op)) objs d = Inr d'"
    using ap by (auto simp: refund_investment_do_apply_def)
  ultimately show ?thesis using refund_fold_keeps [OF ok] by blast
qed

end

lemma update_one_project_state_keeps:
  assumes ok: "financing_ok d" and up: "update_one_project_state a d = Inr d'"
  shows "financing_ok d'"
proof (cases "d' = d")
  case False
  with up obtain x where d': "a < length (assets d)" "assets d' = assets d" "head_block_number d' = head_block_number d"
      "map inv_view (investments d') = map inv_view (investments d)"
      "asset_dyn d' = (asset_dyn d)[dynamic_asset_data_id (assets d ! a) := x]"
    and x: "claim_times x = claim_times (dyn_of d a)"
      "financing_confidential_supply x = financing_confidential_supply (dyn_of d a)"
      "financing_current_supply x = financing_current_supply (dyn_of d a)"
    by (auto simp: update_one_project_state_def modify_dyn_def dyn_of_def update_asset_power_status_def Let_def
        split: if_splits option.splits)
  show ?thesis by (rule financing_ok_local [OF ok d' escrow_same_fields [OF ok d'(1) x]])
qed (use ok in simp)

lemma update_states_keeps:
  assumes "financing_ok d" "update_asset_project_states d = Inr d'"
  shows "financing_ok d'"
  using assms(2) unfolding update_asset_project_states_def
  by (rule fold_res_invariant [where P = financing_ok]) (use assms(1) update_one_project_state_keeps in auto)

subsection \<open>The life of a project\<close>

text \<open>The whole handlers: fees, checks and state change, with the fee payer the operation names.\<close>

definition asset_investment_evaluate :: "fc_lib \<Rightarrow> trx_state \<Rightarrow> int \<Rightarrow> nat \<Rightarrow> asset_investment_operation
    \<Rightarrow> database \<Rightarrow> database result" where
  "asset_investment_evaluate F ts required_fee now op d =
     start_evaluate F ts required_fee (iv_account_id op) (iv_fee op) (asset_investment_do_evaluate op)
       (\<lambda>_. asset_investment_do_apply F now op) d"

definition issue_asset_to_investors_evaluate :: "fc_lib \<Rightarrow> trx_state \<Rightarrow> int
    \<Rightarrow> issue_asset_to_investors_operation \<Rightarrow> database \<Rightarrow> database result" where
  "issue_asset_to_investors_evaluate F ts required_fee op d =
     start_evaluate F ts required_fee (is_issue op) (is_fee op) (issue_asset_to_investors_do_evaluate F op)
       (issue_asset_to_investors_do_apply F op) d"

definition refund_investment_evaluate :: "fc_lib \<Rightarrow> trx_state \<Rightarrow> int \<Rightarrow> refund_investment_operation
    \<Rightarrow> database \<Rightarrow> database result" where
  "refund_investment_evaluate F ts required_fee op d =
     start_evaluate F ts required_fee (rf_account_id op) (rf_fee op) (refund_investment_do_evaluate F op)
       (refund_investment_do_apply F op) d"

definition claim_bitasset_investment_evaluate :: "fc_lib \<Rightarrow> trx_state \<Rightarrow> int
    \<Rightarrow> claim_bitasset_investment_operation \<Rightarrow> database \<Rightarrow> database result" where
  "claim_bitasset_investment_evaluate F ts required_fee op d =
     start_evaluate F ts required_fee (cb_account_id op) (cb_fee op) (claim_bitasset_investment_do_evaluate F op)
       (claim_bitasset_investment_do_apply F op) d"

definition claim_asset_investment_evaluate :: "fc_lib \<Rightarrow> trx_state \<Rightarrow> int
    \<Rightarrow> claim_asset_investment_operation \<Rightarrow> database \<Rightarrow> database result" where
  "claim_asset_investment_evaluate F ts required_fee op d =
     start_evaluate F ts required_fee (ca_account_id op) (ca_fee op) (claim_asset_investment_do_evaluate F op)
       (claim_asset_investment_do_apply F op) d"

inductive financing_step :: "fc_lib \<Rightarrow> database \<Rightarrow> database \<Rightarrow> bool" for F where
  invest: "asset_investment_evaluate F ts fee now op d = Inr d' \<Longrightarrow> financing_step F d d'"
| issue: "issue_asset_to_investors_evaluate F ts fee op d = Inr d' \<Longrightarrow> financing_step F d d'"
| refund: "refund_investment_evaluate F ts fee op d = Inr d' \<Longrightarrow> financing_step F d d'"
| claim_khd: "claim_bitasset_investment_evaluate F ts fee op d = Inr d' \<Longrightarrow> financing_step F d d'"
| claim_tokens: "claim_asset_investment_evaluate F ts fee op d = Inr d' \<Longrightarrow> financing_step F d d'"
| maintenance: "update_asset_project_states d = Inr d' \<Longrightarrow> financing_step F d d'"
| next_block: "head_block_number d \<le> n \<Longrightarrow>
    financing_step F d (d\<lparr>head_block_number := n, head_block_time := t\<rparr>)"

inductive_cases financing_stepE: "financing_step F d d'"

lemma fee_phase_keeps:
  assumes "financing_ok d" "fee_frame d d'"
  shows "financing_ok d'" "financing_frame d d'"
  using assms fee_frame_financing financing_frame_ok by blast+

lemma pay_keeps: "deduct_balance F payer fee d = Inr d' \<Longrightarrow> financing_ok d \<Longrightarrow> financing_ok d'"
  by (auto dest!: deduct_balance_only intro: financing_frame_ok [OF financing_frame_balances])

lemma next_block_keeps:
  assumes "financing_ok d" "head_block_number d \<le> n"
  shows "financing_ok (d\<lparr>head_block_number := n, head_block_time := t\<rparr>)"
  using assms
  by (auto simp: financing_ok_def dyn_wf_def escrow_ok_def Let_def dyn_of_def invested_def refunded_def)

lemma invest_checks:
  assumes "asset_investment_do_evaluate op d = Inr u"
  shows "iv_investment_asset_id op < length (assets d)" "0 < amount (iv_amount op)"
    "financing_current_supply (dyn_of d (iv_investment_asset_id op))
       < po_max_financing_amount (proj_options (assets d ! iv_investment_asset_id op))"
    "head_block_number d \<le> po_end_financing_block_num (proj_options (assets d ! iv_investment_asset_id op))"
  using assms by (auto simp: asset_investment_do_evaluate_def dyn_of_def)

lemma financing_step_keeps:
  assumes "fc_arith F" and step: "financing_step F d d'" and ok: "financing_ok d"
  shows "financing_ok d'"
  using step
proof cases
  case (invest ts fee now op)
  then show ?thesis unfolding asset_investment_evaluate_def
  proof (rule start_evaluateE)
    fix c d2 d3
    assume *: "asset_investment_do_evaluate op d = Inr c" "fee_frame d d2"
      "asset_investment_do_apply F now op d2 = Inr d3" "deduct_balance F (iv_account_id op) (iv_fee op) d3 = Inr d'"
    note fr = fee_phase_keeps [OF ok *(2)] and chk = invest_checks [OF *(1)]
    have wf: "dyn_wf d" using ok by (simp add: financing_ok_def)
    have same: "assets d2 = assets d" "head_block_number d2 = head_block_number d"
      using fr(2) by (simp_all add: financing_frame_def)
    have "financing_current_supply (dyn_of d2 (iv_investment_asset_id op)) = financing_current_supply (dyn_of d (iv_investment_asset_id op))"
      using strip_fees_eqD [OF financing_frame_dyn(1) [OF fr(2) wf chk(1)]] by simp
    then have "financing_ok d3"
      using fc_arith.asset_investment_keeps [OF assms(1) fr(1) refl _ _ _ _ *(3)] chk same by simp
    then show ?thesis using pay_keeps *(4) by blast
  qed
qed (use ok in \<open>auto simp: issue_asset_to_investors_evaluate_def refund_investment_evaluate_def
     claim_bitasset_investment_evaluate_def claim_asset_investment_evaluate_def
     intro: update_states_keeps next_block_keeps elim!: start_evaluateE
     dest: fc_arith.issue_keeps [OF assms(1) fee_phase_keeps(1) [OF ok]]
       fc_arith.claim_asset_keeps [OF assms(1) fee_phase_keeps(1) [OF ok]]
       fc_arith.refund_keeps [OF assms(1) fee_phase_keeps [OF ok]]
       fc_arith.claim_bitasset_keeps [OF assms(1) fee_phase_keeps(1) [OF ok] ok fee_phase_keeps(2) [OF ok]]
       pay_keeps\<close>)



subsection \<open>What a refund pays\<close>

context fc_arith
begin

lemma refund_one_effect:
  assumes "refund_one F did acct i d = Inr d'" "i < length (investments d)"
  shows "balance_of d' b y = balance_of d b y + (if b = acct \<and> y = asset_id (investment_khd_amount (investments d ! i))
      then amount (investment_khd_amount (investments d ! i)) else 0)"
    and "investments d' = (investments d)[i := (investments d ! i)\<lparr>return_financing_flag := True\<rparr>]"
    and "did < length (asset_dyn d)"
    and "asset_dyn d' = (asset_dyn d)[did := (asset_dyn d ! did)\<lparr>financing_current_supply :=
        financing_current_supply (asset_dyn d ! did) - amount (investment_khd_amount (investments d ! i))\<rparr>]"
    and "assets d' = assets d"
proof -
  from assms(1) obtain d1 d2 where d1: "d1 = d\<lparr>asset_dyn := (asset_dyn d)[did := (asset_dyn d ! did)\<lparr>financing_current_supply :=
        financing_current_supply (asset_dyn d ! did) - amount (investment_khd_amount (investments d ! i))\<rparr>]\<rparr>"
      "did < length (asset_dyn d)"
    and d2: "adjust_balance F acct (investment_khd_amount (investments d ! i)) d1 = Inr d2"
    and d': "d' = d2\<lparr>investments := (investments d2)[i := (investments d2 ! i)\<lparr>return_financing_flag := True\<rparr>]\<rparr>"
    by (auto simp: refund_one_def modify_dyn_def fc_iffs)
  from adjust_balance_only [OF d2] obtain bm where bm: "d2 = d1\<lparr>balances := bm\<rparr>" by blast
  show "balance_of d' b y = balance_of d b y + (if b = acct \<and> y = asset_id (investment_khd_amount (investments d ! i))
      then amount (investment_khd_amount (investments d ! i)) else 0)"
    using adjust_balance_bal [OF d2, of b y] by (simp add: d' d1(1))
  show "investments d' = (investments d)[i := (investments d ! i)\<lparr>return_financing_flag := True\<rparr>]"
    "asset_dyn d' = (asset_dyn d)[did := (asset_dyn d ! did)\<lparr>financing_current_supply :=
        financing_current_supply (asset_dyn d ! did) - amount (investment_khd_amount (investments d ! i))\<rparr>]"
    "assets d' = assets d"
    by (simp_all add: d' bm d1(1))
qed (use assms in \<open>auto simp: refund_one_def modify_dyn_def\<close>)

lemma refund_fold_effect:
  assumes "fold_res (refund_one F did acct) is d = Inr d'" "distinct is" "did < length (asset_dyn d)"
    and "\<forall>i \<in> set is. i < length (investments d)"
  shows "balance_of d' b y = balance_of d b y + (if b = acct then
      (\<Sum>i\<leftarrow>is. if y = asset_id (investment_khd_amount (investments d ! i)) then amount (investment_khd_amount (investments d ! i)) else 0) else 0)
    \<and> financing_current_supply (asset_dyn d' ! did) =
      financing_current_supply (asset_dyn d ! did) - (\<Sum>i\<leftarrow>is. amount (investment_khd_amount (investments d ! i)))
    \<and> (\<forall>j < length (investments d). investments d' ! j =
         (if j \<in> set is then (investments d ! j)\<lparr>return_financing_flag := True\<rparr> else investments d ! j))
    \<and> length (investments d') = length (investments d) \<and> assets d' = assets d"
  using assms
proof (induction "is" arbitrary: d)
  case (Cons i "is")
  from Cons.prems obtain d1 where d1: "refund_one F did acct i d = Inr d1" "fold_res (refund_one F did acct) is d1 = Inr d'"
    and i: "i < length (investments d)" by auto
  note step = refund_one_effect [OF d1(1) i]
  have same: "map (\<lambda>j. investment_khd_amount (investments d1 ! j)) is = map (\<lambda>j. investment_khd_amount (investments d ! j)) is"
    using Cons.prems(2) step(2) i by (auto simp: nth_list_update)
  have sums: "(\<Sum>j\<leftarrow>is. f (investment_khd_amount (investments d1 ! j))) = (\<Sum>j\<leftarrow>is. f (investment_khd_amount (investments d ! j)))"
    for f :: "asset \<Rightarrow> int"
    using arg_cong [OF same, of "\<lambda>xs. sum_list (map f xs)"] by (simp add: comp_def)
  note IH = Cons.IH [OF d1(2)]
  show ?case
    using IH Cons.prems(2-4) step(1) [of b y] step(2-5) i
      sums [of "\<lambda>x. if y = asset_id x then amount x else 0"] sums [of amount]
    by (auto simp: nth_list_update)
qed simp

end


definition refundable :: "account_id_type \<Rightarrow> asset_id_type \<Rightarrow> asset_investment_object \<Rightarrow> bool" where
  "refundable acct a v \<longleftrightarrow> investment_account_id v = acct \<and> investment_asset_id v = a \<and> \<not> return_financing_flag v"

lemma refund_objects:
  "filter (\<lambda>i. investment_asset_id (investments d ! i) = a \<and> \<not> return_financing_flag (investments d ! i))
     (investments_by_account d acct) = filter (\<lambda>i. refundable acct a (investments d ! i)) [0..<length (investments d)]"
  by (auto simp: investments_by_account_def refundable_def intro: filter_cong)

context fc_arith
begin

lemma refund_pays:
  assumes "refund_investment_evaluate F ts required_fee op d = Inr d'"
    and acct: "acct = rf_account_id op" and a: "a = rf_investment_asset_id op"
  shows "balance_of d' b y = balance_of d b y
      + (if b = acct then (\<Sum>v\<leftarrow>investments d. if refundable acct a v then
           (if y = asset_id (investment_khd_amount v) then amount (investment_khd_amount v) else 0) else 0) else 0)
      - (if b = acct \<and> y = asset_id (rf_fee op) then amount (rf_fee op) else 0)"
    and "state (dyn_of d a) = financing_failue"
    and "\<forall>v \<in> set (investments d'). \<not> refundable acct a v"
proof -
  let ?is = "filter (\<lambda>i. refundable acct a (investments d ! i)) [0..<length (investments d)]"
  from assms(1) obtain objs d2 d3 where *: "refund_investment_do_evaluate F op d = Inr objs" "fee_frame d d2"
      "refund_investment_do_apply F op objs d2 = Inr d3" "deduct_balance F acct (rf_fee op) d3 = Inr d'"
    unfolding refund_investment_evaluate_def acct by (rule start_evaluateE)
  note plan = refund_plan_facts [OF *(1)]
  have objs: "objs = ?is" using plan(1) by (simp add: refund_objects acct a)
  have inv2: "investments d2 = investments d" using fee_frame_financing [OF *(2)] by (simp add: financing_frame_def)
  from *(3) obtain did where fold: "fold_res (refund_one F did acct) ?is d2 = Inr d3"
    by (auto simp: refund_investment_do_apply_def objs acct)
  have "?is \<noteq> []" using *(1) plan_refund_fold(1)
    by (fastforce simp: refund_investment_do_evaluate_def objs [symmetric])
  then obtain i "is" where "?is = i # is" by (cases ?is) auto
  then have did: "did < length (asset_dyn d2)" using fold by (auto simp: refund_one_def modify_dyn_def)
  have bound: "\<forall>i \<in> set ?is. i < length (investments d2)" by (auto simp: inv2)
  have dist: "distinct ?is" by simp
  note eff = refund_fold_effect [OF fold dist did bound]
  have bal3: "balance_of d3 b y = balance_of d b y
      + (if b = acct then (\<Sum>v\<leftarrow>investments d. if refundable acct a v then
           (if y = asset_id (investment_khd_amount v) then amount (investment_khd_amount v) else 0) else 0) else 0)" for b y
    using eff [of b y] sum_list_filter_index [where P = "refundable acct a" and xs = "investments d"
        and f = "\<lambda>v. if y = asset_id (investment_khd_amount v) then amount (investment_khd_amount v) else 0"]
    by (simp only: inv2 fee_frame_balance [OF *(2)])
  have "balance_of d' b y = balance_of d3 b y - (if b = acct \<and> y = asset_id (rf_fee op) then amount (rf_fee op) else 0)"
    using *(4) unfolding deduct_balance_iff by (auto dest: adjust_balance_bal [where b = b and y = y])
  then show "balance_of d' b y = balance_of d b y
      + (if b = acct then (\<Sum>v\<leftarrow>investments d. if refundable acct a v then
           (if y = asset_id (investment_khd_amount v) then amount (investment_khd_amount v) else 0) else 0) else 0)
      - (if b = acct \<and> y = asset_id (rf_fee op) then amount (rf_fee op) else 0)" by (simp add: bal3)
  show "state (dyn_of d a) = financing_failue" using plan(2) a by simp
  have same: "investments d' = investments d3" using deduct_balance_only [OF *(4)] by auto
  have inv3: "\<forall>j < length (investments d). investments d3 ! j =
      (if j \<in> set ?is then (investments d ! j)\<lparr>return_financing_flag := True\<rparr> else investments d ! j)"
      "length (investments d3) = length (investments d)"
    using eff [of b y] unfolding inv2 by blast+
  show "\<forall>v \<in> set (investments d'). \<not> refundable acct a v"
  proof
    fix v assume "v \<in> set (investments d')"
    then obtain j where j: "j < length (investments d)" "v = investments d3 ! j"
      using inv3(2) by (auto simp: same in_set_conv_nth)
    then show "\<not> refundable acct a v"
      using inv3(1) by (cases "j \<in> set ?is") (auto simp: refundable_def)
  qed
qed

lemma refund_refused:
  assumes "\<forall>v \<in> set (investments d). \<not> refundable (rf_account_id op) (rf_investment_asset_id op) v"
  shows "refund_investment_do_evaluate F op d \<noteq> Inr objs"
proof
  assume ev: "refund_investment_do_evaluate F op d = Inr objs"
  have "objs = []" using refund_plan_facts(1) [OF ev] assms
    by (auto simp: refund_objects filter_empty_conv)
  moreover have "objs \<noteq> []" using ev by (auto simp: refund_investment_do_evaluate_def)
  ultimately show False by simp
qed

end

text \<open>C11: A refund pays an investor of a failed project exactly its investments in that project that
  were not refunded before, in the asset they were made in (less the operation's fee), and nobody
  else; after it no investment of the account in the project is open, so a second refund is refused.\<close>

theorem refund_returns_investment:
  assumes "fc_arith F" "refund_investment_evaluate F ts required_fee op d = Inr d'"
    and "acct = rf_account_id op" "a = rf_investment_asset_id op"
  shows "(\<forall>b y. balance_of d' b y = balance_of d b y
      + (if b = acct then (\<Sum>v\<leftarrow>investments d. if refundable acct a v then
           (if y = asset_id (investment_khd_amount v) then amount (investment_khd_amount v) else 0) else 0) else 0)
      - (if b = acct \<and> y = asset_id (rf_fee op) then amount (rf_fee op) else 0))
    \<and> state (dyn_of d a) = financing_failue
    \<and> (\<forall>objs. refund_investment_do_evaluate F op d' \<noteq> Inr objs)"
  using fc_arith.refund_pays [OF assms] fc_arith.refund_refused [OF assms(1)] assms(3,4) by blast


subsection \<open>Instalments and project states\<close>

context fc_arith
begin

lemma claim_pays:
  assumes "claim_bitasset_investment_evaluate F ts required_fee op d = Inr d'" "a = cb_asset_id op"
    and wf: "dyn_wf d" and conf: "conf = financing_confidential_supply (dyn_of d a)" "0 \<le> conf" "in_int64 conf"
    and n: "n = claim_times (dyn_of d a)"
  shows "\<exists>khd. get_asset_id d KHD_ASSET_SYMBOL = Inr khd
    \<and> balance_of d' (cb_account_id op) khd = balance_of d (cb_account_id op) khd
        + (claim_paid conf (n + 1) - claim_paid conf n) - (if khd = asset_id (cb_fee op) then amount (cb_fee op) else 0)
    \<and> financing_current_supply (dyn_of d' a) =
        financing_current_supply (dyn_of d a) - (claim_paid conf (n + 1) - claim_paid conf n)
    \<and> 0 \<le> financing_current_supply (dyn_of d' a) \<and> claim_times (dyn_of d' a) = n + 1 \<and> n < 3
    \<and> cb_account_id op = issuer (assets d ! a)"
proof -
  from assms(1) obtain p d2 d3 where *: "claim_bitasset_investment_do_evaluate F op d = Inr p" "fee_frame d d2"
      "claim_bitasset_investment_do_apply F op p d2 = Inr d3" "deduct_balance F (cb_account_id op) (cb_fee op) d3 = Inr d'"
    unfolding claim_bitasset_investment_evaluate_def by (rule start_evaluateE)
  have fr: "financing_frame d d2" by (rule fee_frame_financing [OF *(2)])
  note claim = claim_amount_exact [OF *(1) assms(2), folded conf(1) n, OF conf(2,3)]
  have khd: "get_asset_id d KHD_ASSET_SYMBOL = Inr (asset_id (cp_khd_amount p))" "cb_account_id op = issuer (assets d ! a)"
    using *(1) assms(2) by (auto simp: claim_bitasset_investment_do_evaluate_def)
  have as: "assets d2 = assets d" using fr by (simp add: financing_frame_def)
  note fields = strip_fees_eqD [OF financing_frame_dyn(1) [OF fr wf claim(7)]]
  from *(3) obtain d4 bm where d4: "adjust_balance F (cb_account_id op) (cp_khd_amount p) d2 = Inr d4" "d4 = d2\<lparr>balances := bm\<rparr>"
    and d3: "d3 = d4\<lparr>asset_dyn := (asset_dyn d2)[dynamic_asset_data_id (assets d ! a) := (dyn_of d2 a)
        \<lparr>financing_current_supply := financing_current_supply (dyn_of d2 a) - amount (cp_khd_amount p),
         claim_times := cp_claim_times p\<rparr>]\<rparr>"
    and i: "dynamic_asset_data_id (assets d ! a) < length (asset_dyn d2)"
    using adjust_balance_only assms(2)
    by (fastforce simp: claim_bitasset_investment_do_apply_def modify_dyn_def dyn_of_def as fc_iffs)
  obtain bm' where d': "d' = d3\<lparr>balances := bm'\<rparr>" using deduct_balance_only [OF *(4)] by blast
  have dyn: "financing_current_supply (dyn_of d' a) = financing_current_supply (dyn_of d a) - amount (cp_khd_amount p)"
    "claim_times (dyn_of d' a) = cp_claim_times p"
    using i fields as by (simp_all add: dyn_of_def d' d3 d4(2))
  have "balance_of d' (cb_account_id op) y = balance_of d3 (cb_account_id op) y
      - (if y = asset_id (cb_fee op) then amount (cb_fee op) else 0)" for y
    using *(4) unfolding deduct_balance_iff by (auto dest: adjust_balance_bal [where b = "cb_account_id op" and y = y])
  moreover have "balance_of d3 (cb_account_id op) y = balance_of d (cb_account_id op) y
      + (if y = asset_id (cp_khd_amount p) then amount (cp_khd_amount p) else 0)" for y
    using adjust_balance_bal [OF d4(1), of "cb_account_id op" y] fee_frame_balance [OF *(2)] by (simp add: d3)
  ultimately show ?thesis using khd claim dyn by auto
qed

end

text \<open>C12: A claim of the issuer pays the instalment that is due and books it: 30 % of the financed
  amount at the first and at the second claim, the whole remainder at the third (rounding included),
  out of \<open>financing_current_supply\<close>, which never becomes negative, and there is no fourth claim.\<close>

theorem claim_pays_instalment:
  assumes "fc_arith F" "claim_bitasset_investment_evaluate F ts required_fee op d = Inr d'" "a = cb_asset_id op"
    and "dyn_wf d" "conf = financing_confidential_supply (dyn_of d a)" "0 \<le> conf" "in_int64 conf"
    and "n = claim_times (dyn_of d a)"
  shows "\<exists>khd. get_asset_id d KHD_ASSET_SYMBOL = Inr khd
    \<and> balance_of d' (cb_account_id op) khd = balance_of d (cb_account_id op) khd
        + (claim_paid conf (n + 1) - claim_paid conf n) - (if khd = asset_id (cb_fee op) then amount (cb_fee op) else 0)
    \<and> financing_current_supply (dyn_of d' a) =
        financing_current_supply (dyn_of d a) - (claim_paid conf (n + 1) - claim_paid conf n)
    \<and> 0 \<le> financing_current_supply (dyn_of d' a) \<and> claim_times (dyn_of d' a) = n + 1 \<and> n < 3
    \<and> cb_account_id op = issuer (assets d ! a)"
  by (rule fc_arith.claim_pays [OF assms])


subsection \<open>Evaluation on a small chain state\<close>

lemmas financing_eval = fee_eval is_market_issued_def is_public_offering_def is_project_asset_def khc_defs

definition demo_invest :: "account_id_type \<Rightarrow> int \<Rightarrow> asset_investment_operation" where
  "demo_invest acct amt = \<lparr>iv_fee = mk_asset 1 0, iv_account_id = acct, iv_investment_asset_id = 2,
     iv_amount = mk_asset amt 1\<rparr>"

lemma demo_invest_runs: "\<exists>d'. asset_investment_evaluate fc64 demo_ts 1 99 (demo_invest 6 600) demo_db = Inr d' \<and> length (assets d') = 3
   \<and> invested d' 2 = 600"
  by (simp add: asset_investment_evaluate_def asset_investment_do_evaluate_def asset_investment_do_apply_def
     financing_eval demo_defs demo_invest_def demo_ts_def fc64_eval invested_def)

lemma demo_db_ok: "financing_ok demo_db"
  by (simp add: financing_ok_def dyn_wf_def escrow_ok_def demo_defs dyn_of_def invested_def refunded_def claim_paid_def less_Suc_eq)

definition demo_investment :: "account_id_type \<Rightarrow> int \<Rightarrow> asset_investment_object" where
  "demo_investment acct amt = \<lparr>investment_account_id = acct, investment_asset_id = 2,
     investment_khd_amount = mk_asset amt 1, investment_height = 12, investment_timestamp = 1000,
     has_receive_token = False, investment_tokens = 0, return_financing_flag = False\<rparr>"

definition demo_financed :: "project_state \<Rightarrow> int \<Rightarrow> int \<Rightarrow> database" where
  "demo_financed st x y = demo_db\<lparr>investments := [demo_investment 6 x, demo_investment 7 y], head_block_number := 30,
     asset_dyn := [demo_dyn 5000, demo_dyn 2000, (demo_dyn 0)\<lparr>financing_current_supply := x + y,
       financing_confidential_supply := x + y, state := st\<rparr>]\<rparr>"

lemmas demo_financing_defs = demo_defs demo_invest_def demo_ts_def demo_investment_def demo_financed_def

definition demo_issue :: issue_asset_to_investors_operation where
  "demo_issue = \<lparr>is_fee = mk_asset 0 0, is_issue = 5, is_investment_asset_id = 2\<rparr>"

definition demo_plan :: issue_plan where
  "demo_plan = \<lparr>ip_total_issue = 6006, ip_total_investment = 1001, ip_total_issue_tmp = 6006,
     ip_investment_objects = [0, 1], ip_issue_amounts = [3606, 2400]\<rparr>"

theorem issue_splits_total_witness:
  "\<exists>d'. issue_asset_to_investors_do_apply fc64 demo_issue demo_plan (demo_financed project_in_progress 601 400) = Inr d'
     \<and> allotted d' 2 = 6006"
proof -
  let ?d = "demo_financed project_in_progress 601 400"
  have ev: "issue_asset_to_investors_do_evaluate fc64 demo_issue ?d = Inr demo_plan"
    by (simp add: issue_asset_to_investors_do_evaluate_def financing_eval demo_financing_defs demo_issue_def demo_plan_def
        is_financing_end_def get_asset_id_def mul_price_def investments_by_asset_def plan_issue_def issue_amount_def upt_rec
        to_share_def share_of_u64_def add_to_last_def fc64_eval GRAPHENE_MAX_SHARE_SUPPLY_def)
  moreover have "\<exists>d'. issue_asset_to_investors_do_apply fc64 demo_issue demo_plan ?d = Inr d'"
    by (simp add: issue_asset_to_investors_do_apply_def financing_eval demo_financing_defs demo_issue_def demo_plan_def fc64_eval)
  ultimately show ?thesis
    using issue_splits_total [OF fc64_arith.fc_arith_axioms ev] 
    by (auto simp: demo_financed_def demo_investment_def demo_plan_def demo_issue_def)
qed


definition demo_refund :: refund_investment_operation where
  "demo_refund = \<lparr>rf_fee = mk_asset 1 0, rf_account_id = 6, rf_investment_asset_id = 2\<rparr>"

theorem refund_returns_investment_witness:
  "\<exists>d'. refund_investment_evaluate fc64 demo_ts 1 demo_refund (demo_financed financing_failue 100 50) = Inr d'
     \<and> balance_of d' 6 1 = 1600 \<and> balance_of d' 7 1 = 500"
proof -
  have "\<exists>d'. refund_investment_evaluate fc64 demo_ts 1 demo_refund (demo_financed financing_failue 100 50) = Inr d'"
    by (simp add: refund_investment_evaluate_def refund_investment_do_evaluate_def refund_investment_do_apply_def
        plan_refund_def refund_one_def investments_by_account_def upt_rec financing_eval demo_financing_defs
        demo_refund_def fc64_eval)
  then obtain d' where d': "refund_investment_evaluate fc64 demo_ts 1 demo_refund (demo_financed financing_failue 100 50) = Inr d'"
    by blast
  from refund_returns_investment [OF fc64_arith.fc_arith_axioms d' refl refl]
  show ?thesis using d'
    by (simp add: demo_financing_defs demo_refund_def refundable_def balance_of_def)
qed

definition demo_claim :: claim_bitasset_investment_operation where
  "demo_claim = \<lparr>cb_fee = mk_asset 0 0, cb_account_id = 5, cb_asset_id = 2\<rparr>"

theorem claim_pays_instalment_witness:
  "\<exists>d d'. claim_bitasset_investment_evaluate fc64 demo_ts 0 demo_claim d = Inr d'
     \<and> financing_current_supply (dyn_of d 2) = 1001 \<and> financing_current_supply (dyn_of d' 2) = 701"
proof -
  let ?f = "demo_financed project_in_progress 601 400"
  let ?d = "?f\<lparr>asset_dyn := (asset_dyn ?f)[2 := (asset_dyn ?f ! 2)\<lparr>investment_confidential_supply := 6006\<rparr>]\<rparr>"
  have "\<exists>d'. claim_bitasset_investment_evaluate fc64 demo_ts 0 demo_claim ?d = Inr d'"
    by (simp add: claim_bitasset_investment_evaluate_def claim_bitasset_investment_do_evaluate_def is_issue_to_investors_def
        claim_bitasset_investment_do_apply_def claim_share_def to_share_def share_of_u64_def get_asset_id_def financing_eval
        demo_financing_defs demo_claim_def fc64_eval)
  then obtain d' where d': "claim_bitasset_investment_evaluate fc64 demo_ts 0 demo_claim ?d = Inr d'" by blast
  have "dyn_wf ?d" by (simp add: dyn_wf_def demo_financing_defs less_Suc_eq)
  from claim_pays_instalment [OF fc64_arith.fc_arith_axioms d' refl this refl _ _ refl]
  have "financing_current_supply (dyn_of d' 2) = 701"
    by (auto simp: demo_financing_defs demo_claim_def dyn_of_def claim_paid_def in_int64_def)
  moreover have "financing_current_supply (dyn_of ?d 2) = 1001" by (simp add: demo_financing_defs dyn_of_def)
  ultimately show ?thesis using d' by blast
qed




end
