(* ===== verification/Conservation.thy ===== *)
theory Conservation
  imports Vesting Financing_Escrow
begin

text \<open>
  Conservation of supply.  For every asset the recorded \<open>current_supply\<close> is compared with what is
  held of it anywhere in the modelled state: account balances, vesting balances, the fees accumulated
  for the issuer, project tokens awaiting their investors, amounts in limit orders with their deferred
  fees, collateral, settlement requests, settlement funds and bids; for the core asset also the fee
  pools of all assets, the pending fees of all accounts and the budget of the witnesses; for KHD also
  the funds held for the projects.  It is the balance sheet that \<open>verify_asset_supplies\<close> of
  \<open>tests/common/database_fixture.cpp\<close> computes, with the escrow of the projects added.
  The difference, \<open>unaccounted\<close>, is computed for each primitive update and shown to be kept by the
  operations.
\<close>

definition vested_total :: "database \<Rightarrow> asset_id_type \<Rightarrow> int" where
  "vested_total d y = (\<Sum>v\<leftarrow>vestings d. if asset_id (vb_balance v) = y then amount (vb_balance v) else 0)"

definition core_held :: "database \<Rightarrow> int" where
  "core_held d = (\<Sum>x\<leftarrow>asset_dyn d. fee_pool x) + (\<Sum>s\<leftarrow>account_stats d. pending_fees s + pending_vested_fees s)"

definition escrowed :: "database \<Rightarrow> int" where
  "escrowed d = (\<Sum>x\<leftarrow>asset_dyn d. financing_current_supply x)"

definition in_asset :: "asset_id_type \<Rightarrow> asset \<Rightarrow> int" where
  "in_asset y x = (if asset_id x = y then amount x else 0)"

definition order_held :: "asset_id_type \<Rightarrow> limit_order_object \<Rightarrow> int" where
  "order_held y o' = in_asset y (mk_asset (lo_for_sale o') (asset_id (base (lo_sell_price o'))))
     + (if y = 0 then lo_deferred_fee o' else 0) + in_asset y (lo_deferred_paid_fee o')"

definition call_held :: "asset_id_type \<Rightarrow> call_order_object \<Rightarrow> int" where
  "call_held y c = in_asset y (mk_asset (co_collateral c) (asset_id (base (co_call_price c))))"

definition fund_held :: "asset_id_type \<Rightarrow> asset_bitasset_data_object \<Rightarrow> int" where
  "fund_held y b = in_asset y (mk_asset (bd_settlement_fund b) (bo_short_backing_asset (bd_options b)))"

definition market_held :: "database \<Rightarrow> asset_id_type \<Rightarrow> int" where
  "market_held d y = tbl_sum (order_held y) (limit_orders d) + tbl_sum (call_held y) (call_orders d)
     + tbl_sum (\<lambda>s. in_asset y (fs_balance s)) (settle_orders d)
     + tbl_sum (\<lambda>b. in_asset y (base (cbo_inv_swan_price b))) (collateral_bids d)
     + (\<Sum>b\<leftarrow>bitassets d. fund_held y b) + (if y = 0 then witness_budget (dgp d) else 0)"

definition held :: "asset_id_type \<Rightarrow> database \<Rightarrow> asset_id_type \<Rightarrow> int" where
  "held khd d y = total_balance d y + vested_total d y + accumulated_fees (dyn_of d y)
     + investment_current_supply (dyn_of d y) + (if y = 0 then core_held d else 0) + (if y = khd then escrowed d else 0)
     + market_held d y"

definition unaccounted :: "asset_id_type \<Rightarrow> database \<Rightarrow> asset_id_type \<Rightarrow> int" where
  "unaccounted khd d y = current_supply (dyn_of d y) - held khd d y"

lemmas unaccounted_defs = unaccounted_def held_def total_balance_def vested_total_def core_held_def escrowed_def market_held_def dyn_of_def

text \<open>What one asset's dynamic data contributes for the asset itself, for core and for KHD.\<close>

definition dyn_net :: "asset_dynamic_data_object \<Rightarrow> int" where
  "dyn_net x = current_supply x - accumulated_fees x - investment_current_supply x"

subsection \<open>Primitive updates\<close>

lemma unaccounted_dyn:
  assumes "dyn_wf d" "a < length (assets d)" "y < length (assets d)" "i = dynamic_asset_data_id (assets d ! a)"
  shows "unaccounted khd (d\<lparr>asset_dyn := (asset_dyn d)[i := x]\<rparr>) y =
    unaccounted khd d y + (if y = a then dyn_net x - dyn_net (dyn_of d a) else 0)
      - (if y = 0 then fee_pool x - fee_pool (dyn_of d a) else 0)
      - (if y = khd then financing_current_supply x - financing_current_supply (dyn_of d a) else 0)"
proof -
  have i: "i < length (asset_dyn d)" using assms by (simp add: dyn_wf_def)
  have "dyn_of (d\<lparr>asset_dyn := (asset_dyn d)[i := x]\<rparr>) y = (if y = a then x else dyn_of d y)"
    using dyn_of_update [OF assms(1,2,3), of x] assms(4) by (simp add: dyn_of_def)
  moreover have "asset_dyn d ! i = dyn_of d a" using assms(4) by (simp add: dyn_of_def)
  ultimately show ?thesis using i
    by (simp add: unaccounted_def held_def total_balance_def vested_total_def core_held_def escrowed_def market_held_def dyn_net_def
        sum_list_map_update)
qed

lemma unaccounted_stats:
  assumes "i < length (account_stats d)"
  shows "unaccounted khd (d\<lparr>account_stats := (account_stats d)[i := s]\<rparr>) y = unaccounted khd d y
    - (if y = 0 then (pending_fees s + pending_vested_fees s)
         - (pending_fees (account_stats d ! i) + pending_vested_fees (account_stats d ! i)) else 0)"
  using assms by (simp add: unaccounted_defs sum_list_map_update)

lemma unaccounted_vesting:
  assumes "i < length (vestings d)"
  shows "unaccounted khd (d\<lparr>vestings := (vestings d)[i := v]\<rparr>) y = unaccounted khd d y
    - (if asset_id (vb_balance v) = y then amount (vb_balance v) else 0)
    + (if asset_id (vb_balance (vestings d ! i)) = y then amount (vb_balance (vestings d ! i)) else 0)"
  using assms by (simp add: unaccounted_defs sum_list_map_update)

lemma unaccounted_new_vesting:
  "unaccounted khd (d\<lparr>vestings := vestings d @ [v]\<rparr>) y =
     unaccounted khd d y - (if asset_id (vb_balance v) = y then amount (vb_balance v) else 0)"
  by (simp add: unaccounted_defs)

lemma unaccounted_neutral [simp]:
  "unaccounted khd (d\<lparr>investments := v1\<rparr>) y = unaccounted khd d y"
  "length v2 = length (accounts d) \<Longrightarrow> unaccounted khd (d\<lparr>accounts := v2\<rparr>) y = unaccounted khd d y"
  "unaccounted khd (d\<lparr>witnesses := v3\<rparr>) y = unaccounted khd d y"
  "unaccounted khd (d\<lparr>locked_powers := v4\<rparr>) y = unaccounted khd d y"
  "unaccounted khd (d\<lparr>powers := v5\<rparr>) y = unaccounted khd d y"
  by (simp_all add: unaccounted_defs)

lemma unaccounted_assets:
  assumes "dynamic_asset_data_id x = dynamic_asset_data_id (assets d ! a)"
  shows "unaccounted khd (d\<lparr>assets := (assets d)[a := x]\<rparr>) y = unaccounted khd d y"
proof -
  have "dyn_of (d\<lparr>assets := (assets d)[a := x]\<rparr>) y = dyn_of d y"
    using assms by (cases "a < length (assets d)") (auto simp: dyn_of_def nth_list_update list_update_beyond)
  then show ?thesis
    by (simp add: unaccounted_def held_def total_balance_def vested_total_def core_held_def escrowed_def market_held_def)
qed

context fc_arith
begin

lemma unaccounted_adjust:
  assumes "adjust_balance F a x d = Inr d'" "a < length (accounts d)"
  shows "unaccounted khd d' y = unaccounted khd d y - (if y = asset_id x then amount x else 0)"
proof -
  have "total_balance d' y = total_balance d y + (if y = asset_id x then amount x else 0)"
    using adjust_sum [OF assms(1), of "{..<length (accounts d)}" y] assms(2) adjust_balance_only [OF assms(1)]
    by (auto simp: total_balance_def)
  then show ?thesis using adjust_balance_only [OF assms(1)]
    by (auto simp: unaccounted_def held_def vested_total_def core_held_def escrowed_def market_held_def dyn_of_def)
qed

lemma unaccounted_deduct:
  assumes "deduct_balance F a x d = Inr d'" "a < length (accounts d)"
  shows "unaccounted khd d' y = unaccounted khd d y + (if y = asset_id x then amount x else 0)"
  using assms unaccounted_adjust [of a "mk_asset (- amount x) (asset_id x)"] by (auto simp: deduct_balance_iff)


subsection \<open>The fee phase moves the fee into the books\<close>

lemma unaccounted_pay_fee:
  assumes "pay_fee F ts fs d = Inr d'" "\<not> skip_fee ts"
  shows "unaccounted khd d' y = unaccounted khd d y - (if y = 0 then core_fee_paid fs else 0)"
  using assms
  by (auto simp: pay_fee_def statistics_pay_fee_def unaccounted_stats fc_iffs split: if_splits)

lemma unaccounted_convert_fee:
  assumes "convert_fee F ts fs d = Inr d'" "\<not> skip_fee ts" "dyn_wf d" "y < length (assets d)"
    and "asset_id (fee_from_account fs) < length (assets d)"
    and "fee_asset_dyn_data fs = dynamic_asset_data_id (assets d ! asset_id (fee_from_account fs))"
  shows "unaccounted khd d' y = unaccounted khd d y
    - (if asset_id (fee_from_account fs) \<noteq> 0 then
         (if y = asset_id (fee_from_account fs) then amount (fee_from_account fs) else 0)
         - (if y = 0 then core_fee_paid fs else 0) else 0)"
proof (cases "asset_id (fee_from_account fs) = 0")
  case False
  then obtain x where d': "d' = d\<lparr>asset_dyn := (asset_dyn d)[fee_asset_dyn_data fs := x]\<rparr>"
    and x: "dyn_net x = dyn_net (asset_dyn d ! fee_asset_dyn_data fs) - amount (fee_from_account fs)"
      "fee_pool x = fee_pool (asset_dyn d ! fee_asset_dyn_data fs) - core_fee_paid fs"
      "financing_current_supply x = financing_current_supply (asset_dyn d ! fee_asset_dyn_data fs)"
    using assms(1,2) by (auto simp: convert_fee_def modify_dyn_def fc_iffs dyn_net_def)
  have "asset_dyn d ! fee_asset_dyn_data fs = dyn_of d (asset_id (fee_from_account fs))"
    by (simp add: dyn_of_def assms(6))
  then show ?thesis
    using unaccounted_dyn [OF assms(3,5,4,6), of khd x] x False by (simp add: d')
qed (use assms(1) in \<open>simp add: convert_fee_def\<close>)

lemma prepare_fee_facts:
  assumes "prepare_fee d payer fee = Inr fs"
  shows "fee_from_account fs = fee" "payer < length (accounts d)" "asset_id fee < length (assets d)"
    "fee_asset_dyn_data fs = dynamic_asset_data_id (assets d ! asset_id fee)"
    "asset_id fee = 0 \<Longrightarrow> core_fee_paid fs = amount fee"
  using assms by (auto simp: prepare_fee_def)

lemma operation_conserves:
  assumes run: "start_evaluate F ts required_fee payer fee do_evaluate do_apply d = Inr d'"
    and wf: "\<not> skip_fee ts" "dyn_wf d" "y < length (assets d)"
    and step: "\<And>c d2 d3. do_evaluate d = Inr c \<Longrightarrow> fee_frame d d2 \<Longrightarrow> do_apply c d2 = Inr d3 \<Longrightarrow>
      unaccounted khd d3 y = unaccounted khd d2 y \<and> length (accounts d3) = length (accounts d)"
  shows "unaccounted khd d' y = unaccounted khd d y"
proof -
  from run obtain fs c d1 d2 d3 where *: "prepare_fee d payer fee = Inr fs" "do_evaluate d = Inr c"
    "convert_fee F ts fs d = Inr d1" "pay_fee F ts fs d1 = Inr d2" "do_apply c d2 = Inr d3"
    "deduct_balance F payer (fee_from_account fs) d3 = Inr d'"
    by (auto simp: start_evaluate_def evaluate_op_def apply_op_def) blast+
  note fee = prepare_fee_facts [OF *(1)]
  have "fee_frame d d2" using *(3,4) convert_fee_frame pay_fee_frame fee_frame_trans by blast
  note ap = step [OF *(2) this *(5)]
  have "unaccounted khd d' y = unaccounted khd d3 y + (if y = asset_id fee then amount fee else 0)"
    using unaccounted_deduct [OF *(6)] ap fee by simp
  moreover have "unaccounted khd d2 y = unaccounted khd d1 y - (if y = 0 then core_fee_paid fs else 0)"
    by (rule unaccounted_pay_fee [OF *(4) wf(1)])
  moreover have "unaccounted khd d1 y = unaccounted khd d y
    - (if asset_id fee \<noteq> 0 then (if y = asset_id fee then amount fee else 0) - (if y = 0 then core_fee_paid fs else 0) else 0)"
    using unaccounted_convert_fee [OF *(3) wf] fee by simp
  ultimately show ?thesis using ap fee(5) by auto
qed


subsection \<open>Operations\<close>

lemma fee_frame_fields:
  assumes "fee_frame d d'"
  shows "accounts d' = accounts d" "assets d' = assets d" "investments d' = investments d" "vestings d' = vestings d"
    "head_block_time d' = head_block_time d"
  using assms unfolding fee_frame_def
  by (metis database.select_convs database.surjective database.update_convs)+

lemma move_conserves:
  assumes "deduct_balance F a x d = Inr d1" "adjust_balance F b x d1 = Inr d2"
    and "a < length (accounts d)" "b < length (accounts d)"
  shows "unaccounted khd d2 y = unaccounted khd d y" "accounts d2 = accounts d"
proof -
  obtain m1 m2 where m: "d1 = d\<lparr>balances := m1\<rparr>" "d2 = d1\<lparr>balances := m2\<rparr>"
    using deduct_balance_only [OF assms(1)] adjust_balance_only [OF assms(2)] by blast
  show "accounts d2 = accounts d" by (simp add: m)
  show "unaccounted khd d2 y = unaccounted khd d y"
    using unaccounted_deduct [OF assms(1,3), of khd y] unaccounted_adjust [OF assms(2), of khd y] assms(4)
    by (simp add: m(1))
qed

lemma transfer_conserves:
  assumes "transfer_evaluate F ts required_fee op d = Inr d'" "\<not> skip_fee ts" "dyn_wf d" "y < length (assets d)"
  shows "unaccounted khd d' y = unaccounted khd d y"
proof -
  have run: "start_evaluate F ts required_fee (tr_from op) (tr_fee op) (transfer_do_evaluate op)
      (\<lambda>_. transfer_do_apply F op) d = Inr d'" using assms(1) by (simp add: transfer_evaluate_def)
  show ?thesis
  proof (rule operation_conserves [OF run assms(2-4)])
    fix c d2 d3 assume *: "transfer_do_evaluate op d = Inr c" "fee_frame d d2" "transfer_do_apply F op d2 = Inr d3"
    have "tr_from op < length (accounts d2)" "tr_to op < length (accounts d2)"
      using *(1) fee_frame_fields(1) [OF *(2)] by (auto simp: transfer_do_evaluate_def)
    with *(3) show "unaccounted khd d3 y = unaccounted khd d2 y \<and> length (accounts d3) = length (accounts d)"
      using move_conserves fee_frame_fields(1) [OF *(2)] by (fastforce simp: transfer_do_apply_def)
  qed
qed

lemma override_transfer_conserves:
  assumes "override_transfer_evaluate F ts required_fee op d = Inr d'" "\<not> skip_fee ts" "dyn_wf d" "y < length (assets d)"
  shows "unaccounted khd d' y = unaccounted khd d y"
proof -
  have run: "start_evaluate F ts required_fee (ot_issuer op) (ot_fee op) (override_transfer_do_evaluate op)
      (\<lambda>_. override_transfer_do_apply F op) d = Inr d'" using assms(1) by (simp add: override_transfer_evaluate_def)
  show ?thesis
  proof (rule operation_conserves [OF run assms(2-4)])
    fix c d2 d3 assume *: "override_transfer_do_evaluate op d = Inr c" "fee_frame d d2" "override_transfer_do_apply F op d2 = Inr d3"
    have "ot_from op < length (accounts d2)" "ot_to op < length (accounts d2)"
      using *(1) fee_frame_fields(1) [OF *(2)] by (auto simp: override_transfer_do_evaluate_def)
    with *(3) show "unaccounted khd d3 y = unaccounted khd d2 y \<and> length (accounts d3) = length (accounts d)"
      using move_conserves fee_frame_fields(1) [OF *(2)] by (fastforce simp: override_transfer_do_apply_def)
  qed
qed

lemma vesting_create_conserves:
  assumes "vesting_balance_create_evaluate F ts required_fee op d = Inr d'" "\<not> skip_fee ts" "dyn_wf d" "y < length (assets d)"
  shows "unaccounted khd d' y = unaccounted khd d y"
proof -
  have run: "start_evaluate F ts required_fee (vc_creator op) (vc_fee op) (vesting_balance_create_do_evaluate op)
      (\<lambda>_ d. bind_res (vesting_balance_create_do_apply F op d) (\<lambda>(d', _). Inr d')) d = Inr d'"
    using assms(1) by (simp add: vesting_balance_create_evaluate_def)
  show ?thesis
  proof (rule operation_conserves [OF run assms(2-4)])
    fix c d2 d3 assume *: "vesting_balance_create_do_evaluate op d = Inr c" "fee_frame d d2"
      "bind_res (vesting_balance_create_do_apply F op d2) (\<lambda>(d', _). Inr d') = Inr d3"
    have a: "vc_creator op < length (accounts d2)"
      using *(1) fee_frame_fields(1) [OF *(2)] by (auto simp: vesting_balance_create_do_evaluate_def)
    from *(3) obtain d1 v where d1: "deduct_balance F (vc_creator op) (vc_amount op) d2 = Inr d1"
        "d3 = d1\<lparr>vestings := vestings d1 @ [v]\<rparr>" "vb_balance v = vc_amount op"
      by (auto simp: vesting_balance_create_do_apply_def)
    have "accounts d1 = accounts d2" using deduct_balance_only [OF d1(1)] by auto
    then show "unaccounted khd d3 y = unaccounted khd d2 y \<and> length (accounts d3) = length (accounts d)"
      using unaccounted_deduct [OF d1(1) a, of khd y] d1(2,3) fee_frame_fields(1) [OF *(2)]
      by (simp add: unaccounted_new_vesting)
  qed
qed

lemma vb_withdraw_balance:
  assumes "vb_withdraw F t a v = Inr v'"
  shows "vb_balance v' = mk_asset (amount (vb_balance v) - amount a) (asset_id (vb_balance v))"
    "asset_id (vb_balance v) = asset_id a"
  using assms by (auto simp: vb_withdraw_def Let_def asset_minus_iff)

lemma vesting_withdraw_conserves:
  assumes "vesting_balance_withdraw_evaluate F ts required_fee op d = Inr d'" "\<not> skip_fee ts" "dyn_wf d" "y < length (assets d)"
  shows "unaccounted khd d' y = unaccounted khd d y"
proof -
  have run: "start_evaluate F ts required_fee (vw_owner op) (vw_fee op) (vesting_balance_withdraw_do_evaluate F op)
      (\<lambda>_. vesting_balance_withdraw_do_apply F op) d = Inr d'"
    using assms(1) by (simp add: vesting_balance_withdraw_evaluate_def)
  show ?thesis
  proof (rule operation_conserves [OF run assms(2-4)])
    fix c d2 d3 assume *: "vesting_balance_withdraw_do_evaluate F op d = Inr c" "fee_frame d d2"
      "vesting_balance_withdraw_do_apply F op d2 = Inr d3"
    let ?i = "vw_vesting_balance op"
    have a: "vw_owner op < length (accounts d2)"
      using *(1) fee_frame_fields(1) [OF *(2)] by (auto simp: vesting_balance_withdraw_do_evaluate_def)
    from *(3) obtain v where v: "vb_withdraw F (head_block_time d2) (vw_amount op) (vestings d2 ! ?i) = Inr v"
        "?i < length (vestings d2)"
        "adjust_balance F (vw_owner op) (vw_amount op) (d2\<lparr>vestings := (vestings d2)[?i := v]\<rparr>) = Inr d3"
      by (auto simp: vesting_balance_withdraw_do_apply_def)
    have "accounts d3 = accounts d2" using adjust_balance_only [OF v(3)] by auto
    then show "unaccounted khd d3 y = unaccounted khd d2 y \<and> length (accounts d3) = length (accounts d)"
      using unaccounted_adjust [OF v(3), of khd y] a unaccounted_vesting [OF v(2), of khd v y] vb_withdraw_balance [OF v(1)]
        fee_frame_fields(1) [OF *(2)] by simp
  qed
qed

end

definition khd_wf :: "database \<Rightarrow> asset_id_type \<Rightarrow> bool" where
  "khd_wf d khd \<longleftrightarrow> (\<forall>i < length (assets d). symbol (assets d ! i) = KHD_ASSET_SYMBOL \<longrightarrow> i = khd)
     \<and> (\<forall>v \<in> set (investments d). asset_id (investment_khd_amount v) = khd)"

lemma index_of_Some: "index_of P xs n = Some i \<Longrightarrow> n \<le> i \<and> i - n < length xs \<and> P (xs ! (i - n))"
  by (induction P xs n rule: index_of.induct) (auto split: if_splits simp: nth_Cons' Suc_diff_le)

lemma get_asset_id_khd: "get_asset_id d KHD_ASSET_SYMBOL = Inr i \<Longrightarrow> khd_wf d khd \<Longrightarrow> i = khd"
  by (auto simp: get_asset_id_def khd_wf_def split: option.splits dest!: index_of_Some)

lemma fee_frame_wf: "fee_frame d d' \<Longrightarrow> dyn_wf d \<Longrightarrow> dyn_wf d'"
  by (rule financing_frame_wf [OF fee_frame_financing])

context fc_arith
begin

lemma invest_conserves:
  assumes "asset_investment_evaluate F ts required_fee now op d = Inr d'" "\<not> skip_fee ts" "dyn_wf d" "y < length (assets d)"
    and "khd_wf d khd"
  shows "unaccounted khd d' y = unaccounted khd d y"
proof (rule operation_conserves [OF assms(1) [unfolded asset_investment_evaluate_def] assms(2-4)])
  fix c d2 d3 assume *: "asset_investment_do_evaluate op d = Inr c" "fee_frame d d2" "asset_investment_do_apply F now op d2 = Inr d3"
  note same = fee_frame_fields [OF *(2)]
  let ?a = "iv_investment_asset_id op"
  have khd: "asset_id (iv_amount op) = khd" and acct: "iv_account_id op < length (accounts d2)" "?a < length (assets d2)"
    using *(1) assms(5) same by (auto simp: asset_investment_do_evaluate_def khd_wf_def)
  let ?A = "assets d2 ! ?a" and ?D = "dyn_of d2 ?a"
  let ?max = "po_max_financing_amount (proj_options ?A)"
  let ?adv = "?max \<le> financing_current_supply ?D + amount (iv_amount op)"
  define actual where "actual = (if ?adv then ?max - financing_current_supply ?D else amount (iv_amount op))"
  define A' where "A' = (if ?adv then advance_end_financing (head_block_number d2) now ?A else ?A)"
  from *(3) obtain x v where d4: "deduct_balance F (iv_account_id op) (mk_asset actual khd) (d2\<lparr>assets := (assets d2)[?a := A'],
        investments := v, asset_dyn := (asset_dyn d2)[dynamic_asset_data_id ?A := x]\<rparr>) = Inr d3"
    and x: "dyn_net x = dyn_net ?D" "fee_pool x = fee_pool ?D"
      "financing_current_supply x = financing_current_supply ?D + actual"
    by (auto simp: asset_investment_do_apply_def Let_def modify_dyn_def fc_iffs dyn_of_def dyn_net_def khd actual_def A'_def
        split: if_splits)
  let ?d3 = "d2\<lparr>asset_dyn := (asset_dyn d2)[dynamic_asset_data_id ?A := x]\<rparr>"
  have "unaccounted khd (?d3\<lparr>assets := (assets ?d3)[?a := A']\<rparr>) y = unaccounted khd ?d3 y"
    by (rule unaccounted_assets) (simp add: A'_def advance_end_financing_def)
  then have "unaccounted khd ((?d3\<lparr>assets := (assets ?d3)[?a := A']\<rparr>)\<lparr>investments := v\<rparr>) y = unaccounted khd ?d3 y"
    by (simp only: unaccounted_neutral(1))
  then have "unaccounted khd (d2\<lparr>assets := (assets d2)[?a := A'], investments := v,
      asset_dyn := (asset_dyn d2)[dynamic_asset_data_id ?A := x]\<rparr>) y = unaccounted khd ?d3 y"
    by (cases d2) simp
  moreover have "unaccounted khd ?d3 y = unaccounted khd d2 y - (if y = khd then actual else 0)"
    using unaccounted_dyn [OF fee_frame_wf [OF *(2) assms(3)] acct(2), of y _ khd x] assms(4) same x by simp
  ultimately show "unaccounted khd d3 y = unaccounted khd d2 y \<and> length (accounts d3) = length (accounts d)"
    using unaccounted_deduct [OF d4, of khd y] acct(1) deduct_balance_only [OF d4] same by auto
qed

lemma issue_conserves:
  assumes "issue_asset_to_investors_evaluate F ts required_fee op d = Inr d'" "\<not> skip_fee ts" "dyn_wf d" "y < length (assets d)"
    and "investment_current_supply (dyn_of d (is_investment_asset_id op)) = 0"
  shows "unaccounted khd d' y = unaccounted khd d y"
proof (rule operation_conserves [OF assms(1) [unfolded issue_asset_to_investors_evaluate_def] assms(2-4)])
  fix p d2 d3 assume *: "issue_asset_to_investors_do_evaluate F op d = Inr p" "fee_frame d d2"
    "issue_asset_to_investors_do_apply F op p d2 = Inr d3"
  note same = fee_frame_fields [OF *(2)]
  let ?a = "is_investment_asset_id op"
  have a: "?a < length (assets d)" using issue_plan_facts(6) [OF *(1) refl] .
  have old: "investment_current_supply (dyn_of d2 ?a) = 0"
    using strip_fees_eqD(6) [OF financing_frame_dyn(1) [OF fee_frame_financing [OF *(2)] assms(3) a]] assms(5) by simp
  from *(3) obtain x v where d3: "d3 = d2\<lparr>investments := v, asset_dyn := (asset_dyn d2)[dynamic_asset_data_id (assets d2 ! ?a) := x]\<rparr>"
    and x: "dyn_net x = dyn_net (dyn_of d2 ?a)" "fee_pool x = fee_pool (dyn_of d2 ?a)"
      "financing_current_supply x = financing_current_supply (dyn_of d2 ?a)"
    using old by (auto simp: issue_asset_to_investors_do_apply_def Let_def modify_dyn_def fc_iffs dyn_of_def dyn_net_def)
  have "unaccounted khd d3 y = unaccounted khd (d2\<lparr>asset_dyn := (asset_dyn d2)[dynamic_asset_data_id (assets d2 ! ?a) := x]\<rparr>) y"
    by (simp add: d3 unaccounted_defs)
  then show "unaccounted khd d3 y = unaccounted khd d2 y \<and> length (accounts d3) = length (accounts d)"
    using unaccounted_dyn [OF fee_frame_wf [OF *(2) assms(3)], of ?a y _ khd x] a assms(4) same x by (simp add: d3)
qed

lemma claim_khd_conserves:
  assumes "claim_bitasset_investment_evaluate F ts required_fee op d = Inr d'" "\<not> skip_fee ts" "dyn_wf d" "y < length (assets d)"
    and "khd_wf d khd"
  shows "unaccounted khd d' y = unaccounted khd d y"
proof (rule operation_conserves [OF assms(1) [unfolded claim_bitasset_investment_evaluate_def] assms(2-4)])
  fix p d2 d3 assume *: "claim_bitasset_investment_do_evaluate F op d = Inr p" "fee_frame d d2"
    "claim_bitasset_investment_do_apply F op p d2 = Inr d3"
  note same = fee_frame_fields [OF *(2)]
  let ?a = "cb_asset_id op"
  have a: "?a < length (assets d)" and khd: "asset_id (cp_khd_amount p) = khd"
    using *(1) get_asset_id_khd [OF _ assms(5)] by (auto simp: claim_bitasset_investment_do_evaluate_def)
  have acct: "cb_account_id op < length (accounts d2)"
    using assms(1) same prepare_fee_facts(2)
    by (auto simp: claim_bitasset_investment_evaluate_def start_evaluate_def evaluate_op_def)
  from *(3) obtain d4 where d4: "adjust_balance F (cb_account_id op) (cp_khd_amount p) d2 = Inr d4"
    and md: "modify_dyn (dynamic_asset_data_id (assets d2 ! ?a)) (\<lambda>s.
       bind_res (safe_sub F (financing_current_supply s) (amount (cp_khd_amount p))) (\<lambda>v.
       Inr (s\<lparr>financing_current_supply := v, claim_times := cp_claim_times p\<rparr>))) d4 = Inr d3"
    by (auto simp: claim_bitasset_investment_do_apply_def)
  obtain m where m: "d4 = d2\<lparr>balances := m\<rparr>" using adjust_balance_only [OF d4] by blast
  have wf4: "dyn_wf d4" using fee_frame_wf [OF *(2) assms(3)] by (simp add: m dyn_wf_def)
  from md obtain x where d3: "d3 = d4\<lparr>asset_dyn := (asset_dyn d4)[dynamic_asset_data_id (assets d4 ! ?a) := x]\<rparr>"
    and x: "dyn_net x = dyn_net (dyn_of d4 ?a)" "fee_pool x = fee_pool (dyn_of d4 ?a)"
      "financing_current_supply x = financing_current_supply (dyn_of d4 ?a) - amount (cp_khd_amount p)"
    by (auto simp: modify_dyn_def fc_iffs dyn_of_def dyn_net_def m)
  show "unaccounted khd d3 y = unaccounted khd d2 y \<and> length (accounts d3) = length (accounts d)"
    using unaccounted_dyn [OF wf4, of ?a y _ khd x] unaccounted_adjust [OF d4 acct, of khd y] a assms(4) same x khd m
    by (simp add: d3)
qed

lemma claim_tokens_conserves:
  assumes "claim_asset_investment_evaluate F ts required_fee op d = Inr d'" "\<not> skip_fee ts" "dyn_wf d" "y < length (assets d)"
  shows "unaccounted khd d' y = unaccounted khd d y"
proof (rule operation_conserves [OF assms(1) [unfolded claim_asset_investment_evaluate_def] assms(2-4)])
  fix p d2 d3 assume *: "claim_asset_investment_do_evaluate F op d = Inr p" "fee_frame d d2"
    "claim_asset_investment_do_apply F op p d2 = Inr d3"
  note same = fee_frame_fields [OF *(2)]
  let ?a = "ca_asset_id op"
  have a: "?a < length (assets d)" using *(1) by (auto simp: claim_asset_investment_do_evaluate_def)
  have acct: "ca_account_id op < length (accounts d2)"
    using assms(1) same prepare_fee_facts(2)
    by (auto simp: claim_asset_investment_evaluate_def start_evaluate_def evaluate_op_def)
  from *(3) obtain d4 d5 where d4: "adjust_balance F (ca_account_id op) (mk_asset (tp_tokens p) ?a) d2 = Inr d4"
    and md: "modify_dyn (dynamic_asset_data_id (assets d2 ! ?a)) (\<lambda>x.
       bind_res (safe_sub F (investment_current_supply x) (tp_tokens p)) (\<lambda>v.
       Inr (x\<lparr>investment_current_supply := v\<rparr>))) d4 = Inr d5"
    and d3: "d3 = d5\<lparr>investments := fold mark_received (tp_investment_objects p) (investments d5)\<rparr>"
    by (auto simp: claim_asset_investment_do_apply_def)
  obtain m where m: "d4 = d2\<lparr>balances := m\<rparr>" using adjust_balance_only [OF d4] by blast
  have wf4: "dyn_wf d4" using fee_frame_wf [OF *(2) assms(3)] by (simp add: m dyn_wf_def)
  from md obtain x where d5: "d5 = d4\<lparr>asset_dyn := (asset_dyn d4)[dynamic_asset_data_id (assets d4 ! ?a) := x]\<rparr>"
    and x: "dyn_net x = dyn_net (dyn_of d4 ?a) + tp_tokens p" "fee_pool x = fee_pool (dyn_of d4 ?a)"
      "financing_current_supply x = financing_current_supply (dyn_of d4 ?a)"
    by (auto simp: modify_dyn_def fc_iffs dyn_of_def dyn_net_def m)
  have "unaccounted khd d3 y = unaccounted khd d5 y" unfolding d3 by (rule unaccounted_neutral(1))
  then show "unaccounted khd d3 y = unaccounted khd d2 y \<and> length (accounts d3) = length (accounts d)"
    using unaccounted_dyn [OF wf4, of ?a y _ khd x] unaccounted_adjust [OF d4 acct, of khd y] a assms(4) same x m
    by (simp add: d3 d5)
qed

lemma refund_one_conserves:
  assumes ap: "refund_one F (dynamic_asset_data_id (assets d ! a)) acct i d = Inr d'"
    and "dyn_wf d" "y < length (assets d)" "a < length (assets d)" "acct < length (accounts d)"
    and "i < length (investments d)" "khd_wf d khd"
  shows "unaccounted khd d' y = unaccounted khd d y" "dyn_wf d'" "accounts d' = accounts d" "assets d' = assets d"
    "length (investments d') = length (investments d)" "khd_wf d' khd"
proof -
  let ?x = "investment_khd_amount (investments d ! i)"
  have khd: "asset_id ?x = khd" using assms(6,7) by (simp add: khd_wf_def)
  define x where "x = (dyn_of d a)\<lparr>financing_current_supply := financing_current_supply (dyn_of d a) - amount ?x\<rparr>"
  have x: "dyn_net x = dyn_net (dyn_of d a)" "fee_pool x = fee_pool (dyn_of d a)"
      "financing_current_supply x = financing_current_supply (dyn_of d a) - amount ?x"
    by (simp_all add: x_def dyn_net_def)
  from ap obtain d1 d2 where d1: "d1 = d\<lparr>asset_dyn := (asset_dyn d)[dynamic_asset_data_id (assets d ! a) := x]\<rparr>"
    and d2: "adjust_balance F acct ?x d1 = Inr d2"
    and d': "d' = d2\<lparr>investments := (investments d2)[i := (investments d2 ! i)\<lparr>return_financing_flag := True\<rparr>]\<rparr>"
    by (auto simp: refund_one_def modify_dyn_def fc_iffs dyn_of_def x_def)
  obtain m where m: "d2 = d1\<lparr>balances := m\<rparr>" using adjust_balance_only [OF d2] by blast
  have "unaccounted khd d' y = unaccounted khd d2 y" unfolding d' by (rule unaccounted_neutral(1))
  then show "unaccounted khd d' y = unaccounted khd d y"
    using unaccounted_adjust [OF d2, of khd y] unaccounted_dyn [OF assms(2,4,3) refl, of khd x] assms(5) x khd
    by (simp add: d1)
  show "dyn_wf d'" "accounts d' = accounts d" "assets d' = assets d" "length (investments d') = length (investments d)"
    using assms(2) by (simp_all add: d' m d1 dyn_wf_def)
  show "khd_wf d' khd" using assms(6,7)
    by (auto simp: khd_wf_def d' m d1 dest!: set_update_subset_insert [THEN subsetD])
qed

lemma refund_conserves:
  assumes "refund_investment_evaluate F ts required_fee op d = Inr d'" "\<not> skip_fee ts" "dyn_wf d" "y < length (assets d)"
    and "khd_wf d khd"
  shows "unaccounted khd d' y = unaccounted khd d y"
proof (rule operation_conserves [OF assms(1) [unfolded refund_investment_evaluate_def] assms(2-4)])
  fix objs d2 d3 assume *: "refund_investment_do_evaluate F op d = Inr objs" "fee_frame d d2"
    "refund_investment_do_apply F op objs d2 = Inr d3"
  note same = fee_frame_fields [OF *(2)]
  let ?a = "rf_investment_asset_id op" and ?acct = "rf_account_id op"
  have acct: "?acct < length (accounts d)"
    using assms(1) prepare_fee_facts(2)
    by (auto simp: refund_investment_evaluate_def start_evaluate_def evaluate_op_def)
  have objs: "\<forall>i \<in> set objs. i < length (investments d)"
    by (auto simp: refund_plan_facts(1) [OF *(1)] investments_by_account_def)
  have a: "?a < length (assets d)" by (rule refund_plan_facts(3) [OF *(1)])
  let ?P = "\<lambda>e. unaccounted khd e y = unaccounted khd d2 y \<and> dyn_wf e \<and> accounts e = accounts d \<and> assets e = assets d
    \<and> length (investments e) = length (investments d) \<and> khd_wf e khd"
  have fold: "fold_res (refund_one F (dynamic_asset_data_id (assets d ! ?a)) ?acct) objs d2 = Inr d3"
    using *(3) by (simp add: refund_investment_do_apply_def same)
  have "?P d3"
  proof (rule fold_res_invariant [where P = ?P, OF fold])
    show "?P d2" using same fee_frame_wf [OF *(2) assms(3)] assms(5) by (simp add: khd_wf_def)
  next
    fix i s s' assume i: "i \<in> set objs" and P: "?P s"
      and st: "refund_one F (dynamic_asset_data_id (assets d ! ?a)) ?acct i s = Inr s'"
    have "refund_one F (dynamic_asset_data_id (assets s ! ?a)) ?acct i s = Inr s'" using st P by simp
    from refund_one_conserves [OF this, of y khd] show "?P s'" using P i objs a acct assms(4) by auto
  qed
  then show "unaccounted khd d3 y = unaccounted khd d2 y \<and> length (accounts d3) = length (accounts d)" by simp
qed

lemma vb_deposit_balance:
  assumes "vb_deposit F now a v = Inr v' \<or> vb_deposit_vested F now a v = Inr v'"
  shows "vb_balance v' = mk_asset (amount (vb_balance v) + amount a) (asset_id (vb_balance v))"
    "asset_id (vb_balance v) = asset_id a"
  using assms by (auto simp: vb_deposit_def vb_deposit_vested_def Let_def asset_plus_iff)

lemma lazy_vesting_conserves:
  assumes "deposit_lazy_vesting F ovb amt vs owner rv d = Inr r"
  shows "unaccounted khd (fst r) y = unaccounted khd d y - (if y = 0 then amt else 0)"
    and "fst r = d\<lparr>vestings := vestings (fst r)\<rparr>"
proof -
  consider "amt = 0" "r = (d, None)"
    | v where "r = (d\<lparr>vestings := vestings d @ [v]\<rparr>, Some (length (vestings d)))" "vb_balance v = mk_asset amt 0"
    | i v where "r = (d\<lparr>vestings := (vestings d)[i := v]\<rparr>, None)" "i < length (vestings d)"
        "vb_deposit F (head_block_time d) (mk_asset amt 0) (vestings d ! i) = Inr v
         \<or> vb_deposit_vested F (head_block_time d) (mk_asset amt 0) (vestings d ! i) = Inr v"
    using assms by (auto simp: deposit_lazy_vesting_def split: if_splits option.splits)
  then show "unaccounted khd (fst r) y = unaccounted khd d y - (if y = 0 then amt else 0)"
  proof cases
    case (3 i v)
    then show ?thesis
      using vb_deposit_balance [OF 3(3)] by (simp add: unaccounted_vesting)
  qed (simp_all add: unaccounted_new_vesting)
  show "fst r = d\<lparr>vestings := vestings (fst r)\<rparr>"
    using assms by (auto simp: deposit_lazy_vesting_def split: if_splits option.splits)
qed

end

definition core_wf :: "database \<Rightarrow> bool" where
  "core_wf d \<longleftrightarrow> dyn_wf d \<and> 0 < length (assets d) \<and> dynamic_asset_data_id (assets d ! 0) = 0"

definition payout_frame :: "database \<Rightarrow> database \<Rightarrow> bool" where
  "payout_frame d d' \<longleftrightarrow> assets d' = assets d \<and> length (accounts d') = length (accounts d)
     \<and> length (asset_dyn d') = length (asset_dyn d) \<and> account_stats d' = account_stats d"

lemma payout_frame_wf: "payout_frame d d' \<Longrightarrow> core_wf d \<Longrightarrow> core_wf d'"
  by (simp add: payout_frame_def core_wf_def dyn_wf_def)

lemma payout_frame_trans: "payout_frame a b \<Longrightarrow> payout_frame b c \<Longrightarrow> payout_frame a c"
  by (simp add: payout_frame_def)

context fc_arith
begin

lemma cashback_conserves:
  assumes "deposit_cashback F acct amt rv d = Inr d'" "core_wf d" "y < length (assets d)"
  shows "unaccounted khd d' y = unaccounted khd d y - (if y = 0 then amt else 0)" "payout_frame d d'"
proof -
  have core: "dyn_wf d" "0 < length (assets d)" "dynamic_asset_data_id (assets d ! 0) = 0" "0 < length (asset_dyn d)"
    using assms(2) by (auto simp: core_wf_def dyn_wf_def)
  consider "amt = 0" "d' = d"
    | x where "d' = d\<lparr>asset_dyn := (asset_dyn d)[0 := x]\<rparr>" "x = (dyn_of d 0)\<lparr>current_supply := current_supply (dyn_of d 0) - amt\<rparr>"
    | a :: account_object and r and ac :: account_object where "deposit_lazy_vesting F (cashback_vb a) amt (cashback_vesting_period_seconds (parameters d)) acct rv d = Inr r"
        "d' = (fst r)\<lparr>accounts := (accounts (fst r))[acct := ac]\<rparr> \<or> d' = fst r"
    using assms(1) core
    by (auto simp: deposit_cashback_def modify_dyn_def fc_iffs dyn_of_def split: if_splits option.splits prod.splits) blast
  then have "unaccounted khd d' y = unaccounted khd d y - (if y = 0 then amt else 0) \<and> payout_frame d d'"
  proof cases
    case (2 x)
    then show ?thesis
      using unaccounted_dyn [OF core(1,2) assms(3), of 0 khd x] core by (auto simp: payout_frame_def dyn_net_def)
  next
    case (3 a r)
    obtain w where "fst r = d\<lparr>vestings := w\<rparr>" using lazy_vesting_conserves(2) [OF 3(1)] by blast
    then show ?thesis using 3(2) lazy_vesting_conserves(1) [OF 3(1), of khd y] by (auto simp: payout_frame_def)
  qed (simp add: payout_frame_def)
  then show "unaccounted khd d' y = unaccounted khd d y - (if y = 0 then amt else 0)" "payout_frame d d'" by simp_all
qed

lemma pay_out_conserves:
  assumes "pay_out_fees F acct fees rv d = Inr d'" "core_wf d" "y < length (assets d)"
  shows "unaccounted khd d' y = unaccounted khd d y - (if y = 0 then fees else 0)" "payout_frame d d'"
proof -
  from assms(1) obtain d1 and a :: account_object and network lifetime d2 rr d3 d4 where
    d1: "refresh_referrer acct d = Inr d1"
    and d2: "modify_dyn 0 (\<lambda>x. bind_res (safe_add F (accumulated_fees x) network) (\<lambda>s. Inr (x\<lparr>accumulated_fees := s\<rparr>))) d1 = Inr d2"
    and d3: "deposit_cashback F (lifetime_referrer a) lifetime rv d2 = Inr d3"
    and d4: "deposit_cashback F (referrer a) rr rv d3 = Inr d4"
    and d': "deposit_cashback F (registrar a) (fees - network - lifetime - rr) rv d4 = Inr d'"
    by (auto simp: pay_out_fees_def fc_iffs)
  have 1: "unaccounted khd d1 y = unaccounted khd d y" "payout_frame d d1"
    using d1 by (auto simp: refresh_referrer_def payout_frame_def split: if_splits)
  have wf1: "core_wf d1" and y1: "y < length (assets d1)"
    using payout_frame_wf [OF 1(2) assms(2)] assms(3) 1(2) by (simp_all add: payout_frame_def)
  then have core: "dyn_wf d1" "0 < length (assets d1)" "dynamic_asset_data_id (assets d1 ! 0) = 0"
    by (simp_all add: core_wf_def)
  define x where "x = (dyn_of d1 0)\<lparr>accumulated_fees := accumulated_fees (dyn_of d1 0) + network\<rparr>"
  have e2: "d2 = d1\<lparr>asset_dyn := (asset_dyn d1)[0 := x]\<rparr>"
    using d2 core(3) by (auto simp: modify_dyn_def fc_iffs dyn_of_def x_def)
  have 2: "unaccounted khd d2 y = unaccounted khd d1 y - (if y = 0 then network else 0)" "payout_frame d1 d2"
    using unaccounted_dyn [OF core(1,2) y1, of 0 khd x] core(3) by (auto simp: e2 payout_frame_def dyn_net_def x_def)
  have wf2: "core_wf d2" "y < length (assets d2)"
    using payout_frame_wf [OF 2(2) wf1] y1 2(2) by (simp_all add: payout_frame_def)
  note 3 = cashback_conserves [OF d3 wf2]
  have wf3: "core_wf d3" "y < length (assets d3)"
    using payout_frame_wf [OF 3(2) wf2(1)] wf2(2) 3(2) by (simp_all add: payout_frame_def)
  note 4 = cashback_conserves [OF d4 wf3]
  have wf4: "core_wf d4" "y < length (assets d4)"
    using payout_frame_wf [OF 4(2) wf3(1)] wf3(2) 4(2) by (simp_all add: payout_frame_def)
  note 5 = cashback_conserves [OF d' wf4]
  show "unaccounted khd d' y = unaccounted khd d y - (if y = 0 then fees else 0)"
    using 1(1) 2(1) 3(1) [of khd] 4(1) [of khd] 5(1) [of khd] by simp
  show "payout_frame d d'"
    using 1(2) 2(2) 3(2) 4(2) 5(2) payout_frame_trans by blast
qed

lemma process_fees_conserves:
  assumes "process_fees F st acct d = Inr d'" "core_wf d" "y < length (assets d)"
  shows "unaccounted khd d' y = unaccounted khd d y"
proof (cases "d' = d")
  case False
  let ?s = "account_stats d ! st"
  from False assms(1) obtain d1 d2 s where d1: "pay_out_fees F acct (pending_fees ?s) True d = Inr d1"
    and d2: "pay_out_fees F acct (pending_vested_fees ?s) False d1 = Inr d2"
    and d': "d' = d2\<lparr>account_stats := (account_stats d2)[st := s]\<rparr>" "pending_fees s = 0" "pending_vested_fees s = 0"
      "st < length (account_stats d2)"
    by (auto simp: process_fees_def split: if_splits)
  note 1 = pay_out_conserves [OF d1 assms(2,3)]
  have wf1: "core_wf d1" "y < length (assets d1)"
    using payout_frame_wf [OF 1(2) assms(2)] assms(3) 1(2) by (simp_all add: payout_frame_def)
  note 2 = pay_out_conserves [OF d2 wf1]
  have "account_stats d2 ! st = ?s" using 1(2) 2(2) by (simp add: payout_frame_def)
  then show ?thesis
    using 1(1) [of khd] 2(1) [of khd] unaccounted_stats [OF d'(4), of khd s y] d' by simp
qed simp

end


lemma project_state_conserves:
  assumes "update_one_project_state a d = Inr d'" "dyn_wf d" "y < length (assets d)"
  shows "unaccounted khd d' y = unaccounted khd d y \<and> dyn_wf d' \<and> assets d' = assets d"
proof (cases "d' = d")
  case False
  let ?i = "dynamic_asset_data_id (assets d ! a)"
  from False assms(1) obtain st where a: "a < length (assets d)"
    and st: "modify_dyn ?i (\<lambda>x. Inr (x\<lparr>state := st\<rparr>))
      (if st = financing_failue then update_asset_power_status a (assets d ! a) False d else d) = Inr d'"
    by (cases "is_project_asset (assets d ! a)") (auto simp: update_one_project_state_def split: option.splits)
  define e where "e = (if st = financing_failue then update_asset_power_status a (assets d ! a) False d else d)"
  have d': "d' = e\<lparr>asset_dyn := (asset_dyn e)[?i := (asset_dyn e ! ?i)\<lparr>state := st\<rparr>]\<rparr>"
    using st unfolding e_def [symmetric] by (auto simp: modify_dyn_def)
  have same: "assets e = assets d" "asset_dyn e = asset_dyn d" "unaccounted khd e y = unaccounted khd d y"
    by (simp_all add: e_def update_asset_power_status_def Let_def)
  have wf: "dyn_wf e" using assms(2) same by (simp add: dyn_wf_def)
  have "unaccounted khd d' y = unaccounted khd e y"
    using unaccounted_dyn [OF wf, of a y ?i khd "(asset_dyn e ! ?i)\<lparr>state := st\<rparr>"] a assms(3) same
    by (simp add: d' dyn_net_def dyn_of_def)
  then show ?thesis using same assms(2) by (simp add: d' dyn_wf_def)
qed (use assms in simp)

lemma project_states_conserve:
  assumes "update_asset_project_states d = Inr d'" "dyn_wf d" "y < length (assets d)"
  shows "unaccounted khd d' y = unaccounted khd d y"
proof -
  have "unaccounted khd d' y = unaccounted khd d y \<and> dyn_wf d' \<and> assets d' = assets d"
    using assms(1) unfolding update_asset_project_states_def
    by (rule fold_res_invariant [where P = "\<lambda>e. unaccounted khd e y = unaccounted khd d y \<and> dyn_wf e \<and> assets e = assets d"])
      (use assms(2,3) project_state_conserves in auto)
  then show ?thesis by simp
qed

end
