(* ===== verification/Fee_Schedule.thy ===== *)
theory Fee_Schedule
  imports Evaluator
begin

text \<open>
  The fee schedule and the validation of the chain parameters:
  \<open>libraries/chain/protocol/fee_schedule.cpp\<close>.  The fee of an operation is its base value (given by
  the parameters of the operation) times the scale, converted at an exchange rate; a loop then raises
  the converted amount until converting it back gives at least the scaled fee.
\<close>

definition scaled_fee :: "fc_lib \<Rightarrow> fee_schedule \<Rightarrow> nat \<Rightarrow> int result" where
  "scaled_fee F sch base_value =
     (let scaled = (of_nat base_value * of_nat (fsch_scale sch) :: u128) div of_nat GRAPHENE_100_PERCENT in
      require (scaled \<le> to_u128 GRAPHENE_MAX_SHARE_SUPPLY) ''scaled <= GRAPHENE_MAX_SHARE_SUPPLY''
        (to_share F scaled))"

definition raise_fee :: "fc_lib \<Rightarrow> price \<Rightarrow> int \<Rightarrow> asset \<Rightarrow> (asset + asset) result" where
  "raise_fee F cer scaled r =
     bind_res (mul_price r cer) (\<lambda>worth.
     bind_res (asset_less worth (mk_asset scaled 0)) (\<lambda>low.
     if low then bind_res (safe_add F (amount r) 1) (\<lambda>x. Inr (Inl (mk_asset x (asset_id r)))) else Inr (Inr r)))"

definition calculate_fee :: "fc_lib \<Rightarrow> fee_schedule \<Rightarrow> nat \<Rightarrow> price \<Rightarrow> asset result" where
  "calculate_fee F sch base_value cer =
     bind_res (scaled_fee F sch base_value) (\<lambda>scaled.
     bind_res (mul_price (mk_asset scaled 0) cer) (\<lambda>r0.
     bind_res (run_loop (raise_fee F cer scaled) r0) (\<lambda>r.
     require (amount r \<le> GRAPHENE_MAX_SHARE_SUPPLY) ''result.amount <= GRAPHENE_MAX_SHARE_SUPPLY'' (Inr r))))"

definition unit_price :: price where
  "unit_price = mk_price (mk_asset 1 0) (mk_asset 1 0)"

text \<open>The fee of cancelling a limit order, which the chain charges on its own; an operation without a
  parameter in the schedule has the default of its parameters, zero.\<close>

definition limit_order_cancel_fee :: "fc_lib \<Rightarrow> database \<Rightarrow> asset result" where
  "limit_order_cancel_fee F d =
     (let sch = current_fees (parameters d) in
      calculate_fee F sch (case fsch_limit_order_cancel sch of None \<Rightarrow> 0 | Some f \<Rightarrow> f) unit_price)"

definition GRAPHENE_MIN_BLOCK_INTERVAL :: nat where "GRAPHENE_MIN_BLOCK_INTERVAL = 1"
definition GRAPHENE_MAX_BLOCK_INTERVAL :: nat where "GRAPHENE_MAX_BLOCK_INTERVAL = 30"
definition GRAPHENE_MIN_TRANSACTION_SIZE_LIMIT :: nat where "GRAPHENE_MIN_TRANSACTION_SIZE_LIMIT = 1024"
definition GRAPHENE_MIN_BLOCK_SIZE_LIMIT :: nat where "GRAPHENE_MIN_BLOCK_SIZE_LIMIT = 5120"

text \<open>The differences of 32-bit values in the last check wrap around.\<close>

definition chain_parameters_validate :: "chain_parameters \<Rightarrow> unit result" where
  "chain_parameters_validate p =
     require (reserve_percent_of_fee p \<le> GRAPHENE_100_PERCENT) ''reserve_percent_of_fee <= GRAPHENE_100_PERCENT''
    (require (network_percent_of_fee p \<le> GRAPHENE_100_PERCENT) ''network_percent_of_fee <= GRAPHENE_100_PERCENT''
    (require (lifetime_referrer_percent_of_fee p \<le> GRAPHENE_100_PERCENT) ''lifetime_referrer_percent_of_fee <= GRAPHENE_100_PERCENT''
    (require (network_percent_of_fee p + lifetime_referrer_percent_of_fee p \<le> GRAPHENE_100_PERCENT)
       ''network_percent_of_fee + lifetime_referrer_percent_of_fee <= GRAPHENE_100_PERCENT''
    (require (block_interval p \<ge> GRAPHENE_MIN_BLOCK_INTERVAL) ''block_interval >= GRAPHENE_MIN_BLOCK_INTERVAL''
    (require (block_interval p \<le> GRAPHENE_MAX_BLOCK_INTERVAL) ''block_interval <= GRAPHENE_MAX_BLOCK_INTERVAL''
    (require (block_interval p > 0) ''block_interval > 0''
    (require (maintenance_interval p > block_interval p) ''Maintenance interval must be longer than block interval''
    (require (maintenance_interval p mod block_interval p = 0) ''Maintenance interval must be a multiple of block interval''
    (require (maximum_transaction_size p \<ge> GRAPHENE_MIN_TRANSACTION_SIZE_LIMIT) ''Transaction size limit is too low''
    (require (maximum_block_size p \<ge> GRAPHENE_MIN_BLOCK_SIZE_LIMIT) ''Block size limit is too low''
    (require (maximum_time_until_expiration p > block_interval p)
       ''Maximum transaction expiration time must be greater than a block interval''
    (require ((of_nat (maximum_proposal_lifetime p) - of_nat (committee_proposal_review_period p) :: u32) > of_nat (block_interval p))
       ''Committee proposal review period must be less than the maximum proposal lifetime''
    (Inr ())))))))))))))"

subsection \<open>The fee is the least that covers\<close>

text \<open>An exchange rate between the core asset and the asset a fee is paid in.\<close>

definition core_rate :: "price \<Rightarrow> bool" where
  "core_rate p \<longleftrightarrow> price_ok p \<and> (asset_id (base p) = 0 \<or> asset_id (quote p) = 0)"

definition fee_asset_of :: "price \<Rightarrow> asset_id_type" where
  "fee_asset_of p = (if asset_id (base p) = 0 then asset_id (quote p) else asset_id (base p))"

text \<open>Amounts of the fee asset and of core per unit of the rate.\<close>

definition rate_fee :: "price \<Rightarrow> int" where
  "rate_fee p = (if asset_id (base p) = 0 then amount (quote p) else amount (base p))"

definition rate_core :: "price \<Rightarrow> int" where
  "rate_core p = (if asset_id (base p) = 0 then amount (base p) else amount (quote p))"

lemma to_core:
  assumes "core_rate p" "amount_ok (mk_asset x (fee_asset_of p))"
  shows "mul_price (mk_asset x (fee_asset_of p)) p = Inr w \<longleftrightarrow>
    w = mk_asset (x * rate_core p div rate_fee p) 0 \<and> amount w \<le> GRAPHENE_MAX_SHARE_SUPPLY"
  using assms mul_price_base [OF assms(2), of p] mul_price_quote [OF assms(2), of p]
  by (auto simp: core_rate_def fee_asset_of_def rate_core_def rate_fee_def price_ok_def split: if_splits)

lemma from_core:
  assumes "core_rate p" "amount_ok (mk_asset x 0)" "mul_price (mk_asset x 0) p = Inr w"
  shows "w = mk_asset (x * rate_fee p div rate_core p) (fee_asset_of p)"
  using assms mul_price_base [OF assms(2), of p w] mul_price_quote [OF assms(2), of p w]
  by (auto simp: core_rate_def fee_asset_of_def rate_core_def rate_fee_def price_ok_def split: if_splits)

lemma rate_pos: "core_rate p \<Longrightarrow> 0 < rate_core p \<and> 0 < rate_fee p"
  by (auto simp: core_rate_def rate_core_def rate_fee_def price_ok_def)

definition raise_inv :: "price \<Rightarrow> int \<Rightarrow> asset \<Rightarrow> bool" where
  "raise_inv p scaled r \<longleftrightarrow> asset_id r = fee_asset_of p \<and> 0 \<le> amount r \<and> in_int64 (amount r)
     \<and> (0 < amount r \<longrightarrow> (amount r - 1) * rate_core p < scaled * rate_fee p)"

context fc_arith
begin

lemma raise_step:
  assumes p: "core_rate p" and inv: "raise_inv p scaled r" and st: "raise_fee F p scaled r = Inr q"
  shows "(\<forall>r'. q = Inl r' \<longrightarrow> raise_inv p scaled r' \<and> nat (scaled * rate_fee p - amount r') < nat (scaled * rate_fee p - amount r))
    \<and> (\<forall>r'. q = Inr r' \<longrightarrow> r' = r \<and> scaled \<le> amount r * rate_core p div rate_fee p)"
proof -
  note pos = rate_pos [OF p]
  have r: "r = mk_asset (amount r) (fee_asset_of p)" and ok: "amount_ok (mk_asset (amount r) (fee_asset_of p))"
    using inv by (auto simp: raise_inv_def amount_ok_def)
  from st obtain w where w: "mul_price r p = Inr w" by (auto simp: raise_fee_def)
  with r have w': "w = mk_asset (amount r * rate_core p div rate_fee p) 0" using to_core [OF p ok, of w] by simp
  show ?thesis
  proof (cases "amount r * rate_core p div rate_fee p < scaled")
    case True
    then have "\<not> scaled \<le> amount r * rate_core p div rate_fee p" by simp
    then have less: "amount r * rate_core p < scaled * rate_fee p" using le_div_iff [of "rate_fee p" scaled "amount r * rate_core p"] pos by simp
    moreover have "amount r * 1 \<le> amount r * rate_core p" using pos inv by (intro mult_left_mono) (auto simp: raise_inv_def)
    ultimately have "amount r < scaled * rate_fee p" by simp
    moreover have "q = Inl (mk_asset (amount r + 1) (asset_id r)) \<and> in_int64 (amount r + 1)"
      using st w w' True by (auto simp: raise_fee_def asset_less_def fc_iffs)
    ultimately show ?thesis using inv less by (auto simp: raise_inv_def)
  next
    case False
    then have "q = Inr r" using st w w' by (auto simp: raise_fee_def asset_less_def)
    with False show ?thesis by simp
  qed
qed

end

text \<open>C32: The loop of \<open>calculate_fee\<close> ends, and the fee it computes is the least amount of the fee
  asset whose value in core is at least the scaled fee.\<close>

theorem calculate_fee_least:
  assumes "fc_arith F" "core_rate p"
  shows "ends (calculate_fee F sch base_value p)
    \<and> (\<forall>r. calculate_fee F sch base_value p = Inr r \<longrightarrow>
         (\<exists>scaled. scaled_fee F sch base_value = Inr scaled \<and> asset_id r = fee_asset_of p
            \<and> (\<forall>x. 0 \<le> x \<longrightarrow> (scaled \<le> x * rate_core p div rate_fee p \<longleftrightarrow> amount r \<le> x))))"
proof -
  note pos = rate_pos [OF assms(2)]
  have scaled: "0 \<le> s \<and> in_int64 s" if "scaled_fee F sch base_value = Inr s" for s
  proof -
    define w where "w = (of_nat base_value * of_nat (fsch_scale sch) :: u128) div of_nat GRAPHENE_100_PERCENT"
    have "uint w \<le> GRAPHENE_MAX_SHARE_SUPPLY" "to_share F w = Inr s"
      using that by (auto simp: scaled_fee_def w_def [symmetric] Let_def u128_le_max_supply)
    then have "s = uint w" "s \<le> GRAPHENE_MAX_SHARE_SUPPLY"
      using fc_arith.to_share_small [OF assms(1), of w] by (auto simp: GRAPHENE_MAX_SHARE_SUPPLY_def)
    moreover have "in_int64 GRAPHENE_MAX_SHARE_SUPPLY" by (simp add: in_int64_def GRAPHENE_MAX_SHARE_SUPPLY_def)
    ultimately show ?thesis using in_int64_between [OF in_int64_0] by fastforce
  qed
  have inv: "raise_inv p s r" if "scaled_fee F sch base_value = Inr s" "mul_price (mk_asset s 0) p = Inr r" for s r
  proof -
    have ok: "amount_ok (mk_asset s 0)" using scaled [OF that(1)] by (simp add: amount_ok_def)
    note r = from_core [OF assms(2) ok that(2)]
    have "0 \<le> amount r" "amount_ok r" using mul_price_bounds [OF ok _ that(2)] assms(2) by (auto simp: core_rate_def)
    moreover have "amount r * rate_core p \<le> s * rate_fee p" using floor_div_le [of "rate_core p" "s * rate_fee p"] r pos by simp
    moreover have "(amount r - 1) * rate_core p < amount r * rate_core p" using pos by (intro mult_strict_right_mono) auto
    ultimately show ?thesis using r by (auto simp: raise_inv_def amount_ok_def)
  qed
  have e: "ends (run_loop (raise_fee F p s) r)" if "raise_inv p s r" for s r
    by (rule run_loop_ends [where P = "raise_inv p s" and m = "\<lambda>r. nat (s * rate_fee p - amount r)", OF that])
      (use fc_arith.raise_step [OF assms] in blast, simp add: raise_fee_def fc_arith.fc_ends [OF assms(1)])
  have least: "asset_id q = fee_asset_of p \<and> (\<forall>x. 0 \<le> x \<longrightarrow> (s \<le> x * rate_core p div rate_fee p \<longleftrightarrow> amount q \<le> x))"
    if "raise_inv p s r" "run_loop (raise_fee F p s) r = Inr q" for s r q
  proof -
    have "raise_inv p s q \<and> s \<le> amount q * rate_core p div rate_fee p"
      by (rule run_loop_invariant [where P = "raise_inv p s", OF that(2,1)]) (use fc_arith.raise_step [OF assms] in blast)+
    then have q: "asset_id q = fee_asset_of p" "0 < amount q \<Longrightarrow> (amount q - 1) * rate_core p < s * rate_fee p"
      and le: "s * rate_fee p \<le> amount q * rate_core p" "0 \<le> amount q"
      using le_div_iff [of "rate_fee p" s "amount q * rate_core p"] pos by (auto simp: raise_inv_def)
    have "s \<le> x * rate_core p div rate_fee p \<longleftrightarrow> amount q \<le> x" if "0 \<le> x" for x
    proof -
      have "s \<le> x * rate_core p div rate_fee p \<longleftrightarrow> s * rate_fee p \<le> x * rate_core p" using le_div_iff pos by blast
      also have "\<dots> \<longleftrightarrow> amount q \<le> x"
      proof
        assume sx: "s * rate_fee p \<le> x * rate_core p"
        show "amount q \<le> x"
        proof (rule ccontr)
          assume "\<not> amount q \<le> x"
          then have "x * rate_core p \<le> (amount q - 1) * rate_core p" using pos by (intro mult_right_mono) auto
          with sx q(2) \<open>\<not> amount q \<le> x\<close> \<open>0 \<le> x\<close> show False by linarith
        qed
      next
        assume "amount q \<le> x"
        then have "amount q * rate_core p \<le> x * rate_core p" using pos by (intro mult_right_mono) auto
        with le show "s * rate_fee p \<le> x * rate_core p" by linarith
      qed
      finally show ?thesis .
    qed
    with q show ?thesis by blast
  qed
  have "ends (scaled_fee F sch base_value)"
    by (simp add: scaled_fee_def Let_def to_share_def fc_arith.fc_ends [OF assms(1)])
  then show ?thesis using e least inv by (fastforce simp: calculate_fee_def)
qed

theorem calculate_fee_least_witness:
  "calculate_fee fc64 \<lparr>fsch_scale = 10000, fsch_limit_order_cancel = None\<rparr> 100 (mk_price (mk_asset 3 0) (mk_asset 7 4)) = Inr (mk_asset 234 4)
   \<and> \<not> 100 \<le> 233 * 3 div (7 :: int)"
proof -
  let ?p = "mk_price (mk_asset 3 0) (mk_asset 7 4)" and ?s = "\<lparr>fsch_scale = 10000, fsch_limit_order_cancel = None\<rparr>"
  have p: "core_rate ?p" by (simp add: core_rate_def price_ok_def in_int64_def)
  have r: "calculate_fee fc64 ?s 100 ?p = Inr (mk_asset 234 4)" by code_simp
  have s: "scaled_fee fc64 ?s 100 = Inr 100" by code_simp
  have "100 \<le> 233 * rate_core ?p div rate_fee ?p \<longleftrightarrow> 234 \<le> (233 :: int)"
    using calculate_fee_least [OF fc64_arith.fc_arith_axioms p, of ?s 100] r s by auto
  then show ?thesis using r by (simp add: rate_core_def rate_fee_def)
qed

end
