(* ===== verification/Margin.thy ===== *)
theory Margin
  imports Chain_DB "HOL-Library.Signed_Division"
begin

text \<open>
  The amount of debt a margin call covers: \<open>call_order_object::get_max_debt_to_cover\<close> of
  \<open>libraries/chain/market_object.cpp\<close>.  A position with a target collateral ratio is closed only as
  far as needed to reach that ratio.  The code computes an estimate, then searches: first by bisection
  between a pair of amounts that is too small and one that may be too large, then forward in Fibonacci
  steps.  The 256-bit products of the code are integers; the steps of the forward search are 64-bit
  words.
\<close>

subsection \<open>The fields of a position\<close>

definition debt_type :: "call_order_object \<Rightarrow> asset_id_type" where
  "debt_type c = asset_id (quote (co_call_price c))"

definition collateral_type :: "call_order_object \<Rightarrow> asset_id_type" where
  "collateral_type c = asset_id (base (co_call_price c))"

definition get_debt :: "call_order_object \<Rightarrow> asset" where
  "get_debt c = mk_asset (co_debt c) (debt_type c)"

definition get_collateral :: "call_order_object \<Rightarrow> asset" where
  "get_collateral c = mk_asset (co_collateral c) (collateral_type c)"

definition collateralization :: "call_order_object \<Rightarrow> price result" where
  "collateralization c = price_of (get_collateral c) (get_debt c)"

lemmas call_order_defs = debt_type_def collateral_type_def get_debt_def get_collateral_def

subsection \<open>The search\<close>

text \<open>The payment for covering an amount of debt, rounded up, and the debt a payment covers, rounded
  down.\<close>

definition pay_for :: "call_order_object \<Rightarrow> price \<Rightarrow> int \<Rightarrow> int result" where
  "pay_for c mp to_cover =
     bind_res (multiply_and_round_up (mk_asset to_cover (debt_type c)) mp) (\<lambda>a. Inr (amount a))"

definition cover_for :: "call_order_object \<Rightarrow> price \<Rightarrow> int \<Rightarrow> int result" where
  "cover_for c mp to_pay =
     bind_res (mul_price (mk_asset to_pay (collateral_type c)) mp) (\<lambda>a. Inr (amount a))"

definition ratio_reached :: "fc_lib \<Rightarrow> call_order_object \<Rightarrow> price \<Rightarrow> nat \<Rightarrow> int \<Rightarrow> int \<Rightarrow> bool result" where
  "ratio_reached F c feed_price tcr to_pay to_cover =
     bind_res (asset_minus F (get_debt c) (mk_asset to_cover (debt_type c))) (\<lambda>new_debt.
     bind_res (asset_minus F (get_collateral c) (mk_asset to_pay (collateral_type c))) (\<lambda>new_collateral.
     bind_res (call_price new_debt new_collateral tcr) (\<lambda>new_call_price.
       Inr (price_greater new_call_price feed_price))))"

text \<open>The state of the bisection: the lower pair of payment and debt, the upper pair, and whether the upper
  pair is known to be good.\<close>

record search_state =
  min_to_pay :: int
  min_to_cover :: int
  max_to_pay :: int
  max_to_cover :: int
  max_is_ok :: bool

definition search_mean :: "fc_lib \<Rightarrow> call_order_object \<Rightarrow> price \<Rightarrow> search_state \<Rightarrow> (int \<times> int) result" where
  "search_mean F c mp s =
     (if amount (base mp) < amount (quote mp) then
        bind_res (safe_add F (min_to_pay s) (max_to_pay s)) (\<lambda>t.
        bind_res (safe_add F t 1) (\<lambda>t'.
        let to_pay = t' sdiv 2 in
        if to_pay = max_to_pay s then Inr (to_pay, max_to_cover s)
        else bind_res (cover_for c mp to_pay) (\<lambda>to_cover.
          if to_cover \<ge> max_to_cover s then Inr (max_to_pay s, max_to_cover s)
          else bind_res (pay_for c mp to_cover) (\<lambda>p.
            require (p < max_to_pay s) ''to_pay.amount < max_to_pay.amount'' (Inr (p, to_cover))))))
      else
        bind_res (safe_add F (min_to_cover s) (max_to_cover s)) (\<lambda>t.
        let to_cover = t sdiv 2 in
        if to_cover = max_to_cover s then Inr (max_to_pay s, to_cover)
        else bind_res (pay_for c mp to_cover) (\<lambda>to_pay.
          if to_pay \<ge> max_to_pay s then Inr (max_to_pay s, max_to_cover s)
          else bind_res (cover_for c mp to_pay) (\<lambda>k.
            if k \<ge> max_to_cover s then Inr (max_to_pay s, max_to_cover s) else Inr (to_pay, k)))))"

text \<open>One round of the bisection.  A mean that has not moved away from the lower pair, or has left the
  upper one, is replaced by the upper pair.  The round leaves the loop with the amount to cover, or with
  the pair from which to search forward.\<close>

definition search_clip :: "search_state \<Rightarrow> int \<times> int \<Rightarrow> int \<times> int" where
  "search_clip s mean =
     (if fst mean \<le> min_to_pay s \<or> snd mean \<le> min_to_cover s \<or> fst mean > max_to_pay s \<or> snd mean > max_to_cover s
      then (max_to_pay s, max_to_cover s) else mean)"

definition search_check :: "fc_lib \<Rightarrow> call_order_object \<Rightarrow> price \<Rightarrow> nat \<Rightarrow> search_state \<Rightarrow> int \<Rightarrow> int
    \<Rightarrow> (search_state + (int + int \<times> int)) result" where
  "search_check F c fp tcr s to_pay to_cover =
     (if to_pay = max_to_pay s \<and> (max_is_ok s \<or> to_pay = co_collateral c) then Inr (Inr (Inl to_cover))
      else require (to_pay < co_collateral c \<and> to_cover < co_debt c) ''to_pay.amount < collateral && to_cover.amount < debt''
       (bind_res (ratio_reached F c fp tcr to_pay to_cover) (\<lambda>good.
          if good then
            (if to_pay = max_to_pay s then Inr (Inr (Inl to_cover))
             else Inr (Inl (s\<lparr>max_to_pay := to_pay, max_to_cover := to_cover, max_is_ok := True\<rparr>)))
          else
            (if to_pay = max_to_pay s then Inr (Inr (Inr (to_pay, to_cover)))
             else Inr (Inl (s\<lparr>min_to_pay := to_pay, min_to_cover := to_cover\<rparr>))))))"

definition search_step :: "fc_lib \<Rightarrow> call_order_object \<Rightarrow> price \<Rightarrow> price \<Rightarrow> nat \<Rightarrow> search_state
    \<Rightarrow> (search_state + (int + int \<times> int)) result" where
  "search_step F c mp fp tcr s =
     bind_res (search_mean F c mp s) (\<lambda>mean.
     search_check F c fp tcr s (fst (search_clip s mean)) (snd (search_clip s mean)))"

text \<open>One round of the forward search, with the pair and three successive Fibonacci numbers.\<close>

type_synonym forward_state = "int \<times> int \<times> u64 \<times> u64 \<times> u64"

definition forward_pair :: "fc_lib \<Rightarrow> call_order_object \<Rightarrow> price \<Rightarrow> int \<times> int \<Rightarrow> u64 \<Rightarrow> (int \<times> int) option result" where
  "forward_pair F c mp pair d2 =
     (if amount (base mp) > amount (quote mp) then
        bind_res (safe_add F (fst pair) (share_of_u64 d2)) (\<lambda>to_pay.
        if to_pay \<ge> co_collateral c then Inr None
        else bind_res (cover_for c mp to_pay) (\<lambda>to_cover.
          if to_cover \<ge> co_debt c then Inr None
          else bind_res (pay_for c mp to_cover) (\<lambda>p.
            if p \<ge> co_collateral c then Inr None else Inr (Some (p, to_cover)))))
      else
        bind_res (safe_add F (snd pair) (share_of_u64 d2)) (\<lambda>to_cover.
        if to_cover \<ge> co_debt c then Inr None
        else bind_res (pay_for c mp to_cover) (\<lambda>to_pay.
          if to_pay \<ge> co_collateral c then Inr None
          else bind_res (cover_for c mp to_pay) (\<lambda>k.
            if k \<ge> co_debt c then Inr None else Inr (Some (to_pay, k))))))"

definition forward_step :: "fc_lib \<Rightarrow> call_order_object \<Rightarrow> price \<Rightarrow> price \<Rightarrow> nat \<Rightarrow> forward_state
    \<Rightarrow> (forward_state + int) result" where
  "forward_step F c mp fp tcr = (\<lambda>(p0, k0, d1, d2, d3).
     bind_res (forward_pair F c mp (p0, k0) d2) (\<lambda>next.
       case next of
         None \<Rightarrow> Inr (Inr (co_debt c))
       | Some (to_pay, to_cover) \<Rightarrow>
           require (to_pay < co_collateral c \<and> to_cover < co_debt c) ''to_pay.amount < collateral && to_cover.amount < debt''
          (bind_res (ratio_reached F c fp tcr to_pay to_cover) (\<lambda>good.
             if good then Inr (Inr to_cover) else Inr (Inl (to_pay, to_cover, d2, d3, d2 + d3))))))"

text \<open>The upper pair of the bisection.\<close>

definition upper_pair :: "call_order_object \<Rightarrow> price \<Rightarrow> int \<Rightarrow> (int \<times> int) result" where
  "upper_pair c mp to_cover_amt =
     bind_res (if to_cover_amt = co_debt c then Inr (co_collateral c) else pay_for c mp to_cover_amt) (\<lambda>p0.
     let p = (if p0 > co_collateral c then co_collateral c else p0) in
     bind_res (if p = co_collateral c then Inr (co_debt c) else cover_for c mp p) (\<lambda>k.
       Inr (if k \<ge> co_debt c then (co_collateral c, co_debt c) else (p, k))))"

definition search_cover :: "fc_lib \<Rightarrow> call_order_object \<Rightarrow> price \<Rightarrow> price \<Rightarrow> nat \<Rightarrow> int \<times> int \<Rightarrow> int \<Rightarrow> int result" where
  "search_cover F c mp fp tcr lower to_cover_amt =
     bind_res (upper_pair c mp to_cover_amt) (\<lambda>upper.
     if fst upper \<le> fst lower \<or> snd upper \<le> snd lower then Inr (co_debt c)
     else bind_res (run_loop (search_step F c mp fp tcr)
            \<lparr>min_to_pay = fst lower, min_to_cover = snd lower, max_to_pay = fst upper, max_to_cover = snd upper,
             max_is_ok = False\<rparr>) (\<lambda>found.
       case found of
         Inl to_cover \<Rightarrow> Inr to_cover
       | Inr (to_pay, to_cover) \<Rightarrow> run_loop (forward_step F c mp fp tcr) (to_pay, to_cover, 0, 1, 1)))"

text \<open>The amount for a target ratio, with both prices in collateral per debt.\<close>

definition cover_to_target :: "fc_lib \<Rightarrow> call_order_object \<Rightarrow> price \<Rightarrow> price \<Rightarrow> nat \<Rightarrow> int result" where
  "cover_to_target F c mp fp tcr =
     (let mp_debt = amount (quote mp); mp_coll = amount (base mp);
          fp_debt = amount (quote fp); fp_coll = amount (base fp);
          numerator = fp_coll * mp_debt * co_debt c * int tcr
                        - fp_debt * mp_debt * co_collateral c * GRAPHENE_COLLATERAL_RATIO_DENOM;
          denominator = fp_coll * mp_debt * int tcr - fp_debt * mp_coll * GRAPHENE_COLLATERAL_RATIO_DENOM in
      if numerator < 0 then Inr 0
      else if denominator \<le> 0 then Inr (co_debt c)
      else if numerator sdiv denominator \<ge> co_debt c then Inr (co_debt c)
      else
        bind_res (mul_price (mk_asset (numerator sdiv denominator) (debt_type c)) mp) (\<lambda>to_pay0.
        bind_res (mul_price to_pay0 mp) (\<lambda>to_cover.
        bind_res (multiply_and_round_up to_cover mp) (\<lambda>to_pay.
        if amount to_cover \<ge> co_debt c \<or> amount to_pay \<ge> co_collateral c then Inr (co_debt c)
        else bind_res (ratio_reached F c fp tcr (amount to_pay) (amount to_cover)) (\<lambda>good.
          if good then Inr (amount to_cover)
          else
            let estimate = (numerator + fp_coll * mp_debt * int tcr) sdiv denominator + 1 in
            search_cover F c mp fp tcr (amount to_pay, amount to_cover)
              (if estimate \<ge> co_debt c then co_debt c else estimate))))))"

definition get_max_debt_to_cover :: "fc_lib \<Rightarrow> call_order_object \<Rightarrow> price \<Rightarrow> price \<Rightarrow> nat \<Rightarrow> int result" where
  "get_max_debt_to_cover F c match_price feed_price mcr =
     (let fp = (if asset_id (base feed_price) \<noteq> collateral_type c then price_inv feed_price else feed_price) in
      require (asset_id (base fp) = collateral_type c \<and> asset_id (quote fp) = debt_type c) ''feed_price''
     (if price_greater (co_call_price c) fp then Inr 0
      else case co_target_collateral_ratio c of
        None \<Rightarrow> Inr (co_debt c)
      | Some target \<Rightarrow>
         let mp = (if asset_id (base match_price) \<noteq> collateral_type c then price_inv match_price else match_price) in
         require (asset_id (base mp) = collateral_type c \<and> asset_id (quote mp) = debt_type c) ''match_price''
           (cover_to_target F c mp fp (max target mcr))))"


subsection \<open>What the search returns\<close>

text \<open>Positions and prices as the chain holds them.\<close>

definition position_ok :: "call_order_object \<Rightarrow> bool" where
  "position_ok c \<longleftrightarrow> 0 < co_debt c \<and> co_debt c \<le> GRAPHENE_MAX_SHARE_SUPPLY
     \<and> 0 \<le> co_collateral c \<and> co_collateral c \<le> GRAPHENE_MAX_SHARE_SUPPLY \<and> collateral_type c \<noteq> debt_type c"

definition price_for :: "call_order_object \<Rightarrow> price \<Rightarrow> bool" where
  "price_for c p \<longleftrightarrow> price_ok p \<and> asset_id (base p) = collateral_type c \<and> asset_id (quote p) = debt_type c"

definition share_ok :: "int \<Rightarrow> bool" where
  "share_ok x \<longleftrightarrow> 0 \<le> x \<and> x \<le> GRAPHENE_MAX_SHARE_SUPPLY"

lemma share_ok_amount: "share_ok x \<Longrightarrow> amount_ok (mk_asset x i)"
  by (simp add: share_ok_def amount_ok_def in_int64_def GRAPHENE_MAX_SHARE_SUPPLY_def)

lemma half_amount_ok: "0 \<le> t \<Longrightarrow> t \<le> 2 * GRAPHENE_MAX_SHARE_SUPPLY + 1 \<Longrightarrow> amount_ok (mk_asset (t sdiv 2) i)"
  by (simp add: amount_ok_def in_int64_def config_defs signed_divide_int_def sgn_if) presburger

lemma pay_for_iff:
  assumes "price_for c mp" "amount_ok (mk_asset x (debt_type c))"
  shows "pay_for c mp x = Inr p \<longleftrightarrow> p = (x * amount (base mp) + amount (quote mp) - 1) div amount (quote mp)
    \<and> p \<le> GRAPHENE_MAX_SHARE_SUPPLY"
  using assms round_up_quote [of "mk_asset x (debt_type c)" mp] by (auto simp: pay_for_def price_for_def)

lemma cover_for_iff:
  assumes "price_for c mp" "amount_ok (mk_asset x (collateral_type c))"
  shows "cover_for c mp x = Inr k \<longleftrightarrow> k = x * amount (quote mp) div amount (base mp) \<and> k \<le> GRAPHENE_MAX_SHARE_SUPPLY"
  using assms mul_price_base [of "mk_asset x (collateral_type c)" mp] by (auto simp: cover_for_def price_for_def)

lemma price_for_pos: "price_for c mp \<Longrightarrow> 0 < amount (base mp) \<and> 0 < amount (quote mp)"
  by (simp add: price_for_def price_ok_def)

lemma pay_for_ok:
  assumes "price_for c mp" "amount_ok (mk_asset x (debt_type c))" "pay_for c mp x = Inr p"
  shows "share_ok p"
proof -
  have "0 < amount (base mp)" "0 < amount (quote mp)" "0 \<le> x"
    using price_for_pos [OF assms(1)] assms(2) by (simp_all add: amount_ok_def)
  then have "0 \<le> x * amount (base mp) + amount (quote mp) - 1" by (simp add: add_nonneg_pos)
  then show ?thesis using assms(3) price_for_pos [OF assms(1)]
    by (auto simp: pay_for_iff [OF assms(1,2)] share_ok_def pos_imp_zdiv_nonneg_iff)
qed

lemma cover_for_ok:
  assumes "price_for c mp" "amount_ok (mk_asset x (collateral_type c))" "cover_for c mp x = Inr k"
  shows "share_ok k"
  using assms(3) price_for_pos [OF assms(1)] assms(2)
  by (auto simp: cover_for_iff [OF assms(1,2)] share_ok_def amount_ok_def pos_imp_zdiv_nonneg_iff)

text \<open>Rounding up the payment and then down the debt is stable: the payment for the debt that a payment
  covers is the payment.\<close>

lemma pay_cover_stable:
  assumes "price_for c mp" "amount_ok (mk_asset x (debt_type c))" "pay_for c mp x = Inr p" "cover_for c mp p = Inr k"
  shows "pay_for c mp k = Inr p"
proof -
  let ?b = "amount (base mp)" and ?q = "amount (quote mp)"
  note pos = price_for_pos [OF assms(1)]
  have sp: "share_ok p" by (rule pay_for_ok [OF assms(1-3)])
  have k: "k = p * ?q div ?b" using cover_for_iff [OF assms(1) share_ok_amount [OF sp], THEN iffD1, OF assms(4)] by simp
  have sk: "share_ok k" by (rule cover_for_ok [OF assms(1) share_ok_amount [OF sp] assms(4)])
  have p: "p = (x * ?b + ?q - 1) div ?q" and pm: "p \<le> GRAPHENE_MAX_SHARE_SUPPLY"
    using pay_for_iff [OF assms(1,2)] assms(3) by auto
  have "x * ?b \<le> p * ?q" using ceil_div_le_iff [of ?q "x * ?b" p] p pos by simp
  then have "x \<le> k" using le_div_iff [of ?b x "p * ?q"] k pos by simp
  then have "x * ?b \<le> k * ?b" using pos by (intro mult_right_mono) auto
  then have "x * ?b + ?q - 1 \<le> k * ?b + ?q - 1" by linarith
  then have "p \<le> (k * ?b + ?q - 1) div ?q" using pos unfolding p by (intro zdiv_mono1) auto
  moreover have "k * ?b \<le> p * ?q" using floor_div_le [of ?b "p * ?q"] k pos by simp
  then have "(k * ?b + ?q - 1) div ?q \<le> p" using ceil_div_le_iff [of ?q "k * ?b" p] pos by simp
  ultimately show ?thesis using pay_for_iff [OF assms(1) share_ok_amount [OF sk]] pm by simp
qed

text \<open>A pair of payment and debt the search may stop at.\<close>

definition pair_ok :: "call_order_object \<Rightarrow> price \<Rightarrow> int \<Rightarrow> int \<Rightarrow> bool" where
  "pair_ok c mp p k \<longleftrightarrow> 0 \<le> p \<and> 0 \<le> k \<and> (p < co_collateral c \<and> k < co_debt c \<and> pay_for c mp k = Inr p
     \<or> p = co_collateral c \<and> k = co_debt c)"

lemma pair_ok_share: "position_ok c \<Longrightarrow> pair_ok c mp p k \<Longrightarrow> share_ok p \<and> share_ok k"
  by (auto simp: pair_ok_def position_ok_def share_ok_def)

lemma ends_pay_cover [simp]: "ends (pay_for c mp x)" "ends (cover_for c mp x)"
  by (simp_all add: pay_for_def cover_for_def)

lemma upper_pair_ok:
  assumes "position_ok c" "price_for c mp" "share_ok x" "upper_pair c mp x = Inr (p, k)"
  shows "pair_ok c mp p k"
proof (cases "p = co_collateral c \<and> k = co_debt c")
  case False
  with assms(4) have *: "pay_for c mp x = Inr p" "cover_for c mp p = Inr k" "p < co_collateral c" "k < co_debt c"
    by (auto simp: upper_pair_def Let_def split: if_splits)
  have "share_ok p" by (rule pay_for_ok [OF assms(2) share_ok_amount [OF assms(3)] *(1)])
  moreover from this have "share_ok k" using cover_for_ok [OF assms(2) _ *(2)] share_ok_amount by blast
  ultimately show ?thesis
    using pay_cover_stable [OF assms(2) share_ok_amount [OF assms(3)] *(1,2)] * by (simp add: pair_ok_def share_ok_def)
qed (use assms(1) in \<open>simp add: pair_ok_def position_ok_def\<close>)

context fc_arith
begin

lemma ends_ratio [simp]: "ends (ratio_reached F c fp tcr p k)"
  by (simp add: ratio_reached_def)

text \<open>The mean is the upper pair, or a stable pair below it.\<close>

lemma mean_pair:
  assumes "position_ok c" "price_for c mp" "pair_ok c mp (min_to_pay s) (min_to_cover s)" "pair_ok c mp (max_to_pay s) (max_to_cover s)"
    and "search_mean F c mp s = Inr (p, k)"
  shows "(p, k) = (max_to_pay s, max_to_cover s) \<or> p < max_to_pay s \<and> k < max_to_cover s \<and> 0 \<le> p \<and> 0 \<le> k \<and> pay_for c mp k = Inr p"
proof (cases "(p, k) = (max_to_pay s, max_to_cover s)")
  case False
  have sh: "share_ok (min_to_pay s)" "share_ok (min_to_cover s)" "share_ok (max_to_pay s)" "share_ok (max_to_cover s)"
    using pair_ok_share [OF assms(1)] assms(3,4) by blast+
  show ?thesis
  proof (cases "amount (base mp) < amount (quote mp)")
    case True
    let ?m = "(min_to_pay s + max_to_pay s + 1) sdiv 2"
    from True False assms(5) have *: "cover_for c mp ?m = Inr k" "pay_for c mp k = Inr p" "p < max_to_pay s" "k < max_to_cover s"
      by (auto simp: search_mean_def Let_def fc_iffs split: if_splits)
    have "amount_ok (mk_asset ?m (collateral_type c))"
      using sh by (intro half_amount_ok) (simp_all add: share_ok_def)
    from cover_for_ok [OF assms(2) this *(1)] have "share_ok k" .
    moreover from this have "share_ok p" using pay_for_ok [OF assms(2) _ *(2)] share_ok_amount by blast
    ultimately show ?thesis using * by (simp add: share_ok_def)
  next
    case nb: False
    let ?m = "(min_to_cover s + max_to_cover s) sdiv 2"
    from nb False assms(5) have *: "pay_for c mp ?m = Inr p" "cover_for c mp p = Inr k" "p < max_to_pay s" "k < max_to_cover s"
      by (auto simp: search_mean_def Let_def fc_iffs split: if_splits)
    have m: "amount_ok (mk_asset ?m (debt_type c))"
      using sh by (intro half_amount_ok) (simp_all add: share_ok_def)
    have "share_ok p" by (rule pay_for_ok [OF assms(2) m *(1)])
    moreover from this have "share_ok k" using cover_for_ok [OF assms(2) _ *(2)] share_ok_amount by blast
    ultimately show ?thesis using * pay_cover_stable [OF assms(2) m *(1,2)] by (simp add: share_ok_def)
  qed
qed simp

end

text \<open>An amount the search returns: all the debt, or an amount whose payment leaves a position above the
  target ratio.\<close>

definition good_cover :: "fc_lib \<Rightarrow> call_order_object \<Rightarrow> price \<Rightarrow> price \<Rightarrow> nat \<Rightarrow> int \<Rightarrow> bool" where
  "good_cover F c mp fp tcr k \<longleftrightarrow> k = co_debt c \<or> 0 \<le> k \<and> k < co_debt c
     \<and> (\<exists>p. 0 \<le> p \<and> p < co_collateral c \<and> pay_for c mp k = Inr p \<and> ratio_reached F c fp tcr p k = Inr True)"

definition search_inv :: "fc_lib \<Rightarrow> call_order_object \<Rightarrow> price \<Rightarrow> price \<Rightarrow> nat \<Rightarrow> search_state \<Rightarrow> bool" where
  "search_inv F c mp fp tcr s \<longleftrightarrow> pair_ok c mp (min_to_pay s) (min_to_cover s) \<and> pair_ok c mp (max_to_pay s) (max_to_cover s)
     \<and> min_to_pay s < max_to_pay s \<and> (max_is_ok s \<longrightarrow> ratio_reached F c fp tcr (max_to_pay s) (max_to_cover s) = Inr True)"

definition forward_inv :: "call_order_object \<Rightarrow> forward_state \<Rightarrow> bool" where
  "forward_inv c = (\<lambda>(p, k, d1, d2, d3). 0 \<le> p \<and> 0 \<le> k \<and> p < co_collateral c \<and> k < co_debt c
     \<and> 0 < unat d2 \<and> unat d2 \<le> unat d3 \<and> unat d3 \<le> 2 * unat d2 \<and> unat d3 < 2 ^ 62)"

context fc_arith
begin

lemma search_step_progress:
  assumes ok: "position_ok c" "price_for c mp" and inv: "search_inv F c mp fp tcr s"
    and st: "search_step F c mp fp tcr s = Inr q"
  shows "(\<forall>s'. q = Inl s' \<longrightarrow> search_inv F c mp fp tcr s' \<and> nat (max_to_pay s' - min_to_pay s') < nat (max_to_pay s - min_to_pay s))
    \<and> (\<forall>k. q = Inr (Inl k) \<longrightarrow> good_cover F c mp fp tcr k)
    \<and> (\<forall>p k. q = Inr (Inr (p, k)) \<longrightarrow> 0 \<le> p \<and> p < co_collateral c \<and> 0 \<le> k \<and> k < co_debt c)"
proof -
  note inv' = inv [unfolded search_inv_def]
  from st obtain m where mean: "search_mean F c mp s = Inr m" and
    check: "search_check F c fp tcr s (fst (search_clip s m)) (snd (search_clip s m)) = Inr q" by (auto simp: search_step_def)
  obtain p k where pk: "search_clip s m = (p, k)" by fastforce
  have m: "search_mean F c mp s = Inr (fst m, snd m)" using mean by simp
  have cases: "(p, k) = (max_to_pay s, max_to_cover s) \<or> min_to_pay s < p \<and> p < max_to_pay s \<and> min_to_cover s < k \<and> k < max_to_cover s \<and> pay_for c mp k = Inr p"
    using mean_pair [OF ok _ _ m] inv' pk by (cases m) (auto simp: search_clip_def split: if_splits)
  have full: "max_to_pay s = co_collateral c \<Longrightarrow> max_to_cover s = co_debt c" using inv' by (auto simp: pair_ok_def)
  have le: "max_to_pay s \<le> co_collateral c" "max_to_cover s \<le> co_debt c" using inv' by (auto simp: pair_ok_def)
  have "search_check F c fp tcr s p k = Inr q" using check pk by simp
  then consider "p = max_to_pay s" "max_is_ok s \<or> p = co_collateral c" "q = Inr (Inl k)"
    | "p < co_collateral c" "k < co_debt c" "ratio_reached F c fp tcr p k = Inr True" "p = max_to_pay s" "q = Inr (Inl k)"
    | "p < co_collateral c" "k < co_debt c" "ratio_reached F c fp tcr p k = Inr True" "p \<noteq> max_to_pay s"
        "q = Inl (s\<lparr>max_to_pay := p, max_to_cover := k, max_is_ok := True\<rparr>)"
    | "p < co_collateral c" "k < co_debt c" "p = max_to_pay s" "q = Inr (Inr (p, k))"
    | "p < co_collateral c" "k < co_debt c" "p \<noteq> max_to_pay s" "q = Inl (s\<lparr>min_to_pay := p, min_to_cover := k\<rparr>)"
    unfolding search_check_def by (simp split: if_splits) metis+
  then show ?thesis
  proof cases
    case 1
    then show ?thesis using cases inv' full by (auto simp: good_cover_def pair_ok_def)
  next
    case 2
    then show ?thesis using cases inv' by (auto simp: good_cover_def pair_ok_def)
  next
    case 3
    then show ?thesis using cases inv' by (auto simp: search_inv_def pair_ok_def)
  next
    case 4
    then show ?thesis using cases inv' by (auto simp: pair_ok_def)
  next
    case 5
    then show ?thesis using cases inv' le by (auto simp: search_inv_def pair_ok_def)
  qed
qed

lemma ends_search_step [simp]: "ends (search_step F c mp fp tcr s)"
  by (simp add: search_step_def search_check_def search_mean_def fc_ends Let_def)

lemma forward_pair_ok:
  assumes ok: "position_ok c" "price_for c mp" and inv: "forward_inv c (p0, k0, d1, d2, d3)"
    and st: "forward_pair F c mp (p0, k0) d2 = Inr (Some (p, k))"
  shows "0 \<le> p \<and> p < co_collateral c \<and> 0 \<le> k \<and> k < co_debt c \<and> pay_for c mp k = Inr p
    \<and> uint d2 < GRAPHENE_MAX_SHARE_SUPPLY"
proof -
  have "unat d2 < 2 ^ 62" using inv by (simp add: forward_inv_def)
  then have "int (unat d2) < int (2 ^ 62)" by (simp only: of_nat_less_iff)
  moreover have "uint d2 = int (unat d2)" by simp
  ultimately have "uint d2 < 2 ^ 62" by (simp only: of_nat_power of_nat_numeral)
  then have "uint d2 < 2 ^ 63" by (rule less_trans) simp
  moreover have "- (2 ^ 63) \<le> uint d2" by (rule order_trans [OF _ uint_ge_0]) simp
  ultimately have d2: "share_of_u64 d2 = int (unat d2)"
    using signed_take_bit_int_eq_self [of 63 "uint d2"] by (simp add: share_of_u64_def sint_uint)
  have lims: "co_collateral c \<le> GRAPHENE_MAX_SHARE_SUPPLY" "co_debt c \<le> GRAPHENE_MAX_SHARE_SUPPLY" "0 \<le> p0" "0 \<le> k0"
    using ok(1) inv by (simp_all add: position_ok_def forward_inv_def)
  show ?thesis
  proof (cases "amount (base mp) > amount (quote mp)")
    case True
    let ?x = "p0 + int (unat d2)"
    from True st have *: "cover_for c mp ?x = Inr k" "pay_for c mp k = Inr p" "p < co_collateral c" "k < co_debt c" "?x < co_collateral c"
      by (auto simp: forward_pair_def fc_iffs d2 split: if_splits)
    have "share_ok ?x" using * lims by (simp add: share_ok_def)
    then have "share_ok k" using cover_for_ok [OF ok(2) _ *(1)] share_ok_amount by blast
    moreover from this have "share_ok p" using pay_for_ok [OF ok(2) _ *(2)] share_ok_amount by blast
    ultimately show ?thesis using * lims by (simp add: share_ok_def)
  next
    case False
    let ?x = "k0 + int (unat d2)"
    from False st have *: "pay_for c mp ?x = Inr p" "cover_for c mp p = Inr k" "p < co_collateral c" "k < co_debt c" "?x < co_debt c"
      by (auto simp: forward_pair_def fc_iffs d2 split: if_splits)
    have x: "share_ok ?x" using * lims by (simp add: share_ok_def)
    have "share_ok p" by (rule pay_for_ok [OF ok(2) share_ok_amount [OF x] *(1)])
    moreover from this have "share_ok k" using cover_for_ok [OF ok(2) _ *(2)] share_ok_amount by blast
    ultimately show ?thesis using * lims pay_cover_stable [OF ok(2) share_ok_amount [OF x] *(1,2)] by (simp add: share_ok_def)
  qed
qed

lemma forward_step_progress:
  assumes ok: "position_ok c" "price_for c mp" and inv: "forward_inv c s" and st: "forward_step F c mp fp tcr s = Inr q"
  shows "(\<forall>s'. q = Inl s' \<longrightarrow> forward_inv c s' \<and> (case s' of (_, _, _, _, e3) \<Rightarrow> 2 ^ 62 - unat e3) < (case s of (_, _, _, _, e3) \<Rightarrow> 2 ^ 62 - unat e3))
    \<and> (\<forall>k. q = Inr k \<longrightarrow> good_cover F c mp fp tcr k)"
proof -
  obtain p0 k0 d1 d2 d3 where s: "s = (p0, k0, d1, d2, d3)" by (metis prod_cases5)
  consider "forward_pair F c mp (p0, k0) d2 = Inr None" "q = Inr (co_debt c)"
    | p k where "forward_pair F c mp (p0, k0) d2 = Inr (Some (p, k))" "ratio_reached F c fp tcr p k = Inr True" "q = Inr k"
    | p k where "forward_pair F c mp (p0, k0) d2 = Inr (Some (p, k))" "q = Inl (p, k, d2, d3, d2 + d3)"
    using st by (cases "forward_pair F c mp (p0, k0) d2") (auto simp: s forward_step_def split: option.splits if_splits)
  then show ?thesis
  proof cases
    case (2 p k)
    then show ?thesis using forward_pair_ok [OF ok inv [unfolded s] 2(1)] by (auto simp: good_cover_def)
  next
    case (3 p k)
    note * = forward_pair_ok [OF ok inv [unfolded s] 3(1)]
    then have "unat d2 < 10 ^ 18" by (intro unat_less_uint) (simp add: GRAPHENE_MAX_SHARE_SUPPLY_def)
    moreover have "unat d2 \<le> unat d3" "unat d3 \<le> 2 * unat d2" "0 < unat d2" using inv by (simp_all add: s forward_inv_def)
    moreover from calculation have "unat (d2 + d3) = unat d2 + unat d3" by (intro unat_add_lem [THEN iffD1]) simp
    ultimately show ?thesis using * 3(2) by (auto simp: s forward_inv_def)
  qed (simp add: good_cover_def)
qed

lemma ends_forward_step [simp]: "ends (forward_step F c mp fp tcr s)"
  by (auto simp: forward_step_def forward_pair_def fc_ends Let_def split: prod.splits option.splits)

lemma search_cover_ok:
  assumes ok: "position_ok c" "price_for c mp" and lower: "pair_ok c mp (fst lower) (snd lower)" and x: "share_ok x"
  shows "ends (search_cover F c mp fp tcr lower x) \<and> (\<forall>k. search_cover F c mp fp tcr lower x = Inr k \<longrightarrow> good_cover F c mp fp tcr k)"
proof -
  define s0 where "s0 u = \<lparr>min_to_pay = fst lower, min_to_cover = snd lower, max_to_pay = fst u, max_to_cover = snd u,
             max_is_ok = False\<rparr>" for u :: "int \<times> int"
  have up: "pair_ok c mp (fst u) (snd u)" if "upper_pair c mp x = Inr u" for u
    using upper_pair_ok [OF ok x, of "fst u" "snd u"] that by simp
  have inv: "search_inv F c mp fp tcr (s0 u)" if "upper_pair c mp x = Inr u" "fst lower < fst u" for u
    using up [OF that(1)] lower that by (simp add: search_inv_def s0_def)
  have e1: "ends (run_loop (search_step F c mp fp tcr) (s0 u))" if "upper_pair c mp x = Inr u" "fst lower < fst u" for u
    by (rule run_loop_ends [where P = "search_inv F c mp fp tcr" and m = "\<lambda>s. nat (max_to_pay s - min_to_pay s)", OF inv [OF that]])
      (use search_step_progress [OF ok] in blast, simp)
  have r1: "(\<forall>k. r = Inl k \<longrightarrow> good_cover F c mp fp tcr k) \<and> (\<forall>p k. r = Inr (p, k) \<longrightarrow> 0 \<le> p \<and> p < co_collateral c \<and> 0 \<le> k \<and> k < co_debt c)"
    if "upper_pair c mp x = Inr u" "fst lower < fst u" "run_loop (search_step F c mp fp tcr) (s0 u) = Inr r" for u r
    using run_loop_invariant [where P = "search_inv F c mp fp tcr" and
      Q = "\<lambda>r. (\<forall>k. r = Inl k \<longrightarrow> good_cover F c mp fp tcr k) \<and> (\<forall>p k. r = Inr (p, k) \<longrightarrow> 0 \<le> p \<and> p < co_collateral c \<and> 0 \<le> k \<and> k < co_debt c)",
      OF that(3) inv [OF that(1,2)]] search_step_progress [OF ok] by blast
  have f: "ends (run_loop (forward_step F c mp fp tcr) (p, k, 0, 1, 1))
      \<and> (\<forall>j. run_loop (forward_step F c mp fp tcr) (p, k, 0, 1, 1) = Inr j \<longrightarrow> good_cover F c mp fp tcr j)"
    if "0 \<le> p" "p < co_collateral c" "0 \<le> k" "k < co_debt c" for p k
  proof -
    have i: "forward_inv c (p, k, 0, 1, 1)" using that by (simp add: forward_inv_def)
    have "ends (run_loop (forward_step F c mp fp tcr) (p, k, 0, 1, 1))"
      by (rule run_loop_ends [where P = "forward_inv c" and m = "\<lambda>s. case s of (_, _, _, _, e3) \<Rightarrow> 2 ^ 62 - unat e3", OF i])
        (use forward_step_progress [OF ok] in blast, simp)
    moreover have "good_cover F c mp fp tcr j" if "run_loop (forward_step F c mp fp tcr) (p, k, 0, 1, 1) = Inr j" for j
      by (rule run_loop_invariant [where P = "forward_inv c", OF that i]) (use forward_step_progress [OF ok] in blast)+
    ultimately show ?thesis by blast
  qed
  have "ends (upper_pair c mp x)" by (simp add: upper_pair_def Let_def)
  then consider e where "upper_pair c mp x = Inl e" "e \<noteq> Nontermination"
    | u where "upper_pair c mp x = Inr u" "fst u \<le> fst lower \<or> snd u \<le> snd lower"
    | u where "upper_pair c mp x = Inr u" "\<not> (fst u \<le> fst lower \<or> snd u \<le> snd lower)"
    by (cases "upper_pair c mp x") auto
  then show ?thesis
  proof cases
    case (3 u)
    then have lt: "fst lower < fst u" by simp
    have eq: "search_cover F c mp fp tcr lower x = bind_res (run_loop (search_step F c mp fp tcr) (s0 u)) (\<lambda>found.
       case found of Inl to_cover \<Rightarrow> Inr to_cover
       | Inr (to_pay, to_cover) \<Rightarrow> run_loop (forward_step F c mp fp tcr) (to_pay, to_cover, 0, 1, 1))"
      using 3 by (simp add: search_cover_def s0_def)
    show ?thesis
    proof (cases "run_loop (search_step F c mp fp tcr) (s0 u)")
      case (Inl e)
      then show ?thesis using e1 [OF 3(1) lt] eq by simp
    next
      case (Inr r)
      then show ?thesis using r1 [OF 3(1) lt Inr] f by (cases r) (auto simp: eq split: prod.splits)
    qed
  qed (simp_all add: search_cover_def good_cover_def)
qed

lemma cover_to_target_ok:
  assumes ok: "position_ok c" "price_for c mp" "price_for c fp"
  shows "ends (cover_to_target F c mp fp tcr)
    \<and> (\<forall>k. cover_to_target F c mp fp tcr = Inr k \<longrightarrow> k = 0 \<or> good_cover F c mp fp tcr k)"
proof -
  define num where "num = amount (base fp) * amount (quote mp) * co_debt c * int tcr
    - amount (quote fp) * amount (quote mp) * co_collateral c * GRAPHENE_COLLATERAL_RATIO_DENOM"
  define den where "den = amount (base fp) * amount (quote mp) * int tcr
    - amount (quote fp) * amount (base mp) * GRAPHENE_COLLATERAL_RATIO_DENOM"
  define more where "more = amount (base fp) * amount (quote mp) * int tcr"
  note unfold = cover_to_target_def [of F c mp fp tcr, unfolded Let_def, folded more_def, folded num_def, folded den_def [folded more_def]]
  show ?thesis
  proof (cases "num < 0 \<or> den \<le> 0 \<or> num sdiv den \<ge> co_debt c")
    case True
    then show ?thesis by (auto simp: unfold good_cover_def)
  next
    case False
    let ?x = "num sdiv den" and ?e = "(num + more) sdiv den + 1"
    from False have x: "0 \<le> ?x" "?x < co_debt c" by (auto simp: signed_divide_int_def sgn_if pos_imp_zdiv_nonneg_iff)
    have e: "share_ok (if ?e \<ge> co_debt c then co_debt c else ?e)"
      using False ok price_for_pos [OF ok(2)] price_for_pos [OF ok(3)]
      by (auto simp: share_ok_def position_ok_def more_def signed_divide_int_def sgn_if pos_imp_zdiv_nonneg_iff)
    have lower: "pair_ok c mp (amount p) (amount k) \<and> 0 \<le> amount k \<and> 0 \<le> amount p \<and> pay_for c mp (amount k) = Inr (amount p)"
      if run: "mul_price (mk_asset ?x (debt_type c)) mp = Inr p0" "mul_price p0 mp = Inr k" "multiply_and_round_up k mp = Inr p"
        and small: "amount k < co_debt c" "amount p < co_collateral c" for p0 k p
    proof -
      have mp: "price_ok mp" "asset_id (quote mp) = debt_type c" "asset_id (base mp) = collateral_type c" using ok(2) by (simp_all add: price_for_def)
      have xa: "amount_ok (mk_asset ?x (debt_type c))" using x ok(1) by (intro share_ok_amount) (simp add: share_ok_def position_ok_def)
      have p0: "amount_ok p0" "asset_id p0 = collateral_type c"
        using mul_price_bounds [OF xa mp(1) run(1)] mul_price_quoteD [OF xa mp(1) _ run(1)] mp by simp_all
      have k: "amount_ok k" "asset_id k = debt_type c" "0 \<le> amount k"
        using mul_price_bounds [OF p0(1) mp(1) run(2)] mul_price_baseD [OF p0(1) mp(1) _ run(2)] mp p0 by simp_all
      have kk: "mk_asset (amount k) (debt_type c) = k" using k(2) by simp
      have pk: "pay_for c mp (amount k) = Inr (amount p)" using run(3) by (simp add: pay_for_def kk)
      have "share_ok (amount p)" by (rule pay_for_ok [OF ok(2) _ pk]) (simp add: kk k(1))
      then show ?thesis using pk k small by (simp add: pair_ok_def share_ok_def)
    qed
    show ?thesis
    proof (cases "\<exists>p0 k p. mul_price (mk_asset ?x (debt_type c)) mp = Inr p0 \<and> mul_price p0 mp = Inr k \<and> multiply_and_round_up k mp = Inr p
        \<and> amount k < co_debt c \<and> amount p < co_collateral c")
      case True
      then obtain p0 k p where run: "mul_price (mk_asset ?x (debt_type c)) mp = Inr p0" "mul_price p0 mp = Inr k" "multiply_and_round_up k mp = Inr p"
        "amount k < co_debt c" "amount p < co_collateral c" by blast
      note l = lower [OF run]
      have eq: "cover_to_target F c mp fp tcr = bind_res (ratio_reached F c fp tcr (amount p) (amount k)) (\<lambda>good.
          if good then Inr (amount k)
          else search_cover F c mp fp tcr (amount p, amount k) (if ?e \<ge> co_debt c then co_debt c else ?e))"
        using False run by (simp add: unfold)
      show ?thesis
        using l run(4,5) search_cover_ok [OF ok(1,2), of "(amount p, amount k)" "if ?e \<ge> co_debt c then co_debt c else ?e" fp tcr] e
        unfolding eq by (auto simp: good_cover_def split: if_splits)
    next
      case none: False
      have "k = co_debt c" if "cover_to_target F c mp fp tcr = Inr k" for k
        using that none False by (auto simp: unfold not_less split: if_splits)
      moreover have "ends (cover_to_target F c mp fp tcr)" using False none by (auto simp: unfold not_less)
      ultimately show ?thesis by (auto simp: good_cover_def)
    qed
  qed
qed

end

text \<open>C33: \<open>get_max_debt_to_cover\<close> always ends, although both of its searches are open-ended loops: the
  bisection narrows its bounds, and the Fibonacci steps of the forward search pass the collateral or the
  debt before the 64-bit step counters wrap. What it returns lies between zero and the whole debt. If it
  returns a part of the debt, the position has a target ratio, and after paying the rounded-up price of
  that part the position's new call price at the target ratio is above the feed price.\<close>

theorem max_debt_to_cover_ends:
  assumes "fc_arith F" "position_ok c" "price_ok match_price" "price_ok feed_price"
  shows "ends (get_max_debt_to_cover F c match_price feed_price mcr)
    \<and> (\<forall>k. get_max_debt_to_cover F c match_price feed_price mcr = Inr k \<longrightarrow>
         0 \<le> k \<and> k \<le> co_debt c
         \<and> (0 < k \<and> k < co_debt c \<longrightarrow>
            (\<exists>target mp fp p. co_target_collateral_ratio c = Some target \<and> mp \<in> {match_price, price_inv match_price}
               \<and> fp \<in> {feed_price, price_inv feed_price} \<and> pay_for c mp k = Inr p \<and> 0 \<le> p \<and> p < co_collateral c
               \<and> ratio_reached F c fp (max target mcr) p k = Inr True)))"
proof -
  define fp where "fp = (if asset_id (base feed_price) \<noteq> collateral_type c then price_inv feed_price else feed_price)"
  define mp where "mp = (if asset_id (base match_price) \<noteq> collateral_type c then price_inv match_price else match_price)"
  have mp_ok: "price_ok mp" "mp \<in> {match_price, price_inv match_price}" using assms(3) by (auto simp: mp_def)
  have fp_ok: "price_ok fp" "fp \<in> {feed_price, price_inv feed_price}" using assms(4) by (auto simp: fp_def)
  have debt: "0 < co_debt c" using assms(2) by (simp add: position_ok_def)
  note unfold = get_max_debt_to_cover_def [of F c match_price feed_price mcr, unfolded Let_def, folded fp_def, folded mp_def]
  show ?thesis
  proof (cases "price_for c fp \<and> \<not> price_greater (co_call_price c) fp \<and> price_for c mp")
    case True
    show ?thesis
    proof (cases "co_target_collateral_ratio c")
      case (Some target)
      have eq: "get_max_debt_to_cover F c match_price feed_price mcr = cover_to_target F c mp fp (max target mcr)"
        using True Some by (simp add: unfold price_for_def)
      show ?thesis
        using fc_arith.cover_to_target_ok [OF assms(1,2), of mp fp "max target mcr"] True Some debt mp_ok(2) fp_ok(2)
        unfolding eq good_cover_def by fastforce
    qed (use True debt in \<open>simp add: unfold price_for_def\<close>)
  next
    case False
    then show ?thesis using debt mp_ok(1) fp_ok(1) by (auto simp: unfold price_for_def split: option.splits)
  qed
qed

definition demo_position :: call_order_object where
  "demo_position = \<lparr>co_borrower = 6, co_collateral = 1600, co_debt = 1000,
     co_call_price = mk_price (mk_asset 1600 0) (mk_asset 1750 1), co_target_collateral_ratio = Some 2000\<rparr>"

theorem max_debt_to_cover_ends_witness:
  "\<exists>k. get_max_debt_to_cover fc64 demo_position (mk_price (mk_asset 1 0) (mk_asset 1 1)) (mk_price (mk_asset 1 0) (mk_asset 1 1)) 1750 = Inr k
     \<and> 0 < k \<and> k < 1000"
proof -
  have "fc_arith fc64" by (rule fc64_arith.fc_arith_axioms)
  moreover have "position_ok demo_position" by (simp add: position_ok_def demo_position_def call_order_defs config_defs)
  moreover have "price_ok (mk_price (mk_asset 1 0) (mk_asset 1 1))" by (simp add: price_ok_def in_int64_def)
  moreover have "get_max_debt_to_cover fc64 demo_position (mk_price (mk_asset 1 0) (mk_asset 1 1)) (mk_price (mk_asset 1 0) (mk_asset 1 1)) 1750 = Inr 401"
    by code_simp
  ultimately show ?thesis
    using max_debt_to_cover_ends [of fc64 demo_position "mk_price (mk_asset 1 0) (mk_asset 1 1)" "mk_price (mk_asset 1 0) (mk_asset 1 1)" 1750]
    by simp
qed
end
