(* ===== verification/Market.thy ===== *)
theory Market
  imports Fee_Schedule Margin
begin

text \<open>
  The market: \<open>libraries/chain/db_market.cpp\<close>, the detection of black swans in
  \<open>db_update.cpp\<close>, and the market operations of \<open>market_evaluator.cpp\<close>.

  The orders live in the tables of the database.  The order books are the rows of a table in the order of the
  index \<open>by_price\<close>; an iterator over a part of a book is the list of the ids that are left.  This is
  faithful because the code advances its iterators before it changes or removes an order, and because
  the key of a limit order never changes.  Virtual operations, which only record what happened, are not
  modelled; a price or a flag that is used for nothing else is left out of the arguments.
\<close>

subsection \<open>Times of the hard forks\<close>

definition HARDFORK_CORE_184_TIME :: nat where "HARDFORK_CORE_184_TIME = 1532008920"
definition HARDFORK_CORE_216_TIME :: nat where "HARDFORK_CORE_216_TIME = 1512747600"
definition HARDFORK_CORE_338_TIME :: nat where "HARDFORK_CORE_338_TIME = 1532008920"
definition HARDFORK_CORE_342_TIME :: nat where "HARDFORK_CORE_342_TIME = 1532008920"
definition HARDFORK_CORE_343_TIME :: nat where "HARDFORK_CORE_343_TIME = 1532008920"
definition HARDFORK_CORE_453_TIME :: nat where "HARDFORK_CORE_453_TIME = 1532008920"
definition HARDFORK_CORE_583_TIME :: nat where "HARDFORK_CORE_583_TIME = 1532008920"
definition HARDFORK_CORE_604_TIME :: nat where "HARDFORK_CORE_604_TIME = 1532008920"
definition HARDFORK_CORE_606_TIME :: nat where "HARDFORK_CORE_606_TIME = 1532008920"
definition HARDFORK_CORE_625_TIME :: nat where "HARDFORK_CORE_625_TIME = 1532008920"
definition HARDFORK_CORE_834_TIME :: nat where "HARDFORK_CORE_834_TIME = 1532008920"
definition HARDFORK_436_TIME :: nat where "HARDFORK_436_TIME = 1450288800"
definition HARDFORK_445_TIME :: nat where "HARDFORK_445_TIME = 1450288800"
definition HARDFORK_555_TIME :: nat where "HARDFORK_555_TIME = 1456250400"

abbreviation maint_time :: "database \<Rightarrow> nat" where
  "maint_time d \<equiv> next_maintenance_time (dgp d)"

subsection \<open>Orders and books\<close>

definition sell_asset_id :: "limit_order_object \<Rightarrow> asset_id_type" where
  "sell_asset_id x = asset_id (base (lo_sell_price x))"

definition receive_asset_id :: "limit_order_object \<Rightarrow> asset_id_type" where
  "receive_asset_id x = asset_id (quote (lo_sell_price x))"

definition amount_for_sale :: "limit_order_object \<Rightarrow> asset" where
  "amount_for_sale x = mk_asset (lo_for_sale x) (sell_asset_id x)"

definition amount_to_receive :: "limit_order_object \<Rightarrow> asset result" where
  "amount_to_receive x = mul_price (amount_for_sale x) (lo_sell_price x)"

lemmas limit_order_defs = sell_asset_id_def receive_asset_id_def amount_for_sale_def amount_to_receive_def

definition limit_book :: "database \<Rightarrow> (nat \<times> limit_order_object) list" where
  "limit_book d = sort_rows (\<lambda>x y. price_greater (lo_sell_price x) (lo_sell_price y)) (rows (limit_orders d))"

definition call_book :: "database \<Rightarrow> (nat \<times> call_order_object) list" where
  "call_book d = sort_rows (\<lambda>x y. price_less (co_call_price x) (co_call_price y)) (rows (call_orders d))"

text \<open>From \<open>lower_bound( highest )\<close> to \<open>upper_bound( lowest )\<close> in the book of limit orders, which
  is sorted from greatest to least.\<close>

definition limit_range :: "price \<Rightarrow> price \<Rightarrow> database \<Rightarrow> nat list" where
  "limit_range highest lowest d =
     map fst (filter (\<lambda>(i, x). \<not> price_greater (lo_sell_price x) highest \<and> \<not> price_greater lowest (lo_sell_price x)) (limit_book d))"

text \<open>The margin positions of an asset, least call price first.\<close>

definition call_range :: "asset_id_type \<Rightarrow> asset_id_type \<Rightarrow> database \<Rightarrow> nat list result" where
  "call_range backing mia d =
     bind_res (price_min backing mia) (\<lambda>call_min.
     bind_res (price_max backing mia) (\<lambda>call_max.
       Inr (map fst (filter (\<lambda>(i, x). \<not> price_less (co_call_price x) call_min \<and> \<not> price_less call_max (co_call_price x)) (call_book d)))))"

subsection \<open>Objects of the market\<close>

definition bitasset_data :: "asset_object \<Rightarrow> database \<Rightarrow> asset_bitasset_data_object result" where
  "bitasset_data a d = (case bitasset_data_id a of
     None \<Rightarrow> Inl (Assert_Exception ''Asset is not a market issued asset.'') | Some i \<Rightarrow> get_obj (bitassets d) i)"

definition modify_bitasset :: "asset_object \<Rightarrow> (asset_bitasset_data_object \<Rightarrow> asset_bitasset_data_object) \<Rightarrow> database
    \<Rightarrow> database result" where
  "modify_bitasset a f d =
     (case bitasset_data_id a of
        None \<Rightarrow> Inl Not_Found
      | Some i \<Rightarrow> bind_res (modify_obj i (\<lambda>x. Inr (f x)) (bitassets d)) (\<lambda>t. Inr (d\<lparr>bitassets := t\<rparr>)))"

definition has_settlement :: "asset_bitasset_data_object \<Rightarrow> bool" where
  "has_settlement b \<longleftrightarrow> \<not> price_is_null (bd_settlement_price b)"

definition modify_stats :: "account_id_type \<Rightarrow> (account_statistics_object \<Rightarrow> account_statistics_object result)
    \<Rightarrow> database \<Rightarrow> database result" where
  "modify_stats acct f d =
     bind_res (get_obj (accounts d) acct) (\<lambda>a.
     bind_res (modify_obj (statistics a) f (account_stats d)) (\<lambda>t. Inr (d\<lparr>account_stats := t\<rparr>)))"

text \<open>Counting core in orders; the callers add or subtract.\<close>

definition sub_core_in_orders :: "fc_lib \<Rightarrow> int \<Rightarrow> account_statistics_object \<Rightarrow> account_statistics_object result" where
  "sub_core_in_orders F x s = bind_res (safe_sub F (total_core_in_orders s) x) (\<lambda>t. Inr (s\<lparr>total_core_in_orders := t\<rparr>))"

definition add_core_in_orders :: "fc_lib \<Rightarrow> int \<Rightarrow> account_statistics_object \<Rightarrow> account_statistics_object result" where
  "add_core_in_orders F x s = bind_res (safe_add F (total_core_in_orders s) x) (\<lambda>t. Inr (s\<lparr>total_core_in_orders := t\<rparr>))"

definition add_accumulated_fees :: "fc_lib \<Rightarrow> asset_id_type \<Rightarrow> int \<Rightarrow> database \<Rightarrow> database result" where
  "add_accumulated_fees F a x d =
     bind_res (get_obj (assets d) a) (\<lambda>ao.
     modify_dyn (dynamic_asset_data_id ao) (\<lambda>dyn.
       bind_res (safe_add F (accumulated_fees dyn) x) (\<lambda>s. Inr (dyn\<lparr>accumulated_fees := s\<rparr>))) d)"

subsection \<open>Fees and payments of a fill\<close>

definition calculate_market_fee :: "fc_lib \<Rightarrow> asset_object \<Rightarrow> asset \<Rightarrow> asset result" where
  "calculate_market_fee F trade_asset trade_amount =
     (if \<not> charges_market_fees trade_asset then Inr (mk_asset 0 (asset_id trade_amount))
      else if ao_market_fee_percent (options trade_asset) = 0 then Inr (mk_asset 0 (asset_id trade_amount))
      else
        bind_res (to_share F (to_u128 (amount trade_amount) * of_nat (ao_market_fee_percent (options trade_asset))
                    div of_nat GRAPHENE_100_PERCENT)) (\<lambda>percent_fee.
        Inr (mk_asset (if percent_fee > ao_max_market_fee (options trade_asset)
                       then ao_max_market_fee (options trade_asset) else percent_fee) (asset_id trade_amount))))"

definition pay_market_fees :: "fc_lib \<Rightarrow> asset \<Rightarrow> database \<Rightarrow> (asset \<times> database) result" where
  "pay_market_fees F receives d =
     bind_res (get_obj (assets d) (asset_id receives)) (\<lambda>recv_asset.
     bind_res (calculate_market_fee F recv_asset receives) (\<lambda>issuer_fees.
     bind_res (if amount issuer_fees > 0 then add_accumulated_fees F (asset_id receives) (amount issuer_fees) d else Inr d) (\<lambda>d1.
     Inr (issuer_fees, d1))))"

definition pay_order :: "fc_lib \<Rightarrow> account_id_type \<Rightarrow> asset \<Rightarrow> asset \<Rightarrow> database \<Rightarrow> database result" where
  "pay_order F receiver receives pays d =
     bind_res (modify_stats receiver (\<lambda>s. if asset_id pays = 0 then sub_core_in_orders F (amount pays) s else Inr s) d) (\<lambda>d1.
     adjust_balance F receiver receives d1)"

subsection \<open>Cancelling\<close>

text \<open>The part of the deferred fee that is charged when the chain cancels an order: the remaining deferred
  fee in core and in the asset it was paid in.\<close>

definition charge_cancel_fee :: "fc_lib \<Rightarrow> limit_order_object \<Rightarrow> database \<Rightarrow> (int \<times> asset \<times> database) result" where
  "charge_cancel_fee F order d =
     bind_res (limit_order_cancel_fee F d) (\<lambda>fee.
     let core_cancel_fee = (if amount fee > lo_deferred_fee order then lo_deferred_fee order else amount fee) in
     if core_cancel_fee > 0 then
       bind_res (modify_stats (lo_seller order)
           (statistics_pay_fee F core_cancel_fee (cashback_vesting_threshold (parameters d))) d) (\<lambda>d1.
       bind_res (safe_sub F (lo_deferred_fee order) core_cancel_fee) (\<lambda>deferred_fee.
       if amount (lo_deferred_paid_fee order) = 0 then Inr (deferred_fee, lo_deferred_paid_fee order, d1)
       else
         bind_res (to_share F ((to_u128 (amount (lo_deferred_paid_fee order)) * to_u128 core_cancel_fee
                      + to_u128 (lo_deferred_fee order) - 1) div to_u128 (lo_deferred_fee order))) (\<lambda>cancel_fee_amount.
         bind_res (add_accumulated_fees F (asset_id (lo_deferred_paid_fee order)) cancel_fee_amount d1) (\<lambda>d2.
         bind_res (safe_sub F (amount (lo_deferred_paid_fee order)) cancel_fee_amount) (\<lambda>paid.
           Inr (deferred_fee, mk_asset paid (asset_id (lo_deferred_paid_fee order)), d2))))))
     else Inr (lo_deferred_fee order, lo_deferred_paid_fee order, d))"

definition cancel_limit_order :: "fc_lib \<Rightarrow> nat \<Rightarrow> bool \<Rightarrow> bool \<Rightarrow> database \<Rightarrow> database result" where
  "cancel_limit_order F order_id create_virtual_op skip_cancel_fee d =
     bind_res (tbl_get (limit_orders d) order_id) (\<lambda>order.
     bind_res
       (if create_virtual_op \<and> \<not> skip_cancel_fee \<and> lo_deferred_fee order > 0 then charge_cancel_fee F order d
        else Inr (lo_deferred_fee order, lo_deferred_paid_fee order, d)) (\<lambda>(deferred_fee, deferred_paid_fee, d1).
     bind_res
       (if sell_asset_id order = 0 then modify_stats (lo_seller order) (sub_core_in_orders F (lo_for_sale order)) d1
        else Inr d1) (\<lambda>d2.
     bind_res (adjust_balance F (lo_seller order) (amount_for_sale order) d2) (\<lambda>d3.
     bind_res
       (if amount (lo_deferred_paid_fee order) = 0 then adjust_balance F (lo_seller order) (mk_asset deferred_fee 0) d3
        else
          bind_res (adjust_balance F (lo_seller order) deferred_paid_fee d3) (\<lambda>d4.
          bind_res (get_obj (assets d4) (asset_id deferred_paid_fee)) (\<lambda>fee_asset.
          modify_dyn (dynamic_asset_data_id fee_asset) (\<lambda>dyn.
            bind_res (safe_add F (fee_pool dyn) deferred_fee) (\<lambda>s. Inr (dyn\<lparr>fee_pool := s\<rparr>))) d4))) (\<lambda>d5.
     Inr (d5\<lparr>limit_orders := tbl_remove order_id (limit_orders d5)\<rparr>))))))"

definition maybe_cull_small_order :: "fc_lib \<Rightarrow> nat \<Rightarrow> database \<Rightarrow> (bool \<times> database) result" where
  "maybe_cull_small_order F order_id d =
     bind_res (tbl_get (limit_orders d) order_id) (\<lambda>order.
     bind_res (amount_to_receive order) (\<lambda>r.
     if amount r = 0 then
       bind_res
         (if lo_deferred_fee order > 0 \<and> head_block_time d \<le> HARDFORK_CORE_604_TIME
          then cancel_limit_order F order_id True True d
          else cancel_limit_order F order_id True False d) (\<lambda>d1. Inr (True, d1))
     else Inr (False, d)))"

definition cancel_settle_order :: "fc_lib \<Rightarrow> nat \<Rightarrow> database \<Rightarrow> database result" where
  "cancel_settle_order F i d =
     bind_res (tbl_get (settle_orders d) i) (\<lambda>order.
     bind_res (adjust_balance F (fs_owner order) (fs_balance order) d) (\<lambda>d1.
     Inr (d1\<lparr>settle_orders := tbl_remove i (settle_orders d1)\<rparr>)))"

definition cancel_bid :: "fc_lib \<Rightarrow> nat \<Rightarrow> database \<Rightarrow> database result" where
  "cancel_bid F i d =
     bind_res (tbl_get (collateral_bids d) i) (\<lambda>bid.
     bind_res (adjust_balance F (cbo_bidder bid) (base (cbo_inv_swan_price bid)) d) (\<lambda>d1.
     Inr (d1\<lparr>collateral_bids := tbl_remove i (collateral_bids d1)\<rparr>)))"

subsection \<open>Filling\<close>

definition fill_limit_order :: "fc_lib \<Rightarrow> nat \<Rightarrow> asset \<Rightarrow> asset \<Rightarrow> bool \<Rightarrow> database \<Rightarrow> (bool \<times> database) result" where
  "fill_limit_order F order_id pays receives cull d =
     (let cull_if_small = (cull \<or> head_block_time d < HARDFORK_555_TIME) in
      bind_res (tbl_get (limit_orders d) order_id) (\<lambda>order.
      require (sell_asset_id order = asset_id pays) ''order.amount_for_sale().asset_id == pays.asset_id''
     (require (asset_id pays \<noteq> asset_id receives) ''pays.asset_id != receives.asset_id''
     (bind_res (pay_market_fees F receives d) (\<lambda>(issuer_fees, d1).
      bind_res (asset_minus F receives issuer_fees) (\<lambda>net.
      bind_res (pay_order F (lo_seller order) net pays d1) (\<lambda>d2.
      bind_res
        (if lo_deferred_fee order > 0 then
           modify_stats (lo_seller order)
             (statistics_pay_fee F (lo_deferred_fee order) (cashback_vesting_threshold (parameters d2))) d2
         else Inr d2) (\<lambda>d3.
      bind_res
        (if amount (lo_deferred_paid_fee order) > 0 then
           add_accumulated_fees F (asset_id (lo_deferred_paid_fee order)) (amount (lo_deferred_paid_fee order)) d3
         else Inr d3) (\<lambda>d4.
      if pays = amount_for_sale order then Inr (True, d4\<lparr>limit_orders := tbl_remove order_id (limit_orders d4)\<rparr>)
      else
        bind_res (safe_sub F (lo_for_sale order) (amount pays)) (\<lambda>left.
        let d5 = d4\<lparr>limit_orders := tbl_set order_id (order\<lparr>lo_for_sale := left, lo_deferred_fee := 0,
                      lo_deferred_paid_fee := mk_asset 0 (asset_id (lo_deferred_paid_fee order))\<rparr>) (limit_orders d4)\<rparr> in
        if cull_if_small then maybe_cull_small_order F order_id d5 else Inr (False, d5)))))))))))"

definition fill_call_order :: "fc_lib \<Rightarrow> nat \<Rightarrow> asset \<Rightarrow> asset \<Rightarrow> database \<Rightarrow> (bool \<times> database) result" where
  "fill_call_order F i pays receives d =
     bind_res (tbl_get (call_orders d) i) (\<lambda>order.
     require (debt_type order = asset_id receives) ''order.get_debt().asset_id == receives.asset_id''
    (require (collateral_type order = asset_id pays) ''order.get_collateral().asset_id == pays.asset_id''
    (bind_res (asset_ge (get_collateral order) pays) (\<lambda>enough.
     require enough ''order.get_collateral() >= pays''
    (bind_res (get_obj (assets d) (asset_id receives)) (\<lambda>mia.
     require (is_market_issued mia) ''mia.is_market_issued()''
    (bind_res (safe_sub F (co_debt order) (amount receives)) (\<lambda>new_debt.
     bind_res (safe_sub F (co_collateral order) (amount pays)) (\<lambda>left.
     let collateral_freed = (new_debt = 0);
         order1 = order\<lparr>co_debt := new_debt, co_collateral := (if collateral_freed then 0 else left)\<rparr> in
     bind_res
       (if \<not> collateral_freed \<and> maint_time d > HARDFORK_CORE_343_TIME then
          bind_res (bitasset_data mia d) (\<lambda>b.
          bind_res (call_price (get_debt order1) (get_collateral order1) (maintenance_collateral_ratio (bd_current_feed b))) (\<lambda>p.
          Inr (order1\<lparr>co_call_price := p\<rparr>)))
        else Inr order1) (\<lambda>order2.
     let d1 = d\<lparr>call_orders := tbl_set i order2 (call_orders d)\<rparr> in
     bind_res (modify_dyn (dynamic_asset_data_id mia) (\<lambda>dyn.
       bind_res (safe_sub F (current_supply dyn) (amount receives)) (\<lambda>s. Inr (dyn\<lparr>current_supply := s\<rparr>))) d1) (\<lambda>d2.
     bind_res (get_obj (accounts d2) (co_borrower order)) (\<lambda>_.
     bind_res
       (if collateral_freed \<or> asset_id pays = 0 then
          bind_res (if collateral_freed then adjust_balance F (co_borrower order) (mk_asset left (collateral_type order)) d2 else Inr d2) (\<lambda>d3.
          modify_stats (co_borrower order) (\<lambda>s.
            bind_res (if collateral_freed \<and> left > 0 \<and> collateral_type order = 0 then sub_core_in_orders F left s else Inr s) (\<lambda>s1.
            if asset_id pays = 0 then sub_core_in_orders F (amount pays) s1 else Inr s1)) d3)
        else Inr d2) (\<lambda>d4.
     Inr (collateral_freed,
          if collateral_freed then d4\<lparr>call_orders := tbl_remove i (call_orders d4)\<rparr> else d4))))))))))))))"

definition fill_settle_order :: "fc_lib \<Rightarrow> nat \<Rightarrow> asset \<Rightarrow> asset \<Rightarrow> database \<Rightarrow> (bool \<times> database) result" where
  "fill_settle_order F i pays receives d =
     bind_res (tbl_get (settle_orders d) i) (\<lambda>settle.
     bind_res (pay_market_fees F receives d) (\<lambda>(issuer_fees, d1).
     bind_res (asset_less pays (fs_balance settle)) (\<lambda>partial_fill.
     bind_res
       (if partial_fill then
          bind_res (asset_minus F (fs_balance settle) pays) (\<lambda>b.
          Inr (d1\<lparr>settle_orders := tbl_set i (settle\<lparr>fs_balance := b\<rparr>) (settle_orders d1)\<rparr>))
        else Inr d1) (\<lambda>d2.
     bind_res (asset_minus F receives issuer_fees) (\<lambda>net.
     bind_res (adjust_balance F (fs_owner settle) net d2) (\<lambda>d3.
     Inr (\<not> partial_fill,
          if partial_fill then d3 else d3\<lparr>settle_orders := tbl_remove i (settle_orders d3)\<rparr>)))))))"

end
