(* ===== verification/Market_Ledger.thy ===== *)
theory Market_Ledger
  imports Conservation Market
begin

text \<open>
  The market keeps the books.  Every step of the market moves amounts between balances, orders, positions,
  settlement requests, bids, funds and fees; \<open>shift\<close> says by how much a step changes the difference
  between the recorded supply of an asset and what is held of it. A fill of an order shifts it by what the
  order pays, less what it receives; the two fills of a match cancel out.
\<close>

subsection \<open>Well-formed markets\<close>

definition backing_of :: "database \<Rightarrow> asset_id_type \<Rightarrow> asset_id_type option" where
  "backing_of d a =
     (if a < length (assets d) then
        (case bitasset_data_id (assets d ! a) of
           None \<Rightarrow> None
         | Some i \<Rightarrow> if i < length (bitassets d) then Some (bo_short_backing_asset (bd_options (bitassets d ! i))) else None)
      else None)"

definition order_wf :: "database \<Rightarrow> limit_order_object \<Rightarrow> bool" where
  "order_wf d x \<longleftrightarrow> lo_seller x < length (accounts d) \<and> 0 \<le> lo_deferred_fee x \<and> 0 \<le> amount (lo_deferred_paid_fee x)
     \<and> in_int64 (lo_for_sale x)"

definition call_wf :: "database \<Rightarrow> call_order_object \<Rightarrow> bool" where
  "call_wf d c \<longleftrightarrow> backing_of d (debt_type c) = Some (collateral_type c)"

definition bid_wf :: "database \<Rightarrow> collateral_bid_object \<Rightarrow> bool" where
  "bid_wf d x \<longleftrightarrow> cbo_bidder x < length (accounts d)
     \<and> backing_of d (asset_id (quote (cbo_inv_swan_price x))) = Some (asset_id (base (cbo_inv_swan_price x)))"

text \<open>The settlement prices of the published feeds and of their median are valid or null; at least one feed is needed for a median.\<close>

definition feed_wf :: "asset_bitasset_data_object \<Rightarrow> bool" where
  "feed_wf b \<longleftrightarrow> 0 < bo_minimum_feeds (bd_options b)
     \<and> (\<forall>(k, t, f)\<in>set (bd_feeds b). price_is_null (settlement_price f) \<or> price_ok (settlement_price f))
     \<and> (price_is_null (settlement_price (bd_current_feed b)) \<or> price_ok (settlement_price (bd_current_feed b)))"

text \<open>An asset that is not settled has no settlement fund; the settlement price of one that is settled is between the asset and its backing.\<close>

definition fund_wf :: "database \<Rightarrow> nat \<Rightarrow> asset_bitasset_data_object \<Rightarrow> bool" where
  "fund_wf d i b \<longleftrightarrow> feed_wf b \<and>
     (if has_settlement b then
        asset_id (base (bd_settlement_price b)) < length (assets d)
        \<and> bitasset_data_id (assets d ! asset_id (base (bd_settlement_price b))) = Some i
        \<and> asset_id (quote (bd_settlement_price b)) = bo_short_backing_asset (bd_options b)
        \<and> asset_id (base (bd_settlement_price b)) \<noteq> asset_id (quote (bd_settlement_price b))
      else bd_settlement_fund b = 0)"

definition fee_options_wf :: "asset_object \<Rightarrow> bool" where
  "fee_options_wf a \<longleftrightarrow> ao_market_fee_percent (options a) \<le> GRAPHENE_100_PERCENT \<and> 0 \<le> ao_max_market_fee (options a)"

text \<open>The bitasset data of an asset exists and belongs to no other asset.\<close>

definition own_data :: "database \<Rightarrow> bool" where
  "own_data d \<longleftrightarrow> (\<forall>a i. a < length (assets d) \<and> bitasset_data_id (assets d ! a) = Some i \<longrightarrow>
     i < length (bitassets d) \<and> (\<forall>b<length (assets d). bitasset_data_id (assets d ! b) = Some i \<longrightarrow> b = a))"

definition market_wf :: "database \<Rightarrow> bool" where
  "market_wf d \<longleftrightarrow> dyn_wf d \<and> own_data d \<and> tbl_wf (limit_orders d) \<and> tbl_wf (call_orders d) \<and> tbl_wf (settle_orders d) \<and> tbl_wf (collateral_bids d)
     \<and> (\<forall>i x. tbl_find (limit_orders d) i = Some x \<longrightarrow> order_wf d x)
     \<and> (\<forall>i x. tbl_find (call_orders d) i = Some x \<longrightarrow> call_wf d x)
     \<and> (\<forall>i x. tbl_find (settle_orders d) i = Some x \<longrightarrow> fs_owner x < length (accounts d))
     \<and> (\<forall>i x. tbl_find (collateral_bids d) i = Some x \<longrightarrow> bid_wf d x)
     \<and> (\<forall>i<length (bitassets d). fund_wf d i (bitassets d ! i))
     \<and> (\<forall>a\<in>set (assets d). fee_options_wf a \<and> issuer a < length (accounts d))"

lemma market_parts [simp]:
  "backing_of (d\<lparr>balances := m\<rparr>) = backing_of d" "backing_of (d\<lparr>asset_dyn := t\<rparr>) = backing_of d"
  "backing_of (d\<lparr>account_stats := s\<rparr>) = backing_of d" "backing_of (d\<lparr>limit_orders := lt\<rparr>) = backing_of d"
  "backing_of (d\<lparr>call_orders := ct\<rparr>) = backing_of d" "backing_of (d\<lparr>settle_orders := st\<rparr>) = backing_of d"
  "backing_of (d\<lparr>collateral_bids := bt\<rparr>) = backing_of d"
  by (simp_all add: backing_of_def fun_eq_iff split: option.split)

lemma feed_parts [simp]:
  "feed_wf (b\<lparr>bd_settlement_price := p\<rparr>) = feed_wf b" "feed_wf (b\<lparr>bd_settlement_fund := x\<rparr>) = feed_wf b"
  "feed_wf (b\<lparr>bd_force_settled_volume := v\<rparr>) = feed_wf b"
  "feed_wf (b\<lparr>bd_current_feed_publication_time := pt\<rparr>) = feed_wf b"
  by (simp_all add: feed_wf_def)

lemma own_data_parts [simp]:
  "own_data (d\<lparr>balances := m\<rparr>) = own_data d" "own_data (d\<lparr>asset_dyn := t\<rparr>) = own_data d"
  "own_data (d\<lparr>account_stats := s\<rparr>) = own_data d" "own_data (d\<lparr>limit_orders := lt\<rparr>) = own_data d"
  "own_data (d\<lparr>call_orders := ct\<rparr>) = own_data d" "own_data (d\<lparr>settle_orders := st\<rparr>) = own_data d"
  "own_data (d\<lparr>collateral_bids := bt\<rparr>) = own_data d"
  "length bs = length (bitassets d) \<Longrightarrow> own_data (d\<lparr>bitassets := bs\<rparr>) = own_data d"
  by (simp_all add: own_data_def)

lemma fund_parts [simp]:
  "fund_wf (d\<lparr>balances := m\<rparr>) = fund_wf d" "fund_wf (d\<lparr>asset_dyn := t\<rparr>) = fund_wf d"
  "fund_wf (d\<lparr>account_stats := s\<rparr>) = fund_wf d" "fund_wf (d\<lparr>limit_orders := lt\<rparr>) = fund_wf d"
  "fund_wf (d\<lparr>call_orders := ct\<rparr>) = fund_wf d" "fund_wf (d\<lparr>settle_orders := st\<rparr>) = fund_wf d"
  "fund_wf (d\<lparr>collateral_bids := bt\<rparr>) = fund_wf d" "fund_wf (d\<lparr>bitassets := bs\<rparr>) = fund_wf d"
  by (simp_all add: fund_wf_def fun_eq_iff)

text \<open>What no market step changes.\<close>

definition book_frame :: "database \<Rightarrow> database \<Rightarrow> bool" where
  "book_frame d e \<longleftrightarrow> assets e = assets d \<and> accounts e = accounts d \<and> map bd_options (bitassets e) = map bd_options (bitassets d)
     \<and> dgp e = dgp d \<and> head_block_time e = head_block_time d \<and> parameters e = parameters d \<and> investments e = investments d"

definition shift :: "asset_id_type \<Rightarrow> asset_id_type \<Rightarrow> database \<Rightarrow> database \<Rightarrow> int \<Rightarrow> bool" where
  "shift khd y d e \<delta> \<longleftrightarrow> market_wf e \<and> book_frame d e \<and> unaccounted khd e y = unaccounted khd d y + \<delta>"

text \<open>Steps that touch only balances, the dynamic data of assets and the statistics of accounts.\<close>

definition quiet :: "database \<Rightarrow> database \<Rightarrow> bool" where
  "quiet d e \<longleftrightarrow> (\<exists>m t s. e = d\<lparr>balances := m, asset_dyn := t, account_stats := s\<rparr> \<and> length t = length (asset_dyn d))"

lemma quiet_fields:
  assumes "quiet d e"
  shows "assets e = assets d" "accounts e = accounts d" "bitassets e = bitassets d" "limit_orders e = limit_orders d"
    "call_orders e = call_orders d" "settle_orders e = settle_orders d" "collateral_bids e = collateral_bids d"
    "dgp e = dgp d" "head_block_time e = head_block_time d" "parameters e = parameters d" "length (asset_dyn e) = length (asset_dyn d)"
    "investments e = investments d"
  using assms by (auto simp: quiet_def)

lemma quiet_refl [simp]: "quiet d d"
  unfolding quiet_def by (intro exI [of _ "balances d"] exI [of _ "asset_dyn d"] exI [of _ "account_stats d"]) simp

lemma quiet_trans: "quiet d e \<Longrightarrow> quiet e f \<Longrightarrow> quiet d f"
  unfolding quiet_def by (elim exE conjE) (simp, metis)

lemma quiet_frame: "quiet d e \<Longrightarrow> book_frame d e"
  by (simp add: book_frame_def quiet_fields)

lemma quiet_wf: "quiet d e \<Longrightarrow> market_wf d \<Longrightarrow> market_wf e"
  unfolding quiet_def by (elim exE conjE) (simp add: market_wf_def dyn_wf_def order_wf_def call_wf_def bid_wf_def)

lemma book_frame_refl [simp]: "book_frame d d"
  by (simp add: book_frame_def)

lemma book_frame_trans: "book_frame d e \<Longrightarrow> book_frame e f \<Longrightarrow> book_frame d f"
  by (simp add: book_frame_def)

lemma book_frame_backing:
  assumes "book_frame d e"
  shows "backing_of e = backing_of d"
proof
  fix a
  have "map bd_options (bitassets e) = map bd_options (bitassets d)" using assms by (simp add: book_frame_def)
  then have len: "length (bitassets e) = length (bitassets d)" and nth: "i < length (bitassets d) \<Longrightarrow> bd_options (bitassets e ! i) = bd_options (bitassets d ! i)" for i
    by (metis length_map, metis length_map nth_map)
  have "assets e = assets d" using assms by (simp add: book_frame_def)
  then show "backing_of e a = backing_of d a" by (simp add: backing_of_def len nth split: option.split)
qed

lemma shift_refl [simp]: "market_wf d \<Longrightarrow> shift khd y d d 0"
  by (simp add: shift_def)

lemma shift_trans: "shift khd y d e a \<Longrightarrow> shift khd y e f b \<Longrightarrow> shift khd y d f (a + b)"
  by (auto simp: shift_def intro: book_frame_trans)

lemma shiftD: "shift khd y d e a \<Longrightarrow> market_wf e \<and> book_frame d e \<and> assets e = assets d \<and> accounts e = accounts d \<and> dgp e = dgp d"
  by (simp add: shift_def book_frame_def)

lemma quiet_shiftI:
  "quiet d e \<Longrightarrow> market_wf d \<Longrightarrow> unaccounted khd e y = unaccounted khd d y + \<delta> \<Longrightarrow> shift khd y d e \<delta>"
  by (simp add: shift_def quiet_wf quiet_frame)

subsection \<open>Primitive steps\<close>

lemma quiet_balances [simp]: "quiet d (d\<lparr>balances := m\<rparr>)"
  unfolding quiet_def by (intro exI [of _ m] exI [of _ "asset_dyn d"] exI [of _ "account_stats d"]) simp

lemma quiet_stats [simp]: "quiet d (d\<lparr>account_stats := s\<rparr>)"
  unfolding quiet_def by (intro exI [of _ "balances d"] exI [of _ "asset_dyn d"] exI [of _ s]) simp

lemma quiet_dyn [simp]: "quiet d (d\<lparr>asset_dyn := (asset_dyn d)[i := x]\<rparr>)"
  unfolding quiet_def by (intro exI [of _ "balances d"] exI [of _ "(asset_dyn d)[i := x]"] exI [of _ "account_stats d"]) simp

text \<open>A change of the dynamic data of an asset.\<close>

definition dyn_shift :: "asset_id_type \<Rightarrow> asset_id_type \<Rightarrow> asset_id_type \<Rightarrow> asset_dynamic_data_object \<Rightarrow> asset_dynamic_data_object \<Rightarrow> int" where
  "dyn_shift khd y a x x' = (if y = a then dyn_net x' - dyn_net x else 0) - (if y = 0 then fee_pool x' - fee_pool x else 0)
     - (if y = khd then financing_current_supply x' - financing_current_supply x else 0)"

lemma modify_dyn_shift:
  assumes "modify_dyn (dynamic_asset_data_id (assets d ! a)) f d = Inr e" "market_wf d" "a < length (assets d)" "y < length (assets d)"
  obtains x' where "f (dyn_of d a) = Inr x'" "shift khd y d e (dyn_shift khd y a (dyn_of d a) x')" "quiet d e"
    "dyn_of e a = x'" "\<And>b. b < length (assets d) \<Longrightarrow> b \<noteq> a \<Longrightarrow> dyn_of e b = dyn_of d b"
proof -
  let ?i = "dynamic_asset_data_id (assets d ! a)"
  have wf: "dyn_wf d" using assms(2) by (simp add: market_wf_def)
  from assms(1) obtain x' where x': "f (dyn_of d a) = Inr x'" "e = d\<lparr>asset_dyn := (asset_dyn d)[?i := x']\<rparr>"
    by (auto simp: modify_dyn_def dyn_of_def)
  have u: "unaccounted khd e y = unaccounted khd d y + dyn_shift khd y a (dyn_of d a) x'"
    using unaccounted_dyn [OF wf assms(3,4) refl, of khd x'] by (simp add: x'(2) dyn_shift_def)
  have "quiet d e" by (simp add: x'(2))
  moreover have "dyn_of e b = (if b = a then x' else dyn_of d b)" if "b < length (assets d)" for b
    using dyn_of_update [OF wf assms(3) that, of x'] by (simp add: x'(2) dyn_of_def)
  ultimately show ?thesis using that x'(1) quiet_shiftI [OF \<open>quiet d e\<close> assms(2) u] assms(3) by simp
qed

lemma modify_stats_shift:
  assumes "modify_stats acct f d = Inr e" "market_wf d"
    and "\<And>s s'. f s = Inr s' \<Longrightarrow> pending_fees s' + pending_vested_fees s' = pending_fees s + pending_vested_fees s + k"
  shows "shift khd y d e (- (if y = 0 then k else 0))" "quiet d e" "acct < length (accounts d)"
proof -
  let ?i = "statistics (accounts d ! acct)"
  from assms(1) obtain s' where s': "acct < length (accounts d)" "?i < length (account_stats d)" "f (account_stats d ! ?i) = Inr s'"
    "e = d\<lparr>account_stats := (account_stats d)[?i := s']\<rparr>"
    by (auto simp: modify_stats_def)
  show "quiet d e" "acct < length (accounts d)" by (simp_all add: s')
  have "unaccounted khd e y = unaccounted khd d y + - (if y = 0 then k else 0)"
    using unaccounted_stats [OF s'(2), of khd s' y] assms(3) [OF s'(3)] by (simp add: s'(4))
  with \<open>quiet d e\<close> assms(2) show "shift khd y d e (- (if y = 0 then k else 0))" by (rule quiet_shiftI)
qed

context fc_arith
begin

lemma core_in_orders_pending:
  "sub_core_in_orders F x s = Inr s' \<Longrightarrow> pending_fees s' + pending_vested_fees s' = pending_fees s + pending_vested_fees s"
  "add_core_in_orders F x s = Inr s' \<Longrightarrow> pending_fees s' + pending_vested_fees s' = pending_fees s + pending_vested_fees s"
  "statistics_pay_fee F k t s = Inr s' \<Longrightarrow> pending_fees s' + pending_vested_fees s' = pending_fees s + pending_vested_fees s + k"
  by (auto simp: sub_core_in_orders_def add_core_in_orders_def statistics_pay_fee_def fc_iffs split: if_splits)

lemma adjust_shift:
  assumes "adjust_balance F a x d = Inr e" "market_wf d" "a < length (accounts d)"
  shows "shift khd y d e (- in_asset y x)" "quiet d e"
proof -
  obtain m where m: "e = d\<lparr>balances := m\<rparr>" using adjust_balance_only [OF assms(1)] by blast
  then show "quiet d e" by simp
  then show "shift khd y d e (- in_asset y x)"
    using unaccounted_adjust [OF assms(1,3), of khd y] assms(2) by (intro quiet_shiftI) (auto simp: in_asset_def)
qed

lemma deduct_shift:
  assumes "deduct_balance F a x d = Inr e" "market_wf d" "a < length (accounts d)"
  shows "shift khd y d e (in_asset y x)" "quiet d e"
proof -
  obtain m where m: "e = d\<lparr>balances := m\<rparr>" using deduct_balance_only [OF assms(1)] by blast
  then show "quiet d e" by simp
  then show "shift khd y d e (in_asset y x)"
    using unaccounted_deduct [OF assms(1,3), of khd y] assms(2) by (intro quiet_shiftI) (auto simp: in_asset_def)
qed

lemma accumulated_shift:
  assumes "add_accumulated_fees F a x d = Inr e" "market_wf d" "y < length (assets d)"
  shows "shift khd y d e (- (if y = a then x else 0))" "quiet d e"
proof -
  from assms(1) have a: "a < length (assets d)" and m: "modify_dyn (dynamic_asset_data_id (assets d ! a)) (\<lambda>dyn.
       bind_res (safe_add F (accumulated_fees dyn) x) (\<lambda>s. Inr (dyn\<lparr>accumulated_fees := s\<rparr>))) d = Inr e"
    by (auto simp: add_accumulated_fees_def)
  obtain x' where x': "bind_res (safe_add F (accumulated_fees (dyn_of d a)) x) (\<lambda>s. Inr ((dyn_of d a)\<lparr>accumulated_fees := s\<rparr>)) = Inr x'"
    and sh: "shift khd y d e (dyn_shift khd y a (dyn_of d a) x')" "quiet d e"
    by (rule modify_dyn_shift [OF m assms(2) a assms(3), of khd])
  show "quiet d e" by (rule sh)
  have "dyn_shift khd y a (dyn_of d a) x' = - (if y = a then x else 0)"
    using x' by (auto simp: fc_iffs dyn_shift_def dyn_net_def)
  with sh(1) show "shift khd y d e (- (if y = a then x else 0))" by simp
qed

end

subsection \<open>Changes of the tables\<close>

lemma unaccounted_limit_orders:
  "unaccounted khd (d\<lparr>limit_orders := t\<rparr>) y = unaccounted khd d y + tbl_sum (order_held y) (limit_orders d) - tbl_sum (order_held y) t"
  by (simp add: unaccounted_defs)

lemma unaccounted_call_orders:
  "unaccounted khd (d\<lparr>call_orders := t\<rparr>) y = unaccounted khd d y + tbl_sum (call_held y) (call_orders d) - tbl_sum (call_held y) t"
  by (simp add: unaccounted_defs)

lemma unaccounted_settle_orders:
  "unaccounted khd (d\<lparr>settle_orders := t\<rparr>) y = unaccounted khd d y + tbl_sum (\<lambda>s. in_asset y (fs_balance s)) (settle_orders d)
     - tbl_sum (\<lambda>s. in_asset y (fs_balance s)) t"
  by (simp add: unaccounted_defs)

lemma unaccounted_bids:
  "unaccounted khd (d\<lparr>collateral_bids := t\<rparr>) y = unaccounted khd d y + tbl_sum (\<lambda>b. in_asset y (base (cbo_inv_swan_price b))) (collateral_bids d)
     - tbl_sum (\<lambda>b. in_asset y (base (cbo_inv_swan_price b))) t"
  by (simp add: unaccounted_defs)

lemma limit_orders_shift:
  assumes "market_wf d" "tbl_wf t" "\<And>i x. tbl_find t i = Some x \<Longrightarrow> order_wf d x"
  shows "shift khd y d (d\<lparr>limit_orders := t\<rparr>) (tbl_sum (order_held y) (limit_orders d) - tbl_sum (order_held y) t)"
  using assms by (simp add: shift_def unaccounted_limit_orders book_frame_def market_wf_def dyn_wf_def order_wf_def call_wf_def bid_wf_def)

lemma call_orders_shift:
  assumes "market_wf d" "tbl_wf t" "\<And>i x. tbl_find t i = Some x \<Longrightarrow> call_wf d x"
  shows "shift khd y d (d\<lparr>call_orders := t\<rparr>) (tbl_sum (call_held y) (call_orders d) - tbl_sum (call_held y) t)"
  using assms by (simp add: shift_def unaccounted_call_orders book_frame_def market_wf_def dyn_wf_def order_wf_def call_wf_def bid_wf_def)

lemma settle_orders_shift:
  assumes "market_wf d" "tbl_wf t" "\<And>i x. tbl_find t i = Some x \<Longrightarrow> fs_owner x < length (accounts d)"
  shows "shift khd y d (d\<lparr>settle_orders := t\<rparr>) (tbl_sum (\<lambda>s. in_asset y (fs_balance s)) (settle_orders d) - tbl_sum (\<lambda>s. in_asset y (fs_balance s)) t)"
  using assms by (simp add: shift_def unaccounted_settle_orders book_frame_def market_wf_def dyn_wf_def order_wf_def call_wf_def bid_wf_def)

lemma bids_shift:
  assumes "market_wf d" "tbl_wf t" "\<And>i x. tbl_find t i = Some x \<Longrightarrow> bid_wf d x"
  shows "shift khd y d (d\<lparr>collateral_bids := t\<rparr>) (tbl_sum (\<lambda>b. in_asset y (base (cbo_inv_swan_price b))) (collateral_bids d)
     - tbl_sum (\<lambda>b. in_asset y (base (cbo_inv_swan_price b))) t)"
  using assms by (simp add: shift_def unaccounted_bids book_frame_def market_wf_def dyn_wf_def order_wf_def call_wf_def bid_wf_def)

lemmas market_wfD = market_wf_def [THEN iffD1]

lemma market_owners:
  assumes "market_wf d"
  shows "tbl_find (limit_orders d) i = Some x1 \<Longrightarrow> order_wf d x1" "tbl_find (call_orders d) i = Some x2 \<Longrightarrow> call_wf d x2"
    "tbl_find (settle_orders d) i = Some x3 \<Longrightarrow> fs_owner x3 < length (accounts d)"
    "tbl_find (collateral_bids d) i = Some x4 \<Longrightarrow> bid_wf d x4"
    "i < length (bitassets d) \<Longrightarrow> fund_wf d i (bitassets d ! i)"
    "a \<in> set (assets d) \<Longrightarrow> fee_options_wf a \<and> issuer a < length (accounts d)"
  using assms by (simp_all add: market_wf_def)

lemma market_tables_wf:
  assumes "market_wf d"
  shows "tbl_wf (limit_orders d)" "tbl_wf (call_orders d)" "tbl_wf (settle_orders d)" "tbl_wf (collateral_bids d)" "dyn_wf d" "own_data d"
  using assms by (simp_all add: market_wf_def)

text \<open>Removing, changing and adding a row, for any of the tables.\<close>

lemma table_shifts:
  assumes change: "\<And>t. tbl_wf t \<Longrightarrow> (\<And>i x. tbl_find t i = Some x \<Longrightarrow> Q x) \<Longrightarrow> shift khd y d (U t) (tbl_sum h T - tbl_sum h t)"
    and wf: "tbl_wf T" and own: "\<And>i x. tbl_find T i = Some x \<Longrightarrow> Q x"
  shows "tbl_find T i = Some x \<Longrightarrow> shift khd y d (U (tbl_remove i T)) (h x)"
    and "tbl_find T i = Some x \<Longrightarrow> Q x' \<Longrightarrow> shift khd y d (U (tbl_set i x' T)) (h x - h x')"
    and "Q x' \<Longrightarrow> shift khd y d (U (tbl_create x' T)) (- h x')"
proof -
  have "shift khd y d (U (tbl_remove i T)) (tbl_sum h T - tbl_sum h (tbl_remove i T))"
    by (rule change [OF tbl.wf_remove [OF wf]]) (auto simp: tbl.find_remove split: if_splits intro: own)
  then show "tbl_find T i = Some x \<Longrightarrow> shift khd y d (U (tbl_remove i T)) (h x)" by (simp add: tbl.total_remove [OF wf])
  have "shift khd y d (U (tbl_set i x' T)) (tbl_sum h T - tbl_sum h (tbl_set i x' T))" if "Q x'"
    by (rule change [OF tbl.wf_set [OF wf]]) (use that in \<open>auto simp: tbl.find_set split: if_splits intro: own\<close>)
  then show "tbl_find T i = Some x \<Longrightarrow> Q x' \<Longrightarrow> shift khd y d (U (tbl_set i x' T)) (h x - h x')"
    by (simp add: tbl.total_set [OF wf] algebra_simps)
  have "shift khd y d (U (tbl_create x' T)) (tbl_sum h T - tbl_sum h (tbl_create x' T))" if "Q x'"
    by (rule change [OF tbl.wf_create [OF wf]]) (use that in \<open>auto simp: tbl.find_create [OF wf] split: if_splits intro: own\<close>)
  then show "Q x' \<Longrightarrow> shift khd y d (U (tbl_create x' T)) (- h x')" by (simp add: tbl.total_create)
qed

lemma limit_table_shifts:
  assumes "market_wf d"
  shows "tbl_find (limit_orders d) i = Some x \<Longrightarrow> shift khd y d (d\<lparr>limit_orders := tbl_remove i (limit_orders d)\<rparr>) (order_held y x)"
    and "tbl_find (limit_orders d) i = Some x \<Longrightarrow> order_wf d x' \<Longrightarrow>
      shift khd y d (d\<lparr>limit_orders := tbl_set i x' (limit_orders d)\<rparr>) (order_held y x - order_held y x')"
    and "order_wf d x' \<Longrightarrow> shift khd y d (d\<lparr>limit_orders := tbl_create x' (limit_orders d)\<rparr>) (- (order_held y x'))"
  using table_shifts [where U = "\<lambda>t. d\<lparr>limit_orders := t\<rparr>" and h = "order_held y" and Q = "\<lambda>x. order_wf d x",
      OF limit_orders_shift [OF assms] market_tables_wf(1) [OF assms] market_owners(1) [OF assms]] by simp_all

lemma call_table_shifts:
  assumes "market_wf d"
  shows "tbl_find (call_orders d) i = Some x \<Longrightarrow> shift khd y d (d\<lparr>call_orders := tbl_remove i (call_orders d)\<rparr>) (call_held y x)"
    and "tbl_find (call_orders d) i = Some x \<Longrightarrow> call_wf d x' \<Longrightarrow>
      shift khd y d (d\<lparr>call_orders := tbl_set i x' (call_orders d)\<rparr>) (call_held y x - call_held y x')"
    and "call_wf d x' \<Longrightarrow> shift khd y d (d\<lparr>call_orders := tbl_create x' (call_orders d)\<rparr>) (- (call_held y x'))"
  using table_shifts [where U = "\<lambda>t. d\<lparr>call_orders := t\<rparr>" and h = "call_held y" and Q = "\<lambda>x. call_wf d x",
      OF call_orders_shift [OF assms] market_tables_wf(2) [OF assms] market_owners(2) [OF assms]] by simp_all

lemma settle_table_shifts:
  assumes "market_wf d"
  shows "tbl_find (settle_orders d) i = Some x \<Longrightarrow> shift khd y d (d\<lparr>settle_orders := tbl_remove i (settle_orders d)\<rparr>) (in_asset y (fs_balance x))"
    and "tbl_find (settle_orders d) i = Some x \<Longrightarrow> fs_owner x' < length (accounts d) \<Longrightarrow>
      shift khd y d (d\<lparr>settle_orders := tbl_set i x' (settle_orders d)\<rparr>) (in_asset y (fs_balance x) - in_asset y (fs_balance x'))"
    and "fs_owner x' < length (accounts d) \<Longrightarrow> shift khd y d (d\<lparr>settle_orders := tbl_create x' (settle_orders d)\<rparr>) (- (in_asset y (fs_balance x')))"
  using table_shifts [where U = "\<lambda>t. d\<lparr>settle_orders := t\<rparr>" and h = "\<lambda>s. in_asset y (fs_balance s)" and Q = "\<lambda>x. fs_owner x < length (accounts d)",
      OF settle_orders_shift [OF assms] market_tables_wf(3) [OF assms] market_owners(3) [OF assms]] by simp_all

lemma bid_table_shifts:
  assumes "market_wf d"
  shows "tbl_find (collateral_bids d) i = Some x \<Longrightarrow> shift khd y d (d\<lparr>collateral_bids := tbl_remove i (collateral_bids d)\<rparr>) (in_asset y (base (cbo_inv_swan_price x)))"
    and "tbl_find (collateral_bids d) i = Some x \<Longrightarrow> bid_wf d x' \<Longrightarrow>
      shift khd y d (d\<lparr>collateral_bids := tbl_set i x' (collateral_bids d)\<rparr>) (in_asset y (base (cbo_inv_swan_price x)) - in_asset y (base (cbo_inv_swan_price x')))"
    and "bid_wf d x' \<Longrightarrow> shift khd y d (d\<lparr>collateral_bids := tbl_create x' (collateral_bids d)\<rparr>) (- (in_asset y (base (cbo_inv_swan_price x'))))"
  using table_shifts [where U = "\<lambda>t. d\<lparr>collateral_bids := t\<rparr>" and h = "\<lambda>b. in_asset y (base (cbo_inv_swan_price b))" and Q = "\<lambda>x. bid_wf d x",
      OF bids_shift [OF assms] market_tables_wf(4) [OF assms] market_owners(4) [OF assms]] by simp_all

subsection \<open>Fees and payments\<close>

context fc_arith
begin

lemma market_fee_bounds:
  assumes "calculate_market_fee F a x = Inr f" "0 \<le> amount x" "in_int64 (amount x)" "fee_options_wf a"
  shows "asset_id f = asset_id x \<and> 0 \<le> amount f \<and> amount f \<le> amount x"
proof (cases "\<not> charges_market_fees a \<or> ao_market_fee_percent (options a) = 0")
  case True
  then have "f = mk_asset 0 (asset_id x)" using assms(1) by (auto simp: calculate_market_fee_def split: if_splits)
  then show ?thesis using assms by simp
next
  case False
  let ?p = "ao_market_fee_percent (options a)"
  let ?w = "to_u128 (amount x) * of_nat ?p div of_nat GRAPHENE_100_PERCENT"
  have p: "?p \<le> 10000" "0 \<le> ao_max_market_fee (options a)" using assms(4) by (simp_all add: fee_options_wf_def GRAPHENE_100_PERCENT_def)
  have "uint ((to_u128 (amount x) * to_u128 (int ?p)) div to_u128 10000) = amount x * int ?p div 10000"
    using assms(2,3) p by (intro u128_mul_div) (auto simp: in_int64_def)
  then have w: "uint ?w = amount x * int ?p div 10000" by (simp add: GRAPHENE_100_PERCENT_def)
  have "amount x * int ?p \<le> amount x * 10000" using assms(2) p by (intro mult_left_mono) auto
  then have "amount x * int ?p div 10000 \<le> (amount x * 10000) div 10000" by (intro zdiv_mono1) auto
  then have le: "amount x * int ?p div 10000 \<le> amount x" by simp
  then have "uint ?w < 2 ^ 63" using w assms(3) by (simp add: in_int64_def)
  then have "to_share F ?w = Inr (uint ?w)" by (rule to_share_small)
  then have "f = mk_asset (if uint ?w > ao_max_market_fee (options a) then ao_max_market_fee (options a) else uint ?w) (asset_id x)"
    using assms(1) False by (auto simp: calculate_market_fee_def)
  moreover have "0 \<le> uint ?w" by simp
  ultimately show ?thesis using le w p by (auto simp: not_less)
qed

lemma pay_market_fees_shift:
  assumes "pay_market_fees F x d = Inr (f, e)" "market_wf d" "y < length (assets d)" "0 \<le> amount x" "in_int64 (amount x)"
  shows "shift khd y d e (- in_asset y f)" "quiet d e" "asset_id f = asset_id x" "asset_id x < length (assets d)"
proof -
  from assms(1) have a: "asset_id x < length (assets d)" and f: "calculate_market_fee F (assets d ! asset_id x) x = Inr f"
    and e: "(if amount f > 0 then add_accumulated_fees F (asset_id x) (amount f) d else Inr d) = Inr e"
    by (auto simp: pay_market_fees_def)
  have wf: "fee_options_wf (assets d ! asset_id x)" using market_owners(6) [OF assms(2)] a by simp
  note b = market_fee_bounds [OF f assms(4,5) wf]
  show "asset_id f = asset_id x" "asset_id x < length (assets d)" using b a by simp_all
  have "shift khd y d e (- in_asset y f) \<and> quiet d e"
  proof (cases "amount f > 0")
    case True
    then have ac: "add_accumulated_fees F (asset_id x) (amount f) d = Inr e" using e by simp
    show ?thesis
      using accumulated_shift(1) [OF ac assms(2,3), of khd] accumulated_shift(2) [OF ac assms(2,3)] b by (auto simp: in_asset_def)
  next
    case False
    then have "amount f = 0" "e = d" using b e by auto
    then show ?thesis using assms(2) by (simp add: in_asset_def)
  qed
  then show "shift khd y d e (- in_asset y f)" "quiet d e" by simp_all
qed

lemma pay_order_shift:
  assumes "pay_order F r x p d = Inr e" "market_wf d"
  shows "shift khd y d e (- in_asset y x)" "quiet d e"
proof -
  from assms(1) obtain d1 where d1: "modify_stats r (\<lambda>s. if asset_id p = 0 then sub_core_in_orders F (amount p) s else Inr s) d = Inr d1"
    and e: "adjust_balance F r x d1 = Inr e" by (auto simp: pay_order_def)
  have 1: "shift khd y d d1 (- (if y = 0 then 0 else 0))" "quiet d d1" "r < length (accounts d)"
    by (rule modify_stats_shift [OF d1 assms(2)]; auto split: if_splits dest: core_in_orders_pending)+
  have "market_wf d1" "r < length (accounts d1)" using 1 shiftD by auto
  note 2 = adjust_shift [OF e this]
  show "shift khd y d e (- in_asset y x)" using shift_trans [OF 1(1) 2(1)] by simp
  show "quiet d e" using 1(2) 2(2) quiet_trans by blast
qed

end

text \<open>Adding up the steps of an operation.\<close>

lemma shift_step:
  assumes "shift khd y d e a" "market_wf e \<Longrightarrow> assets e = assets d \<Longrightarrow> accounts e = accounts d \<Longrightarrow> shift khd y e f b" "c = a + b"
  shows "shift khd y d f c"
  using shift_trans [OF assms(1) assms(2)] shiftD [OF assms(1)] assms(3) by simp

lemma in_asset_simps [simp]: "in_asset y (mk_asset 0 a) = 0" "in_asset y (mk_asset (x + z) a) = in_asset y (mk_asset x a) + in_asset y (mk_asset z a)"
  "in_asset y (mk_asset (x - z) a) = in_asset y (mk_asset x a) - in_asset y (mk_asset z a)"
  by (simp_all add: in_asset_def)

lemma in_asset_0: "amount x = 0 \<Longrightarrow> in_asset y x = 0"
  by (simp add: in_asset_def)

lemma in_asset_core: "in_asset y (mk_asset x 0) = (if y = 0 then x else 0)"
  by (simp add: in_asset_def)

subsection \<open>Cancelling orders\<close>

context fc_arith
begin

lemma charge_cancel_fee_shift:
  assumes "charge_cancel_fee F x d = Inr (fee, paid, e)" "market_wf d" "y < length (assets d)"
  shows "shift khd y d e (in_asset y paid - in_asset y (lo_deferred_paid_fee x) + in_asset y (mk_asset (fee - lo_deferred_fee x) 0))"
    "quiet d e" "asset_id paid = asset_id (lo_deferred_paid_fee x)" "amount (lo_deferred_paid_fee x) = 0 \<Longrightarrow> amount paid = 0"
proof -
  let ?p = "lo_deferred_paid_fee x" and ?t = "cashback_vesting_threshold (parameters d)"
  let ?g = "in_asset y paid - in_asset y ?p + in_asset y (mk_asset (fee - lo_deferred_fee x) 0)"
  consider (none) "fee = lo_deferred_fee x" "paid = ?p" "e = d"
    | (core) c d1 where "modify_stats (lo_seller x) (statistics_pay_fee F c ?t) d = Inr d1" "fee = lo_deferred_fee x - c" "paid = ?p" "e = d1"
    | (asset) c d1 k where "modify_stats (lo_seller x) (statistics_pay_fee F c ?t) d = Inr d1" "fee = lo_deferred_fee x - c" "amount ?p \<noteq> 0"
        "add_accumulated_fees F (asset_id ?p) k d1 = Inr e" "paid = mk_asset (amount ?p - k) (asset_id ?p)"
    using assms(1) by (auto simp: charge_cancel_fee_def fc_iffs Let_def split: if_splits)
  then have "shift khd y d e ?g \<and> quiet d e \<and> asset_id paid = asset_id ?p \<and> (amount ?p = 0 \<longrightarrow> amount paid = 0)"
  proof cases
    case none
    then show ?thesis using assms(2) by simp
  next
    case (core c d1)
    have "shift khd y d d1 (- (if y = 0 then c else 0))" "quiet d d1"
      by (rule modify_stats_shift [OF core(1) assms(2) core_in_orders_pending(3)]; assumption)+
    then show ?thesis using core by (auto simp: in_asset_core split: if_splits)
  next
    case (asset c d1 k)
    have 1: "shift khd y d d1 (- (if y = 0 then c else 0))" "quiet d d1"
      by (rule modify_stats_shift [OF asset(1) assms(2) core_in_orders_pending(3)]; assumption)+
    have "market_wf d1" "y < length (assets d1)" using shiftD [OF 1(1)] assms(3) by auto
    note 2 = accumulated_shift [OF asset(4) this]
    have "shift khd y d e ?g"
      by (rule shift_step [OF 1(1) 2(1)]) (use asset in \<open>auto simp: in_asset_def\<close>)
    then show ?thesis using 1(2) 2(2) quiet_trans asset by auto
  qed
  then show "shift khd y d e ?g" "quiet d e" "asset_id paid = asset_id ?p" "amount ?p = 0 \<Longrightarrow> amount paid = 0" by blast+
qed

lemma cancel_limit_shift:
  assumes "cancel_limit_order F i v s d = Inr e" "market_wf d" "y < length (assets d)"
  shows "shift khd y d e 0"
    "\<exists>x. tbl_find (limit_orders d) i = Some x \<and> limit_orders e = tbl_remove i (limit_orders d) \<and> call_orders e = call_orders d \<and> bitassets e = bitassets d"
proof -
  from assms(1) obtain x fee paid d1 d2 d3 d5 where x: "tbl_find (limit_orders d) i = Some x"
    and 1: "(if v \<and> \<not> s \<and> lo_deferred_fee x > 0 then charge_cancel_fee F x d else Inr (lo_deferred_fee x, lo_deferred_paid_fee x, d)) = Inr (fee, paid, d1)"
    and 2: "(if sell_asset_id x = 0 then modify_stats (lo_seller x) (sub_core_in_orders F (lo_for_sale x)) d1 else Inr d1) = Inr d2"
    and 3: "adjust_balance F (lo_seller x) (amount_for_sale x) d2 = Inr d3"
    and 5: "(if amount (lo_deferred_paid_fee x) = 0 then adjust_balance F (lo_seller x) (mk_asset fee 0) d3
        else bind_res (adjust_balance F (lo_seller x) paid d3) (\<lambda>d4.
          bind_res (get_obj (assets d4) (asset_id paid)) (\<lambda>fee_asset.
          modify_dyn (dynamic_asset_data_id fee_asset) (\<lambda>dyn.
            bind_res (safe_add F (fee_pool dyn) fee) (\<lambda>s. Inr (dyn\<lparr>fee_pool := s\<rparr>))) d4))) = Inr d5"
    and e: "e = d5\<lparr>limit_orders := tbl_remove i (limit_orders d5)\<rparr>"
    by (auto simp: cancel_limit_order_def)
  let ?p = "lo_deferred_paid_fee x"
  have seller: "lo_seller x < length (accounts d)" using market_owners(1) [OF assms(2) x] by (simp add: order_wf_def)
  have s1: "shift khd y d d1 (in_asset y paid - in_asset y ?p + in_asset y (mk_asset (fee - lo_deferred_fee x) 0))" "quiet d d1"
    "asset_id paid = asset_id ?p" "amount ?p = 0 \<Longrightarrow> amount paid = 0"
    using 1 charge_cancel_fee_shift(1) [OF _ assms(2,3), of x fee paid d1 khd] charge_cancel_fee_shift(2-4) [OF _ assms(2,3), of x fee paid d1] assms(2)
    by (auto split: if_splits)
  have w1: "market_wf d1" using shiftD [OF s1(1)] by simp
  have s2: "shift khd y d1 d2 0" "quiet d1 d2"
  proof -
    have "shift khd y d1 d2 0 \<and> quiet d1 d2"
    proof (cases "sell_asset_id x = 0")
      case True
      then have "modify_stats (lo_seller x) (sub_core_in_orders F (lo_for_sale x)) d1 = Inr d2" using 2 by simp
      from modify_stats_shift(1) [OF this w1, of 0 khd y] modify_stats_shift(2) [OF this w1, of 0] core_in_orders_pending(1) show ?thesis by simp
    qed (use 2 w1 in simp)
    then show "shift khd y d1 d2 0" "quiet d1 d2" by simp_all
  qed
  have q2: "quiet d d2" using s1(2) s2(2) quiet_trans by blast
  have w2: "market_wf d2" "lo_seller x < length (accounts d2)" using shiftD [OF s2(1)] quiet_fields(2) [OF q2] seller by auto
  note s3 = adjust_shift [OF 3 w2]
  have q3: "quiet d d3" using q2 s3(2) quiet_trans by blast
  have w3: "market_wf d3" "lo_seller x < length (accounts d3)" using shiftD [OF s3(1)] quiet_fields(2) [OF q3] seller by auto
  have s5: "shift khd y d3 d5 (- in_asset y paid - in_asset y (mk_asset fee 0)) \<and> quiet d3 d5"
  proof (cases "amount ?p = 0")
    case True
    then have "adjust_balance F (lo_seller x) (mk_asset fee 0) d3 = Inr d5" using 5 by simp
    from adjust_shift [OF this w3] show ?thesis using True s1(4) by (simp add: in_asset_0)
  next
    case False
    with 5 obtain d4 where d4: "adjust_balance F (lo_seller x) paid d3 = Inr d4" "asset_id paid < length (assets d4)"
      and d5: "modify_dyn (dynamic_asset_data_id (assets d4 ! asset_id paid)) (\<lambda>dyn.
            bind_res (safe_add F (fee_pool dyn) fee) (\<lambda>s. Inr (dyn\<lparr>fee_pool := s\<rparr>))) d4 = Inr d5" by auto
    note s4 = adjust_shift [OF d4(1) w3]
    have w4: "market_wf d4" "y < length (assets d4)" using shiftD [OF s4(1)] quiet_fields(1) [OF q3] assms(3) by auto
    obtain x' where x': "bind_res (safe_add F (fee_pool (dyn_of d4 (asset_id paid))) fee) (\<lambda>s. Inr ((dyn_of d4 (asset_id paid))\<lparr>fee_pool := s\<rparr>)) = Inr x'"
      and sh: "shift khd y d4 d5 (dyn_shift khd y (asset_id paid) (dyn_of d4 (asset_id paid)) x')" "quiet d4 d5"
      by (rule modify_dyn_shift [OF d5 w4(1) d4(2) w4(2), of khd])
    have "dyn_shift khd y (asset_id paid) (dyn_of d4 (asset_id paid)) x' = - in_asset y (mk_asset fee 0)"
      using x' by (auto simp: fc_iffs dyn_shift_def dyn_net_def in_asset_def)
    then show ?thesis using shift_trans [OF s4(1) sh(1)] s4(2) sh(2) quiet_trans by auto
  qed
  have q5: "quiet d d5" using q3 s5 quiet_trans by blast
  have x5: "tbl_find (limit_orders d5) i = Some x" using x quiet_fields(4) [OF q5] by simp
  have w5: "market_wf d5" using s5 shiftD by blast
  have s6: "shift khd y d5 e (order_held y x)" unfolding e by (rule limit_table_shifts(1) [OF w5 x5])
  have "order_held y x = in_asset y (amount_for_sale x) + in_asset y (mk_asset (lo_deferred_fee x) 0) + in_asset y ?p"
    by (simp add: order_held_def limit_order_defs in_asset_core)
  then show "shift khd y d e 0"
    using shift_trans [OF shift_trans [OF shift_trans [OF shift_trans [OF s1(1) s2(1)] s3(1)] conjunct1 [OF s5]] s6] by simp
  show "\<exists>x. tbl_find (limit_orders d) i = Some x \<and> limit_orders e = tbl_remove i (limit_orders d) \<and> call_orders e = call_orders d \<and> bitassets e = bitassets d"
    using x quiet_fields [OF q5] by (simp add: e)
qed

end

lemma call_price_ids:
  "call_price debt coll r = Inr p \<Longrightarrow> asset_id (base p) = asset_id coll \<and> asset_id (quote p) = asset_id debt"
  by (auto simp: call_price_def price_of_def price_inv_def Let_def)

context fc_arith
begin

lemma cull_shift:
  assumes "maybe_cull_small_order F i d = Inr (b, e)" "market_wf d" "y < length (assets d)"
  shows "shift khd y d e 0" "call_orders e = call_orders d" "bitassets e = bitassets d"
proof -
  consider "e = d" | v s where "cancel_limit_order F i v s d = Inr e"
    using assms(1) by (auto simp: maybe_cull_small_order_def split: if_splits)
  then have "shift khd y d e 0 \<and> call_orders e = call_orders d \<and> bitassets e = bitassets d"
  proof cases
    case (2 v s)
    from cancel_limit_shift(1) [OF this assms(2,3)] cancel_limit_shift(2) [OF this assms(2,3)] show ?thesis by auto
  qed (use assms(2) in simp)
  then show "shift khd y d e 0" "call_orders e = call_orders d" "bitassets e = bitassets d" by simp_all
qed

lemma cancel_settle_shift:
  assumes "cancel_settle_order F i d = Inr e" "market_wf d"
  shows "shift khd y d e 0"
proof -
  from assms(1) obtain x d1 where x: "tbl_find (settle_orders d) i = Some x" and d1: "adjust_balance F (fs_owner x) (fs_balance x) d = Inr d1"
    and e: "e = d1\<lparr>settle_orders := tbl_remove i (settle_orders d1)\<rparr>" by (auto simp: cancel_settle_order_def)
  note 1 = adjust_shift [OF d1 assms(2) market_owners(3) [OF assms(2) x]]
  have "tbl_find (settle_orders d1) i = Some x" using x quiet_fields(6) [OF 1(2)] by simp
  from settle_table_shifts(1) [OF quiet_wf [OF 1(2) assms(2)] this, of khd y] show ?thesis
    using shift_trans [OF 1(1)] unfolding e by fastforce
qed

lemma cancel_bid_shift:
  assumes "cancel_bid F i d = Inr e" "market_wf d"
  shows "shift khd y d e 0" "bitassets e = bitassets d" "call_orders e = call_orders d"
proof -
  from assms(1) obtain x d1 where x: "tbl_find (collateral_bids d) i = Some x" and d1: "adjust_balance F (cbo_bidder x) (base (cbo_inv_swan_price x)) d = Inr d1"
    and e: "e = d1\<lparr>collateral_bids := tbl_remove i (collateral_bids d1)\<rparr>" by (auto simp: cancel_bid_def)
  have own: "cbo_bidder x < length (accounts d)" using market_owners(4) [OF assms(2) x] by (simp add: bid_wf_def)
  note 1 = adjust_shift [OF d1 assms(2) own]
  have "tbl_find (collateral_bids d1) i = Some x" using x quiet_fields(7) [OF 1(2)] by simp
  from bid_table_shifts(1) [OF quiet_wf [OF 1(2) assms(2)] this, of khd y] show "shift khd y d e 0"
    using shift_trans [OF 1(1)] unfolding e by fastforce
  show "bitassets e = bitassets d" "call_orders e = call_orders d" using quiet_fields [OF 1(2)] by (simp_all add: e)
qed

subsection \<open>Filling orders\<close>

lemma fill_limit_shift:
  assumes "fill_limit_order F i pays rec cull d = Inr (b, e)" "market_wf d" "y < length (assets d)" "0 \<le> amount rec" "in_int64 (amount rec)"
  shows "shift khd y d e (in_asset y pays - in_asset y rec)" "call_orders e = call_orders d" "bitassets e = bitassets d"
proof -
  from assms(1) obtain x f d1 d2 d3 d4 where x: "tbl_find (limit_orders d) i = Some x" and ids: "sell_asset_id x = asset_id pays"
    and 1: "pay_market_fees F rec d = Inr (f, d1)" and 2: "pay_order F (lo_seller x) (mk_asset (amount rec - amount f) (asset_id rec)) pays d1 = Inr d2"
    and 3: "(if lo_deferred_fee x > 0 then modify_stats (lo_seller x) (statistics_pay_fee F (lo_deferred_fee x) (cashback_vesting_threshold (parameters d2))) d2
         else Inr d2) = Inr d3"
    and 4: "(if amount (lo_deferred_paid_fee x) > 0 then add_accumulated_fees F (asset_id (lo_deferred_paid_fee x)) (amount (lo_deferred_paid_fee x)) d3
         else Inr d3) = Inr d4"
    and 5: "(if pays = amount_for_sale x then Inr (True, d4\<lparr>limit_orders := tbl_remove i (limit_orders d4)\<rparr>)
      else bind_res (safe_sub F (lo_for_sale x) (amount pays)) (\<lambda>left.
        let d5 = d4\<lparr>limit_orders := tbl_set i (x\<lparr>lo_for_sale := left, lo_deferred_fee := 0,
                      lo_deferred_paid_fee := mk_asset 0 (asset_id (lo_deferred_paid_fee x))\<rparr>) (limit_orders d4)\<rparr> in
        if cull \<or> head_block_time d < HARDFORK_555_TIME then maybe_cull_small_order F i d5 else Inr (False, d5))) = Inr (b, e)"
    by (auto simp: fill_limit_order_def Let_def asset_minus_def fc_iffs)
  let ?p = "lo_deferred_paid_fee x"
  have xw: "order_wf d x" by (rule market_owners(1) [OF assms(2) x])
  have s1: "shift khd y d d1 (- in_asset y f)" "quiet d d1" "asset_id f = asset_id rec"
    using pay_market_fees_shift(1) [OF 1 assms(2-5)] pay_market_fees_shift(2,3) [OF 1 assms(2-5)] by auto
  note s2 = pay_order_shift [OF 2 quiet_wf [OF s1(2) assms(2)]]
  have q2: "quiet d d2" using s1(2) s2(2) quiet_trans by blast
  have w2: "market_wf d2" by (rule quiet_wf [OF q2 assms(2)])
  have s3: "shift khd y d2 d3 (- in_asset y (mk_asset (lo_deferred_fee x) 0)) \<and> quiet d2 d3"
  proof (cases "lo_deferred_fee x > 0")
    case True
    then have m: "modify_stats (lo_seller x) (statistics_pay_fee F (lo_deferred_fee x) (cashback_vesting_threshold (parameters d2))) d2 = Inr d3"
      using 3 by simp
    show ?thesis using modify_stats_shift(1) [OF m w2 core_in_orders_pending(3), where khd = khd and y = y] modify_stats_shift(2) [OF m w2 core_in_orders_pending(3)]
      by (auto simp: in_asset_core)
  qed (use 3 xw w2 in \<open>auto simp: order_wf_def not_less in_asset_core\<close>)
  have q3: "quiet d d3" using q2 s3 quiet_trans by blast
  have w3: "market_wf d3" "y < length (assets d3)" using quiet_wf [OF q3 assms(2)] quiet_fields(1) [OF q3] assms(3) by auto
  have s4: "shift khd y d3 d4 (- in_asset y ?p) \<and> quiet d3 d4"
  proof (cases "amount ?p > 0")
    case True
    then have m: "add_accumulated_fees F (asset_id ?p) (amount ?p) d3 = Inr d4" using 4 by simp
    show ?thesis using accumulated_shift(1) [OF m w3, of khd] accumulated_shift(2) [OF m w3] by (auto simp: in_asset_def)
  qed (use 4 xw w3 in \<open>auto simp: order_wf_def not_less in_asset_def\<close>)
  have q4: "quiet d d4" using q3 s4 quiet_trans by blast
  have w4: "market_wf d4" by (rule quiet_wf [OF q4 assms(2)])
  have x4: "tbl_find (limit_orders d4) i = Some x" using x quiet_fields(4) [OF q4] by simp
  have sum4: "shift khd y d d4 (- in_asset y rec - in_asset y (mk_asset (lo_deferred_fee x) 0) - in_asset y ?p)"
    using shift_trans [OF shift_trans [OF shift_trans [OF s1(1) s2(1)] conjunct1 [OF s3]] conjunct1 [OF s4]] s1(3) by (auto simp: in_asset_def)
  have held: "order_held y x = in_asset y (amount_for_sale x) + in_asset y (mk_asset (lo_deferred_fee x) 0) + in_asset y ?p"
    by (simp add: order_held_def limit_order_defs in_asset_core)
  have "shift khd y d e (in_asset y pays - in_asset y rec) \<and> call_orders e = call_orders d4 \<and> bitassets e = bitassets d4"
  proof (cases "pays = amount_for_sale x")
    case True
    then have e: "e = d4\<lparr>limit_orders := tbl_remove i (limit_orders d4)\<rparr>" using 5 by simp
    have "shift khd y d4 e (order_held y x)" unfolding e by (rule limit_table_shifts(1) [OF w4 x4])
    from shift_trans [OF sum4 this] show ?thesis using held True by (simp add: e)
  next
    case False
    let ?x = "x\<lparr>lo_for_sale := lo_for_sale x - amount pays, lo_deferred_fee := 0, lo_deferred_paid_fee := mk_asset 0 (asset_id ?p)\<rparr>"
    let ?d5 = "d4\<lparr>limit_orders := tbl_set i ?x (limit_orders d4)\<rparr>"
    from False 5 have e: "(if cull \<or> head_block_time d < HARDFORK_555_TIME then maybe_cull_small_order F i ?d5 else Inr (False, ?d5)) = Inr (b, e)"
      and left: "in_int64 (lo_for_sale x - amount pays)" by (auto simp: fc_iffs Let_def)
    have xw': "order_wf d4 ?x" using xw left quiet_fields(2) [OF q4] by (simp add: order_wf_def)
    have "order_held y x - order_held y ?x = in_asset y pays + in_asset y (mk_asset (lo_deferred_fee x) 0) + in_asset y ?p"
      using ids by (simp add: order_held_def sell_asset_id_def in_asset_def)
    then have s5: "shift khd y d ?d5 (in_asset y pays - in_asset y rec)"
      using shift_trans [OF sum4 limit_table_shifts(2) [OF w4 x4 xw']] by simp
    have w5: "market_wf ?d5" "y < length (assets ?d5)" using shiftD [OF s5] assms(3) by auto
    show ?thesis
    proof (cases "cull \<or> head_block_time d < HARDFORK_555_TIME")
      case True
      then have c: "maybe_cull_small_order F i ?d5 = Inr (b, e)" using e by simp
      show ?thesis using shift_trans [OF s5 cull_shift(1) [OF c w5]] cull_shift(2,3) [OF c w5] by simp
    next
      case False
      then have "e = ?d5" using e by simp
      then show ?thesis using s5 by simp
    qed
  qed
  then show "shift khd y d e (in_asset y pays - in_asset y rec)" "call_orders e = call_orders d" "bitassets e = bitassets d"
    using quiet_fields [OF q4] by auto
qed

end

text \<open>A change of the statistics that keeps the pending fees.\<close>

lemma stats_quiet:
  assumes "modify_stats acct f d = Inr e" "market_wf d"
    and "\<And>s s'. f s = Inr s' \<Longrightarrow> pending_fees s' + pending_vested_fees s' = pending_fees s + pending_vested_fees s"
  shows "shift khd y d e 0 \<and> quiet d e"
  using modify_stats_shift(1) [OF assms(1,2), of 0 khd y] modify_stats_shift(2) [OF assms(1,2), of 0] assms(3) by simp

context fc_arith
begin

lemma fill_call_shift:
  assumes "fill_call_order F i pays rec d = Inr (b, e)" "market_wf d" "y < length (assets d)"
  shows "shift khd y d e (in_asset y pays - in_asset y rec) \<and> bitassets e = bitassets d
    \<and> (\<forall>j. j \<noteq> i \<longrightarrow> tbl_find (call_orders e) j = tbl_find (call_orders d) j)
    \<and> (b \<longrightarrow> tbl_find (call_orders e) i = None)
    \<and> (\<exists>c. tbl_find (call_orders d) i = Some c \<and> debt_type c = asset_id rec \<and> collateral_type c = asset_id pays)
    \<and> current_supply (dyn_of e (asset_id rec)) = current_supply (dyn_of d (asset_id rec)) - amount rec \<and> asset_id rec < length (assets d)
    \<and> settle_orders e = settle_orders d"
proof -
  define freed where "freed c \<longleftrightarrow> co_debt c - amount rec = 0" for c :: call_order_object
  from assms(1) obtain c order2 d2 d4 where c: "tbl_find (call_orders d) i = Some c"
    and ids: "debt_type c = asset_id rec" "collateral_type c = asset_id pays" "asset_id rec < length (assets d)"
    and o2: "(if \<not> freed c \<and> maint_time d > HARDFORK_CORE_343_TIME then
          bind_res (bitasset_data (assets d ! asset_id rec) d) (\<lambda>b.
          bind_res (call_price (get_debt (c\<lparr>co_debt := co_debt c - amount rec, co_collateral := (if freed c then 0 else co_collateral c - amount pays)\<rparr>))
             (get_collateral (c\<lparr>co_debt := co_debt c - amount rec, co_collateral := (if freed c then 0 else co_collateral c - amount pays)\<rparr>))
             (maintenance_collateral_ratio (bd_current_feed b))) (\<lambda>p.
          Inr (c\<lparr>co_debt := co_debt c - amount rec, co_collateral := (if freed c then 0 else co_collateral c - amount pays)\<rparr>\<lparr>co_call_price := p\<rparr>)))
        else Inr (c\<lparr>co_debt := co_debt c - amount rec, co_collateral := (if freed c then 0 else co_collateral c - amount pays)\<rparr>)) = Inr order2"
    and 2: "modify_dyn (dynamic_asset_data_id (assets d ! asset_id rec)) (\<lambda>dyn.
       bind_res (safe_sub F (current_supply dyn) (amount rec)) (\<lambda>s. Inr (dyn\<lparr>current_supply := s\<rparr>))) (d\<lparr>call_orders := tbl_set i order2 (call_orders d)\<rparr>) = Inr d2"
    and bor: "co_borrower c < length (accounts d2)"
    and 4: "(if freed c \<or> asset_id pays = 0 then
          bind_res (if freed c then adjust_balance F (co_borrower c) (mk_asset (co_collateral c - amount pays) (collateral_type c)) d2 else Inr d2) (\<lambda>d3.
          modify_stats (co_borrower c) (\<lambda>s.
            bind_res (if freed c \<and> co_collateral c - amount pays > 0 \<and> collateral_type c = 0 then sub_core_in_orders F (co_collateral c - amount pays) s else Inr s) (\<lambda>s1.
            if asset_id pays = 0 then sub_core_in_orders F (amount pays) s1 else Inr s1)) d3)
        else Inr d2) = Inr d4"
    and e: "b = freed c" "e = (if freed c then d4\<lparr>call_orders := tbl_remove i (call_orders d4)\<rparr> else d4)"
    unfolding fill_call_order_def Let_def freed_def by (auto simp: fc_iffs)
  let ?a = "asset_id rec" and ?d1 = "d\<lparr>call_orders := tbl_set i order2 (call_orders d)\<rparr>"
  let ?left = "mk_asset (co_collateral c - amount pays) (collateral_type c)"
  have o2f: "debt_type order2 = debt_type c" "collateral_type order2 = collateral_type c"
    "co_collateral order2 = (if freed c then 0 else co_collateral c - amount pays)"
    using o2 by (auto simp: call_order_defs dest!: call_price_ids split: if_splits)
  have cw: "call_wf d order2" using market_owners(2) [OF assms(2) c] o2f by (simp add: call_wf_def)
  have s1: "shift khd y d ?d1 (call_held y c - call_held y order2)" by (rule call_table_shifts(2) [OF assms(2) c cw])
  have w1: "market_wf ?d1" using shiftD [OF s1] by simp
  have m2: "modify_dyn (dynamic_asset_data_id (assets ?d1 ! ?a)) (\<lambda>dyn.
       bind_res (safe_sub F (current_supply dyn) (amount rec)) (\<lambda>s. Inr (dyn\<lparr>current_supply := s\<rparr>))) ?d1 = Inr d2" using 2 by simp
  obtain x' where x': "bind_res (safe_sub F (current_supply (dyn_of ?d1 ?a)) (amount rec)) (\<lambda>s. Inr ((dyn_of ?d1 ?a)\<lparr>current_supply := s\<rparr>)) = Inr x'"
    and s2: "shift khd y ?d1 d2 (dyn_shift khd y ?a (dyn_of ?d1 ?a) x')" "quiet ?d1 d2" "dyn_of d2 ?a = x'"
    by (rule modify_dyn_shift [OF m2 w1, where khd = khd and y = y]) (use ids assms(3) in auto)
  have "dyn_shift khd y ?a (dyn_of ?d1 ?a) x' = - in_asset y rec"
    using x' by (auto simp: fc_iffs dyn_shift_def dyn_net_def in_asset_def)
  then have s12: "shift khd y d d2 (call_held y c - call_held y order2 - in_asset y rec)" using shift_trans [OF s1 s2(1)] by simp
  have sup: "current_supply (dyn_of d2 ?a) = current_supply (dyn_of d ?a) - amount rec"
  proof -
    have same: "dyn_of ?d1 ?a = dyn_of d ?a" by (simp add: dyn_of_def)
    have "x' = (dyn_of d ?a)\<lparr>current_supply := current_supply (dyn_of d ?a) - amount rec\<rparr>"
      using x' [unfolded same] by (auto simp: fc_iffs)
    then show ?thesis using s2(3) by simp
  qed
  have w2: "market_wf d2" using shiftD [OF s12] by simp
  have s4: "shift khd y d2 d4 (if freed c then - in_asset y ?left else 0) \<and> quiet d2 d4"
  proof (cases "freed c \<or> asset_id pays = 0")
    case True
    let ?g = "\<lambda>s. bind_res (if freed c \<and> co_collateral c - amount pays > 0 \<and> collateral_type c = 0 then sub_core_in_orders F (co_collateral c - amount pays) s else Inr s) (\<lambda>s1.
            if asset_id pays = 0 then sub_core_in_orders F (amount pays) s1 else Inr s1)"
    from True 4 obtain d3 where d3: "(if freed c then adjust_balance F (co_borrower c) ?left d2 else Inr d2) = Inr d3"
      and d4: "modify_stats (co_borrower c) ?g d3 = Inr d4" by auto
    have s3: "shift khd y d2 d3 (if freed c then - in_asset y ?left else 0) \<and> quiet d2 d3"
    proof (cases "freed c")
      case True
      then have "adjust_balance F (co_borrower c) ?left d2 = Inr d3" using d3 by simp
      from adjust_shift [OF this w2 bor] True show ?thesis by simp
    qed (use d3 w2 in simp)
    have w3: "market_wf d3" using s3 shiftD by blast
    have "shift khd y d3 d4 0 \<and> quiet d3 d4"
      by (rule stats_quiet [OF d4 w3]) (auto split: if_splits dest!: core_in_orders_pending(1))
    with s3 show ?thesis using shift_trans [of khd y d2 d3 _ d4 0] quiet_trans by auto
  qed (use 4 w2 in auto)
  have w4: "market_wf d4" using s4 shiftD by blast
  have calls4: "call_orders d4 = tbl_set i order2 (call_orders d)"
    using quiet_fields(5) [OF s2(2)] quiet_fields(5) [OF conjunct2 [OF s4]] by simp
  have f4: "tbl_find (call_orders d4) i = Some order2" using c by (simp add: calls4 tbl.find_set)
  have held: "call_held y c = in_asset y (mk_asset (co_collateral c) (collateral_type c))"
    "call_held y order2 = in_asset y (mk_asset (co_collateral order2) (collateral_type c))"
    using o2f(2) by (simp_all add: call_held_def collateral_type_def)
  have total: "shift khd y d e (in_asset y pays - in_asset y rec)"
  proof (cases "freed c")
    case True
    have s5: "shift khd y d4 e (call_held y order2)" unfolding e using call_table_shifts(1) [OF w4 f4] True by simp
    have "call_held y c - call_held y order2 - in_asset y rec + - in_asset y ?left + call_held y order2 = in_asset y pays - in_asset y rec"
      using held(1) ids by (simp add: in_asset_def)
    then show ?thesis using shift_trans [OF shift_trans [OF s12 conjunct1 [OF s4]] s5] True by metis
  next
    case False
    from shift_trans [OF s12 conjunct1 [OF s4]] False show ?thesis
      using held o2f(3) ids e by (auto simp: in_asset_def)
  qed
  have find: "tbl_find (call_orders e) j = (if j = i then (if freed c then None else Some order2) else tbl_find (call_orders d) j)" for j
    using c by (simp add: e(2) calls4 tbl.find_remove tbl.find_set)
  have "bitassets e = bitassets d" "settle_orders e = settle_orders d"
    using quiet_fields(3,6) [OF s2(2)] quiet_fields(3,6) [OF conjunct2 [OF s4]] by (simp_all add: e(2))
  moreover have "dyn_of e ?a = dyn_of d2 ?a"
  proof -
    have "dyn_of d4 ?a = dyn_of d2 ?a"
      using 4 by (auto simp: modify_stats_def dyn_of_def split: if_splits dest!: adjust_balance_only)
    then show ?thesis by (simp add: e(2) dyn_of_def)
  qed
  ultimately show ?thesis using total find c ids sup e(1) by auto
qed

lemma fill_settle_shift:
  assumes "fill_settle_order F i pays rec d = Inr (b, e)" "market_wf d" "y < length (assets d)" "0 \<le> amount rec" "in_int64 (amount rec)"
    and "\<And>x. tbl_find (settle_orders d) i = Some x \<Longrightarrow> amount pays \<le> amount (fs_balance x)"
  shows "shift khd y d e (in_asset y pays - in_asset y rec)"
proof -
  from assms(1) obtain x f d1 d2 d3 part net where x: "tbl_find (settle_orders d) i = Some x"
    and 1: "pay_market_fees F rec d = Inr (f, d1)" and net: "asset_minus F rec f = Inr net" and part: "asset_less pays (fs_balance x) = Inr part"
    and 2: "(if part then bind_res (asset_minus F (fs_balance x) pays) (\<lambda>b. Inr (d1\<lparr>settle_orders := tbl_set i (x\<lparr>fs_balance := b\<rparr>) (settle_orders d1)\<rparr>))
        else Inr d1) = Inr d2"
    and 3: "adjust_balance F (fs_owner x) net d2 = Inr d3"
    and e: "e = (if part then d3 else d3\<lparr>settle_orders := tbl_remove i (settle_orders d3)\<rparr>)"
    by (simp add: fill_settle_order_def case_prod_unfold) fastforce
  have net_eq: "in_asset y net = in_asset y rec - in_asset y f" using net by (auto simp: asset_minus_def fc_iffs in_asset_def)
  have s1: "shift khd y d d1 (- in_asset y f)" "quiet d d1" "asset_id f = asset_id rec"
    using pay_market_fees_shift(1) [OF 1 assms(2-5)] pay_market_fees_shift(2,3) [OF 1 assms(2-5)] by auto
  have w1: "market_wf d1" by (rule quiet_wf [OF s1(2) assms(2)])
  have x1: "tbl_find (settle_orders d1) i = Some x" using x quiet_fields(6) [OF s1(2)] by simp
  have own: "fs_owner x < length (accounts d1)" by (rule market_owners(3) [OF w1 x1])
  have ids: "asset_id pays = asset_id (fs_balance x)" "part \<longleftrightarrow> amount pays < amount (fs_balance x)" using part by (auto simp: asset_less_def)
  have s2: "shift khd y d1 d2 (if part then in_asset y pays else 0)"
  proof (cases part)
    case True
    then have d2: "d2 = d1\<lparr>settle_orders := tbl_set i (x\<lparr>fs_balance := mk_asset (amount (fs_balance x) - amount pays) (asset_id (fs_balance x))\<rparr>) (settle_orders d1)\<rparr>"
      using 2 by (auto simp: asset_minus_def fc_iffs)
    let ?x = "x\<lparr>fs_balance := mk_asset (amount (fs_balance x) - amount pays) (asset_id (fs_balance x))\<rparr>"
    have "in_asset y (fs_balance x) - in_asset y (fs_balance ?x) = in_asset y pays" using ids by (simp add: in_asset_def)
    moreover have "shift khd y d1 d2 (in_asset y (fs_balance x) - in_asset y (fs_balance ?x))"
      unfolding d2 by (rule settle_table_shifts(2) [OF w1 x1]) (use own in simp)
    ultimately show ?thesis using True by simp
  qed (use 2 w1 in simp)
  have w2: "market_wf d2" "fs_owner x < length (accounts d2)" using shiftD [OF s2] own by auto
  note s3 = adjust_shift [OF 3 w2]
  have sum: "shift khd y d d3 (- in_asset y rec + (if part then in_asset y pays else 0))"
    using shift_trans [OF shift_trans [OF s1(1) s2] s3(1)] net_eq by simp
  show ?thesis
  proof (cases part)
    case True
    with sum e show ?thesis by simp
  next
    case False
    then have "d2 = d1" using 2 by simp
    then have x3: "tbl_find (settle_orders d3) i = Some x" using x1 quiet_fields(6) [OF s3(2)] by simp
    have w3: "market_wf d3" using shiftD [OF s3(1)] by simp
    have "in_asset y pays = in_asset y (fs_balance x)" using assms(6) [OF x] ids False by (auto simp: in_asset_def)
    then show ?thesis using shift_trans [OF sum settle_table_shifts(1) [OF w3 x3]] e False by simp
  qed
qed

end

end
