(* ===== verification/Matching.thy ===== *)
theory Matching
  imports Market
begin

text \<open>
  Matching of orders, margin calls, black swans and global settlement
  (\<open>libraries/chain/db_market.cpp\<close>, \<open>db_update.cpp\<close>), and the operations that trade
  (\<open>market_evaluator.cpp\<close>, \<open>protocol/market.cpp\<close>).
\<close>

subsection \<open>Matching two orders\<close>

text \<open>The amounts a match moves: what the taker receives and what the maker receives, and whether the rest of
  the taker is culled. \<open>None\<close> means that the taker would pay for nothing.\<close>

definition match_limit_amounts :: "database \<Rightarrow> limit_order_object \<Rightarrow> limit_order_object \<Rightarrow> price
    \<Rightarrow> (asset \<times> asset \<times> bool) option result" where
  "match_limit_amounts d usd core match_price =
     (let before_core_hardfork_342 = (maint_time d \<le> HARDFORK_CORE_342_TIME);
          usd_for_sale = amount_for_sale usd; core_for_sale = amount_for_sale core in
      bind_res (mul_price core_for_sale match_price) (\<lambda>core_worth.
      bind_res (asset_le usd_for_sale core_worth) (\<lambda>taker_smaller.
      if taker_smaller then
        bind_res (mul_price usd_for_sale match_price) (\<lambda>usd_receives.
        if amount usd_receives = 0 \<and> maint_time d > HARDFORK_CORE_184_TIME then Inr None
        else if before_core_hardfork_342 then Inr (Some (usd_receives, usd_for_sale, False))
        else bind_res (multiply_and_round_up usd_receives match_price) (\<lambda>core_receives.
          Inr (Some (usd_receives, core_receives, True))))
      else
        bind_res (mul_price core_for_sale match_price) (\<lambda>core_receives.
        if before_core_hardfork_342 then Inr (Some (core_for_sale, core_receives, False))
        else bind_res (multiply_and_round_up core_receives match_price) (\<lambda>usd_receives.
          Inr (Some (usd_receives, core_receives, False)))))))"

definition bit_or_filled :: "bool \<Rightarrow> bool \<Rightarrow> nat" where
  "bit_or_filled taker maker = (if taker then 1 else 0) + (if maker then 2 else 0)"

definition match_limit :: "fc_lib \<Rightarrow> nat \<Rightarrow> nat \<Rightarrow> price \<Rightarrow> database \<Rightarrow> (nat \<times> database) result" where
  "match_limit F usd_id core_id match_price d =
     bind_res (tbl_get (limit_orders d) usd_id) (\<lambda>usd.
     bind_res (tbl_get (limit_orders d) core_id) (\<lambda>core.
     require (receive_asset_id usd = sell_asset_id core) ''usd.sell_price.quote.asset_id == core.sell_price.base.asset_id''
    (require (sell_asset_id usd = receive_asset_id core) ''usd.sell_price.base.asset_id == core.sell_price.quote.asset_id''
    (require (lo_for_sale usd > 0 \<and> lo_for_sale core > 0) ''usd.for_sale > 0 && core.for_sale > 0''
    (bind_res (match_limit_amounts d usd core match_price) (\<lambda>amounts.
     case amounts of
       None \<Rightarrow> Inr (1, d)
     | Some (usd_receives, core_receives, cull_taker) \<Rightarrow>
         require (maint_time d \<le> HARDFORK_CORE_342_TIME \<longrightarrow>
             core_receives = amount_for_sale usd \<or> usd_receives = amount_for_sale core)
           ''usd_pays == usd.amount_for_sale() || core_pays == core.amount_for_sale()''
        (bind_res (fill_limit_order F usd_id core_receives usd_receives cull_taker d) (\<lambda>(filled_usd, d1).
         bind_res (fill_limit_order F core_id usd_receives core_receives True d1) (\<lambda>(filled_core, d2).
         require (bit_or_filled filled_usd filled_core \<noteq> 0) ''result != 0''
           (Inr (bit_or_filled filled_usd filled_core, d2)))))))))))"

definition match_limit_call :: "fc_lib \<Rightarrow> nat \<Rightarrow> nat \<Rightarrow> price \<Rightarrow> price \<Rightarrow> nat \<Rightarrow> database \<Rightarrow> (nat \<times> database) result" where
  "match_limit_call F bid_id ask_id match_price feed_price mcr d =
     bind_res (tbl_get (limit_orders d) bid_id) (\<lambda>bid.
     bind_res (tbl_get (call_orders d) ask_id) (\<lambda>ask.
     require (sell_asset_id bid = debt_type ask) ''bid.sell_asset_id() == ask.debt_type()''
    (require (receive_asset_id bid = collateral_type ask) ''bid.receive_asset_id() == ask.collateral_type()''
    (require (lo_for_sale bid > 0 \<and> co_debt ask > 0 \<and> co_collateral ask > 0) ''bid.for_sale > 0 && ask.debt > 0 && ask.collateral > 0''
    (let before_184 = (maint_time d \<le> HARDFORK_CORE_184_TIME);
         before_342 = (maint_time d \<le> HARDFORK_CORE_342_TIME);
         before_834 = (maint_time d \<le> HARDFORK_CORE_834_TIME);
         usd_for_sale = amount_for_sale bid in
     bind_res
       (if before_834 then Inr (get_debt ask)
        else bind_res (get_max_debt_to_cover F ask match_price feed_price mcr) (\<lambda>x. Inr (mk_asset x (debt_type ask)))) (\<lambda>usd_to_buy.
     bind_res (asset_greater usd_to_buy usd_for_sale) (\<lambda>fill_order.
     bind_res
       (if fill_order then
          bind_res (mul_price usd_for_sale match_price) (\<lambda>order_receives.
          if amount order_receives = 0 \<and> \<not> before_184 then Inr None
          else if before_342 then Inr (Some (order_receives, usd_for_sale, False))
          else bind_res (multiply_and_round_up order_receives match_price) (\<lambda>call_receives.
            Inr (Some (order_receives, call_receives, True))))
        else if before_342 then
          bind_res (mul_price usd_to_buy match_price) (\<lambda>order_receives.
          if amount order_receives = 0 \<and> \<not> before_184 then Inr None
          else Inr (Some (order_receives, usd_to_buy, False)))
        else
          bind_res (multiply_and_round_up usd_to_buy match_price) (\<lambda>order_receives.
          Inr (Some (order_receives, usd_to_buy, False)))) (\<lambda>amounts.
     case amounts of
       None \<Rightarrow> Inr (1, d)
     | Some (order_receives, call_receives, cull_taker) \<Rightarrow>
         bind_res (fill_limit_order F bid_id call_receives order_receives cull_taker d) (\<lambda>(filled_bid, d1).
         bind_res (fill_call_order F ask_id order_receives call_receives d1) (\<lambda>(filled_ask, d2).
         Inr (bit_or_filled filled_bid filled_ask, d2)))))))))))"

definition asset_min :: "asset \<Rightarrow> asset \<Rightarrow> asset result" where
  "asset_min a b = bind_res (asset_less b a) (\<lambda>less. Inr (if less then b else a))"

text \<open>A settlement request against a position; the result is the amount settled.\<close>

definition match_call_settle :: "fc_lib \<Rightarrow> nat \<Rightarrow> nat \<Rightarrow> price \<Rightarrow> asset \<Rightarrow> database \<Rightarrow> (asset \<times> database) result" where
  "match_call_settle F call_id settle_id match_price max_settlement d =
     bind_res (tbl_get (call_orders d) call_id) (\<lambda>call.
     bind_res (tbl_get (settle_orders d) settle_id) (\<lambda>settle.
     require (debt_type call = asset_id (fs_balance settle)) ''call.get_debt().asset_id == settle.balance.asset_id''
    (require (co_debt call > 0 \<and> co_collateral call > 0 \<and> amount (fs_balance settle) > 0)
       ''call.debt > 0 && call.collateral > 0 && settle.balance.amount > 0''
    (let before_342 = (maint_time d \<le> HARDFORK_CORE_342_TIME) in
     bind_res (asset_min (fs_balance settle) max_settlement) (\<lambda>settle_for_sale.
     bind_res (asset_min settle_for_sale (get_debt call)) (\<lambda>call_receives0.
     bind_res (mul_price call_receives0 match_price) (\<lambda>call_pays0.
     let covers = (call_receives0 = get_debt call); settles = (call_receives0 = fs_balance settle) in
     if amount call_pays0 = 0 \<and> maint_time d > HARDFORK_CORE_184_TIME \<and> \<not> covers then
       bind_res (if settles then cancel_settle_order F settle_id d else Inr d) (\<lambda>d1.
       Inr (mk_asset 0 (asset_id (fs_balance settle)), d1))
     else
       bind_res
         (if amount call_pays0 = 0 then
            Inr (if maint_time d > HARDFORK_CORE_184_TIME then call_pays0\<lparr>amount := 1\<rparr> else call_pays0, call_receives0, False)
          else if before_342 then Inr (call_pays0, call_receives0, False)
          else if covers then
            bind_res (multiply_and_round_up call_receives0 match_price) (\<lambda>p. Inr (p, call_receives0, False))
          else
            bind_res (multiply_and_round_up call_pays0 match_price) (\<lambda>r.
            Inr (call_pays0, r, settles \<and> r \<noteq> fs_balance settle))) (\<lambda>(call_pays, call_receives, cull_settle_order).
       bind_res
         (if before_342 then
            bind_res (asset_less call_pays (get_collateral call)) (\<lambda>enough.
            if enough then Inr () else Inl (Other_Exception ''black_swan_exception''))
          else Inr ()) (\<lambda>_.
       bind_res (fill_call_order F call_id call_pays call_receives d) (\<lambda>(_, d1).
       bind_res (fill_settle_order F settle_id call_receives call_pays d1) (\<lambda>(_, d2).
       bind_res (if cull_settle_order then cancel_settle_order F settle_id d2 else Inr d2) (\<lambda>d3.
       Inr (call_receives, d3)))))))))))))"

subsection \<open>Global settlement\<close>

definition settle_position :: "fc_lib \<Rightarrow> price \<Rightarrow> nat \<Rightarrow> asset \<times> database \<Rightarrow> (asset \<times> database) result" where
  "settle_position F sp i = (\<lambda>(collateral_gathered, d).
     bind_res (tbl_get (call_orders d) i) (\<lambda>order.
     bind_res
       (if maint_time d \<le> HARDFORK_CORE_342_TIME then mul_price (get_debt order) sp
        else multiply_and_round_up (get_debt order) sp) (\<lambda>pays0.
     bind_res (asset_greater pays0 (get_collateral order)) (\<lambda>short.
     let pays = (if short then get_collateral order else pays0) in
     bind_res (asset_plus F collateral_gathered pays) (\<lambda>gathered.
     bind_res (fill_call_order F i pays (get_debt order) d) (\<lambda>(filled, d1).
     require filled ''fill_call_order( order, pays, order.get_debt(), settlement_price, true )'' (Inr (gathered, d1))))))))"

definition globally_settle_asset :: "fc_lib \<Rightarrow> asset_id_type \<Rightarrow> price \<Rightarrow> database \<Rightarrow> database result" where
  "globally_settle_asset F mia_id sp d =
     bind_res (get_obj (assets d) mia_id) (\<lambda>mia.
     bind_res (bitasset_data mia d) (\<lambda>bitasset.
     require (\<not> has_settlement bitasset) ''black swan already occurred, it should not happen again''
    (let backing = bo_short_backing_asset (bd_options bitasset) in
     bind_res (get_obj (assets d) backing) (\<lambda>_.
     bind_res (get_obj (asset_dyn d) (dynamic_asset_data_id mia)) (\<lambda>mia_dyn.
     bind_res (call_range backing mia_id d) (\<lambda>calls.
     bind_res (fold_res (settle_position F sp) calls (mk_asset 0 backing, d)) (\<lambda>(collateral_gathered, d1).
     bind_res (price_of (mk_asset (current_supply mia_dyn) mia_id) collateral_gathered) (\<lambda>fund_price.
     bind_res (modify_bitasset mia (\<lambda>b. b\<lparr>bd_settlement_price := fund_price, bd_settlement_fund := amount collateral_gathered\<rparr>) d1) (\<lambda>d2.
     modify_dyn (dynamic_asset_data_id mia) (\<lambda>dyn. Inr (dyn\<lparr>current_supply := current_supply mia_dyn\<rparr>)) d2)))))))))"

text \<open>A position may be created only if its borrower has no other in the same asset: the index
  \<open>by_account\<close> is unique.\<close>

definition create_call_order :: "call_order_object \<Rightarrow> database \<Rightarrow> database result" where
  "create_call_order c d =
     require (\<forall>(i, x)\<in>set (rows (call_orders d)). \<not> (co_borrower x = co_borrower c \<and> debt_type x = debt_type c))
       ''Could not create object! Most likely a uniqueness constraint is violated.''
       (Inr (d\<lparr>call_orders := tbl_create c (call_orders d)\<rparr>))"

definition create_bid :: "collateral_bid_object \<Rightarrow> database \<Rightarrow> database result" where
  "create_bid b d =
     require (\<forall>(i, x)\<in>set (rows (collateral_bids d)). \<not> (cbo_bidder x = cbo_bidder b
         \<and> asset_id (quote (cbo_inv_swan_price x)) = asset_id (quote (cbo_inv_swan_price b))))
       ''Could not create object! Most likely a uniqueness constraint is violated.''
       (Inr (d\<lparr>collateral_bids := tbl_create b (collateral_bids d)\<rparr>))"

definition execute_bid :: "fc_lib \<Rightarrow> nat \<Rightarrow> int \<Rightarrow> int \<Rightarrow> price_feed \<Rightarrow> database \<Rightarrow> database result" where
  "execute_bid F i debt_covered collateral_from_fund current_feed d =
     bind_res (tbl_get (collateral_bids d) i) (\<lambda>bid.
     let ca = asset_id (base (cbo_inv_swan_price bid)); da = asset_id (quote (cbo_inv_swan_price bid)) in
     bind_res (safe_add F (amount (base (cbo_inv_swan_price bid))) collateral_from_fund) (\<lambda>coll.
     bind_res (call_price (mk_asset debt_covered da) (mk_asset coll ca) (maintenance_collateral_ratio current_feed)) (\<lambda>cp.
     bind_res (create_call_order \<lparr>co_borrower = cbo_bidder bid, co_collateral = coll, co_debt = debt_covered, co_call_price = cp,
         co_target_collateral_ratio = None\<rparr> d) (\<lambda>d1.
     bind_res (if ca = 0 then modify_stats (cbo_bidder bid) (add_core_in_orders F coll) d1 else Inr d1) (\<lambda>d2.
     Inr (d2\<lparr>collateral_bids := tbl_remove i (collateral_bids d2)\<rparr>))))))"

definition bids_of :: "asset_id_type \<Rightarrow> price \<Rightarrow> database \<Rightarrow> nat list" where
  "bids_of a highest d =
     map fst (filter (\<lambda>(i, b). asset_id (quote (cbo_inv_swan_price b)) = a \<and> \<not> price_greater (cbo_inv_swan_price b) highest)
       (sort_rows (\<lambda>x y. price_greater (cbo_inv_swan_price x) (cbo_inv_swan_price y)) (rows (collateral_bids d))))"

definition cancel_bids_and_revive_mpa :: "fc_lib \<Rightarrow> asset_id_type \<Rightarrow> database \<Rightarrow> database result" where
  "cancel_bids_and_revive_mpa F a d =
     bind_res (get_obj (assets d) a) (\<lambda>bitasset.
     require (is_market_issued bitasset) ''bitasset.is_market_issued()''
    (bind_res (bitasset_data bitasset d) (\<lambda>bad.
     require (has_settlement bad) ''bad.has_settlement()''
    (require (\<not> bd_is_prediction_market bad) ''!bad.is_prediction_market''
    (bind_res (price_max (bo_short_backing_asset (bd_options bad)) a) (\<lambda>highest.
     bind_res (fold_res (cancel_bid F) (bids_of a highest d) d) (\<lambda>d1.
     modify_bitasset bitasset (\<lambda>b. b\<lparr>bd_settlement_price := price_default, bd_settlement_fund := 0\<rparr>) d1)))))))"

definition revive_bitasset :: "fc_lib \<Rightarrow> asset_id_type \<Rightarrow> database \<Rightarrow> database result" where
  "revive_bitasset F a d =
     bind_res (get_obj (assets d) a) (\<lambda>bitasset.
     require (is_market_issued bitasset) ''bitasset.is_market_issued()''
    (bind_res (bitasset_data bitasset d) (\<lambda>bad.
     require (has_settlement bad) ''bad.has_settlement()''
    (bind_res (get_obj (asset_dyn d) (dynamic_asset_data_id bitasset)) (\<lambda>bdd.
     require (\<not> bd_is_prediction_market bad) ''!bad.is_prediction_market''
    (require (\<not> price_is_null (settlement_price (bd_current_feed bad))) ''!bad.current_feed.settlement_price.is_null()''
    (bind_res
       (if current_supply bdd > 0 then
          bind_res (price_of (mk_asset 0 (bo_short_backing_asset (bd_options bad))) (mk_asset (current_supply bdd) a)) (\<lambda>p.
          bind_res (create_bid \<lparr>cbo_bidder = issuer bitasset, cbo_inv_swan_price = p\<rparr> d) (\<lambda>d1.
          execute_bid F (next_instance (collateral_bids d)) (current_supply bdd) (bd_settlement_fund bad) (bd_current_feed bad) d1))
        else require (bd_settlement_fund bad = 0) ''bad.settlement_fund == 0'' (Inr d)) (\<lambda>d2.
     cancel_bids_and_revive_mpa F a d2))))))))"

subsection \<open>Black swans and margin calls\<close>

text \<open>The price at which an asset without settlement and with a feed has to be settled, if its least collateralized
  position cannot be covered at the best price there is.\<close>

definition black_swan_price :: "asset_id_type \<Rightarrow> asset_bitasset_data_object \<Rightarrow> database \<Rightarrow> price option result" where
  "black_swan_price mia_id bitasset d =
     (let settle_price = settlement_price (bd_current_feed bitasset);
          backing = bo_short_backing_asset (bd_options bitasset) in
      bind_res (call_range backing mia_id d) (\<lambda>calls.
      case calls of
        [] \<Rightarrow> Inr None
      | call_id # _ \<Rightarrow>
          bind_res (if maint_time d > HARDFORK_CORE_338_TIME then max_short_squeeze_price (bd_current_feed bitasset)
                    else Inr settle_price) (\<lambda>highest0.
          bind_res (price_max mia_id backing) (\<lambda>highest_possible_bid.
          bind_res (price_min mia_id backing) (\<lambda>lowest_possible_bid.
          bind_res
            (case limit_range highest_possible_bid lowest_possible_bid d of
               [] \<Rightarrow> Inr highest0
             | l # _ \<Rightarrow>
                 bind_res (tbl_get (limit_orders d) l) (\<lambda>bid.
                 require (asset_id (base highest0) = sell_asset_id bid) ''highest.base.asset_id == limit_itr->sell_price.base.asset_id''
                   (Inr (if price_less (lo_sell_price bid) highest0 then highest0 else lo_sell_price bid)))) (\<lambda>highest.
          bind_res (tbl_get (call_orders d) call_id) (\<lambda>call.
          bind_res (collateralization call) (\<lambda>least_collateral.
          if price_ge (price_inv least_collateral) highest then
            Inr (Some (if maint_time d > HARDFORK_CORE_338_TIME \<and> price_le (price_inv least_collateral) settle_price
                       then settle_price else price_inv least_collateral))
          else Inr None))))))))"

definition check_for_blackswan :: "fc_lib \<Rightarrow> asset_id_type \<Rightarrow> bool \<Rightarrow> database \<Rightarrow> (bool \<times> database) result" where
  "check_for_blackswan F mia_id enable_black_swan d =
     bind_res (get_obj (assets d) mia_id) (\<lambda>mia.
     if \<not> is_market_issued mia then Inr (False, d)
     else bind_res (bitasset_data mia d) (\<lambda>bitasset.
     if has_settlement bitasset then Inr (True, d)
     else if price_is_null (settlement_price (bd_current_feed bitasset)) then Inr (False, d)
     else bind_res (black_swan_price mia_id bitasset d) (\<lambda>swan.
     case swan of
       None \<Rightarrow> Inr (False, d)
     | Some p \<Rightarrow>
         require enable_black_swan ''Black swan was detected during a margin update which is not allowed to trigger a blackswan''
        (bind_res (globally_settle_asset F mia_id p d) (\<lambda>d1. Inr (True, d1))))))"

text \<open>The loop of \<open>check_call_orders\<close>: what is left of the two books, whether a margin call was executed,
  whether a limit order was filled (a flag that the code never resets), and the database.\<close>

record margin_state =
  ms_calls :: "nat list"
  ms_limits :: "nat list"
  ms_margin_called :: bool
  ms_filled_limit :: bool
  ms_db :: database

text \<open>The amounts of one margin call: what the limit order receives, what the position receives, whether the
  position and whether the limit order count as filled.\<close>

definition margin_call_amounts :: "database \<Rightarrow> asset \<Rightarrow> asset \<Rightarrow> price \<Rightarrow> bool \<Rightarrow> (asset \<times> asset \<times> bool \<times> bool) result" where
  "margin_call_amounts d usd_to_buy usd_for_sale match_price filled_limit =
     bind_res (asset_greater usd_to_buy usd_for_sale) (\<lambda>fill_order.
     if fill_order then
       bind_res (mul_price usd_for_sale match_price) (\<lambda>order_receives.
       bind_res (if maint_time d \<le> HARDFORK_CORE_342_TIME then Inr usd_for_sale
                 else multiply_and_round_up order_receives match_price) (\<lambda>call_receives.
       Inr (order_receives, call_receives, False, True)))
     else
       bind_res (if maint_time d \<le> HARDFORK_CORE_342_TIME then mul_price usd_to_buy match_price
                 else multiply_and_round_up usd_to_buy match_price) (\<lambda>order_receives.
       Inr (order_receives, usd_to_buy, True, filled_limit \<or> usd_to_buy = usd_for_sale)))"

text \<open>What to do with the first position and the best limit order: stop, settle globally, or fill both.\<close>

datatype margin_action =
    Stop_Calling
  | Black_Swan
  | Fill_Both asset asset bool bool   \<comment> \<open>order receives, position receives, position filled, limit order filled\<close>

definition margin_call_action :: "fc_lib \<Rightarrow> price_feed \<Rightarrow> call_order_object \<Rightarrow> limit_order_object \<Rightarrow> bool \<Rightarrow> database
    \<Rightarrow> margin_action result" where
  "margin_call_action F feed call limit filled_limit d =
     (let match_price = lo_sell_price limit; usd_for_sale = amount_for_sale limit in
      bind_res (price_validate match_price) (\<lambda>_.
      if head_block_time d > HARDFORK_436_TIME \<and> price_greater (settlement_price feed) (price_inv (co_call_price call))
      then Inr Stop_Calling
      else if maint_time d \<le> HARDFORK_CORE_606_TIME \<and> price_greater match_price (price_inv (co_call_price call))
      then Inr Stop_Calling
      else
        bind_res (mul_price (get_debt call) match_price) (\<lambda>cost.
        bind_res (asset_greater cost (get_collateral call)) (\<lambda>short.
        if short then Inr Black_Swan
        else
          bind_res
            (if maint_time d \<le> HARDFORK_CORE_834_TIME then Inr (get_debt call)
             else bind_res (get_max_debt_to_cover F call match_price (settlement_price feed) (maintenance_collateral_ratio feed))
                    (\<lambda>x. Inr (mk_asset x (debt_type call)))) (\<lambda>usd_to_buy.
          bind_res (margin_call_amounts d usd_to_buy usd_for_sale match_price filled_limit)
            (\<lambda>(order_receives, call_receives, filled_call, filled). Inr (Fill_Both order_receives call_receives filled_call filled)))))))"

definition margin_call_step :: "fc_lib \<Rightarrow> asset_id_type \<Rightarrow> asset_bitasset_data_object \<Rightarrow> bool \<Rightarrow> margin_state
    \<Rightarrow> (margin_state + bool \<times> database) result" where
  "margin_call_step F mia_id bitasset enable_black_swan s =
     bind_res (check_for_blackswan F mia_id enable_black_swan (ms_db s)) (\<lambda>(swan, d).
     if swan \<or> ms_calls s = [] \<or> ms_limits s = [] then Inr (Inr (ms_margin_called s, d))
     else
       bind_res (tbl_get (limit_orders d) (hd (ms_limits s))) (\<lambda>limit.
       bind_res (tbl_get (call_orders d) (hd (ms_calls s))) (\<lambda>call.
       bind_res (margin_call_action F (bd_current_feed bitasset) call limit (ms_filled_limit s) d) (\<lambda>action.
       case action of
         Stop_Calling \<Rightarrow> Inr (Inr (ms_margin_called s, d))
       | Black_Swan \<Rightarrow>
           require enable_black_swan ''enable_black_swan''
          (bind_res (globally_settle_asset F mia_id (settlement_price (bd_current_feed bitasset)) d) (\<lambda>d1. Inr (Inr (True, d1))))
       | Fill_Both order_receives call_receives filled_call filled_limit \<Rightarrow>
           bind_res (fill_call_order F (hd (ms_calls s)) order_receives call_receives d) (\<lambda>(_, d1).
           bind_res
             (if maint_time d \<le> HARDFORK_CORE_343_TIME then Inr (if filled_call then tl (ms_calls s) else ms_calls s)
              else call_range (bo_short_backing_asset (bd_options bitasset)) mia_id d1) (\<lambda>calls.
           bind_res (fill_limit_order F (hd (ms_limits s)) call_receives order_receives True d1) (\<lambda>(really_filled, d2).
           Inr (Inl \<lparr>ms_calls = calls,
              ms_limits = (if really_filled \<or> filled_limit \<and> maint_time d \<le> HARDFORK_CORE_453_TIME
                           then tl (ms_limits s) else ms_limits s),
              ms_margin_called = True, ms_filled_limit = filled_limit, ms_db = d2\<rparr>))))))))"

definition check_call_orders :: "fc_lib \<Rightarrow> asset_id_type \<Rightarrow> bool \<Rightarrow> bool \<Rightarrow> database \<Rightarrow> (bool \<times> database) result" where
  "check_call_orders F mia_id enable_black_swan for_new_limit_order d =
     require (for_new_limit_order \<longrightarrow> maint_time d \<le> HARDFORK_CORE_625_TIME) ''maint_time <= HARDFORK_CORE_625_TIME''
    (bind_res (get_obj (assets d) mia_id) (\<lambda>mia.
     if \<not> is_market_issued mia then Inr (False, d)
     else bind_res (check_for_blackswan F mia_id enable_black_swan d) (\<lambda>(swan, d1).
     if swan then Inr (False, d1)
     else bind_res (bitasset_data mia d1) (\<lambda>bitasset.
     if bd_is_prediction_market bitasset then Inr (False, d1)
     else if price_is_null (settlement_price (bd_current_feed bitasset)) then Inr (False, d1)
     else
       let backing = bo_short_backing_asset (bd_options bitasset) in
       bind_res (price_max mia_id backing) (\<lambda>max_price.
       bind_res (max_short_squeeze_price (bd_current_feed bitasset)) (\<lambda>min_price.
       let limits = limit_range max_price min_price d1 in
       if limits = [] then Inr (False, d1)
       else
         bind_res (call_range backing mia_id d1) (\<lambda>calls.
         run_loop (margin_call_step F mia_id bitasset enable_black_swan)
           \<lparr>ms_calls = calls, ms_limits = limits, ms_margin_called = False, ms_filled_limit = False, ms_db = d1\<rparr>)))))))"

subsection \<open>A new limit order\<close>

text \<open>The loops over the opposite side of the book: the new order meets the old ones at their prices
  until it is gone; \<open>better_than\<close> is the price below which the loop stops. The result is whether the new order is gone, the part of
  the book that is left, and the database.\<close>

fun match_limits :: "fc_lib \<Rightarrow> nat \<Rightarrow> price option \<Rightarrow> nat list \<Rightarrow> database \<Rightarrow> (bool \<times> nat list \<times> database) result" where
  "match_limits F new_id better_than [] d = Inr (False, [], d)"
| "match_limits F new_id better_than (i # is) d =
     bind_res (tbl_get (limit_orders d) i) (\<lambda>old.
     if (case better_than of None \<Rightarrow> False | Some p \<Rightarrow> \<not> price_greater (lo_sell_price old) p) then Inr (False, i # is, d)
     else bind_res (match_limit F new_id i (lo_sell_price old) d) (\<lambda>(r, d1).
       if r \<noteq> 2 then Inr (True, is, d1) else match_limits F new_id better_than is d1))"

definition opposite_book :: "price \<Rightarrow> database \<Rightarrow> nat list result" where
  "opposite_book sell_price d =
     (let max_price = price_inv sell_price in
      bind_res (price_max (asset_id (base max_price)) (asset_id (quote max_price))) (\<lambda>highest.
      Inr (limit_range highest max_price d)))"

definition cull_new_order :: "fc_lib \<Rightarrow> nat \<Rightarrow> database \<Rightarrow> (bool \<times> database) result" where
  "cull_new_order F new_id d =
     (if tbl_find (limit_orders d) new_id = None then Inr (True, d) else maybe_cull_small_order F new_id d)"

definition apply_order_before_hardfork_625 :: "fc_lib \<Rightarrow> nat \<Rightarrow> bool \<Rightarrow> database \<Rightarrow> (bool \<times> database) result" where
  "apply_order_before_hardfork_625 F order_id allow_black_swan d =
     bind_res (tbl_get (limit_orders d) order_id) (\<lambda>new_order.
     let sell = sell_asset_id new_order; receive = receive_asset_id new_order in
     bind_res (get_obj (assets d) sell) (\<lambda>_.
     bind_res (amount_to_receive new_order) (\<lambda>_.
     bind_res (get_obj (assets d) receive) (\<lambda>_.
     bind_res (check_call_orders F sell allow_black_swan True d) (\<lambda>(called1, d1).
     bind_res (check_call_orders F receive allow_black_swan True d1) (\<lambda>(called2, d2).
     if (called1 \<or> called2) \<and> tbl_find (limit_orders d2) order_id = None then Inr (True, d2)
     else
       bind_res (opposite_book (lo_sell_price new_order) d2) (\<lambda>book.
       bind_res (match_limits F order_id None book d2) (\<lambda>(_, _, d3).
       bind_res (check_call_orders F sell allow_black_swan False d3) (\<lambda>(_, d4).
       bind_res (check_call_orders F receive allow_black_swan False d4) (\<lambda>(_, d5).
       if tbl_find (limit_orders d5) order_id = None then Inr (True, d5)
       else if head_block_time d5 \<le> HARDFORK_555_TIME then Inr (False, d5)
       else maybe_cull_small_order F order_id d5))))))))))"

text \<open>Margin calls met by a new order that sells the asset they have to buy.\<close>

definition meet_margin_calls :: "fc_lib \<Rightarrow> nat \<Rightarrow> asset_id_type \<Rightarrow> asset_id_type \<Rightarrow> price \<Rightarrow> price_feed \<Rightarrow> database
    \<Rightarrow> (database + bool \<times> database) result" where
  "meet_margin_calls F order_id sell receive call_match_price feed d =
     bind_res (price_min receive sell) (\<lambda>call_min.
     case filter (\<lambda>(i, c). \<not> price_less (co_call_price c) call_min) (call_book d) of
       [] \<Rightarrow> Inr (Inr (False, d))
     | (call_id, call) # _ \<Rightarrow>
         if debt_type call \<noteq> sell \<or> price_greater (co_call_price call) (price_inv (settlement_price feed)) then Inr (Inr (False, d))
         else
           bind_res (match_limit_call F order_id call_id call_match_price (settlement_price feed) (maintenance_collateral_ratio feed) d)
             (\<lambda>(r, d1). if r = 1 \<or> r = 3 then Inr (Inr (True, d1)) else Inr (Inl d1)))"

text \<open>The price at which a new order can meet margin calls, if it can.\<close>

definition call_match_price_for :: "limit_order_object \<Rightarrow> database \<Rightarrow> (price \<times> price_feed) option result" where
  "call_match_price_for new_order d =
     bind_res (get_obj (assets d) (sell_asset_id new_order)) (\<lambda>sell_asset.
     if \<not> is_market_issued sell_asset then Inr None
     else bind_res (bitasset_data sell_asset d) (\<lambda>abd.
       if bo_short_backing_asset (bd_options abd) = receive_asset_id new_order \<and> \<not> bd_is_prediction_market abd
          \<and> \<not> has_settlement abd \<and> \<not> price_is_null (settlement_price (bd_current_feed abd)) then
         bind_res (max_short_squeeze_price (bd_current_feed abd)) (\<lambda>squeeze.
         let p = price_inv squeeze in
         Inr (if price_le (price_inv (lo_sell_price new_order)) p then Some (p, bd_current_feed abd) else None))
       else Inr None))"

definition at_front_of_book :: "nat \<Rightarrow> limit_order_object \<Rightarrow> database \<Rightarrow> bool" where
  "at_front_of_book order_id new_order d =
     (case rev (takeWhile (\<lambda>(i, x). i \<noteq> order_id) (limit_book d)) of
        [] \<Rightarrow> True
      | (i, x) # _ \<Rightarrow> \<not> (sell_asset_id x = sell_asset_id new_order \<and> receive_asset_id x = receive_asset_id new_order))"

definition apply_order :: "fc_lib \<Rightarrow> nat \<Rightarrow> database \<Rightarrow> (bool \<times> database) result" where
  "apply_order F order_id d =
     bind_res (tbl_get (limit_orders d) order_id) (\<lambda>new_order.
     if \<not> at_front_of_book order_id new_order d then Inr (False, d)
     else
       bind_res (opposite_book (lo_sell_price new_order) d) (\<lambda>book.
       bind_res (call_match_price_for new_order d) (\<lambda>calls.
       bind_res
         (case calls of
            None \<Rightarrow> Inr (False, book, d)
          | Some (call_match_price, feed) \<Rightarrow>
              bind_res (match_limits F order_id (Some call_match_price) book d) (\<lambda>(finished, rest, d1).
              if finished then Inr (True, rest, d1)
              else bind_res (run_loop (meet_margin_calls F order_id (sell_asset_id new_order) (receive_asset_id new_order)
                     call_match_price feed) d1) (\<lambda>(finished, d2). Inr (finished, rest, d2)))) (\<lambda>(finished, rest, d3).
       bind_res (if finished then Inr (True, rest, d3) else match_limits F order_id None rest d3) (\<lambda>(_, _, d4).
       cull_new_order F order_id d4)))))"

subsection \<open>The operations\<close>

record limit_order_create_operation =
  lc_fee :: asset
  lc_seller :: account_id_type
  lc_amount_to_sell :: asset
  lc_min_to_receive :: asset
  lc_expiration :: nat
  lc_fill_or_kill :: bool

definition limit_order_create_validate :: "limit_order_create_operation \<Rightarrow> unit result" where
  "limit_order_create_validate op =
     require (asset_id (lc_amount_to_sell op) \<noteq> asset_id (lc_min_to_receive op)) ''amount_to_sell.asset_id != min_to_receive.asset_id''
    (require (amount (lc_fee op) \<ge> 0) ''fee.amount >= 0''
    (require (amount (lc_amount_to_sell op) > 0) ''amount_to_sell.amount > 0''
    (require (amount (lc_min_to_receive op) > 0) ''min_to_receive.amount > 0'' (Inr ()))))"

definition limit_order_create_do_evaluate :: "limit_order_create_operation \<Rightarrow> database \<Rightarrow> unit result" where
  "limit_order_create_do_evaluate op d =
     require (lc_expiration op \<ge> head_block_time d) ''op.expiration >= d.head_block_time()''
    (bind_res (get_obj (accounts d) (lc_seller op)) (\<lambda>seller.
     bind_res (get_obj (assets d) (asset_id (lc_amount_to_sell op))) (\<lambda>sell_asset.
     bind_res (get_obj (assets d) (asset_id (lc_min_to_receive op))) (\<lambda>receive_asset.
     require (ao_whitelist_markets (options sell_asset) \<noteq> {} \<longrightarrow>
         asset_id (lc_min_to_receive op) \<in> ao_whitelist_markets (options sell_asset)) ''whitelist_markets''
    (require (ao_blacklist_markets (options sell_asset) \<noteq> {} \<longrightarrow>
         asset_id (lc_min_to_receive op) \<notin> ao_blacklist_markets (options sell_asset)) ''blacklist_markets''
    (require (is_authorized_asset d seller (asset_id (lc_amount_to_sell op)) sell_asset) ''is_authorized_asset( d, *_seller, *_sell_asset )''
    (require (is_authorized_asset d seller (asset_id (lc_min_to_receive op)) receive_asset) ''is_authorized_asset( d, *_seller, *_receive_asset )''
    (bind_res (asset_ge (get_balance d (lc_seller op) (asset_id (lc_amount_to_sell op))) (lc_amount_to_sell op)) (\<lambda>enough.
     require enough ''insufficient balance'' (Inr ()))))))))))"

text \<open>The fee of a new order is deferred until the order is filled or cancelled: the evaluator replaces the
  generic conversion and booking of the fee.\<close>

definition limit_order_convert_fee :: "fc_lib \<Rightarrow> trx_state \<Rightarrow> fee_state \<Rightarrow> database \<Rightarrow> database result" where
  "limit_order_convert_fee F ts fs d =
     (if head_block_time d \<le> HARDFORK_CORE_604_TIME then convert_fee F ts fs d
      else if \<not> skip_fee ts \<and> asset_id (fee_from_account fs) \<noteq> 0 then
        modify_dyn (fee_asset_dyn_data fs) (\<lambda>x.
          bind_res (safe_sub F (fee_pool x) (core_fee_paid fs)) (\<lambda>fp. Inr (x\<lparr>fee_pool := fp\<rparr>))) d
      else Inr d)"

definition limit_order_pay_fee :: "fc_lib \<Rightarrow> trx_state \<Rightarrow> fee_state \<Rightarrow> database \<Rightarrow> (int \<times> asset \<times> database) result" where
  "limit_order_pay_fee F ts fs d =
     (if head_block_time d \<le> HARDFORK_445_TIME then bind_res (pay_fee F ts fs d) (\<lambda>d1. Inr (0, mk_asset 0 0, d1))
      else Inr (core_fee_paid fs,
        if head_block_time d > HARDFORK_CORE_604_TIME \<and> asset_id (fee_from_account fs) \<noteq> 0 then fee_from_account fs else mk_asset 0 0, d))"

definition limit_order_create_do_apply :: "fc_lib \<Rightarrow> limit_order_create_operation \<Rightarrow> int \<Rightarrow> asset \<Rightarrow> database \<Rightarrow> database result" where
  "limit_order_create_do_apply F op deferred_fee deferred_paid_fee d =
     bind_res (modify_stats (lc_seller op)
         (\<lambda>s. if asset_id (lc_amount_to_sell op) = 0 then add_core_in_orders F (amount (lc_amount_to_sell op)) s else Inr s) d) (\<lambda>d1.
     bind_res (deduct_balance F (lc_seller op) (lc_amount_to_sell op) d1) (\<lambda>d2.
     bind_res (price_of (lc_amount_to_sell op) (lc_min_to_receive op)) (\<lambda>p.
     let order_id = next_instance (limit_orders d2);
         d3 = d2\<lparr>limit_orders := tbl_create \<lparr>lo_expiration = lc_expiration op, lo_seller = lc_seller op,
                lo_for_sale = amount (lc_amount_to_sell op), lo_sell_price = p, lo_deferred_fee = deferred_fee,
                lo_deferred_paid_fee = deferred_paid_fee\<rparr> (limit_orders d2)\<rparr> in
     bind_res
       (if maint_time d3 \<le> HARDFORK_CORE_625_TIME then apply_order_before_hardfork_625 F order_id True d3
        else apply_order F order_id d3) (\<lambda>(filled, d4).
     require (lc_fill_or_kill op \<longrightarrow> filled) ''!op.fill_or_kill || filled'' (Inr d4)))))"

definition limit_order_create_evaluate :: "fc_lib \<Rightarrow> trx_state \<Rightarrow> int \<Rightarrow> limit_order_create_operation \<Rightarrow> database \<Rightarrow> database result" where
  "limit_order_create_evaluate F ts required_fee op d =
     bind_res (limit_order_create_validate op) (\<lambda>_.
     bind_res (evaluate_op ts required_fee (lc_seller op) (lc_fee op) (limit_order_create_do_evaluate op) d) (\<lambda>(fs, _).
     bind_res (limit_order_convert_fee F ts fs d) (\<lambda>d1.
     bind_res (limit_order_pay_fee F ts fs d1) (\<lambda>(deferred_fee, deferred_paid_fee, d2).
     bind_res (limit_order_create_do_apply F op deferred_fee deferred_paid_fee d2) (\<lambda>d3.
     deduct_balance F (lc_seller op) (fee_from_account fs) d3)))))"

record limit_order_cancel_operation =
  lx_fee :: asset
  lx_order :: nat
  lx_fee_paying_account :: account_id_type

definition limit_order_cancel_validate :: "limit_order_cancel_operation \<Rightarrow> unit result" where
  "limit_order_cancel_validate op = require (amount (lx_fee op) \<ge> 0) ''fee.amount >= 0'' (Inr ())"

definition limit_order_cancel_do_evaluate :: "limit_order_cancel_operation \<Rightarrow> database \<Rightarrow> unit result" where
  "limit_order_cancel_do_evaluate op d =
     bind_res (tbl_get (limit_orders d) (lx_order op)) (\<lambda>order.
     require (lo_seller order = lx_fee_paying_account op) ''_order->seller == o.fee_paying_account'' (Inr ()))"

definition limit_order_cancel_do_apply :: "fc_lib \<Rightarrow> limit_order_cancel_operation \<Rightarrow> database \<Rightarrow> database result" where
  "limit_order_cancel_do_apply F op d =
     bind_res (tbl_get (limit_orders d) (lx_order op)) (\<lambda>order.
     bind_res (cancel_limit_order F (lx_order op) False False d) (\<lambda>d1.
     if maint_time d1 \<le> HARDFORK_CORE_606_TIME then
       bind_res (check_call_orders F (sell_asset_id order) True False d1) (\<lambda>(_, d2).
       bind_res (check_call_orders F (receive_asset_id order) True False d2) (\<lambda>(_, d3). Inr d3))
     else Inr d1))"

definition limit_order_cancel_evaluate :: "fc_lib \<Rightarrow> trx_state \<Rightarrow> int \<Rightarrow> limit_order_cancel_operation \<Rightarrow> database \<Rightarrow> database result" where
  "limit_order_cancel_evaluate F ts required_fee op d =
     bind_res (limit_order_cancel_validate op) (\<lambda>_.
     start_evaluate F ts required_fee (lx_fee_paying_account op) (lx_fee op) (limit_order_cancel_do_evaluate op)
       (\<lambda>_. limit_order_cancel_do_apply F op) d)"

record call_order_update_operation =
  cu_fee :: asset
  cu_funding_account :: account_id_type
  cu_delta_collateral :: asset
  cu_delta_debt :: asset
  cu_target_collateral_ratio :: "nat option"

definition call_order_update_validate :: "call_order_update_operation \<Rightarrow> unit result" where
  "call_order_update_validate op =
     require (amount (cu_fee op) \<ge> 0) ''fee.amount >= 0''
    (require (asset_id (cu_delta_collateral op) \<noteq> asset_id (cu_delta_debt op)) ''delta_collateral.asset_id != delta_debt.asset_id''
    (require (amount (cu_delta_collateral op) \<noteq> 0 \<or> amount (cu_delta_debt op) \<noteq> 0)
       ''delta_collateral.amount != 0 || delta_debt.amount != 0'' (Inr ())))"

definition call_order_update_do_evaluate :: "call_order_update_operation \<Rightarrow> database \<Rightarrow> asset_bitasset_data_object result" where
  "call_order_update_do_evaluate op d =
     require (maint_time d \<le> HARDFORK_CORE_834_TIME \<longrightarrow> cu_target_collateral_ratio op = None)
       ''Can not set target_collateral_ratio in call_order_update_operation before hardfork 834.''
    (bind_res (get_obj (accounts d) (cu_funding_account op)) (\<lambda>_.
     bind_res (get_obj (assets d) (asset_id (cu_delta_debt op))) (\<lambda>debt_asset.
     require (is_market_issued debt_asset) ''Unable to cover as it is not a collateralized asset.''
    (bind_res (bitasset_data debt_asset d) (\<lambda>b.
     require (\<not> has_settlement b) ''!_bitasset_data->has_settlement()''
    (require (asset_id (cu_delta_collateral op) = bo_short_backing_asset (bd_options b))
       ''o.delta_collateral.asset_id == _bitasset_data->options.short_backing_asset''
    (require (bd_is_prediction_market b \<longrightarrow> amount (cu_delta_collateral op) = amount (cu_delta_debt op))
       ''o.delta_collateral.amount == o.delta_debt.amount''
    (if \<not> bd_is_prediction_market b \<and> price_is_null (settlement_price (bd_current_feed b))
     then Inl (Other_Exception ''insufficient_feeds'')
     else
       bind_res (if amount (cu_delta_collateral op) > 0
         then bind_res (get_obj (assets d) (bo_short_backing_asset (bd_options b))) (\<lambda>_.
              bind_res (asset_ge (get_balance d (cu_funding_account op) (bo_short_backing_asset (bd_options b))) (cu_delta_collateral op)) (\<lambda>enough.
              require enough ''Cannot increase collateral'' (Inr ())))
         else Inr ()) (\<lambda>_. Inr b)))))))))"

definition find_call_order :: "account_id_type \<Rightarrow> asset_id_type \<Rightarrow> database \<Rightarrow> (nat \<times> call_order_object) option" where
  "find_call_order acct a d = List.find (\<lambda>(i, c). co_borrower c = acct \<and> debt_type c = a) (rows (call_orders d))"

text \<open>Creating or changing the position; the result is its id and its previous state.\<close>

definition update_position :: "fc_lib \<Rightarrow> call_order_update_operation \<Rightarrow> nat \<Rightarrow> database
    \<Rightarrow> (nat \<times> call_order_object option \<times> database) result" where
  "update_position F op mcr d =
     (case find_call_order (cu_funding_account op) (asset_id (cu_delta_debt op)) d of
        None \<Rightarrow>
          require (amount (cu_delta_collateral op) > 0) ''o.delta_collateral.amount > 0''
         (require (amount (cu_delta_debt op) > 0) ''o.delta_debt.amount > 0''
         (bind_res (call_price (cu_delta_debt op) (cu_delta_collateral op) mcr) (\<lambda>p.
          bind_res (create_call_order \<lparr>co_borrower = cu_funding_account op, co_collateral = amount (cu_delta_collateral op),
              co_debt = amount (cu_delta_debt op), co_call_price = p, co_target_collateral_ratio = cu_target_collateral_ratio op\<rparr> d) (\<lambda>d1.
          Inr (next_instance (call_orders d), None, d1)))))
      | Some (i, call) \<Rightarrow>
          bind_res (collateralization call) (\<lambda>_.
          bind_res (safe_add F (co_collateral call) (amount (cu_delta_collateral op))) (\<lambda>coll.
          bind_res (safe_add F (co_debt call) (amount (cu_delta_debt op))) (\<lambda>debt.
          let call1 = call\<lparr>co_collateral := coll, co_debt := debt\<rparr> in
          bind_res (if debt > 0 then call_price (get_debt call1) (get_collateral call1) mcr else Inr (co_call_price call)) (\<lambda>p.
          Inr (i, Some call, d\<lparr>call_orders := tbl_set i (call1\<lparr>co_call_price := p,
            co_target_collateral_ratio := cu_target_collateral_ratio op\<rparr>) (call_orders d)\<rparr>))))))"

text \<open>The checks after a position has changed: it must not be left in margin call territory, unless it is an
  improvement.\<close>

definition check_updated_position :: "fc_lib \<Rightarrow> asset_id_type \<Rightarrow> asset_bitasset_data_object \<Rightarrow> nat \<Rightarrow> call_order_object option
    \<Rightarrow> database \<Rightarrow> database result" where
  "check_updated_position F debt_asset b call_id old d =
     bind_res (check_call_orders F debt_asset False False d) (\<lambda>(called, d1).
     if called then
       (if tbl_find (call_orders d1) call_id = None then Inr d1
        else Inl (Other_Exception ''call_order_update_unfilled_margin_call''))
     else
       (case tbl_find (call_orders d1) call_id of
          None \<Rightarrow> Inl (Assert_Exception ''no margin call was executed and yet the call object was deleted'')
        | Some call \<Rightarrow>
            let above = price_less (price_inv (co_call_price call)) (settlement_price (bd_current_feed b)) in
            if head_block_time d1 \<le> HARDFORK_CORE_583_TIME then
              (if above then Inr d1 else Inl (Other_Exception ''call_order_update_unfilled_margin_call''))
            else
              bind_res
                (case old of
                   None \<Rightarrow> Inr False
                 | Some c0 \<Rightarrow>
                     if co_debt call \<le> co_debt c0 then
                       bind_res (collateralization c0) (\<lambda>q0. bind_res (collateralization call) (\<lambda>q. Inr (price_greater q q0)))
                     else Inr False) (\<lambda>improved.
              require (improved \<or> above)
                ''Can only increase collateral ratio without increasing debt if would trigger a margin call that cannot be fully filled''
                (Inr d1))))"

text \<open>The two halves of a change that do not touch the position: debt is issued to or taken back from the account,
  collateral is taken from or returned to it.\<close>

definition adjust_debt :: "fc_lib \<Rightarrow> call_order_update_operation \<Rightarrow> database \<Rightarrow> database result" where
  "adjust_debt F op d =
     (if amount (cu_delta_debt op) \<noteq> 0 then
        bind_res (adjust_balance F (cu_funding_account op) (cu_delta_debt op) d) (\<lambda>d1.
        bind_res (get_obj (assets d1) (asset_id (cu_delta_debt op))) (\<lambda>debt_asset.
        modify_dyn (dynamic_asset_data_id debt_asset) (\<lambda>dyn.
          bind_res (safe_add F (current_supply dyn) (amount (cu_delta_debt op))) (\<lambda>s.
          require (s \<ge> 0) ''dynamic_asset.current_supply >= 0'' (Inr (dyn\<lparr>current_supply := s\<rparr>)))) d1))
      else Inr d)"

definition adjust_collateral :: "fc_lib \<Rightarrow> call_order_update_operation \<Rightarrow> database \<Rightarrow> database result" where
  "adjust_collateral F op d =
     (if amount (cu_delta_collateral op) \<noteq> 0 then
        bind_res (deduct_balance F (cu_funding_account op) (cu_delta_collateral op) d) (\<lambda>d1.
        if asset_id (cu_delta_collateral op) = 0
        then modify_stats (cu_funding_account op) (add_core_in_orders F (amount (cu_delta_collateral op))) d1
        else Inr d1)
      else Inr d)"

definition call_order_update_do_apply :: "fc_lib \<Rightarrow> call_order_update_operation \<Rightarrow> asset_bitasset_data_object \<Rightarrow> database \<Rightarrow> database result" where
  "call_order_update_do_apply F op b d =
     bind_res (adjust_debt F op d) (\<lambda>d2.
     bind_res (adjust_collateral F op d2) (\<lambda>d4.
     bind_res (update_position F op (maintenance_collateral_ratio (bd_current_feed b)) d4) (\<lambda>(call_id, old, d5).
     bind_res (tbl_get (call_orders d5) call_id) (\<lambda>call.
     if co_debt call = 0 then
       require (co_collateral call = 0) ''call_obj->collateral == 0''
         (Inr (d5\<lparr>call_orders := tbl_remove call_id (call_orders d5)\<rparr>))
     else
       require (co_collateral call > 0 \<and> co_debt call > 0) ''call_obj->collateral > 0 && call_obj->debt > 0''
         (if bd_is_prediction_market b then Inr d5
          else check_updated_position F (asset_id (cu_delta_debt op)) b call_id old d5)))))"

definition call_order_update_evaluate :: "fc_lib \<Rightarrow> trx_state \<Rightarrow> int \<Rightarrow> call_order_update_operation \<Rightarrow> database \<Rightarrow> database result" where
  "call_order_update_evaluate F ts required_fee op d =
     bind_res (call_order_update_validate op) (\<lambda>_.
     start_evaluate F ts required_fee (cu_funding_account op) (cu_fee op) (call_order_update_do_evaluate op)
       (call_order_update_do_apply F op) d)"

record bid_collateral_operation =
  bc_fee :: asset
  bc_bidder :: account_id_type
  bc_additional_collateral :: asset
  bc_debt_covered :: asset

definition bid_collateral_validate :: "bid_collateral_operation \<Rightarrow> unit result" where
  "bid_collateral_validate op =
     require (amount (bc_fee op) \<ge> 0) ''fee.amount >= 0''
    (require (amount (bc_debt_covered op) = 0 \<or> amount (bc_debt_covered op) > 0 \<and> amount (bc_additional_collateral op) > 0)
       ''debt_covered.amount == 0 || (debt_covered.amount > 0 && additional_collateral.amount > 0)'' (Inr ()))"

definition bid_collateral_do_evaluate :: "bid_collateral_operation \<Rightarrow> database \<Rightarrow> nat option result" where
  "bid_collateral_do_evaluate op d =
     require (head_block_time d > HARDFORK_CORE_216_TIME) ''Not yet!''
    (bind_res (get_obj (accounts d) (bc_bidder op)) (\<lambda>_.
     bind_res (get_obj (assets d) (asset_id (bc_debt_covered op))) (\<lambda>debt_asset.
     require (is_market_issued debt_asset) ''Unable to cover as it is not a collateralized asset.''
    (bind_res (bitasset_data debt_asset d) (\<lambda>b.
     require (has_settlement b) ''_bitasset_data->has_settlement()''
    (require (asset_id (bc_additional_collateral op) = bo_short_backing_asset (bd_options b))
       ''o.additional_collateral.asset_id == _bitasset_data->options.short_backing_asset''
    (require (\<not> bd_is_prediction_market b) ''Cannot bid on a prediction market!''
    (bind_res (if amount (bc_additional_collateral op) > 0
       then bind_res (get_obj (assets d) (bo_short_backing_asset (bd_options b))) (\<lambda>_.
            bind_res (asset_ge (get_balance d (bc_bidder op) (bo_short_backing_asset (bd_options b))) (bc_additional_collateral op)) (\<lambda>enough.
            require enough ''Cannot bid collateral'' (Inr ())))
       else Inr ()) (\<lambda>_.
     case List.find (\<lambda>(i, x). asset_id (quote (cbo_inv_swan_price x)) = asset_id (bc_debt_covered op) \<and> cbo_bidder x = bc_bidder op)
         (rows (collateral_bids d)) of
       Some (i, _) \<Rightarrow> Inr (Some i)
     | None \<Rightarrow> require (amount (bc_debt_covered op) > 0) ''find bid to cancel'' (Inr None))))))))))"

definition bid_collateral_do_apply :: "fc_lib \<Rightarrow> bid_collateral_operation \<Rightarrow> nat option \<Rightarrow> database \<Rightarrow> database result" where
  "bid_collateral_do_apply F op bid d =
     bind_res (case bid of None \<Rightarrow> Inr d | Some i \<Rightarrow> cancel_bid F i d) (\<lambda>d1.
     if amount (bc_debt_covered op) = 0 then Inr d1
     else
       bind_res (deduct_balance F (bc_bidder op) (bc_additional_collateral op) d1) (\<lambda>d2.
       bind_res (price_of (bc_additional_collateral op) (bc_debt_covered op)) (\<lambda>p.
       create_bid \<lparr>cbo_bidder = bc_bidder op, cbo_inv_swan_price = p\<rparr> d2)))"

definition bid_collateral_evaluate :: "fc_lib \<Rightarrow> trx_state \<Rightarrow> int \<Rightarrow> bid_collateral_operation \<Rightarrow> database \<Rightarrow> database result" where
  "bid_collateral_evaluate F ts required_fee op d =
     bind_res (bid_collateral_validate op) (\<lambda>_.
     start_evaluate F ts required_fee (bc_bidder op) (bc_fee op) (bid_collateral_do_evaluate op) (bid_collateral_do_apply F op) d)"

end
