(* ===== verification/Matching_Ledger.thy ===== *)
theory Matching_Ledger
  imports Market_Ledger Matching
begin

text \<open>
  Matching keeps the books: the two fills of a match shift the books by opposite amounts, so a match, a round of
  margin calls, a global settlement and the work of a new limit order leave the recorded supply of every asset
  equal to what is held of it.
\<close>

subsection \<open>Matching\<close>

lemma converted_amount:
  "mul_price a p = Inr c \<Longrightarrow> 0 \<le> amount c \<and> in_int64 (amount c)"
  "multiply_and_round_up a p = Inr c \<Longrightarrow> 0 \<le> amount c \<and> in_int64 (amount c)"
proof -
  have *: "0 \<le> uint r \<and> in_int64 (uint r)" if "r \<le> to_u128 GRAPHENE_MAX_SHARE_SUPPLY" for r :: u128
  proof -
    have "uint r \<le> GRAPHENE_MAX_SHARE_SUPPLY" using that by (simp add: u128_le_max_supply)
    moreover have "in_int64 GRAPHENE_MAX_SHARE_SUPPLY" by (simp add: in_int64_def GRAPHENE_MAX_SHARE_SUPPLY_def)
    ultimately show ?thesis using in_int64_between [OF in_int64_0, of GRAPHENE_MAX_SHARE_SUPPLY "uint r"] by simp
  qed
  show "mul_price a p = Inr c \<Longrightarrow> 0 \<le> amount c \<and> in_int64 (amount c)"
    by (auto simp: mul_price_def Let_def split: if_splits dest!: *)
  show "multiply_and_round_up a p = Inr c \<Longrightarrow> 0 \<le> amount c \<and> in_int64 (amount c)"
    by (auto simp: multiply_and_round_up_def Let_def split: if_splits dest!: *)
qed

context fc_arith
begin

lemma match_limit_shift:
  assumes "match_limit F i j p d = Inr (r, e)" "market_wf d" "y < length (assets d)"
  shows "shift khd y d e 0" "call_orders e = call_orders d" "bitassets e = bitassets d"
proof -
  consider (none) "e = d"
    | (fill) usd core ur cr ct f1 d1 f2 where "tbl_find (limit_orders d) i = Some usd" "tbl_find (limit_orders d) j = Some core"
      "0 < lo_for_sale usd" "0 < lo_for_sale core" "match_limit_amounts d usd core p = Inr (Some (ur, cr, ct))"
      "fill_limit_order F i cr ur ct d = Inr (f1, d1)" "fill_limit_order F j ur cr True d1 = Inr (f2, e)"
    using assms(1) by (auto simp: match_limit_def split: option.splits; blast)
  then have "shift khd y d e 0 \<and> call_orders e = call_orders d \<and> bitassets e = bitassets d"
  proof cases
    case none
    then show ?thesis using assms(2) by simp
  next
    case fill
    have "order_wf d usd" "order_wf d core" using market_owners(1) [OF assms(2)] fill(1,2) by blast+
    then have ok: "0 \<le> amount ur" "in_int64 (amount ur)" "0 \<le> amount cr" "in_int64 (amount cr)"
      using fill(3-5)
      by (auto simp: match_limit_amounts_def Let_def order_wf_def amount_for_sale_def split: if_splits dest!: converted_amount)
    note s1 = fill_limit_shift(1) [OF fill(6) assms(2,3) ok(1,2), of khd] fill_limit_shift(2,3) [OF fill(6) assms(2,3) ok(1,2)]
    have w1: "market_wf d1" "y < length (assets d1)" using shiftD [OF s1(1)] assms(3) by auto
    note s2 = fill_limit_shift(1) [OF fill(7) w1 ok(3,4), of khd] fill_limit_shift(2,3) [OF fill(7) w1 ok(3,4)]
    show ?thesis using shift_trans [OF s1(1) s2(1)] s1(2,3) s2(2,3) by simp
  qed
  then show "shift khd y d e 0" "call_orders e = call_orders d" "bitassets e = bitassets d" by simp_all
qed

lemma match_limit_call_shift:
  assumes "match_limit_call F i j p q m d = Inr (r, e)" "market_wf d" "y < length (assets d)"
  shows "shift khd y d e 0"
proof -
  consider "e = d" | rec pays ct f1 d1 f2 where "fill_limit_order F i pays rec ct d = Inr (f1, d1)" "fill_call_order F j rec pays d1 = Inr (f2, e)"
      "0 \<le> amount rec" "in_int64 (amount rec)"
    using assms(1) by (auto simp: match_limit_call_def Let_def split: option.splits if_splits dest!: converted_amount; blast)
  then show ?thesis
  proof cases
    case (2 rec pays ct f1 d1 f2)
    note s1 = fill_limit_shift(1) [OF 2(1) assms(2,3) 2(3,4), of khd]
    have w1: "market_wf d1" "y < length (assets d1)" using shiftD [OF s1] assms(3) by auto
    show ?thesis using shift_trans [OF s1 conjunct1 [OF fill_call_shift [OF 2(2) w1, of khd]]] by simp
  qed (use assms(2) in simp)
qed

lemma match_limits_shift:
  assumes "match_limits F n p is d = Inr (b, rest, e)" "market_wf d" "y < length (assets d)"
  shows "shift khd y d e 0"
  using assms
proof (induction "is" arbitrary: d)
  case (Cons i "is")
  from Cons.prems(1) consider "e = d" | old :: limit_order_object and r where "match_limit F n i (lo_sell_price old) d = Inr (r, e)"
    | old :: limit_order_object and d1 where "match_limit F n i (lo_sell_price old) d = Inr (2, d1)" "match_limits F n p is d1 = Inr (b, rest, e)"
    by (auto split: if_splits)
  then show ?case
  proof cases
    case (2 old r)
    then show ?thesis using match_limit_shift(1) Cons.prems by blast
  next
    case (3 old d1)
    note s1 = match_limit_shift(1) [OF 3(1) Cons.prems(2,3), of khd]
    have "market_wf d1" "y < length (assets d1)" using shiftD [OF s1] Cons.prems(3) by auto
    from shift_trans [OF s1 Cons.IH [OF 3(2) this]] show ?thesis by simp
  qed (use Cons.prems in simp)
qed simp

end

subsection \<open>Global settlement\<close>

lemma call_range_positions:
  assumes "call_range backing mia d = Inr calls" "tbl_wf (call_orders d)"
  shows "distinct calls" "\<forall>i\<in>set calls. \<exists>c. tbl_find (call_orders d) i = Some c \<and> debt_type c = mia \<and> collateral_type c = backing"
proof -
  from assms(1) obtain lo hi where lo: "price_min backing mia = Inr lo" and hi: "price_max backing mia = Inr hi"
    and calls: "calls = map fst (filter (\<lambda>(i, x). \<not> price_less (co_call_price x) lo \<and> \<not> price_less hi (co_call_price x)) (call_book d))"
    by (auto simp: call_range_def)
  have ids: "asset_id (base lo) = backing" "asset_id (quote lo) = mia" "asset_id (base hi) = backing" "asset_id (quote hi) = mia"
    using lo hi by (auto simp: price_min_def price_max_def price_of_def)
  have dist: "distinct (map fst (rows (call_orders d)))" using assms(2) by (simp add: tbl_wf_def)
  have "mset (map fst (call_book d)) = mset (map fst (rows (call_orders d)))"
    unfolding mset_map by (simp add: call_book_def)
  then have "distinct (map fst (call_book d))" using dist by (metis mset_eq_imp_distinct_iff)
  then show "distinct calls" unfolding calls by (rule distinct_fst_filter)
  show "\<forall>i\<in>set calls. \<exists>c. tbl_find (call_orders d) i = Some c \<and> debt_type c = mia \<and> collateral_type c = backing"
  proof
    fix i assume "i \<in> set calls"
    then obtain c where c: "(i, c) \<in> set (rows (call_orders d))" "\<not> price_less (co_call_price c) lo" "\<not> price_less hi (co_call_price c)"
      by (auto simp: calls call_book_def)
    have "tbl_find (call_orders d) i = Some c" using c(1) dist by (simp add: tbl_find_def)
    moreover have "debt_type c = mia" "collateral_type c = backing"
      using c(2,3) ids by (auto simp: price_less_def call_order_defs split: if_splits)
    ultimately show "\<exists>c. tbl_find (call_orders d) i = Some c \<and> debt_type c = mia \<and> collateral_type c = backing" by blast
  qed
qed

lemma bitasset_dataE:
  assumes "bitasset_data a d = Inr b"
  obtains i where "bitasset_data_id a = Some i" "i < length (bitassets d)" "bitassets d ! i = b"
  using assms by (auto simp: bitasset_data_def split: option.splits)

lemma set_bitasset_shift:
  assumes i: "i < length (bitassets d)" and wf: "market_wf d" and opt: "bd_options x = bd_options (bitassets d ! i)" and fw: "fund_wf d i x"
  shows "shift khd y d (d\<lparr>bitassets := (bitassets d)[i := x]\<rparr>) (fund_held y (bitassets d ! i) - fund_held y x)"
proof -
  let ?e = "d\<lparr>bitassets := (bitassets d)[i := x]\<rparr>"
  have frame: "book_frame d ?e" using i opt by (simp add: book_frame_def map_update_same)
  have "fund_wf d k ((bitassets d)[i := x] ! k)" if "k < length (bitassets d)" for k
    using that i fw market_owners(5) [OF wf that] by (cases "k = i") simp_all
  then have "market_wf ?e" using wf book_frame_backing [OF frame] unfolding market_wf_def
    by (simp add: dyn_wf_def order_wf_def call_wf_def bid_wf_def)
  moreover have "unaccounted khd ?e y = unaccounted khd d y + (fund_held y (bitassets d ! i) - fund_held y x)"
    using i by (simp add: unaccounted_defs sum_list_map_update)
  ultimately show ?thesis using frame by (simp add: shift_def)
qed

lemma modify_bitasset_shift:
  assumes "modify_bitasset a f d = Inr e" "market_wf d" "bitasset_data a d = Inr b"
    and "bd_options (f b) = bd_options b" "\<And>i. bitasset_data_id a = Some i \<Longrightarrow> fund_wf d i b \<Longrightarrow> fund_wf d i (f b)"
  shows "shift khd y d e (fund_held y b - fund_held y (f b))" "bitasset_data a e = Inr (f b)" "asset_dyn e = asset_dyn d" "call_orders e = call_orders d"
proof -
  obtain i where i: "bitasset_data_id a = Some i" "i < length (bitassets d)" "bitassets d ! i = b" by (rule bitasset_dataE [OF assms(3)])
  then have e: "e = d\<lparr>bitassets := (bitassets d)[i := f b]\<rparr>" using assms(1) by (auto simp: modify_bitasset_def)
  show "bitasset_data a e = Inr (f b)" "asset_dyn e = asset_dyn d" "call_orders e = call_orders d" using i by (simp_all add: e bitasset_data_def)
  have fw: "fund_wf d i (f b)" using assms(5) [OF i(1)] market_owners(5) [OF assms(2) i(2)] i(3) by simp
  show "shift khd y d e (fund_held y b - fund_held y (f b))"
    using set_bitasset_shift [OF i(2) assms(2) _ fw, of khd y] assms(4) i(3) by (simp add: e)
qed

lemma price_of_not_null: "price_of b q = Inr p \<Longrightarrow> \<not> price_is_null p"
  by (auto simp: price_of_def price_is_null_def price_eq_def price_default_def)

lemma shift_cong: "shift khd y d e a \<Longrightarrow> a = b \<Longrightarrow> shift khd y d e b"
  by simp

context fc_arith
begin

lemma settle_positions_shift:
  assumes "fold_res (settle_position F sp) calls (g, d) = Inr (g', e)" "market_wf d" "y < length (assets d)" "distinct calls"
    and "\<forall>i\<in>set calls. \<exists>c. tbl_find (call_orders d) i = Some c \<and> debt_type c = mia"
  shows "shift khd y d e (in_asset y g' - in_asset y g + (if y = mia then current_supply (dyn_of e mia) - current_supply (dyn_of d mia) else 0))
    \<and> bitassets e = bitassets d \<and> asset_id g' = asset_id g
    \<and> (\<forall>i\<in>set calls. tbl_find (call_orders e) i = None) \<and> (\<forall>i. i \<notin> set calls \<longrightarrow> tbl_find (call_orders e) i = tbl_find (call_orders d) i)"
  using assms
proof (induction calls arbitrary: g d)
  case (Cons i calls)
  from Cons.prems(1) obtain g1 d1 where st: "settle_position F sp i (g, d) = Inr (g1, d1)"
    and rest: "fold_res (settle_position F sp) calls (g1, d1) = Inr (g', e)" by auto
  from Cons.prems(5) obtain c where c: "tbl_find (call_orders d) i = Some c" "debt_type c = mia" by auto
  from st c obtain pays where pays: "asset_plus F g pays = Inr g1" and fill: "fill_call_order F i pays (get_debt c) d = Inr (True, d1)"
    by (auto simp: settle_position_def Let_def)
  note f = fill_call_shift [OF fill Cons.prems(2,3), of khd]
  have g1: "in_asset y g1 = in_asset y g + in_asset y pays" "asset_id g1 = asset_id g"
    using pays by (auto simp: asset_plus_def fc_iffs in_asset_def)
  have sup: "current_supply (dyn_of d1 mia) = current_supply (dyn_of d mia) - co_debt c"
    using f c(2) by (simp add: get_debt_def)
  have w1: "market_wf d1" "y < length (assets d1)" using f shiftD [of khd y d d1] Cons.prems(3) by auto
  have "\<forall>j\<in>set calls. \<exists>c. tbl_find (call_orders d1) j = Some c \<and> debt_type c = mia" using f Cons.prems(4,5) by fastforce
  note ih = Cons.IH [OF rest w1 _ this]
  have "in_asset y (get_debt c) = (if y = mia then co_debt c else 0)" using c(2) by (simp add: get_debt_def in_asset_def)
  then have "shift khd y d e (in_asset y g' - in_asset y g + (if y = mia then current_supply (dyn_of e mia) - current_supply (dyn_of d mia) else 0))"
    by (intro shift_cong [OF shift_trans [OF conjunct1 [OF f] conjunct1 [OF ih]]]) (use Cons.prems(4) g1 sup in auto)
  moreover have "tbl_find (call_orders e) i = None" using ih f Cons.prems(4) by auto
  ultimately show ?case using ih f g1(2) Cons.prems(4) by auto
qed simp

lemma global_settle_shift:
  assumes "globally_settle_asset F mia sp d = Inr e" "market_wf d" "y < length (assets d)"
  shows "shift khd y d e 0"
proof -
  from assms(1) obtain b dyn calls g d1 p d2 where mia: "mia < length (assets d)" and b: "bitasset_data (assets d ! mia) d = Inr b" "\<not> has_settlement b"
    and dyn: "dyn = dyn_of d mia" and calls: "call_range (bo_short_backing_asset (bd_options b)) mia d = Inr calls"
    and fold: "fold_res (settle_position F sp) calls (mk_asset 0 (bo_short_backing_asset (bd_options b)), d) = Inr (g, d1)"
    and p: "price_of (mk_asset (current_supply dyn) mia) g = Inr p"
    and d2: "modify_bitasset (assets d ! mia) (\<lambda>b. b\<lparr>bd_settlement_price := p, bd_settlement_fund := amount g\<rparr>) d1 = Inr d2"
    and e: "modify_dyn (dynamic_asset_data_id (assets d ! mia)) (\<lambda>x. Inr (x\<lparr>current_supply := current_supply dyn\<rparr>)) d2 = Inr e"
    by (auto simp: globally_settle_asset_def Let_def dyn_of_def)
  note range = call_range_positions [OF calls market_tables_wf(2) [OF assms(2)]]
  have pos: "\<forall>i\<in>set calls. \<exists>c. tbl_find (call_orders d) i = Some c \<and> debt_type c = mia" using range(2) by blast
  note s1 = settle_positions_shift [OF fold assms(2,3) range(1) pos, of khd]
  have w1: "market_wf d1" "assets d1 = assets d" using s1 shiftD [of khd y d d1] by auto
  have b1: "bitasset_data (assets d ! mia) d1 = Inr b" using b(1) s1 by (simp add: bitasset_data_def cong: option.case_cong)
  have pg: "p = mk_price (mk_asset (current_supply dyn) mia) g" "mia \<noteq> asset_id g" using p by (auto simp: price_of_def)
  have ok: "bd_options (b\<lparr>bd_settlement_price := p, bd_settlement_fund := amount g\<rparr>) = bd_options b"
    "fund_wf d1 i (b\<lparr>bd_settlement_price := p, bd_settlement_fund := amount g\<rparr>)"
      if "bitasset_data_id (assets d ! mia) = Some i" "fund_wf d1 i b" for i
    using price_of_not_null [OF p] that pg mia w1(2) s1 by (simp_all add: has_settlement_def fund_wf_def)
  have s2: "shift khd y d1 d2 (fund_held y b - fund_held y (b\<lparr>bd_settlement_price := p, bd_settlement_fund := amount g\<rparr>))"
    "asset_dyn d2 = asset_dyn d1"
    by (rule modify_bitasset_shift [OF d2 w1(1) b1]; use ok(2) in simp)+
  have fund0: "bd_settlement_fund b = 0"
    using b market_owners(5) [OF assms(2)] by (auto elim!: bitasset_dataE simp: fund_wf_def split: if_splits)
  have w2: "market_wf d2" "assets d2 = assets d" using shiftD [OF s2(1)] w1 by auto
  have e': "modify_dyn (dynamic_asset_data_id (assets d2 ! mia)) (\<lambda>x. Inr (x\<lparr>current_supply := current_supply dyn\<rparr>)) d2 = Inr e"
    using e w2 by simp
  obtain x' where x': "Inr ((dyn_of d2 mia)\<lparr>current_supply := current_supply dyn\<rparr>) = (Inr x' :: asset_dynamic_data_object result)"
    and s3: "shift khd y d2 e (dyn_shift khd y mia (dyn_of d2 mia) x')"
    by (rule modify_dyn_shift [OF e' w2(1), where khd = khd and y = y]) (use mia w2 assms(3) in auto)
  have "dyn_of d2 mia = dyn_of d1 mia" using s2(2) w1 w2 by (simp add: dyn_of_def)
  then have "dyn_shift khd y mia (dyn_of d2 mia) x' = (if y = mia then current_supply (dyn_of d mia) - current_supply (dyn_of d1 mia) else 0)"
    using x' dyn by (auto simp: dyn_shift_def dyn_net_def)
  moreover have "fund_held y b - fund_held y (b\<lparr>bd_settlement_price := p, bd_settlement_fund := amount g\<rparr>) = - in_asset y g"
    using fund0 s1 by (simp add: fund_held_def in_asset_def)
  ultimately show ?thesis using shift_trans [OF shift_trans [OF conjunct1 [OF s1] s2(1)] s3] by (auto split: if_splits)
qed

subsection \<open>Black swans and margin calls\<close>

lemma blackswan_shift:
  assumes "check_for_blackswan F mia ebs d = Inr (b, e)" "market_wf d" "y < length (assets d)"
  shows "shift khd y d e 0"
proof -
  consider "e = d" | p where "globally_settle_asset F mia p d = Inr e"
    using assms(1) by (auto simp: check_for_blackswan_def split: if_splits option.splits)
  then show ?thesis using assms(2,3) global_settle_shift by cases auto
qed

lemma fill_both_amount:
  assumes "margin_call_action F feed c l fl d = Inr (Fill_Both rec pays fc fl')"
  shows "0 \<le> amount rec \<and> in_int64 (amount rec)"
proof -
  have am: "0 \<le> amount r \<and> in_int64 (amount r)" if "margin_call_amounts d x z p fl = Inr (r, t)" for x z p r t
    using that by (auto simp: margin_call_amounts_def split: if_splits dest!: converted_amount)
  from assms obtain x where "margin_call_amounts d x (amount_for_sale l) (lo_sell_price l) fl = Inr (rec, pays, fc, fl')"
    unfolding margin_call_action_def Let_def
    by (auto simp del: split_paired_Ex split: if_splits)
  then show ?thesis by (rule am)
qed

lemma margin_call_step_shift:
  assumes "margin_call_step F mia b ebs s = Inr q" "market_wf (ms_db s)" "y < length (assets (ms_db s))"
  shows "(\<forall>s'. q = Inl s' \<longrightarrow> shift khd y (ms_db s) (ms_db s') 0) \<and> (\<forall>c e. q = Inr (c, e) \<longrightarrow> shift khd y (ms_db s) e 0)"
proof -
  from assms(1) obtain swan d where sw: "check_for_blackswan F mia ebs (ms_db s) = Inr (swan, d)"
    by (auto simp: margin_call_step_def)
  note s0 = blackswan_shift [OF sw assms(2,3), of khd]
  have w: "market_wf d" "y < length (assets d)" using shiftD [OF s0] assms(3) by auto
  consider (stop) c where "q = Inr (c, d)" | (settle) p e where "globally_settle_asset F mia p d = Inr e" "q = Inr (True, e)"
    | (fill) ci li c l rec pays fc fl f1 d1 f2 d2 cs ls where "margin_call_action F (bd_current_feed b) c l (ms_filled_limit s) d = Inr (Fill_Both rec pays fc fl)"
        "fill_call_order F ci rec pays d = Inr (f1, d1)" "fill_limit_order F li pays rec True d1 = Inr (f2, d2)"
        "q = Inl \<lparr>ms_calls = cs, ms_limits = ls, ms_margin_called = True, ms_filled_limit = fl, ms_db = d2\<rparr>"
  proof (cases "swan \<or> ms_calls s = [] \<or> ms_limits s = []")
    case True
    then show ?thesis using assms(1) sw stop by (auto simp: margin_call_step_def)
  next
    case False
    with assms(1) sw obtain l c a where l: "tbl_find (limit_orders d) (hd (ms_limits s)) = Some l" "tbl_find (call_orders d) (hd (ms_calls s)) = Some c"
      and a: "margin_call_action F (bd_current_feed b) c l (ms_filled_limit s) d = Inr a"
      by (auto simp: margin_call_step_def)
    have tg: "tbl_get (limit_orders d) (hd (ms_limits s)) = Inr l" "tbl_get (call_orders d) (hd (ms_calls s)) = Inr c" using l by simp_all
    show ?thesis
    proof (cases a)
      case Stop_Calling
      then show ?thesis using assms(1) sw False a tg stop by (auto simp: margin_call_step_def simp del: tbl_get_Inr)
    next
      case Black_Swan
      then show ?thesis using assms(1) sw False a tg settle by (auto simp: margin_call_step_def simp del: tbl_get_Inr)
    next
      case (Fill_Both rec pays fc fl)
      with assms(1) sw False a tg obtain f1 d1 f2 d2 cs ls where "fill_call_order F (hd (ms_calls s)) rec pays d = Inr (f1, d1)"
        "fill_limit_order F (hd (ms_limits s)) pays rec True d1 = Inr (f2, d2)"
        "q = Inl \<lparr>ms_calls = cs, ms_limits = ls, ms_margin_called = True, ms_filled_limit = fl, ms_db = d2\<rparr>"
        by (auto simp: margin_call_step_def simp del: tbl_get_Inr)
      then show ?thesis using fill a Fill_Both by blast
    qed
  qed
  then show ?thesis
  proof cases
    case (settle p e)
    then show ?thesis using shift_trans [OF s0 global_settle_shift [OF settle(1) w]] by simp
  next
    case fill
    note s1 = conjunct1 [OF fill_call_shift [OF fill(2) w, of khd]]
    have w1: "market_wf d1" "y < length (assets d1)" using shiftD [OF s1] w by auto
    note s2 = fill_limit_shift(1) [OF fill(3) w1 _ _, of khd]
    show ?thesis using shift_trans [OF s0 shift_trans [OF s1 s2]] fill(4) fill_both_amount [OF fill(1)] by simp
  qed (use s0 in simp)
qed

lemma check_call_orders_shift:
  assumes "check_call_orders F mia ebs fnl d = Inr (b, e)" "market_wf d" "y < length (assets d)"
  shows "shift khd y d e 0"
proof -
  from assms(1) consider "e = d" | c where "check_for_blackswan F mia ebs d = Inr (c, e)"
    | d1 c cs ls bd where "check_for_blackswan F mia ebs d = Inr (c, d1)"
        "run_loop (margin_call_step F mia bd ebs) \<lparr>ms_calls = cs, ms_limits = ls, ms_margin_called = False, ms_filled_limit = False, ms_db = d1\<rparr> = Inr (b, e)"
    by (auto simp: check_call_orders_def Let_def split: if_splits)
  then show ?thesis
  proof cases
    case (2 c)
    then show ?thesis using blackswan_shift assms(2,3) by blast
  next
    case (3 d1 c cs ls bd)
    have "shift khd y d (snd (b, e)) 0"
    proof (rule run_loop_invariant [where P = "\<lambda>s. shift khd y d (ms_db s) 0", OF 3(2)])
      show "shift khd y d (ms_db \<lparr>ms_calls = cs, ms_limits = ls, ms_margin_called = False, ms_filled_limit = False, ms_db = d1\<rparr>) 0"
        using blackswan_shift [OF 3(1) assms(2,3)] by simp
    next
      fix s s' assume s: "shift khd y d (ms_db s) 0" and st: "margin_call_step F mia bd ebs s = Inr (Inl s')"
      have "market_wf (ms_db s)" "y < length (assets (ms_db s))" using shiftD [OF s] assms(3) by auto
      from margin_call_step_shift [OF st this, of khd] show "shift khd y d (ms_db s') 0" using shift_trans [OF s, of "ms_db s'" 0] by simp
    next
      fix s and r :: "bool \<times> database" assume s: "shift khd y d (ms_db s) 0" and st: "margin_call_step F mia bd ebs s = Inr (Inr r)"
      have "market_wf (ms_db s)" "y < length (assets (ms_db s))" using shiftD [OF s] assms(3) by auto
      from margin_call_step_shift [OF st this, of khd] show "shift khd y d (snd r) 0" using shift_trans [OF s, of "snd r" 0] by (cases r) simp
    qed
    then show ?thesis by simp
  qed (use assms(2) in simp)
qed

end

subsection \<open>New limit orders\<close>

context fc_arith
begin

lemma meet_margin_calls_shift:
  assumes "run_loop (meet_margin_calls F n s r p feed) d = Inr (b, e)" "market_wf d" "y < length (assets d)"
  shows "shift khd y d e 0"
proof -
  have step: "(\<forall>d'. q = Inl d' \<longrightarrow> shift khd y c d' 0) \<and> (\<forall>b d'. q = Inr (b, d') \<longrightarrow> shift khd y c d' 0)"
    if st: "meet_margin_calls F n s r p feed c = Inr q" and wf: "market_wf c" "y < length (assets c)" for c q
  proof -
    obtain lo where lo: "price_min r s = Inr lo" using st by (auto simp: meet_margin_calls_def)
    show ?thesis
    proof (cases "filter (\<lambda>(i, c). \<not> price_less (co_call_price c) lo) (call_book c)")
      case Nil
      then have "q = Inr (False, c)" using st lo by (simp add: meet_margin_calls_def)
      then show ?thesis using wf(1) by simp
    next
      case (Cons t ts)
      obtain i x where t: "t = (i, x)" by fastforce
      show ?thesis
      proof (cases "debt_type x \<noteq> s \<or> price_greater (co_call_price x) (price_inv (settlement_price feed))")
        case True
        then have "q = Inr (False, c)" using st lo Cons t by (simp add: meet_margin_calls_def)
        then show ?thesis using wf(1) by simp
      next
        case False
        then obtain k c' where m: "match_limit_call F n i p (settlement_price feed) (maintenance_collateral_ratio feed) c = Inr (k, c')"
          and q: "q = (if k = 1 \<or> k = 3 then Inr (True, c') else Inl c')"
          using st lo Cons t by (auto simp: meet_margin_calls_def split: if_splits)
        from match_limit_call_shift [OF m wf] show ?thesis by (simp add: q)
      qed
    qed
  qed
  have "shift khd y d (snd (b, e)) 0"
  proof (rule run_loop_invariant [where P = "\<lambda>c. shift khd y d c 0", OF assms(1)])
    show "shift khd y d d 0" using assms(2) by simp
  next
    fix c c' assume c: "shift khd y d c 0" and st: "meet_margin_calls F n s r p feed c = Inr (Inl c')"
    have "market_wf c" "y < length (assets c)" using shiftD [OF c] assms(3) by auto
    from step [OF st this] show "shift khd y d c' 0" using shift_trans [OF c, of c' 0] by simp
  next
    fix c and q :: "bool \<times> database" assume c: "shift khd y d c 0" and st: "meet_margin_calls F n s r p feed c = Inr (Inr q)"
    have "market_wf c" "y < length (assets c)" using shiftD [OF c] assms(3) by auto
    from step [OF st this] show "shift khd y d (snd q) 0" using shift_trans [OF c, of "snd q" 0] by (cases q) simp
  qed
  then show ?thesis by simp
qed

text \<open>Chaining steps that keep the books.\<close>

lemma keep_step:
  assumes "shift khd y d e 0" "y < length (assets d)"
    and "market_wf e \<Longrightarrow> y < length (assets e) \<Longrightarrow> shift khd y e f 0"
  shows "shift khd y d f 0"
  using shift_trans [OF assms(1) assms(3)] shiftD [OF assms(1)] assms(2) by simp

lemma apply_order_shift:
  assumes "apply_order F n d = Inr (b, e)" "market_wf d" "y < length (assets d)"
  shows "shift khd y d e 0"
proof (cases "e = d")
  case False
  from assms(1) False obtain x book calls fin rest d3 fin' rest' d4 where
    calls: "(case calls of None \<Rightarrow> Inr (False, book, d)
          | Some (p, feed) \<Rightarrow>
              bind_res (match_limits F n (Some p) book d) (\<lambda>(finished, rest, d1).
              if finished then Inr (True, rest, d1)
              else bind_res (run_loop (meet_margin_calls F n (sell_asset_id x) (receive_asset_id x) p feed) d1)
                (\<lambda>(finished, d2). Inr (finished, rest, d2)))) = Inr (fin, rest, d3)"
    and x: "tbl_find (limit_orders d) n = Some x"
    and 4: "(if fin then Inr (True, rest, d3) else match_limits F n None rest d3) = Inr (fin', rest', d4)"
    and e: "cull_new_order F n d4 = Inr (b, e)"
    unfolding apply_order_def by (fastforce split: if_splits)
  have s3: "shift khd y d d3 0"
  proof (cases calls)
    case None
    then show ?thesis using calls assms(2) by simp
  next
    case (Some t)
    obtain p feed where t: "t = (p, feed)" by fastforce
    from calls Some t obtain f1 r1 d1 where 1: "match_limits F n (Some p) book d = Inr (f1, r1, d1)"
      and 2: "d3 = d1 \<or> (\<exists>f2. run_loop (meet_margin_calls F n (sell_asset_id x) (receive_asset_id x) p feed) d1 = Inr (f2, d3))"
      by (auto split: if_splits)
    note s1 = match_limits_shift [OF 1 assms(2,3), of khd]
    show ?thesis by (rule keep_step [OF s1 assms(3)]) (use 2 meet_margin_calls_shift in auto)
  qed
  have s4: "shift khd y d d4 0"
    by (rule keep_step [OF s3 assms(3)]) (use 4 match_limits_shift in \<open>auto split: if_splits\<close>)
  show ?thesis
    by (rule keep_step [OF s4 assms(3)]) (use e cull_shift(1) in \<open>auto simp: cull_new_order_def split: if_splits\<close>)
qed (use assms(2) in simp)

lemma apply_order_before_shift:
  assumes "apply_order_before_hardfork_625 F n allow d = Inr (b, e)" "market_wf d" "y < length (assets d)"
  shows "shift khd y d e 0"
proof -
  from assms(1) obtain s r c1 d1 c2 d2 where 1: "check_call_orders F s allow True d = Inr (c1, d1)" and 2: "check_call_orders F r allow True d1 = Inr (c2, d2)"
    and rest: "e = d2 \<or> (\<exists>book f rs d3 c4 d4 c5 d5. match_limits F n None book d2 = Inr (f, rs, d3) \<and> check_call_orders F s allow False d3 = Inr (c4, d4)
       \<and> check_call_orders F r allow False d4 = Inr (c5, d5) \<and> (e = d5 \<or> maybe_cull_small_order F n d5 = Inr (b, e)))"
    unfolding apply_order_before_hardfork_625_def Let_def by (auto split: if_splits; blast)
  note s1 = check_call_orders_shift [OF 1 assms(2,3), of khd]
  have s2: "shift khd y d d2 0" by (rule keep_step [OF s1 assms(3)]) (use 2 check_call_orders_shift in blast)
  show ?thesis
  proof (cases "e = d2")
    case True
    with s2 show ?thesis by simp
  next
    case False
    with rest obtain book f rs d3 c4 d4 c5 d5 where 3: "match_limits F n None book d2 = Inr (f, rs, d3)"
      and 4: "check_call_orders F s allow False d3 = Inr (c4, d4)" and 5: "check_call_orders F r allow False d4 = Inr (c5, d5)"
      and e: "e = d5 \<or> maybe_cull_small_order F n d5 = Inr (b, e)" by blast
    have s3: "shift khd y d d3 0" by (rule keep_step [OF s2 assms(3)]) (use 3 match_limits_shift in blast)
    have s4: "shift khd y d d4 0" by (rule keep_step [OF s3 assms(3)]) (use 4 check_call_orders_shift in blast)
    have s5: "shift khd y d d5 0" by (rule keep_step [OF s4 assms(3)]) (use 5 check_call_orders_shift in blast)
    show ?thesis by (rule keep_step [OF s5 assms(3)]) (use e cull_shift(1) in auto)
  qed
qed

end

subsection \<open>The operations\<close>

lemma fee_frame_quiet:
  assumes "fee_frame d e"
  shows "quiet d e"
proof -
  have "length (asset_dyn e) = length (asset_dyn d)" using assms by (metis fee_frame_def length_map)
  moreover have "e = d\<lparr>balances := balances d, asset_dyn := asset_dyn e, account_stats := account_stats e\<rparr>"
    using assms by (cases d; cases e) (simp add: fee_frame_def)
  ultimately show ?thesis unfolding quiet_def by blast
qed

context fc_arith
begin

lemma market_operation_conserves:
  assumes run: "start_evaluate F ts required_fee payer fee do_evaluate do_apply d = Inr d'" and wf: "\<not> skip_fee ts" "market_wf d" "y < length (assets d)"
    and step: "\<And>c d2 d3. do_evaluate d = Inr c \<Longrightarrow> fee_frame d d2 \<Longrightarrow> market_wf d2 \<Longrightarrow> y < length (assets d2) \<Longrightarrow> do_apply c d2 = Inr d3 \<Longrightarrow>
      shift khd y d2 d3 0"
  shows "shift khd y d d' 0"
proof -
  from run obtain fs c d1 d2 d3 where *: "prepare_fee d payer fee = Inr fs" "do_evaluate d = Inr c"
    "convert_fee F ts fs d = Inr d1" "pay_fee F ts fs d1 = Inr d2" "do_apply c d2 = Inr d3"
    "deduct_balance F payer (fee_from_account fs) d3 = Inr d'"
    by (auto simp: start_evaluate_def evaluate_op_def apply_op_def) blast+
  have fr: "fee_frame d d2" using *(3,4) convert_fee_frame pay_fee_frame fee_frame_trans by blast
  note q = fee_frame_quiet [OF fr]
  have s3: "shift khd y d2 d3 0"
    by (rule step [OF *(2) fr quiet_wf [OF q wf(2)] _ *(5)]) (use quiet_fields(1) [OF q] wf(3) in simp)
  have payer: "payer < length (accounts d3)" using prepare_fee_facts(2) [OF *(1)] shiftD [OF s3] quiet_fields(2) [OF q] by simp
  have s4: "shift khd y d3 d' (in_asset y (fee_from_account fs))" by (rule deduct_shift(1) [OF *(6) _ payer]) (use shiftD [OF s3] in simp)
  have "unaccounted khd d' y = unaccounted khd d y"
  proof (rule operation_conserves [OF run wf(1) market_tables_wf(5) [OF wf(2)] wf(3)])
    fix c e2 e3 assume e: "do_evaluate d = Inr c" "fee_frame d e2" "do_apply c e2 = Inr e3"
    note qe = fee_frame_quiet [OF e(2)]
    have "shift khd y e2 e3 0"
      by (rule step [OF e(1,2) quiet_wf [OF qe wf(2)] _ e(3)]) (use quiet_fields(1) [OF qe] wf(3) in simp)
    then show "unaccounted khd e3 y = unaccounted khd e2 y \<and> length (accounts e3) = length (accounts d)"
      using quiet_fields(2) [OF qe] by (simp add: shift_def book_frame_def)
  qed
  moreover have "book_frame d d'" using quiet_frame [OF q] shiftD [OF s3] shiftD [OF s4] book_frame_trans by blast
  ultimately show ?thesis using shiftD [OF s4] by (simp add: shift_def)
qed

lemma limit_order_cancel_conserves:
  assumes "limit_order_cancel_evaluate F ts fee op d = Inr d'" "\<not> skip_fee ts" "market_wf d" "y < length (assets d)"
  shows "shift khd y d d' 0"
proof -
  have run: "start_evaluate F ts fee (lx_fee_paying_account op) (lx_fee op) (limit_order_cancel_do_evaluate op)
       (\<lambda>_. limit_order_cancel_do_apply F op) d = Inr d'" using assms(1) by (simp add: limit_order_cancel_evaluate_def)
  show ?thesis
  proof (rule market_operation_conserves [OF run assms(2-4)])
    fix c d2 d3 assume w: "market_wf d2" "y < length (assets d2)" and ap: "limit_order_cancel_do_apply F op d2 = Inr d3"
    from ap obtain d4 where 1: "cancel_limit_order F (lx_order op) False False d2 = Inr d4"
      and 2: "d3 = d4 \<or> (\<exists>b1 d5 b2 s r. check_call_orders F s True False d4 = Inr (b1, d5) \<and> check_call_orders F r True False d5 = Inr (b2, d3))"
      unfolding limit_order_cancel_do_apply_def by (fastforce split: if_splits)
    have s1: "shift khd y d2 d4 0" by (rule cancel_limit_shift(1) [OF 1 w])
    show "shift khd y d2 d3 0"
    proof (cases "d3 = d4")
      case False
      with 2 obtain b1 d5 b2 s r where 3: "check_call_orders F s True False d4 = Inr (b1, d5)" "check_call_orders F r True False d5 = Inr (b2, d3)" by blast
      have s2: "shift khd y d2 d5 0" by (rule keep_step [OF s1 w(2)]) (use 3 check_call_orders_shift in blast)
      show ?thesis by (rule keep_step [OF s2 w(2)]) (use 3 check_call_orders_shift in blast)
    qed (use s1 in simp)
  qed
qed

end

end
