(* ===== verification/Order_Ledger.thy ===== *)
theory Order_Ledger
  imports Matching_Ledger
begin

text \<open>
  The market operations keep the books: placing an order with its deferred fee, bidding for the collateral of a
  settled asset, and opening, changing or closing a borrowing position.
\<close>

subsection \<open>Placing an order\<close>

lemma prepare_fee_core: "prepare_fee d payer fee = Inr fs \<Longrightarrow> 0 \<le> core_fee_paid fs"
  by (auto simp: prepare_fee_def split: if_splits dest!: converted_amount)

lemma price_of_base: "price_of x z = Inr p \<Longrightarrow> p = mk_price x z"
  by (auto simp: price_of_def)

context fc_arith
begin

lemma deferred_fee_shift:
  assumes fs: "prepare_fee d payer fee = Inr fs" and conv: "limit_order_convert_fee F ts fs d = Inr d1"
    and pay: "limit_order_pay_fee F ts fs d1 = Inr (df, dp, d2)" and ts: "\<not> skip_fee ts"
    and wf: "market_wf d" "y < length (assets d)"
  shows "shift khd y d d2 (in_asset y (mk_asset df 0) + in_asset y dp - in_asset y fee)" "quiet d d2" "0 \<le> df \<and> 0 \<le> amount dp"
proof -
  note fee = prepare_fee_facts [OF fs]
  have fee0: "0 \<le> amount fee" using fs by (auto simp: prepare_fee_def)
  note core = prepare_fee_core [OF fs]
  note dw = market_tables_wf(5) [OF wf(1)]
  have late: "HARDFORK_445_TIME \<le> HARDFORK_CORE_604_TIME" by (simp add: HARDFORK_445_TIME_def HARDFORK_CORE_604_TIME_def)
  have q: "quiet d d2 \<and> unaccounted khd d2 y = unaccounted khd d y + (in_asset y (mk_asset df 0) + in_asset y dp - in_asset y fee) \<and> 0 \<le> df \<and> 0 \<le> amount dp"
  proof (cases "head_block_time d \<le> HARDFORK_CORE_604_TIME")
    case True
    then have c: "convert_fee F ts fs d = Inr d1" using conv by (simp add: limit_order_convert_fee_def)
    note q1 = fee_frame_quiet [OF convert_fee_frame [OF c]]
    have u1: "unaccounted khd d1 y = unaccounted khd d y
      - (if asset_id fee \<noteq> 0 then (if y = asset_id fee then amount fee else 0) - (if y = 0 then core_fee_paid fs else 0) else 0)"
      using unaccounted_convert_fee [OF c ts dw wf(2)] fee by simp
    from True pay quiet_fields(9) [OF q1] consider
        "pay_fee F ts fs d1 = Inr d2" "df = 0" "dp = mk_asset 0 0" | "d2 = d1" "df = core_fee_paid fs" "dp = mk_asset 0 0"
      by (auto simp: limit_order_pay_fee_def split: if_splits)
    then show ?thesis
    proof cases
      case 1
      note q2 = fee_frame_quiet [OF pay_fee_frame [OF 1(1)]]
      show ?thesis using quiet_trans [OF q1 q2] unaccounted_pay_fee [OF 1(1) ts, of khd y] u1 1 fee(5) by (auto simp: in_asset_def)
    next
      case 2
      then show ?thesis using q1 u1 core fee(5) by (auto simp: in_asset_def)
    qed
  next
    case False
    then have q: "quiet d d1 \<and> unaccounted khd d1 y = unaccounted khd d y + (if asset_id fee \<noteq> 0 \<and> y = 0 then core_fee_paid fs else 0)"
    proof (cases "asset_id fee = 0")
      case True
      then show ?thesis using conv False fee(1) by (simp add: limit_order_convert_fee_def)
    next
      case nz: False
      have m: "modify_dyn (dynamic_asset_data_id (assets d ! asset_id fee)) (\<lambda>x. bind_res (safe_sub F (fee_pool x) (core_fee_paid fs)) (\<lambda>fp. Inr (x\<lparr>fee_pool := fp\<rparr>))) d = Inr d1"
        using conv False nz ts fee(1,4) by (simp add: limit_order_convert_fee_def)
      obtain x' where x': "bind_res (safe_sub F (fee_pool (dyn_of d (asset_id fee))) (core_fee_paid fs)) (\<lambda>fp. Inr ((dyn_of d (asset_id fee))\<lparr>fee_pool := fp\<rparr>)) = Inr x'"
        and sh: "shift khd y d d1 (dyn_shift khd y (asset_id fee) (dyn_of d (asset_id fee)) x')" "quiet d d1"
        by (rule modify_dyn_shift [OF m wf(1) fee(3) wf(2), of khd])
      show ?thesis using sh x' nz by (auto simp: shift_def dyn_shift_def dyn_net_def fc_iffs)
    qed
    have "d2 = d1" "df = core_fee_paid fs" "dp = (if asset_id fee \<noteq> 0 then fee else mk_asset 0 0)"
      using pay False late quiet_fields(9) [of d d1] q fee(1) by (auto simp: limit_order_pay_fee_def split: if_splits)
    then show ?thesis using q core fee(5) fee0 by (auto simp: in_asset_def)
  qed
  then show "quiet d d2" "0 \<le> df \<and> 0 \<le> amount dp" by simp_all
  with q show "shift khd y d d2 (in_asset y (mk_asset df 0) + in_asset y dp - in_asset y fee)" using quiet_shiftI [OF _ wf(1)] by blast
qed

lemma limit_order_create_shift:
  assumes ap: "limit_order_create_do_apply F op df dp d = Inr e" and wf: "market_wf d" "y < length (assets d)"
    and ok: "lc_seller op < length (accounts d)" "0 \<le> df" "0 \<le> amount dp" "in_int64 (amount (lc_amount_to_sell op))"
  shows "shift khd y d e (- in_asset y (mk_asset df 0) - in_asset y dp)"
proof -
  define x where "x p = \<lparr>lo_expiration = lc_expiration op, lo_seller = lc_seller op, lo_for_sale = amount (lc_amount_to_sell op), lo_sell_price = p, lo_deferred_fee = df,
       lo_deferred_paid_fee = dp\<rparr>" for p
  from ap obtain d1 d2 p b where
    1: "modify_stats (lc_seller op) (\<lambda>s. if asset_id (lc_amount_to_sell op) = 0 then add_core_in_orders F (amount (lc_amount_to_sell op)) s else Inr s) d = Inr d1"
    and 2: "deduct_balance F (lc_seller op) (lc_amount_to_sell op) d1 = Inr d2"
    and p: "price_of (lc_amount_to_sell op) (lc_min_to_receive op) = Inr p"
    and 4: "apply_order_before_hardfork_625 F (next_instance (limit_orders d2)) True (d2\<lparr>limit_orders := tbl_create (x p) (limit_orders d2)\<rparr>) = Inr (b, e)
      \<or> apply_order F (next_instance (limit_orders d2)) (d2\<lparr>limit_orders := tbl_create (x p) (limit_orders d2)\<rparr>) = Inr (b, e)"
    unfolding limit_order_create_do_apply_def Let_def x_def by (auto split: if_splits)
  let ?d3 = "d2\<lparr>limit_orders := tbl_create (x p) (limit_orders d2)\<rparr>"
  have s1: "shift khd y d d1 0 \<and> quiet d d1"
    by (rule stats_quiet [OF 1 wf(1)]) (auto split: if_splits dest: core_in_orders_pending)
  then have w1: "market_wf d1" "accounts d1 = accounts d" "assets d1 = assets d" using shiftD by blast+
  note s2 = deduct_shift [OF 2 w1(1)]
  have w2: "market_wf d2" "accounts d2 = accounts d" "assets d2 = assets d" using shiftD [OF s2(1)] w1 ok(1) by simp_all
  have "order_wf d2 (x p)" using ok w2 by (simp add: order_wf_def x_def)
  note s3 = limit_table_shifts(3) [OF w2(1) this, of khd y]
  have held: "order_held y (x p) = in_asset y (lc_amount_to_sell op) + in_asset y (mk_asset df 0) + in_asset y dp"
    using price_of_base [OF p] by (simp add: order_held_def x_def in_asset_def)
  have s13: "shift khd y d ?d3 (- in_asset y (mk_asset df 0) - in_asset y dp)"
    using shift_trans [OF shift_trans [OF conjunct1 [OF s1] s2(1)] s3] w1(2) ok(1) by (simp add: held)
  have "market_wf ?d3" "y < length (assets ?d3)" using shiftD [OF s13] wf(2) by auto
  then have "shift khd y ?d3 e 0" using 4 apply_order_shift apply_order_before_shift by blast
  with s13 show ?thesis using shift_trans by fastforce
qed

lemma limit_order_create_conserves:
  assumes "limit_order_create_evaluate F ts required_fee op d = Inr d'" "\<not> skip_fee ts" "market_wf d" "y < length (assets d)"
    "in_int64 (amount (lc_amount_to_sell op))"
  shows "shift khd y d d' 0"
proof -
  from assms(1) obtain fs d1 df dp d2 d3 where fs: "prepare_fee d (lc_seller op) (lc_fee op) = Inr fs"
    and 1: "limit_order_convert_fee F ts fs d = Inr d1" and 2: "limit_order_pay_fee F ts fs d1 = Inr (df, dp, d2)"
    and 3: "limit_order_create_do_apply F op df dp d2 = Inr d3" and 4: "deduct_balance F (lc_seller op) (fee_from_account fs) d3 = Inr d'"
    by (auto simp: limit_order_create_evaluate_def evaluate_op_def) blast+
  note fee = prepare_fee_facts [OF fs]
  note s2 = deferred_fee_shift [OF fs 1 2 assms(2-4)]
  have w2: "market_wf d2" "accounts d2 = accounts d" "assets d2 = assets d" using shiftD [OF s2(1)] by auto
  have s3: "shift khd y d2 d3 (- in_asset y (mk_asset df 0) - in_asset y dp)"
    by (rule limit_order_create_shift [OF 3 w2(1)]) (use w2 fee(2) s2(3) assms(4,5) in auto)
  have w3: "market_wf d3" "accounts d3 = accounts d" using shiftD [OF s3] w2 by auto
  note s4 = deduct_shift(1) [OF 4 w3(1), of khd y]
  show ?thesis
    using shift_trans [OF shift_trans [OF s2(1) s3] s4] w3(2) fee(1,2) by simp
qed

lemma bid_collateral_conserves:
  assumes "bid_collateral_evaluate F ts required_fee op d = Inr d'" "\<not> skip_fee ts" "market_wf d" "y < length (assets d)"
  shows "shift khd y d d' 0"
proof -
  have run: "start_evaluate F ts required_fee (bc_bidder op) (bc_fee op) (bid_collateral_do_evaluate op) (bid_collateral_do_apply F op) d = Inr d'"
    using assms(1) by (simp add: bid_collateral_evaluate_def)
  show ?thesis
  proof (rule market_operation_conserves [OF run assms(2-4)])
    fix c d2 d3 assume ev: "bid_collateral_do_evaluate op d = Inr c" and fr: "fee_frame d d2" and w: "market_wf d2" "y < length (assets d2)"
      and ap: "bid_collateral_do_apply F op c d2 = Inr d3"
    have bidder: "bc_bidder op < length (accounts d2)"
      using ev fee_frame_fields(1) [OF fr] by (auto simp: bid_collateral_do_evaluate_def)
    have backing: "backing_of d2 (asset_id (bc_debt_covered op)) = Some (asset_id (bc_additional_collateral op))"
      using ev book_frame_backing [OF quiet_frame [OF fee_frame_quiet [OF fr]]]
      by (auto simp: bid_collateral_do_evaluate_def backing_of_def elim!: bitasset_dataE)
    from ap obtain d4 where 1: "d4 = d2 \<or> (\<exists>i. cancel_bid F i d2 = Inr d4)"
      and 2: "d3 = d4 \<or> (\<exists>d5 p. deduct_balance F (bc_bidder op) (bc_additional_collateral op) d4 = Inr d5
          \<and> price_of (bc_additional_collateral op) (bc_debt_covered op) = Inr p
          \<and> create_bid \<lparr>cbo_bidder = bc_bidder op, cbo_inv_swan_price = p\<rparr> d5 = Inr d3)"
      by (auto simp: bid_collateral_do_apply_def split: option.splits if_splits)
    have s1: "shift khd y d2 d4 0" using 1 w cancel_bid_shift(1) by auto
    show "shift khd y d2 d3 0"
    proof (cases "d3 = d4")
      case False
      with 2 obtain d5 p where 5: "deduct_balance F (bc_bidder op) (bc_additional_collateral op) d4 = Inr d5"
        and p: "price_of (bc_additional_collateral op) (bc_debt_covered op) = Inr p"
        and d3: "create_bid \<lparr>cbo_bidder = bc_bidder op, cbo_inv_swan_price = p\<rparr> d5 = Inr d3" by blast
      have w4: "market_wf d4" "accounts d4 = accounts d2" using shiftD [OF s1] by auto
      have s5: "shift khd y d4 d5 (in_asset y (bc_additional_collateral op))" by (rule deduct_shift(1) [OF 5 w4(1)]) (use w4 bidder in simp)
      have w5: "market_wf d5" "accounts d5 = accounts d2" using shiftD [OF s5] w4 by auto
      have bw: "bid_wf d5 \<lparr>cbo_bidder = bc_bidder op, cbo_inv_swan_price = p\<rparr>"
        using backing book_frame_backing [of d2 d5] shiftD [OF s1] shiftD [OF s5] book_frame_trans w5(2) bidder price_of_base [OF p]
        by (auto simp: bid_wf_def)
      have s6: "shift khd y d5 d3 (- in_asset y (bc_additional_collateral op))"
        using bid_table_shifts(3) [OF w5(1) bw, of khd y] d3 price_of_base [OF p]
        by (auto simp: create_bid_def)
      show ?thesis using shift_trans [OF s1 shift_trans [OF s5 s6]] by simp
    qed (use s1 in simp)
  qed
qed

end

subsection \<open>Borrowing positions\<close>

lemma find_call_orderE:
  assumes "find_call_order acct a d = Some (i, c)" "market_wf d"
  shows "tbl_find (call_orders d) i = Some c" "debt_type c = a" "co_borrower c = acct"
proof -
  have "(i, c) \<in> set (rows (call_orders d)) \<and> debt_type c = a \<and> co_borrower c = acct"
    using assms(1) unfolding find_call_order_def find_Some_iff by (auto simp: set_conv_nth)
  moreover have "distinct (map fst (rows (call_orders d)))" using market_tables_wf(2) [OF assms(2)] by (simp add: tbl_wf_def)
  ultimately show "tbl_find (call_orders d) i = Some c" "debt_type c = a" "co_borrower c = acct" by (simp_all add: tbl_find_def)
qed

context fc_arith
begin

lemma update_position_shift:
  assumes run: "update_position F op mcr d = Inr (i, old, e)" and wf: "market_wf d"
    and bk: "backing_of d (asset_id (cu_delta_debt op)) = Some (asset_id (cu_delta_collateral op))"
  shows "shift khd y d e (- in_asset y (cu_delta_collateral op))"
proof (cases "find_call_order (cu_funding_account op) (asset_id (cu_delta_debt op)) d")
  case None
  then obtain p where p: "call_price (cu_delta_debt op) (cu_delta_collateral op) mcr = Inr p"
    and e: "create_call_order \<lparr>co_borrower = cu_funding_account op, co_collateral = amount (cu_delta_collateral op),
       co_debt = amount (cu_delta_debt op), co_call_price = p, co_target_collateral_ratio = cu_target_collateral_ratio op\<rparr> d = Inr e"
    using run by (auto simp: update_position_def)
  note ids = call_price_ids [OF p]
  define c where "c = \<lparr>co_borrower = cu_funding_account op, co_collateral = amount (cu_delta_collateral op),
       co_debt = amount (cu_delta_debt op), co_call_price = p, co_target_collateral_ratio = cu_target_collateral_ratio op\<rparr>"
  have "call_wf d c" using ids bk by (simp add: call_wf_def c_def debt_type_def collateral_type_def)
  note s = call_table_shifts(3) [OF wf this, of khd y]
  have "call_held y c = in_asset y (cu_delta_collateral op)" using ids by (simp add: call_held_def c_def in_asset_def)
  then show ?thesis using s e by (simp add: create_call_order_def c_def)
next
  case (Some t)
  obtain j and call :: call_order_object where t: "t = (j, call)" by fastforce
  note old = find_call_orderE [OF Some [unfolded t] wf]
  have coll: "collateral_type call = asset_id (cu_delta_collateral op)"
    using market_owners(2) [OF wf old(1)] bk old(2) by (simp add: call_wf_def)
  let ?c1 = "call\<lparr>co_collateral := co_collateral call + amount (cu_delta_collateral op), co_debt := co_debt call + amount (cu_delta_debt op)\<rparr>"
  from run Some t obtain p where
    p: "(if co_debt call + amount (cu_delta_debt op) > 0 then call_price (get_debt ?c1) (get_collateral ?c1) mcr else Inr (co_call_price call)) = Inr p"
    and e: "e = d\<lparr>call_orders := tbl_set j (?c1\<lparr>co_call_price := p, co_target_collateral_ratio := cu_target_collateral_ratio op\<rparr>) (call_orders d)\<rparr>"
    by (auto simp: update_position_def fc_iffs Let_def)
  have ids: "asset_id (base p) = collateral_type call \<and> asset_id (quote p) = debt_type call"
    using p by (auto simp: get_debt_def get_collateral_def debt_type_def collateral_type_def split: if_splits dest!: call_price_ids)
  have w: "call_wf d (?c1\<lparr>co_call_price := p, co_target_collateral_ratio := cu_target_collateral_ratio op\<rparr>)"
    using ids old(2) coll bk by (simp add: call_wf_def debt_type_def collateral_type_def)
  note s = call_table_shifts(2) [OF wf old(1) w, of khd y]
  show ?thesis unfolding e
    by (rule shift_cong [OF s]) (use ids coll in \<open>simp add: call_held_def in_asset_def collateral_type_def\<close>)
qed

lemma adjust_debt_shift:
  assumes run: "adjust_debt F op d = Inr e" and wf: "market_wf d" "y < length (assets d)" "cu_funding_account op < length (accounts d)"
  shows "shift khd y d e 0 \<and> quiet d e"
proof (cases "amount (cu_delta_debt op) = 0")
  case False
  let ?x = "cu_delta_debt op"
  from run False obtain d1 where d1: "adjust_balance F (cu_funding_account op) ?x d = Inr d1" and a: "asset_id ?x < length (assets d1)"
    and m: "modify_dyn (dynamic_asset_data_id (assets d1 ! asset_id ?x)) (\<lambda>dyn.
          bind_res (safe_add F (current_supply dyn) (amount ?x)) (\<lambda>s.
          require (s \<ge> 0) ''dynamic_asset.current_supply >= 0'' (Inr (dyn\<lparr>current_supply := s\<rparr>)))) d1 = Inr e"
    unfolding adjust_debt_def by (simp only: if_True simp_thms bind_res_Inr get_obj_Inr) blast
  note s1 = adjust_shift [OF d1 wf(1,3)]
  have w: "market_wf d1" "y < length (assets d1)" using shiftD [OF s1(1)] wf(2) by auto
  obtain x' where x': "bind_res (safe_add F (current_supply (dyn_of d1 (asset_id ?x))) (amount ?x)) (\<lambda>s.
          require (s \<ge> 0) ''dynamic_asset.current_supply >= 0'' (Inr ((dyn_of d1 (asset_id ?x))\<lparr>current_supply := s\<rparr>))) = Inr x'"
    and sh: "shift khd y d1 e (dyn_shift khd y (asset_id ?x) (dyn_of d1 (asset_id ?x)) x')" "quiet d1 e"
    by (rule modify_dyn_shift [OF m w(1) a w(2), of khd])
  have "dyn_shift khd y (asset_id ?x) (dyn_of d1 (asset_id ?x)) x' = in_asset y ?x"
    using x' by (auto simp: fc_iffs dyn_shift_def dyn_net_def in_asset_def)
  then show ?thesis using shift_trans [OF s1(1) sh(1)] quiet_trans [OF s1(2) sh(2)] by simp
qed (use run wf in \<open>simp add: adjust_debt_def\<close>)

lemma adjust_collateral_shift:
  assumes run: "adjust_collateral F op d = Inr e" and wf: "market_wf d" "cu_funding_account op < length (accounts d)"
  shows "shift khd y d e (in_asset y (cu_delta_collateral op)) \<and> quiet d e"
proof (cases "amount (cu_delta_collateral op) = 0")
  case False
  let ?z = "cu_delta_collateral op" and ?a = "cu_funding_account op"
  from run False obtain d1 where d1: "deduct_balance F ?a ?z d = Inr d1"
    and e: "(if asset_id ?z = 0 then modify_stats ?a (add_core_in_orders F (amount ?z)) d1 else Inr d1) = Inr e"
    by (auto simp: adjust_collateral_def)
  note s1 = deduct_shift [OF d1 wf]
  have w: "market_wf d1" using shiftD [OF s1(1)] by simp
  have "shift khd y d1 e 0 \<and> quiet d1 e"
    using e w stats_quiet [of ?a "add_core_in_orders F (amount ?z)" d1 e khd y] core_in_orders_pending(2) by (auto split: if_splits)
  then show ?thesis using shift_trans [OF s1(1)] quiet_trans [OF s1(2)] by fastforce
qed (use run wf in \<open>simp add: adjust_collateral_def in_asset_0\<close>)

lemma check_updated_position_shift:
  assumes "check_updated_position F a b i old d = Inr e" "market_wf d" "y < length (assets d)"
  shows "shift khd y d e 0"
proof -
  from assms(1) obtain c where "check_call_orders F a False False d = Inr (c, e)"
    by (auto simp: check_updated_position_def Let_def split: if_splits option.splits)
  then show ?thesis using check_call_orders_shift assms(2,3) by blast
qed

lemma call_order_update_shift:
  assumes ap: "call_order_update_do_apply F op b d = Inr e" and wf: "market_wf d" "y < length (assets d)"
    and acct: "cu_funding_account op < length (accounts d)"
    and bk: "backing_of d (asset_id (cu_delta_debt op)) = Some (asset_id (cu_delta_collateral op))"
  shows "shift khd y d e 0"
proof -
  from ap obtain d2 d4 t c where 1: "adjust_debt F op d = Inr d2" and 2: "adjust_collateral F op d2 = Inr d4"
    and 3: "update_position F op (maintenance_collateral_ratio (bd_current_feed b)) d4 = Inr t"
    and c: "tbl_find (call_orders (snd (snd t))) (fst t) = Some c"
    and e: "(if co_debt c = 0 then require (co_collateral c = 0) ''call_obj->collateral == 0''
         (Inr ((snd (snd t))\<lparr>call_orders := tbl_remove (fst t) (call_orders (snd (snd t)))\<rparr>))
       else require (co_collateral c > 0 \<and> co_debt c > 0) ''call_obj->collateral > 0 && call_obj->debt > 0''
         (if bd_is_prediction_market b then Inr (snd (snd t))
          else check_updated_position F (asset_id (cu_delta_debt op)) b (fst t) (fst (snd t)) (snd (snd t)))) = Inr e"
    unfolding call_order_update_do_apply_def bind_res_Inr case_prod_beta tbl_get_Inr by blast
  obtain i old d5 where t: "t = (i, old, d5)" by (cases t) auto
  note 3 = 3 [unfolded t] and c = c [unfolded t fst_conv snd_conv] and e = e [unfolded t fst_conv snd_conv]
  have s2: "shift khd y d d2 0 \<and> quiet d d2" by (rule adjust_debt_shift [OF 1 wf acct])
  then have w2: "market_wf d2" "accounts d2 = accounts d" using shiftD by blast+
  have s4: "shift khd y d2 d4 (in_asset y (cu_delta_collateral op)) \<and> quiet d2 d4"
    by (rule adjust_collateral_shift [OF 2 w2(1)]) (use w2 acct in simp)
  have q: "quiet d d4" using s2 s4 quiet_trans by blast
  have w4: "market_wf d4" "backing_of d4 = backing_of d" using shiftD s4 quiet_fields(1,3) [OF q] by (auto simp: backing_of_def fun_eq_iff split: option.splits)
  have s5: "shift khd y d4 d5 (- in_asset y (cu_delta_collateral op))" by (rule update_position_shift [OF 3 w4(1)]) (use bk w4(2) in simp)
  have s25: "shift khd y d d5 0" using shift_trans [OF shift_trans [OF conjunct1 [OF s2] conjunct1 [OF s4]] s5] by simp
  show ?thesis
  proof (rule keep_step [OF s25 wf(2)])
    assume w5: "market_wf d5" "y < length (assets d5)"
    show "shift khd y d5 e 0"
    proof (cases "co_debt c = 0")
      case True
      then have "co_collateral c = 0" "e = d5\<lparr>call_orders := tbl_remove i (call_orders d5)\<rparr>" using e by simp_all
      then show ?thesis using call_table_shifts(1) [OF w5(1) c, of khd y] by (simp add: call_held_def)
    next
      case False
      then have "e = d5 \<or> check_updated_position F (asset_id (cu_delta_debt op)) b i old d5 = Inr e"
        using e by (cases "bd_is_prediction_market b") simp_all
      then show ?thesis using check_updated_position_shift w5 by auto
    qed
  qed
qed

lemma call_order_update_conserves:
  assumes "call_order_update_evaluate F ts required_fee op d = Inr d'" "\<not> skip_fee ts" "market_wf d" "y < length (assets d)"
  shows "shift khd y d d' 0"
proof -
  have run: "start_evaluate F ts required_fee (cu_funding_account op) (cu_fee op) (call_order_update_do_evaluate op) (call_order_update_do_apply F op) d = Inr d'"
    using assms(1) by (simp add: call_order_update_evaluate_def)
  show ?thesis
  proof (rule market_operation_conserves [OF run assms(2-4)])
    fix b d2 d3 assume ev: "call_order_update_do_evaluate op d = Inr b" and fr: "fee_frame d d2" and w: "market_wf d2" "y < length (assets d2)"
      and ap: "call_order_update_do_apply F op b d2 = Inr d3"
    note q = quiet_fields(1-3) [OF fee_frame_quiet [OF fr]]
    from ev have ok: "cu_funding_account op < length (accounts d)" "asset_id (cu_delta_debt op) < length (assets d)"
      "bitasset_data (assets d ! asset_id (cu_delta_debt op)) d = Inr b" "asset_id (cu_delta_collateral op) = bo_short_backing_asset (bd_options b)"
      by (auto simp: call_order_update_do_evaluate_def split: if_splits)
    have "backing_of d2 (asset_id (cu_delta_debt op)) = Some (asset_id (cu_delta_collateral op))"
      by (rule bitasset_dataE [OF ok(3)]) (use ok(2,4) q in \<open>simp add: backing_of_def\<close>)
    then show "shift khd y d2 d3 0" using call_order_update_shift [OF ap w] ok(1) q by simp
  qed
qed

end

end
