(* ===== verification/Names.thy ===== *)
theory Names
  imports Asset_Price "HOL-Library.Signed_Division"
begin

text \<open>
  Names, symbols and the decimal notation of amounts: \<open>is_valid_name\<close>, \<open>is_valid_brain_key\<close> and
  \<open>is_cheap_name\<close> of \<open>libraries/chain/protocol/account.cpp\<close>, \<open>is_valid_symbol\<close> of
  \<open>protocol/asset_ops.cpp\<close>, \<open>amount_from_string\<close> and \<open>amount_to_string\<close> of \<open>asset_object.cpp\<close>, and
  their copies \<open>khc_amount_from_string\<close>, \<open>khc_amount_to_string\<close> of \<open>libraries/khc/util.cpp\<close>.
  Of the standard library the theory models the character classes of the classic locale,
  \<open>std::to_string\<close>, \<open>std::stoll\<close>, \<open>find\<close> and \<open>substr\<close>; \<open>/\<close> and \<open>%\<close> of C++ truncate (\<open>sdiv\<close>, \<open>smod\<close>).
\<close>

subsection \<open>Characters\<close>

definition code :: "char \<Rightarrow> nat" where "code c = of_char c"
definition is_lower :: "char \<Rightarrow> bool" where "is_lower c \<longleftrightarrow> 97 \<le> code c \<and> code c \<le> 122"
definition is_upper :: "char \<Rightarrow> bool" where "is_upper c \<longleftrightarrow> 65 \<le> code c \<and> code c \<le> 90"
definition is_digit :: "char \<Rightarrow> bool" where "is_digit c \<longleftrightarrow> 48 \<le> code c \<and> code c \<le> 57"
definition is_alpha :: "char \<Rightarrow> bool" where "is_alpha c \<longleftrightarrow> is_lower c \<or> is_upper c"
definition is_alnum :: "char \<Rightarrow> bool" where "is_alnum c \<longleftrightarrow> is_alpha c \<or> is_digit c"
definition is_space :: "char \<Rightarrow> bool" where "is_space c \<longleftrightarrow> code c = 32 \<or> (9 \<le> code c \<and> code c \<le> 13)"

lemmas char_class_defs = is_lower_def is_upper_def is_digit_def is_alpha_def is_alnum_def is_space_def code_def

subsection \<open>Account names\<close>

definition GRAPHENE_MIN_ACCOUNT_NAME_LENGTH :: nat where "GRAPHENE_MIN_ACCOUNT_NAME_LENGTH = 2"
definition GRAPHENE_MAX_ACCOUNT_NAME_LENGTH :: nat where "GRAPHENE_MAX_ACCOUNT_NAME_LENGTH = 21"
definition GRAPHENE_MIN_ASSET_SYMBOL_LENGTH :: nat where "GRAPHENE_MIN_ASSET_SYMBOL_LENGTH = 3"
definition GRAPHENE_MAX_ASSET_SYMBOL_LENGTH :: nat where "GRAPHENE_MAX_ASSET_SYMBOL_LENGTH = 16"

lemmas name_length_defs = GRAPHENE_MIN_ACCOUNT_NAME_LENGTH_def GRAPHENE_MAX_ACCOUNT_NAME_LENGTH_def
  GRAPHENE_MIN_ASSET_SYMBOL_LENGTH_def GRAPHENE_MAX_ASSET_SYMBOL_LENGTH_def

fun name_tail_ok :: "string \<Rightarrow> bool" where
  "name_tail_ok [] = True"
| "name_tail_ok (c # cs) = (if is_lower c \<or> is_digit c then name_tail_ok cs else False)"

definition is_valid_name :: "string \<Rightarrow> bool" where
  "is_valid_name name =
     (if length name < GRAPHENE_MIN_ACCOUNT_NAME_LENGTH then False
      else if length name > GRAPHENE_MAX_ACCOUNT_NAME_LENGTH then False
      else if \<not> is_lower (name ! 0) then False
      else name_tail_ok (drop 1 name))"

definition is_valid_brain_key :: "string \<Rightarrow> bool" where
  "is_valid_brain_key key \<longleftrightarrow> \<not> (length key < 12 \<or> length key > 70)"

fun cheap_scan :: "bool \<Rightarrow> string \<Rightarrow> bool" where
  "cheap_scan v [] = (\<not> v)"
| "cheap_scan v (c # cs) =
     (if is_digit c then True
      else if c \<in> {CHR ''.'', CHR ''-'', CHR ''/''} then True
      else cheap_scan (v \<or> c \<in> {CHR ''a'', CHR ''e'', CHR ''i'', CHR ''o'', CHR ''u'', CHR ''y''}) cs)"

definition is_cheap_name :: "string \<Rightarrow> bool" where
  "is_cheap_name n = cheap_scan False n"

subsection \<open>Asset symbols\<close>

fun symbol_scan :: "bool \<Rightarrow> string \<Rightarrow> bool" where
  "symbol_scan dot_already_present [] = True"
| "symbol_scan dot_already_present (c # cs) =
     (if (is_alpha c \<and> is_upper c) \<or> is_digit c then symbol_scan dot_already_present cs
      else if c = CHR ''.'' then (if dot_already_present then False else symbol_scan True cs)
      else False)"

definition is_valid_symbol :: "string \<Rightarrow> bool" where
  "is_valid_symbol s =
     (if length s < GRAPHENE_MIN_ASSET_SYMBOL_LENGTH then False
      else if take 3 s = ''BIT'' then False
      else if length s > GRAPHENE_MAX_ASSET_SYMBOL_LENGTH then False
      else if \<not> is_alpha (hd s) then False
      else if \<not> is_alnum (last s) then False
      else symbol_scan False s)"

subsection \<open>Decimal notation\<close>

definition digit :: "nat \<Rightarrow> char" where
  "digit n = char_of (48 + n)"

fun dec :: "nat \<Rightarrow> string" where
  "dec n = (if n < 10 then [digit n] else dec (n div 10) @ [digit (n mod 10)])"

declare dec.simps [simp del]

definition to_string :: "int \<Rightarrow> string" where
  "to_string i = (if i < 0 then CHR ''-'' # dec (nat (- i)) else dec (nat i))"

definition digits_value :: "string \<Rightarrow> nat" where
  "digits_value = foldl (\<lambda>a c. 10 * a + (code c - 48)) 0"

definition stoll :: "string \<Rightarrow> int result" where
  "stoll s =
     (let t = dropWhile is_space s;
          neg = (t \<noteq> [] \<and> hd t = CHR ''-'');
          u = (if t \<noteq> [] \<and> (hd t = CHR ''-'' \<or> hd t = CHR ''+'') then tl t else t);
          ds = takeWhile is_digit u;
          v = (if neg then - int (digits_value ds) else int (digits_value ds))
      in if ds = [] then Inl Invalid_Argument
         else if in_int64 v then Inr v else Inl Out_Of_Range)"

fun amount_scan :: "bool \<Rightarrow> bool \<Rightarrow> string \<Rightarrow> (bool \<times> bool) result" where
  "amount_scan negative_found decimal_found [] = Inr (negative_found, decimal_found)"
| "amount_scan negative_found decimal_found (c # cs) =
     (if is_digit c then amount_scan negative_found decimal_found cs
      else if c = CHR ''-'' \<and> \<not> negative_found then amount_scan True decimal_found cs
      else if c = CHR ''.'' \<and> \<not> decimal_found then amount_scan negative_found True cs
      else Inl (Other_Exception ''FC_THROW''))"

text \<open>\<open>find('.')\<close> and \<open>substr(pos, len)\<close>, where \<open>npos\<close> as a length means the rest of the string.\<close>

fun find_dot :: "string \<Rightarrow> nat option" where
  "find_dot [] = None"
| "find_dot (c # cs) = (if c = CHR ''.'' then Some 0 else map_option Suc (find_dot cs))"

definition substr :: "nat \<Rightarrow> nat option \<Rightarrow> string \<Rightarrow> string" where
  "substr pos len s = (case len of None \<Rightarrow> drop pos s | Some n \<Rightarrow> take n (drop pos s))"

definition parse_amount :: "fc_lib \<Rightarrow> int \<Rightarrow> string \<Rightarrow> int result" where
  "parse_amount F scaled s =
     bind_res (amount_scan False False s) (\<lambda>(negative_found, decimal_found).
     let decimal_pos = find_dot s;
         lhs = substr (if negative_found then 1 else 0) decimal_pos s in
     bind_res (if lhs \<noteq> [] then bind_res (stoll lhs) (\<lambda>v. bind_res (safe_mul F v scaled) (\<lambda>w. safe_add F 0 w))
               else Inr 0) (\<lambda>satoshis.
     bind_res (if decimal_found then
                 let max_rhs_size = length (drop 1 (to_string scaled));
                     rhs = (case decimal_pos of None \<Rightarrow> [] | Some p \<Rightarrow> drop (p + 1) s) in
                 require (length rhs \<le> max_rhs_size) ''rhs.size() <= max_rhs_size''
                (let rhs' = rhs @ replicate (max_rhs_size - length rhs) (CHR ''0'') in
                 if rhs' \<noteq> [] then bind_res (stoll rhs') (\<lambda>v. safe_add F satoshis v) else Inr satoshis)
               else Inr satoshis) (\<lambda>total_satoshis.
     require (total_satoshis \<le> GRAPHENE_MAX_SHARE_SUPPLY) ''satoshis <= GRAPHENE_MAX_SHARE_SUPPLY''
    (if negative_found then safe_mul F total_satoshis (- 1) else Inr total_satoshis))))"

definition khc_amount_from_string :: "fc_lib \<Rightarrow> string \<Rightarrow> nat \<Rightarrow> int result" where
  "khc_amount_from_string F s precision =
     bind_res (amount_scan False False s) (\<lambda>_.
     require (precision < 19) ''precision < 19'' (parse_amount F (10 ^ precision) s))"

definition amount_from_string :: "fc_lib \<Rightarrow> nat \<Rightarrow> asset_id_type \<Rightarrow> string \<Rightarrow> asset result" where
  "amount_from_string F precision aid s =
     bind_res (amount_scan False False s) (\<lambda>_.
     bind_res (scaled_precision precision) (\<lambda>scaled.
     bind_res (parse_amount F scaled s) (\<lambda>a. Inr (mk_asset a aid))))"

definition print_amount :: "int \<Rightarrow> int \<Rightarrow> string" where
  "print_amount scaled a =
     (let decimals = a smod scaled in
      to_string (a sdiv scaled)
        @ (if decimals \<noteq> 0 then CHR ''.'' # drop 1 (to_string (scaled + decimals)) else []))"

definition khc_amount_to_string :: "int \<Rightarrow> nat \<Rightarrow> string result" where
  "khc_amount_to_string a precision =
     bind_res (scaled_precision precision) (\<lambda>scaled. Inr (print_amount scaled a))"

fun power_of_ten :: "fc_lib \<Rightarrow> nat \<Rightarrow> int \<Rightarrow> int result" where
  "power_of_ten F 0 s = Inr s"
| "power_of_ten F (Suc n) s = bind_res (safe_mul F s 10) (power_of_ten F n)"

definition amount_to_string :: "fc_lib \<Rightarrow> nat \<Rightarrow> int \<Rightarrow> string result" where
  "amount_to_string F precision a =
     bind_res (power_of_ten F precision 1) (\<lambda>scaled. Inr (print_amount scaled a))"

subsection \<open>Which names and symbols are valid\<close>

lemma name_tail_ok_iff: "name_tail_ok cs \<longleftrightarrow> (\<forall>c\<in>set cs. is_lower c \<or> is_digit c)"
  by (induction cs) auto

lemma symbol_scan_iff:
  "symbol_scan dot cs \<longleftrightarrow> (\<forall>c\<in>set cs. is_upper c \<or> is_digit c \<or> c = CHR ''.'')
     \<and> count_list cs (CHR ''.'') + (if dot then 1 else 0) \<le> 1"
proof -
  have "\<not> is_upper (CHR ''.'')" "\<not> is_digit (CHR ''.'')" by (simp_all add: char_class_defs)
  then show ?thesis by (induction dot cs rule: symbol_scan.induct) (auto simp: is_alpha_def)
qed

lemma cheap_scan_iff:
  "cheap_scan v cs \<longleftrightarrow> (\<exists>c\<in>set cs. is_digit c \<or> c \<in> {CHR ''.'', CHR ''-'', CHR ''/''})
     \<or> \<not> v \<and> (\<forall>c\<in>set cs. c \<notin> {CHR ''a'', CHR ''e'', CHR ''i'', CHR ''o'', CHR ''u'', CHR ''y''})"
  by (induction v cs rule: cheap_scan.induct) auto



subsection \<open>Printing and parsing amounts\<close>

lemma digit_facts [simp]: "n < 10 \<Longrightarrow> is_digit (digit n)" "n < 10 \<Longrightarrow> code (digit n) = 48 + n"
  by (simp_all add: is_digit_def code_def digit_def)

lemma digit_0 [simp]: "digit 0 = CHR ''0''" and digit_1: "digit (Suc 0) = CHR ''1''"
  by (code_simp, code_simp)

lemma dec_small: "n < 10 \<Longrightarrow> dec n = [digit n]"
  by (simp add: dec.simps)

lemma dec_big: "10 \<le> n \<Longrightarrow> dec n = dec (n div 10) @ [digit (n mod 10)]"
  by (simp add: dec.simps)

lemma dec_digits: "(\<forall>c\<in>set (dec n). is_digit c) \<and> dec n \<noteq> []"
proof (induction n rule: less_induct)
  case (less n)
  show ?case
  proof (cases "n < 10")
    case True
    then show ?thesis by (simp add: dec_small)
  next
    case False
    then show ?thesis using less [of "n div 10"] by (auto simp: dec_big)
  qed
qed

lemma digits_value_snoc: "digits_value (cs @ [c]) = 10 * digits_value cs + (code c - 48)"
  by (simp add: digits_value_def)

lemma digits_value_dec [simp]: "digits_value (dec n) = n"
proof (induction n rule: less_induct)
  case (less n)
  show ?case
  proof (cases "n < 10")
    case True
    then show ?thesis by (simp add: dec_small digits_value_def)
  next
    case False
    then show ?thesis using less [of "n div 10"] by (simp add: dec_big digits_value_snoc)
  qed
qed

lemma foldl_digits: "foldl (\<lambda>a c. 10 * a + (code c - 48)) a cs = a * 10 ^ length cs + digits_value cs"
  unfolding digits_value_def
proof (induction cs rule: rev_induct)
  case (snoc c cs)
  then show ?case by (simp add: algebra_simps)
qed simp

lemma digits_value_Cons: "digits_value (c # cs) = (code c - 48) * 10 ^ length cs + digits_value cs"
  using foldl_digits [of "code c - 48" cs] by (simp add: digits_value_def)

text \<open>\<open>10 ^ p + r\<close> with \<open>r < 10 ^ p\<close> is written as a 1 followed by the \<open>p\<close> digits of \<open>r\<close>.\<close>

lemma dec_scaled:
  assumes "r < 10 ^ p"
  shows "\<exists>cs. dec (10 ^ p + r) = CHR ''1'' # cs \<and> length cs = p \<and> digits_value cs = r \<and> (\<forall>c\<in>set cs. is_digit c)"
  using assms
proof (induction p arbitrary: r)
  case 0
  then show ?case by (simp add: dec_small digit_1 digits_value_def)
next
  case (Suc p)
  have "r div 10 < 10 ^ p" using Suc(2) by (simp add: less_mult_imp_div_less)
  then obtain cs where cs: "dec (10 ^ p + r div 10) = CHR ''1'' # cs" "length cs = p" "digits_value cs = r div 10"
    "\<forall>c\<in>set cs. is_digit c" using Suc(1) by blast
  have "(10 ^ Suc p + r) div 10 = 10 ^ p + r div 10" by simp
  moreover have "(10 ^ Suc p + r) mod 10 = r mod 10" by simp
  moreover have "10 \<le> 10 ^ Suc p + r" by (simp add: trans_le_add1)
  ultimately have "dec (10 ^ Suc p + r) = CHR ''1'' # cs @ [digit (r mod 10)]" using cs(1) by (simp add: dec_big)
  then show ?case using cs(2-4) by (auto simp: digits_value_snoc)
qed

lemma not_digit_marks [simp]: "\<not> is_digit (CHR ''.'')" "\<not> is_digit (CHR ''-'')" "\<not> is_digit (CHR ''+'')" "is_digit c \<Longrightarrow> \<not> is_space c"
  by (auto simp: char_class_defs)

lemma stoll_digits:
  assumes "cs \<noteq> []" "\<forall>c\<in>set cs. is_digit c" "in_int64 (int (digits_value cs))"
  shows "stoll cs = Inr (int (digits_value cs))"
proof -
  have "is_digit (hd cs)" using assms by (cases cs) auto
  then have "\<not> is_space (hd cs)" "hd cs \<noteq> CHR ''-''" "hd cs \<noteq> CHR ''+''" by auto
  moreover from this(1) have "dropWhile is_space cs = cs" using assms(1) by (cases cs) auto
  moreover have "takeWhile is_digit cs = cs" using assms(2) by simp
  ultimately show ?thesis using assms by (simp add: stoll_def Let_def del: takeWhile_eq_all_conv)
qed

lemma amount_scan_digits:
  "\<forall>c\<in>set cs. is_digit c \<Longrightarrow> amount_scan neg dec_found (cs @ ds) = amount_scan neg dec_found ds"
  by (induction cs) auto

lemma find_dot_digits: "\<forall>c\<in>set cs. is_digit c \<Longrightarrow> find_dot (cs @ ds) = map_option (\<lambda>n. length cs + n) (find_dot ds)"
proof (induction cs)
  case (Cons c cs)
  then have "c \<noteq> CHR ''.''" by auto
  with Cons show ?case by (cases "find_dot ds") auto
qed (cases "find_dot ds"; simp)

context fc_arith
begin

lemma parse_print_amount:
  assumes "0 \<le> a" "a \<le> GRAPHENE_MAX_SHARE_SUPPLY" "p < 19"
  shows "parse_amount F (10 ^ p) (print_amount (10 ^ p) a) = Inr a"
proof -
  let ?s = "10 ^ p :: int"
  have int64: "in_int64 x" if "0 \<le> x" "x \<le> a" for x
    using that assms(2) by (simp add: in_int64_def config_defs)
  have q: "0 \<le> a div ?s" "a div ?s * ?s \<le> a" "0 \<le> a mod ?s" "a mod ?s < ?s"
    using assms(1) floor_div_le [of ?s a] by (simp_all add: pos_imp_zdiv_nonneg_iff)
  have "a div ?s \<le> a" using zdiv_mono2 [of a 1 ?s] assms(1) by simp
  have trunc: "a sdiv ?s = a div ?s" "a smod ?s = a mod ?s"
    using assms(1) by (simp_all add: signed_divide_int_def signed_modulo_int_def sgn_if minus_mult_div_eq_mod)
  let ?l = "dec (nat (a div ?s))"
  have l: "?l \<noteq> []" "\<forall>c\<in>set ?l. is_digit c" using dec_digits by auto
  have lhs: "stoll ?l = Inr (a div ?s)" using stoll_digits [OF l] q int64 \<open>a div ?s \<le> a\<close> by simp
  have mul: "safe_mul F (a div ?s) ?s = Inr (a div ?s * ?s)" "safe_add F 0 (a div ?s * ?s) = Inr (a div ?s * ?s)"
    using q int64 by (simp_all add: fc_iffs)
  show ?thesis
  proof (cases "a mod ?s = 0")
    case True
    then have "print_amount ?s a = ?l" using q by (simp add: print_amount_def trunc to_string_def)
    moreover have "amount_scan False False ?l = Inr (False, False)" "find_dot ?l = None"
      using amount_scan_digits [OF l(2), of False False "[]"] find_dot_digits [OF l(2), of "[]"] by simp_all
    moreover have "a div ?s * ?s = a" using True by (simp add: minus_mod_eq_div_mult [symmetric])
    ultimately show ?thesis using lhs mul l(1) assms(2) by (simp add: parse_amount_def substr_def Let_def)
  next
    case False
    have nat_mod: "nat (a mod ?s) < 10 ^ p" using q by (simp add: nat_less_iff)
    obtain cs where cs: "dec (10 ^ p + nat (a mod ?s)) = CHR ''1'' # cs" "length cs = p" "digits_value cs = nat (a mod ?s)"
      "\<forall>c\<in>set cs. is_digit c" using dec_scaled [OF nat_mod] by blast
    have "nat (?s + a mod ?s) = 10 ^ p + nat (a mod ?s)" using q by (simp add: nat_add_distrib nat_power_eq)
    moreover have nonneg: "\<not> ?s + a mod ?s < 0" using q(3) zero_le_power [of "10 :: int" p] by linarith
    ultimately have pr: "print_amount ?s a = ?l @ CHR ''.'' # cs"
      using False q cs(1) by (simp add: print_amount_def trunc to_string_def Let_def nonneg del: not_less)
    have "p \<noteq> 0" using False by (cases p) auto
    then have "cs \<noteq> []" using cs(2) by auto
    have size: "length (drop 1 (to_string ?s)) = p"
      using dec_scaled [of 0 p] by (auto simp: to_string_def nat_power_eq)
    have "amount_scan False False (?l @ CHR ''.'' # cs) = Inr (False, True)"
      using amount_scan_digits [OF l(2)] amount_scan_digits [OF cs(4), of False True "[]"] by simp
    moreover have "find_dot (?l @ CHR ''.'' # cs) = Some (length ?l)" using find_dot_digits [OF l(2)] by simp
    moreover have "stoll cs = Inr (a mod ?s)"
      using stoll_digits [OF \<open>cs \<noteq> []\<close> cs(4)] cs(3) q int64 [of "a mod ?s"] assms(1) by (simp add: zmod_le_nonneg_dividend)
    moreover have "safe_add F (a div ?s * ?s) (a mod ?s) = Inr a"
      using int64 [of a] assms(1) div_mult_mod_eq [of a ?s] by (simp add: fc_iffs)
    ultimately show ?thesis
      using lhs mul l(1) assms(2) size cs(2) \<open>cs \<noteq> []\<close> by (simp add: pr parse_amount_def substr_def Let_def)
  qed
qed

end

text \<open>C29: Parsing undoes printing.  For every amount from 0 to the maximal supply and every precision
  below 19, \<open>khc_amount_from_string\<close> reads the string that \<open>khc_amount_to_string\<close> writes back as the
  amount, and so do the two functions of \<open>asset_object\<close>.\<close>

theorem amount_string_roundtrip:
  assumes "fc_arith F" "0 \<le> a" "a \<le> GRAPHENE_MAX_SHARE_SUPPLY" "p < 19"
  shows "(\<exists>s. khc_amount_to_string a p = Inr s \<and> khc_amount_from_string F s p = Inr a)
    \<and> (\<exists>s. amount_to_string F p a = Inr s \<and> amount_from_string F p i s = Inr (mk_asset a i))"
proof -
  note rt = fc_arith.parse_print_amount [OF assms]
  have ten: "power_of_ten F n (10 ^ m) = Inr (10 ^ (m + n))" if "m + n < 19" for n m
    using that
  proof (induction n arbitrary: m)
    case (Suc n)
    have "(10 :: int) ^ Suc m \<le> 10 ^ 18" using Suc(2) by (intro power_increasing) auto
    then have "(10 :: int) ^ m * 10 \<le> 10 ^ 18" by (simp only: power_Suc mult.commute)
    moreover have "in_int64 (10 ^ 18)" "(0 :: int) \<le> 10 ^ m * 10" by (simp_all add: in_int64_def)
    ultimately have "in_int64 (10 ^ m * 10)" using in_int64_between [OF in_int64_0] by blast
    then have "safe_mul F (10 ^ m) 10 = Inr (10 ^ Suc m)" using fc_arith.safe_mul_exact [OF assms(1)] by simp
    then show ?case using Suc(1) [of "Suc m"] Suc(2) by simp
  qed simp
  have "amount_to_string F p a = Inr (print_amount (10 ^ p) a)"
    using ten [of 0 p] assms(4) by (simp add: amount_to_string_def)
  moreover have "khc_amount_to_string a p = Inr (print_amount (10 ^ p) a)"
    using assms(4) by (simp add: khc_amount_to_string_def scaled_precision_def)
  moreover from rt obtain x where "amount_scan False False (print_amount (10 ^ p) a) = Inr x"
    by (auto simp: parse_amount_def)
  ultimately show ?thesis using rt assms(4)
    by (simp add: khc_amount_from_string_def amount_from_string_def scaled_precision_def)
qed

theorem amount_string_roundtrip_witness:
  "\<exists>s. khc_amount_to_string 12305 4 = Inr s \<and> khc_amount_from_string fc64 s 4 = Inr 12305"
  using amount_string_roundtrip [OF fc64_arith.fc_arith_axioms, of 12305 4 0] by (simp add: config_defs)



end
