(* ===== verification/Feeds.thy ===== *)
theory Feeds
  imports Chain_DB
begin

text \<open>
  Price feeds of market-issued assets: the median of the live feeds, their expiry and the volume that may be
  force-settled (\<open>libraries/chain/asset_object.cpp\<close>, \<open>asset_object.hpp\<close>). The published feeds of an asset
  are a list of triples in the order of their publishers, as the flat map of the code holds them.
\<close>

definition GRAPHENE_DEFAULT_MAINTENANCE_COLLATERAL_RATIO :: nat where "GRAPHENE_DEFAULT_MAINTENANCE_COLLATERAL_RATIO = 1750"
definition GRAPHENE_DEFAULT_MAX_SHORT_SQUEEZE_RATIO :: nat where "GRAPHENE_DEFAULT_MAX_SHORT_SQUEEZE_RATIO = 1500"

definition price_feed_default :: price_feed where
  "price_feed_default = \<lparr>settlement_price = price_default, core_exchange_rate = price_default,
     maintenance_collateral_ratio = GRAPHENE_DEFAULT_MAINTENANCE_COLLATERAL_RATIO,
     maximum_short_squeeze_ratio = GRAPHENE_DEFAULT_MAX_SHORT_SQUEEZE_RATIO\<rparr>"

definition price_feed_eq :: "price_feed \<Rightarrow> price_feed \<Rightarrow> bool" where
  "price_feed_eq a b \<longleftrightarrow> price_eq (settlement_price a) (settlement_price b)
     \<and> maintenance_collateral_ratio a = maintenance_collateral_ratio b
     \<and> maximum_short_squeeze_ratio a = maximum_short_squeeze_ratio b"

subsection \<open>The map of feeds\<close>

fun feeds_set :: "account_id_type \<Rightarrow> nat \<times> price_feed \<Rightarrow> (account_id_type \<times> nat \<times> price_feed) list
    \<Rightarrow> (account_id_type \<times> nat \<times> price_feed) list" where
  "feeds_set k v [] = [(k, v)]"
| "feeds_set k v ((j, w) # xs) = (if k < j then (k, v) # (j, w) # xs else if k = j then (k, v) # xs else (j, w) # feeds_set k v xs)"

definition feeds_has :: "account_id_type \<Rightarrow> (account_id_type \<times> nat \<times> price_feed) list \<Rightarrow> bool" where
  "feeds_has k xs \<longleftrightarrow> k \<in> set (map fst xs)"

subsection \<open>The median\<close>

text \<open>\<open>std::nth_element\<close> puts the element that a sort would put there at a position, what is less before it and
  what is greater behind it; sorting the whole range is such an arrangement.\<close>

fun insert_by :: "('a \<Rightarrow> 'a \<Rightarrow> bool) \<Rightarrow> 'a \<Rightarrow> 'a list \<Rightarrow> 'a list" where
  "insert_by lt x [] = [x]"
| "insert_by lt x (y # ys) = (if lt y x then y # insert_by lt x ys else x # y # ys)"

fun nth_element :: "('a \<Rightarrow> 'a \<Rightarrow> bool) \<Rightarrow> 'a list \<Rightarrow> 'a list" where
  "nth_element lt [] = []"
| "nth_element lt (x # xs) = insert_by lt x (nth_element lt xs)"

text \<open>The feeds that are alive, and the oldest publication time among them.\<close>

definition feed_alive :: "nat \<Rightarrow> nat \<Rightarrow> nat \<Rightarrow> bool" where
  "feed_alive lifetime now published \<longleftrightarrow> int now - int published < int lifetime \<and> published \<noteq> 0"

definition live_feeds :: "nat \<Rightarrow> asset_bitasset_data_object \<Rightarrow> (account_id_type \<times> nat \<times> price_feed) list" where
  "live_feeds now b = filter (\<lambda>(_, t, _). feed_alive (bo_feed_lifetime_sec (bd_options b)) now t) (bd_feeds b)"

definition live_values :: "nat \<Rightarrow> asset_bitasset_data_object \<Rightarrow> price_feed list" where
  "live_values now b = map (\<lambda>(_, _, f). f) (live_feeds now b)"

definition median_feed :: "price_feed list \<Rightarrow> price_feed" where
  "median_feed fs0 =
     (let k = length fs0 div 2;
          fs1 = nth_element (\<lambda>a b. price_less (settlement_price a) (settlement_price b)) fs0;
          fs2 = nth_element (\<lambda>a b. maintenance_collateral_ratio a < maintenance_collateral_ratio b) fs1;
          fs3 = nth_element (\<lambda>a b. maximum_short_squeeze_ratio a < maximum_short_squeeze_ratio b) fs2;
          fs4 = nth_element (\<lambda>a b. price_less (core_exchange_rate a) (core_exchange_rate b)) fs3 in
      \<lparr>settlement_price = settlement_price (fs1 ! k), core_exchange_rate = core_exchange_rate (fs4 ! k),
       maintenance_collateral_ratio = maintenance_collateral_ratio (fs2 ! k),
       maximum_short_squeeze_ratio = maximum_short_squeeze_ratio (fs3 ! k)\<rparr>)"

definition update_median_feeds :: "nat \<Rightarrow> asset_bitasset_data_object \<Rightarrow> asset_bitasset_data_object" where
  "update_median_feeds now b =
     (let live = live_feeds now b;
          feeds = live_values now b;
          oldest = foldl min now (map (\<lambda>(_, t, _). t) live) in
      if length feeds < bo_minimum_feeds (bd_options b)
      then b\<lparr>bd_current_feed_publication_time := now, bd_current_feed := price_feed_default\<rparr>
      else if length feeds = 1 then b\<lparr>bd_current_feed_publication_time := oldest, bd_current_feed := hd feeds\<rparr>
      else b\<lparr>bd_current_feed_publication_time := oldest, bd_current_feed := median_feed feeds\<rparr>)"

subsection \<open>Expiry and volume\<close>

definition feed_expiration_time :: "asset_bitasset_data_object \<Rightarrow> nat" where
  "feed_expiration_time b =
     (if 2 ^ 32 - 1 - bd_current_feed_publication_time b \<le> bo_feed_lifetime_sec (bd_options b) then 2 ^ 32 - 1
      else bd_current_feed_publication_time b + bo_feed_lifetime_sec (bd_options b))"

definition feed_is_expired_before_hardfork_615 :: "nat \<Rightarrow> asset_bitasset_data_object \<Rightarrow> bool" where
  "feed_is_expired_before_hardfork_615 now b \<longleftrightarrow> feed_expiration_time b \<ge> now"

definition feed_is_expired :: "nat \<Rightarrow> asset_bitasset_data_object \<Rightarrow> bool" where
  "feed_is_expired now b \<longleftrightarrow> feed_expiration_time b \<le> now"

definition max_force_settlement_volume :: "fc_lib \<Rightarrow> int \<Rightarrow> asset_bitasset_data_object \<Rightarrow> int result" where
  "max_force_settlement_volume F supply b =
     (if bo_maximum_force_settlement_volume (bd_options b) = 0 then Inr 0
      else if bo_maximum_force_settlement_volume (bd_options b) = GRAPHENE_100_PERCENT then safe_add F supply (bd_force_settled_volume b)
      else Inr ((supply + bd_force_settled_volume b) * int (bo_maximum_force_settlement_volume (bd_options b)) div int GRAPHENE_100_PERCENT))"

subsection \<open>The median is a median\<close>

lemma cross_le_trans:
  fixes a b c :: int
  assumes "b * x \<le> a * y" "c * y \<le> b * z" "0 < x" "0 < y" "0 < z"
  shows "c * x \<le> a * z"
proof -
  have "(c * y) * x \<le> (b * z) * x" using assms by simp
  also have "\<dots> = (b * x) * z" by simp
  also have "\<dots> \<le> (a * y) * z" using assms by simp
  finally have "(c * x) * y \<le> (a * z) * y" by (simp add: ac_simps)
  then show ?thesis using assms by simp
qed

lemma price_less_negtrans:
  assumes ok: "price_ok p" "price_ok q" "price_ok r" and nl: "\<not> price_less p q" "\<not> price_less q r"
  shows "\<not> price_less p r"
proof (cases "same_market p q \<and> same_market q r")
  case True
  then have m: "same_market p q" "same_market q r" "same_market p r" by (auto simp: same_market_def)
  show ?thesis
    using nl ok cross_le_trans [of "amount (base q)" "amount (quote p)" "amount (base p)" "amount (quote q)" "amount (base r)" "amount (quote r)"]
    unfolding price_less_iff [OF ok(1,2) m(1)] price_less_iff [OF ok(2,3) m(2)] price_less_iff [OF ok(1,3) m(3)]
    by (simp add: price_ok_def not_less)
next
  case False
  then show ?thesis using nl by (auto simp: price_less_def same_market_def split: if_splits)
qed

text \<open>An order by which a range can be arranged: the comparison of the elements of the range.\<close>

locale comparison =
  fixes lt :: "'a \<Rightarrow> 'a \<Rightarrow> bool" and A :: "'a set"
  assumes asym: "a \<in> A \<Longrightarrow> b \<in> A \<Longrightarrow> lt a b \<Longrightarrow> \<not> lt b a"
    and negtrans: "a \<in> A \<Longrightarrow> b \<in> A \<Longrightarrow> c \<in> A \<Longrightarrow> \<not> lt a b \<Longrightarrow> \<not> lt b c \<Longrightarrow> \<not> lt a c"
begin

lemma insert_by_sorted:
  assumes "sorted_wrt (\<lambda>x y. \<not> lt y x) ys" "x \<in> A" "set ys \<subseteq> A"
  shows "sorted_wrt (\<lambda>x y. \<not> lt y x) (insert_by lt x ys)"
proof -
  have set_ib: "set (insert_by lt x zs) = insert x (set zs)" for zs by (induction zs) auto
  show ?thesis using assms
  proof (induction ys)
    case (Cons y ys)
    have rest: "\<forall>z\<in>set ys. \<not> lt z y" "y \<in> A" "set ys \<subseteq> A" using Cons.prems by auto
    show ?case
    proof (cases "lt y x")
      case True
      then show ?thesis using Cons.IH Cons.prems rest asym [of y x] by (simp add: set_ib)
    next
      case False
      have "\<not> lt z x" if "z \<in> set ys" for z using negtrans [of z y x] rest that False Cons.prems(2) by blast
      then show ?thesis using False Cons.prems by simp
    qed
  qed simp
qed

lemma nth_element_mset: "mset (nth_element lt xs) = mset xs"
proof -
  have "mset (insert_by lt x ys) = add_mset x (mset ys)" for x ys by (induction ys) auto
  then show ?thesis by (induction xs) auto
qed

lemma nth_element_sorted: "set xs \<subseteq> A \<Longrightarrow> sorted_wrt (\<lambda>x y. \<not> lt y x) (nth_element lt xs)"
proof (induction xs)
  case (Cons x xs)
  have "set (nth_element lt xs) = set xs" by (metis nth_element_mset set_mset_mset)
  then show ?case using Cons insert_by_sorted by auto
qed simp

text \<open>At most \<open>k\<close> elements are less than the one at position \<open>k\<close>, and at most those behind it are greater.\<close>

lemma nth_element_rank:
  assumes "set xs \<subseteq> A" "k < length xs"
  shows "nth_element lt xs ! k \<in> set xs"
    and "length (filter (\<lambda>x. lt x (nth_element lt xs ! k)) xs) \<le> k"
    and "length (filter (\<lambda>x. lt (nth_element lt xs ! k) x) xs) \<le> length xs - 1 - k"
proof -
  let ?s = "nth_element lt xs"
  have ms: "mset ?s = mset xs" by (rule nth_element_mset)
  have len: "length ?s = length xs" and set: "set ?s = set xs" using ms mset_eq_length mset_eq_setD by blast+
  show "?s ! k \<in> set xs" using assms(2) len set nth_mem by metis
  have le: "\<not> lt (?s ! j) (?s ! i)" if "i < j" "j < length xs" for i j
    using nth_element_sorted [OF assms(1)] that len by (simp add: sorted_wrt_iff_nth_less)
  have count: "length (filter P xs) = card {i. i < length xs \<and> P (?s ! i)}" for P
  proof -
    have "length (filter P xs) = length (filter P ?s)" using ms by (metis mset_filter size_mset)
    then show ?thesis by (simp add: length_filter_conv_card len)
  qed
  have irr: "\<not> lt (?s ! k) (?s ! k)" using asym [of "?s ! k" "?s ! k"] \<open>?s ! k \<in> set xs\<close> assms(1) by blast
  have "{i. i < length xs \<and> lt (?s ! i) (?s ! k)} \<subseteq> {..<k}"
    using le [of k] irr by (auto simp: not_less) (metis linorder_neqE_nat)
  from card_mono [OF _ this] show "length (filter (\<lambda>x. lt x (?s ! k)) xs) \<le> k" by (simp add: count)
  have "{i. i < length xs \<and> lt (?s ! k) (?s ! i)} \<subseteq> {Suc k..<length xs}"
    using le [of _ k] irr assms(2) by (auto simp: not_less) (metis Suc_leI nat_neq_iff)
  from card_mono [OF _ this] show "length (filter (\<lambda>x. lt (?s ! k) x) xs) \<le> length xs - 1 - k" by (simp add: count)
qed

end

interpretation settlement_order: comparison "\<lambda>a b. price_less (settlement_price a) (settlement_price b)" "{f. price_ok (settlement_price f)}"
  by unfold_locales (use price_trichotomy price_less_negtrans in \<open>blast+\<close>)

interpretation rate_order: comparison "\<lambda>a b. price_less (core_exchange_rate a) (core_exchange_rate b)" "{f. price_ok (core_exchange_rate f)}"
  by unfold_locales (use price_trichotomy price_less_negtrans in \<open>blast+\<close>)

interpretation mcr_order: comparison "\<lambda>a b. maintenance_collateral_ratio a < maintenance_collateral_ratio b" UNIV
  by unfold_locales auto

interpretation mssr_order: comparison "\<lambda>a b. maximum_short_squeeze_ratio a < maximum_short_squeeze_ratio b" UNIV
  by unfold_locales auto

text \<open>The rank of a value among feeds.\<close>

definition is_median :: "('b \<Rightarrow> 'b \<Rightarrow> bool) \<Rightarrow> ('a \<Rightarrow> 'b) \<Rightarrow> 'a list \<Rightarrow> 'b \<Rightarrow> bool" where
  "is_median lt f xs v \<longleftrightarrow> v \<in> f ` set xs \<and> length (filter (\<lambda>x. lt (f x) v) xs) \<le> length xs div 2
     \<and> length (filter (\<lambda>x. lt v (f x)) xs) \<le> (length xs - 1) div 2"

lemma is_median_perm:
  assumes "mset xs = mset ys"
  shows "is_median lt g xs v \<longleftrightarrow> is_median lt g ys v"
proof -
  have "length (filter P xs) = length (filter P ys)" for P using assms by (metis mset_filter size_mset)
  moreover have "length xs = length ys" "set xs = set ys" using assms mset_eq_length mset_eq_setD by blast+
  ultimately show ?thesis by (simp add: is_median_def)
qed

lemma behind_middle: "n - 1 - n div 2 = (n - 1) div 2" for n :: nat
  by (cases "even n") (auto elim!: evenE oddE)

text \<open>An asset with three live feeds and a dead one.\<close>

definition demo_feed :: "int \<Rightarrow> price_feed" where
  "demo_feed x = \<lparr>settlement_price = demo_price x 1 1 0, core_exchange_rate = demo_price x 1 1 0,
     maintenance_collateral_ratio = 1750, maximum_short_squeeze_ratio = 1500\<rparr>"

definition demo_bitasset :: asset_bitasset_data_object where
  "demo_bitasset = \<lparr>bd_asset_id = 1, bd_options = \<lparr>bo_feed_lifetime_sec = 60, bo_minimum_feeds = 2, bo_force_settlement_delay_sec = 10,
       bo_force_settlement_offset_percent = 0, bo_maximum_force_settlement_volume = 2000, bo_short_backing_asset = 0\<rparr>,
     bd_feeds = [(4, 50, demo_feed 1), (5, 60, demo_feed 3), (6, 10, demo_feed 9), (7, 70, demo_feed 2)],
     bd_current_feed = price_feed_default, bd_current_feed_publication_time = 0, bd_is_prediction_market = False,
     bd_force_settled_volume = 0, bd_settlement_price = price_default, bd_settlement_fund = 0\<rparr>"

text \<open>C35: When enough feeds are alive the current feed of an asset takes, for each of the settlement price, the two collateral ratios and the core
  exchange rate, the value of a live feed below which and above which lie at most half of the live feeds; when too few are alive the
  feed is null. Neither the published feeds nor the options change.\<close>

theorem median_feed_correct:
  assumes "\<forall>f\<in>set (live_values now b). price_ok (settlement_price f) \<and> price_ok (core_exchange_rate f)"
    and "0 < bo_minimum_feeds (bd_options b)"
  shows "(bo_minimum_feeds (bd_options b) \<le> length (live_values now b) \<longrightarrow>
       is_median price_less settlement_price (live_values now b) (settlement_price (bd_current_feed (update_median_feeds now b)))
     \<and> is_median (<) maintenance_collateral_ratio (live_values now b) (maintenance_collateral_ratio (bd_current_feed (update_median_feeds now b)))
     \<and> is_median (<) maximum_short_squeeze_ratio (live_values now b) (maximum_short_squeeze_ratio (bd_current_feed (update_median_feeds now b)))
     \<and> is_median price_less core_exchange_rate (live_values now b) (core_exchange_rate (bd_current_feed (update_median_feeds now b))))
   \<and> (length (live_values now b) < bo_minimum_feeds (bd_options b) \<longrightarrow>
       price_is_null (settlement_price (bd_current_feed (update_median_feeds now b))))
   \<and> bd_feeds (update_median_feeds now b) = bd_feeds b \<and> bd_options (update_median_feeds now b) = bd_options b"
proof -
  define fs where "fs = live_values now b"
  define cur where "cur = bd_current_feed (update_median_feeds now b)"
  note ok = assms(1) [folded fs_def]
  have frame: "bd_feeds (update_median_feeds now b) = bd_feeds b" "bd_options (update_median_feeds now b) = bd_options b"
    by (simp_all add: update_median_feeds_def Let_def)
  have few: "price_is_null (settlement_price cur)" if "length fs < bo_minimum_feeds (bd_options b)"
    using that by (simp add: cur_def fs_def update_median_feeds_def Let_def price_feed_default_def price_is_null_iff price_default_def)
  have "is_median price_less settlement_price fs (settlement_price cur) \<and> is_median (<) maintenance_collateral_ratio fs (maintenance_collateral_ratio cur)
     \<and> is_median (<) maximum_short_squeeze_ratio fs (maximum_short_squeeze_ratio cur)
     \<and> is_median price_less core_exchange_rate fs (core_exchange_rate cur)" if enough: "bo_minimum_feeds (bd_options b) \<le> length fs"
  proof (cases "length fs = 1")
    case True
    then obtain f where f: "fs = [f]" by (auto simp: length_Suc_conv)
    have "cur = f" using enough assms(2) f by (simp add: cur_def fs_def update_median_feeds_def Let_def)
    moreover have "\<not> price_less (settlement_price f) (settlement_price f)" "\<not> price_less (core_exchange_rate f) (core_exchange_rate f)"
      using ok f price_trichotomy by auto
    ultimately show ?thesis using f by (simp add: is_median_def)
  next
    case False
    let ?k = "length fs div 2"
    have k: "?k < length fs" using enough assms(2) by simp
    have half: "length fs - 1 - ?k = (length fs - 1) div 2" by (rule behind_middle)
    define f1 where "f1 = nth_element (\<lambda>a b. price_less (settlement_price a) (settlement_price b)) fs"
    define f2 where "f2 = nth_element (\<lambda>a b. maintenance_collateral_ratio a < maintenance_collateral_ratio b) f1"
    define f3 where "f3 = nth_element (\<lambda>a b. maximum_short_squeeze_ratio a < maximum_short_squeeze_ratio b) f2"
    define f4 where "f4 = nth_element (\<lambda>a b. price_less (core_exchange_rate a) (core_exchange_rate b)) f3"
    have cur: "cur = \<lparr>settlement_price = settlement_price (f1 ! ?k), core_exchange_rate = core_exchange_rate (f4 ! ?k),
       maintenance_collateral_ratio = maintenance_collateral_ratio (f2 ! ?k), maximum_short_squeeze_ratio = maximum_short_squeeze_ratio (f3 ! ?k)\<rparr>"
      using enough False by (simp add: cur_def fs_def update_median_feeds_def median_feed_def Let_def f1_def f2_def f3_def f4_def)
    have ms: "mset f1 = mset fs" "mset f2 = mset fs" "mset f3 = mset fs"
      by (simp_all add: f1_def f2_def f3_def settlement_order.nth_element_mset mcr_order.nth_element_mset mssr_order.nth_element_mset)
    have dims: "set f1 = set fs" "set f3 = set fs" "length f1 = length fs" "length f2 = length fs" "length f3 = length fs"
      using ms mset_eq_length mset_eq_setD by blast+
    have "is_median price_less settlement_price fs (settlement_price cur)"
      using settlement_order.nth_element_rank [of fs ?k] ok k half by (auto simp: is_median_def cur f1_def)
    moreover have "is_median (<) maintenance_collateral_ratio f1 (maintenance_collateral_ratio cur)"
      using mcr_order.nth_element_rank [of f1 ?k] k half dims by (auto simp: is_median_def cur f2_def)
    moreover have "is_median (<) maximum_short_squeeze_ratio f2 (maximum_short_squeeze_ratio cur)"
      using mssr_order.nth_element_rank [of f2 ?k] k half dims by (auto simp: is_median_def cur f3_def)
    moreover have "is_median price_less core_exchange_rate f3 (core_exchange_rate cur)"
      using rate_order.nth_element_rank [of f3 ?k] ok k half dims by (auto simp: is_median_def cur f4_def)
    ultimately show ?thesis by (simp add: is_median_perm [OF ms(1)] is_median_perm [OF ms(2)] is_median_perm [OF ms(3)])
  qed
  with few frame show ?thesis unfolding fs_def cur_def by blast
qed

theorem median_feed_correct_witness:
  "settlement_price (bd_current_feed (update_median_feeds 100 demo_bitasset)) = demo_price 2 1 1 0
   \<and> is_median price_less settlement_price (live_values 100 demo_bitasset) (demo_price 2 1 1 0)"
proof -
  have v: "live_values 100 demo_bitasset = map snd [(50::nat, demo_feed 1), (60, demo_feed 3), (70, demo_feed 2)]"
    by (simp add: live_values_def live_feeds_def feed_alive_def demo_bitasset_def)
  have m: "settlement_price (bd_current_feed (update_median_feeds 100 demo_bitasset)) = demo_price 2 1 1 0"
    by (simp add: update_median_feeds_def v median_feed_def Let_def demo_feed_def demo_price_def price_less_def)
      (simp add: demo_bitasset_def)
  have "\<forall>f\<in>set (live_values 100 demo_bitasset). price_ok (settlement_price f) \<and> price_ok (core_exchange_rate f)"
    "0 < bo_minimum_feeds (bd_options demo_bitasset)" "bo_minimum_feeds (bd_options demo_bitasset) \<le> length (live_values 100 demo_bitasset)"
    by (simp_all add: v demo_feed_def demo_price_def price_ok_def in_int64_def, simp_all add: demo_bitasset_def)
  then show ?thesis using median_feed_correct [of 100 demo_bitasset] m by auto
qed

end
