(* ===== verification/Asset_Ops.thy ===== *)
theory Asset_Ops
  imports Matching Financing Names Feeds
begin

text \<open>
  The operations on assets: creation, issue, reserve, fee pools, updates, feeds, settlement and claims
  (\<open>libraries/chain/asset_evaluator.cpp\<close>, \<open>protocol/asset_ops.cpp\<close>, the power needed for a project in
  \<open>libraries/khc/util.cpp\<close>). An \<open>assert\<close> of the code, a bug trap of debug builds, is modelled as a failing check.
\<close>

definition HARDFORK_385_TIME :: nat where "HARDFORK_385_TIME = 1445558400"
definition HARDFORK_413_TIME :: nat where "HARDFORK_413_TIME = 1446652800"
definition HARDFORK_480_TIME :: nat where "HARDFORK_480_TIME = 1450378800"
definition HARDFORK_572_TIME :: nat where "HARDFORK_572_TIME = 1456250400"
definition HARDFORK_CORE_188_TIME :: nat where "HARDFORK_CORE_188_TIME = 1532008920"
definition HARDFORK_CORE_199_TIME :: nat where "HARDFORK_CORE_199_TIME = 1532008920"
definition HARDFORK_CORE_429_TIME :: nat where "HARDFORK_CORE_429_TIME = 1512747600"
definition HARDFORK_CORE_620_TIME :: nat where "HARDFORK_CORE_620_TIME = 1532008920"
definition HARDFORK_CORE_868_890_TIME :: nat where "HARDFORK_CORE_868_890_TIME = 1532008920"
definition HARDFORK_CORE_922_931_TIME :: nat where "HARDFORK_CORE_922_931_TIME = 1532008920"
definition HARDFORK_CORE_935_TIME :: nat where "HARDFORK_CORE_935_TIME = 1532008920"

definition KHC_PROJECT_ASSET_MAX_NAME_LENGTH :: nat where "KHC_PROJECT_ASSET_MAX_NAME_LENGTH = 30"
definition KHC_PROJECT_ASSET_MIN_PROJECT_CYCLE :: nat where "KHC_PROJECT_ASSET_MIN_PROJECT_CYCLE = 1"
definition KHC_PROJECT_ASSET_MAX_PROJECT_CYCLE :: nat where "KHC_PROJECT_ASSET_MAX_PROJECT_CYCLE = 36"
definition KHC_PROJECT_ASSET_MIN_TRANSFER_RATIO :: nat where "KHC_PROJECT_ASSET_MIN_TRANSFER_RATIO = 10"
definition KHC_PROJECT_ASSET_MAX_TRANSFER_RATIO :: nat where "KHC_PROJECT_ASSET_MAX_TRANSFER_RATIO = 75"
definition KHC_PROJECT_ASSET_MIN_FINANCING_CYCLE :: nat where "KHC_PROJECT_ASSET_MIN_FINANCING_CYCLE = 1"
definition KHC_PROJECT_ASSET_MAX_FINANCING_CYCLE :: nat where "KHC_PROJECT_ASSET_MAX_FINANCING_CYCLE = 4"
definition KHC_PROJECT_ASSET_FINANCING_CYCLE_UNIT :: nat where "KHC_PROJECT_ASSET_FINANCING_CYCLE_UNIT = 60 * 60 * 24 * 7"
definition KHC_PROJECT_ASSET_PROJECT_CYCLE_UNIT :: nat where "KHC_PROJECT_ASSET_PROJECT_CYCLE_UNIT = 60 * 60 * 24 * 30"
definition KHC_POWER_PRECISION_DIGITS :: nat where "KHC_POWER_PRECISION_DIGITS = 8"
definition KHC_POWER_CONVERT_KHD_RATIO :: int where "KHC_POWER_CONVERT_KHD_RATIO = 1000"
definition KHD_PRECISION_DIGITS :: nat where "KHD_PRECISION_DIGITS = 4"
definition power_from_locked :: nat where "power_from_locked = 1"
definition project_type_other :: nat where "project_type_other = 4"

subsection \<open>Options\<close>

definition asset_options_validate :: "asset_options \<Rightarrow> unit result" where
  "asset_options_validate p =
     require (ao_max_supply p > 0) ''max_supply > 0''
    (require (ao_max_supply p \<le> GRAPHENE_MAX_SHARE_SUPPLY) ''max_supply <= GRAPHENE_MAX_SHARE_SUPPLY''
    (require (ao_market_fee_percent p \<le> GRAPHENE_100_PERCENT) ''market_fee_percent <= GRAPHENE_100_PERCENT''
    (require (ao_max_market_fee p \<ge> 0 \<and> ao_max_market_fee p \<le> GRAPHENE_MAX_SHARE_SUPPLY) ''max_market_fee''
    (require (ao_issuer_permissions p AND NOT ASSET_ISSUER_PERMISSION_MASK = 0) ''!(issuer_permissions & ~ASSET_ISSUER_PERMISSION_MASK)''
    (require (\<not> has_flag (ao_flags p) global_settle) ''!(flags & global_settle)''
    (require (ao_flags p AND (witness_fed_asset OR committee_fed_asset) \<noteq> witness_fed_asset OR committee_fed_asset)
       ''witness_fed_asset and committee_fed_asset''
    (bind_res (price_validate (ao_core_exchange_rate p)) (\<lambda>_.
     require (asset_id (base (ao_core_exchange_rate p)) = 0 \<or> asset_id (quote (ao_core_exchange_rate p)) = 0) ''core_exchange_rate''
    (require (ao_whitelist_authorities p \<noteq> {} \<or> ao_blacklist_authorities p \<noteq> {} \<longrightarrow> has_flag (ao_flags p) white_list) ''flags & white_list''
    (require (ao_whitelist_markets p \<inter> ao_blacklist_markets p = {}) ''markets''
    (require (length (ao_description p) \<le> 100) ''description.size() <= 100'' (Inr ()))))))))))))"

definition bitasset_options_validate :: "bitasset_options \<Rightarrow> unit result" where
  "bitasset_options_validate p =
     require (bo_minimum_feeds p > 0) ''minimum_feeds > 0''
    (require (bo_force_settlement_offset_percent p \<le> GRAPHENE_100_PERCENT) ''force_settlement_offset_percent <= GRAPHENE_100_PERCENT''
    (require (bo_maximum_force_settlement_volume p \<le> GRAPHENE_100_PERCENT) ''maximum_force_settlement_volume <= GRAPHENE_100_PERCENT'' (Inr ())))"

definition project_asset_options_validate :: "project_asset_options \<Rightarrow> unit result" where
  "project_asset_options_validate p =
     (if length (po_name p) = 0 then Inr ()
      else
        require (length (po_name p) \<le> KHC_PROJECT_ASSET_MAX_NAME_LENGTH) ''name.size() <= KHC_PROJECT_ASSET_MAX_NAME_LENGTH''
       (require (po_type p \<le> project_type_other) ''type >= 0 && type <= project_type::other''
       (require (po_project_cycle p \<ge> KHC_PROJECT_ASSET_MIN_PROJECT_CYCLE * KHC_PROJECT_ASSET_PROJECT_CYCLE_UNIT
           \<and> po_project_cycle p \<le> KHC_PROJECT_ASSET_MAX_PROJECT_CYCLE * KHC_PROJECT_ASSET_PROJECT_CYCLE_UNIT) ''project_cycle''
       (if po_financing_type p = 1 then
          require (po_min_transfer_ratio p \<ge> KHC_PROJECT_ASSET_MIN_TRANSFER_RATIO
             \<and> po_min_transfer_ratio p \<le> KHC_PROJECT_ASSET_MAX_TRANSFER_RATIO) ''min_transfer_ratio''
         (require (po_max_transfer_ratio p \<ge> KHC_PROJECT_ASSET_MIN_TRANSFER_RATIO
             \<and> po_max_transfer_ratio p \<le> KHC_PROJECT_ASSET_MAX_TRANSFER_RATIO
             \<and> po_max_transfer_ratio p > po_min_transfer_ratio p) ''max_transfer_ratio''
         (require (po_financing_cycle p \<ge> KHC_PROJECT_ASSET_MIN_FINANCING_CYCLE * KHC_PROJECT_ASSET_FINANCING_CYCLE_UNIT
             \<and> po_financing_cycle p \<le> KHC_PROJECT_ASSET_MAX_FINANCING_CYCLE * KHC_PROJECT_ASSET_FINANCING_CYCLE_UNIT) ''financing_cycle''
         (Inr ())))
        else Inr ()))))"

definition asset_object_validate :: "asset_object \<Rightarrow> unit result" where
  "asset_object_validate a =
     require (\<not> is_market_issued a \<longrightarrow>
         \<not> (has_flag (ao_flags (options a)) disable_force_settle \<or> has_flag (ao_flags (options a)) global_settle)) ''flags''
    (require (\<not> is_market_issued a \<longrightarrow>
         \<not> (has_flag (ao_issuer_permissions (options a)) disable_force_settle \<or> has_flag (ao_issuer_permissions (options a)) global_settle))
       ''issuer_permissions''
    (require (length (symbol a) \<le> 10) ''symbol.size() <= 10'' (project_asset_options_validate (proj_options a))))"

subsection \<open>Power needed for a project\<close>

definition power_required_for_finacing :: "int \<Rightarrow> int result" where
  "power_required_for_finacing market_value =
     bind_res (scaled_precision KHD_PRECISION_DIGITS) (\<lambda>khd_scale.
     bind_res (scaled_precision KHC_POWER_PRECISION_DIGITS) (\<lambda>power_scale.
     let convert_ratio = KHC_POWER_CONVERT_KHD_RATIO * khd_scale;
         whole = market_value div convert_ratio + (if market_value mod convert_ratio \<noteq> 0 then 1 else 0);
         required_power = whole * power_scale in
     require (required_power < GRAPHENE_MAX_SHARE_SUPPLY) ''required power must less than'' (Inr required_power)))"

definition convert_to_khd_amount :: "int \<Rightarrow> price \<Rightarrow> price \<Rightarrow> int result" where
  "convert_to_khd_amount max_supply rate khd_price =
     require (\<not> price_is_null khd_price) ''please set khd feed price first''
    (bind_res (mul_price (mk_asset max_supply (asset_id (quote rate))) rate) (\<lambda>core_amount.
     bind_res (mul_price core_amount khd_price) (\<lambda>khd_amount. Inr (amount khd_amount))))"

subsection \<open>Creation\<close>

record asset_create_operation =
  ac_fee :: asset
  ac_issuer :: account_id_type
  ac_symbol :: string
  ac_precision :: nat
  ac_common_options :: asset_options
  ac_bitasset_opts :: "bitasset_options option"
  ac_project_asset_opts :: "project_asset_options option"
  ac_power :: "int option"
  ac_is_prediction_market :: bool

definition asset_create_validate :: "asset_create_operation \<Rightarrow> unit result" where
  "asset_create_validate op =
     require (amount (ac_fee op) \<ge> 0) ''fee.amount >= 0''
    (require (is_valid_symbol (ac_symbol op)) ''is_valid_symbol(symbol)''
    (bind_res (asset_options_validate (ac_common_options op)) (\<lambda>_.
     require (has_flag (ao_issuer_permissions (ac_common_options op)) (disable_force_settle OR global_settle) \<longrightarrow> ac_bitasset_opts op \<noteq> None)
       ''bitasset_opts.valid()''
    (require (ac_is_prediction_market op \<longrightarrow> ac_bitasset_opts op \<noteq> None) ''Cannot have a User-Issued Asset implement a prediction market.''
    (require (ac_is_prediction_market op \<longrightarrow> has_flag (ao_issuer_permissions (ac_common_options op)) global_settle)
       ''common_options.issuer_permissions & global_settle''
    (bind_res (case ac_bitasset_opts op of None \<Rightarrow> Inr () | Some b \<Rightarrow> bitasset_options_validate b) (\<lambda>_.
     bind_res (case ac_project_asset_opts op of None \<Rightarrow> Inr () | Some p \<Rightarrow> project_asset_options_validate p) (\<lambda>_.
     bind_res (mul_price (mk_asset 1 0) (ao_core_exchange_rate (ac_common_options op))) (\<lambda>dummy.
     require (asset_id dummy = 1) ''dummy.asset_id == asset_id_type(1)''
    (require (ac_precision op \<le> 12) ''precision <= 12'' (Inr ())))))))))))"

definition check_authorities :: "account_id_type set \<Rightarrow> database \<Rightarrow> unit result" where
  "check_authorities ids d =
     require (card ids \<le> maximum_asset_whitelist_authorities (parameters d)) ''maximum_asset_whitelist_authorities''
       (if \<forall>i\<in>ids. i < length (accounts d) then Inr () else Inl Not_Found)"

definition find_symbol :: "string \<Rightarrow> database \<Rightarrow> asset_id_type option" where
  "find_symbol s d = index_of (\<lambda>a. symbol a = s) (assets d) 0"

text \<open>The checks of a project asset, with the state its project starts in. The power of the operation is read without a test that
  it is set.\<close>

definition check_project :: "asset_create_operation \<Rightarrow> project_asset_options \<Rightarrow> database \<Rightarrow> project_state result" where
  "check_project op p d =
     (case find_symbol KHD_ASSET_SYMBOL d of
        None \<Rightarrow> Inl (Assert_Exception ''asset KHD must be exist.'')
      | Some khd \<Rightarrow>
          bind_res (get_obj (assets d) khd) (\<lambda>khd_object.
          bind_res (bitasset_data khd_object d) (\<lambda>b.
          bind_res (convert_to_khd_amount (ao_max_supply (ac_common_options op)) (ao_core_exchange_rate (ac_common_options op))
              (settlement_price (bd_current_feed b))) (\<lambda>finacing_amount.
          bind_res (power_required_for_finacing finacing_amount) (\<lambda>required_power.
          case ac_power op of
            None \<Rightarrow> Inl (Other_Exception ''optional not set'')
          | Some pw \<Rightarrow>
              require (required_power \<le> pw) ''Power is not enough!''
             (require (length (po_name p) \<noteq> 0) ''Asset must have a project name.''
             (require (\<forall>a\<in>set (assets d). po_name (proj_options a) \<noteq> po_name p) ''is already exists!''
             (if po_financing_type p = KHC_PUBLIC_OFFERING then
                require (po_end_financing_time p = (po_start_financing_time p + po_financing_cycle p) mod 2 ^ 32)
                  ''end_financing_time == start_financing_time + financing_cycle''
               (require (po_start_financing_block_num p \<ge> head_block_number d) ''The specified height is lower than the current height''
               (Inr about_to_start))
              else
                require (po_end_project_time p = (po_start_project_time p + po_project_cycle p) mod 2 ^ 32)
                  ''end_project_time == start_project_time + project_cycle'' (Inr project_in_progress)))))))))"

text \<open>The part of a symbol before its last dot.\<close>

definition symbol_prefix :: "string \<Rightarrow> string option" where
  "symbol_prefix s = (if CHR ''.'' \<in> set s then Some (rev (tl (dropWhile (\<lambda>c. c \<noteq> CHR ''.'') (rev s)))) else None)"

definition check_symbol_owner :: "asset_create_operation \<Rightarrow> database \<Rightarrow> unit result" where
  "check_symbol_owner op d =
     (if head_block_time d > HARDFORK_385_TIME then
        bind_res
          (case symbol_prefix (ac_symbol op) of
             None \<Rightarrow> Inr ()
           | Some prefix \<Rightarrow>
               (case find_symbol prefix d of
                  None \<Rightarrow> Inl (Assert_Exception ''has not been registered'')
                | Some i \<Rightarrow> require (issuer (assets d ! i) = ac_issuer op) ''may only be created by issuer'' (Inr ()))) (\<lambda>_.
        require (head_block_time d \<le> HARDFORK_CORE_620_TIME \<longrightarrow> is_alpha (last (ac_symbol op)))
          ''must end with alpha character before hardfork 620'' (Inr ()))
      else Inr ())"

definition check_new_bitasset :: "asset_create_operation \<Rightarrow> bitasset_options \<Rightarrow> database \<Rightarrow> unit result" where
  "check_new_bitasset op b d =
     bind_res (get_obj (assets d) (bo_short_backing_asset b)) (\<lambda>backing.
     bind_res
       (if is_market_issued backing then
          bind_res (bitasset_data backing d) (\<lambda>backing_data.
          bind_res (get_obj (assets d) (bo_short_backing_asset (bd_options backing_data))) (\<lambda>backing_backing.
          require (\<not> is_market_issued backing_backing) ''May not create a bitasset backed by a bitasset backed by a bitasset.''
         (require (ac_issuer op \<noteq> GRAPHENE_COMMITTEE_ACCOUNT \<or> bo_short_backing_asset (bd_options backing_data) = 0)
            ''May not create a blockchain-controlled market asset which is not backed by CORE.'' (Inr ()))))
        else
          require (ac_issuer op \<noteq> GRAPHENE_COMMITTEE_ACCOUNT \<or> bo_short_backing_asset b = 0)
            ''May not create a blockchain-controlled market asset which is not backed by CORE.'' (Inr ())) (\<lambda>_.
     require (bo_feed_lifetime_sec b > block_interval (parameters d) \<and> bo_force_settlement_delay_sec b > block_interval (parameters d))
       ''feed_lifetime_sec and force_settlement_delay_sec'' (Inr ())))"

definition asset_create_do_evaluate :: "asset_create_operation \<Rightarrow> database \<Rightarrow> project_state result" where
  "asset_create_do_evaluate op d =
     require (card (ao_whitelist_authorities (ac_common_options op)) \<le> maximum_asset_whitelist_authorities (parameters d)
         \<and> card (ao_blacklist_authorities (ac_common_options op)) \<le> maximum_asset_whitelist_authorities (parameters d))
       ''maximum_asset_whitelist_authorities''
    (bind_res (check_authorities (ao_whitelist_authorities (ac_common_options op)) d) (\<lambda>_.
     bind_res (check_authorities (ao_blacklist_authorities (ac_common_options op)) d) (\<lambda>_.
     require (find_symbol (ac_symbol op) d = None) ''asset_symbol_itr == asset_indx.end()''
    (require (\<not> (ac_bitasset_opts op \<noteq> None \<and> ac_project_asset_opts op \<noteq> None)) ''bitasset and projasset cannot be set at the same time.''
    (bind_res (case ac_project_asset_opts op of None \<Rightarrow> Inr about_to_start | Some p \<Rightarrow> check_project op p d) (\<lambda>st.
     bind_res (check_symbol_owner op d) (\<lambda>_.
     bind_res (case ac_bitasset_opts op of None \<Rightarrow> Inr () | Some b \<Rightarrow> check_new_bitasset op b d) (\<lambda>_.
     if ac_is_prediction_market op then
       (case ac_bitasset_opts op of
          None \<Rightarrow> Inl (Assert_Exception ''op.bitasset_opts'')
        | Some b \<Rightarrow>
            bind_res (get_obj (assets d) (bo_short_backing_asset b)) (\<lambda>backing.
            require (ac_precision op = precision backing) ''op.precision == op.bitasset_opts->short_backing_asset(d).precision'' (Inr st)))
     else Inr st))))))))"

text \<open>Half of the fee, rounded up, goes to the network; the other half becomes the fee pool of the new asset. The evaluator keeps
  the half in \<open>core_fee_paid\<close>.\<close>

definition asset_create_fee :: "fee_state \<Rightarrow> fee_state" where
  "asset_create_fee fs = fs\<lparr>core_fee_paid := core_fee_paid fs - core_fee_paid fs div 2\<rparr>"

definition set_new_rate :: "asset_id_type \<Rightarrow> price \<Rightarrow> price" where
  "set_new_rate new_id p =
     (if asset_id (base p) = 0 then p\<lparr>quote := (quote p)\<lparr>asset_id := new_id\<rparr>\<rparr> else p\<lparr>base := (base p)\<lparr>asset_id := new_id\<rparr>\<rparr>)"

definition project_asset_options_default :: project_asset_options where
  "project_asset_options_default = \<lparr>po_name = [], po_type = project_type_other, po_project_cycle = 0, po_min_transfer_ratio = 0,
     po_max_transfer_ratio = 0, po_min_financing_amount = 0, po_max_financing_amount = 0, po_start_financing_block_num = 0,
     po_end_financing_block_num = 0, po_start_financing_time = 0, po_end_financing_time = 0, po_start_project_block_num = 0,
     po_end_project_block_num = 0, po_start_project_time = 0, po_end_project_time = 0, po_khd_exchange_rate = price_default,
     po_financing_cycle = 0, po_financing_type = 0\<rparr>"

definition new_dyn_data :: "int \<Rightarrow> project_state \<Rightarrow> asset_dynamic_data_object" where
  "new_dyn_data pool st = \<lparr>current_supply = 0, confidential_supply = 0, accumulated_fees = 0, fee_pool = pool,
     financing_current_supply = 0, financing_confidential_supply = 0, state = st, claim_times = 0,
     investment_current_supply = 0, investment_confidential_supply = 0\<rparr>"

definition new_bitasset_data :: "asset_id_type \<Rightarrow> bitasset_options \<Rightarrow> bool \<Rightarrow> asset_bitasset_data_object" where
  "new_bitasset_data new_id opts pm = \<lparr>bd_asset_id = new_id, bd_options = opts, bd_feeds = [], bd_current_feed = price_feed_default,
     bd_current_feed_publication_time = 0, bd_is_prediction_market = pm, bd_force_settled_volume = 0,
     bd_settlement_price = price_default, bd_settlement_fund = 0\<rparr>"

definition new_asset :: "asset_create_operation \<Rightarrow> database \<Rightarrow> asset_object" where
  "new_asset op d = \<lparr>symbol = ac_symbol op, precision = ac_precision op, issuer = ac_issuer op,
     options = (ac_common_options op)\<lparr>ao_core_exchange_rate := set_new_rate (length (assets d)) (ao_core_exchange_rate (ac_common_options op))\<rparr>,
     proj_options = (case ac_project_asset_opts op of None \<Rightarrow> project_asset_options_default | Some p \<Rightarrow> p),
     dynamic_asset_data_id = length (asset_dyn d),
     bitasset_data_id = (case ac_bitasset_opts op of None \<Rightarrow> None | Some _ \<Rightarrow> Some (length (bitassets d)))\<rparr>"

text \<open>The power locked for a project until the blocks of its cycle have passed.\<close>

definition lock_power :: "asset_create_operation \<Rightarrow> asset_id_type \<Rightarrow> project_asset_options \<Rightarrow> database \<Rightarrow> database result" where
  "lock_power op new_id p d =
     (case ac_power op of
        None \<Rightarrow> Inl (Other_Exception ''optional not set'')
      | Some pw \<Rightarrow>
          if block_interval (parameters d) = 0 then Inl Divide_By_Zero
          else Inr (d\<lparr>locked_powers := locked_powers d @ [\<lparr>lp_owner = ac_issuer op, lp_power_from = power_from_locked, lp_power_value = pw,
                 lp_unlock_height = int (head_block_number d + po_project_cycle p div block_interval (parameters d)),
                 lp_asset_id = new_id\<rparr>]\<rparr>))"

text \<open>The odd unit of a fee that is halved is given back to the supply of core before the hard fork.\<close>

definition core_supply_inc :: "fc_lib \<Rightarrow> database \<Rightarrow> database result" where
  "core_supply_inc F d =
     bind_res (get_obj (assets d) 0) (\<lambda>core.
     modify_dyn (dynamic_asset_data_id core) (\<lambda>dd.
       bind_res (safe_add F (current_supply dd) 1) (\<lambda>s. Inr (dd\<lparr>current_supply := s\<rparr>))) d)"

definition create_bitasset_data :: "asset_create_operation \<Rightarrow> database \<Rightarrow> database" where
  "create_bitasset_data op d =
     (case ac_bitasset_opts op of
        None \<Rightarrow> d
      | Some b \<Rightarrow> d\<lparr>bitassets := bitassets d @ [new_bitasset_data (length (assets d)) b (ac_is_prediction_market op)]\<rparr>)"

definition asset_create_do_apply :: "fc_lib \<Rightarrow> asset_create_operation \<Rightarrow> project_state \<Rightarrow> int \<Rightarrow> bool \<Rightarrow> database \<Rightarrow> database result" where
  "asset_create_do_apply F op st fee_half fee_is_odd d =
     (let hf_429 = (fee_is_odd \<and> head_block_time d > HARDFORK_CORE_429_TIME) in
      bind_res (safe_sub F fee_half (if hf_429 then 1 else 0)) (\<lambda>pool.
      let d1 = d\<lparr>asset_dyn := asset_dyn d @ [new_dyn_data pool st]\<rparr> in
      bind_res (if fee_is_odd \<and> \<not> hf_429 then core_supply_inc F d1 else Inr d1) (\<lambda>d2.
      let d3 = create_bitasset_data op d2;
          d4 = d3\<lparr>assets := assets d3 @ [new_asset op d]\<rparr> in
      case ac_project_asset_opts op of None \<Rightarrow> Inr d4 | Some p \<Rightarrow> lock_power op (length (assets d)) p d4)))"

definition asset_create_evaluate :: "fc_lib \<Rightarrow> trx_state \<Rightarrow> int \<Rightarrow> asset_create_operation \<Rightarrow> database \<Rightarrow> database result" where
  "asset_create_evaluate F ts required_fee op d =
     bind_res (asset_create_validate op) (\<lambda>_.
     bind_res (evaluate_op ts required_fee (ac_issuer op) (ac_fee op) (asset_create_do_evaluate op) d) (\<lambda>(fs, st).
     bind_res (convert_fee F ts fs d) (\<lambda>d1.
     bind_res (pay_fee F ts (asset_create_fee fs) d1) (\<lambda>d2.
     bind_res (asset_create_do_apply F op st (core_fee_paid (asset_create_fee fs)) (odd (core_fee_paid fs)) d2) (\<lambda>d3.
     deduct_balance F (ac_issuer op) (fee_from_account fs) d3)))))"

subsection \<open>Issue, reserve, fee pool and claims\<close>

record asset_issue_operation =
  ai_fee :: asset
  ai_issuer :: account_id_type
  ai_asset_to_issue :: asset
  ai_issue_to_account :: account_id_type

definition asset_issue_validate :: "asset_issue_operation \<Rightarrow> unit result" where
  "asset_issue_validate op =
     require (amount (ai_fee op) \<ge> 0) ''fee.amount >= 0''
    (require (amount (ai_asset_to_issue op) \<le> GRAPHENE_MAX_SHARE_SUPPLY) ''asset_to_issue.amount.value <= GRAPHENE_MAX_SHARE_SUPPLY''
    (require (amount (ai_asset_to_issue op) > 0) ''asset_to_issue.amount.value > 0''
    (require (asset_id (ai_asset_to_issue op) \<noteq> 0) ''asset_to_issue.asset_id != asset_id_type(0)'' (Inr ()))))"

definition asset_issue_do_evaluate :: "fc_lib \<Rightarrow> asset_issue_operation \<Rightarrow> database \<Rightarrow> nat result" where
  "asset_issue_do_evaluate F op d =
     bind_res (get_obj (assets d) (asset_id (ai_asset_to_issue op))) (\<lambda>a.
     require (ai_issuer op = issuer a) ''o.issuer == a.issuer''
    (require (\<not> is_market_issued a) ''Cannot manually issue a market-issued asset.''
    (bind_res
       (if is_project_asset a then
          bind_res (is_issue_to_investors d a) (\<lambda>issued.
          require issued ''before claim bitasset investment, projecter need issue asset to investors at first.'' (Inr ()))
        else Inr ()) (\<lambda>_.
     bind_res (get_obj (accounts d) (ai_issue_to_account op)) (\<lambda>to_account.
     require (is_authorized_asset d to_account (asset_id (ai_asset_to_issue op)) a) ''is_authorized_asset( d, *to_account, a )''
    (bind_res (get_obj (asset_dyn d) (dynamic_asset_data_id a)) (\<lambda>dyn.
     bind_res (safe_add F (current_supply dyn) (amount (ai_asset_to_issue op))) (\<lambda>s.
     require (s \<le> ao_max_supply (options a)) ''(current_supply + asset_to_issue.amount) <= max_supply'' (Inr (dynamic_asset_data_id a)))))))))) "

definition asset_issue_do_apply :: "fc_lib \<Rightarrow> asset_issue_operation \<Rightarrow> nat \<Rightarrow> database \<Rightarrow> database result" where
  "asset_issue_do_apply F op dyn_id d =
     bind_res (adjust_balance F (ai_issue_to_account op) (ai_asset_to_issue op) d) (\<lambda>d1.
     modify_dyn dyn_id (\<lambda>dyn.
       bind_res (safe_add F (current_supply dyn) (amount (ai_asset_to_issue op))) (\<lambda>s. Inr (dyn\<lparr>current_supply := s\<rparr>))) d1)"

definition asset_issue_evaluate :: "fc_lib \<Rightarrow> trx_state \<Rightarrow> int \<Rightarrow> asset_issue_operation \<Rightarrow> database \<Rightarrow> database result" where
  "asset_issue_evaluate F ts required_fee op d =
     bind_res (asset_issue_validate op) (\<lambda>_.
     start_evaluate F ts required_fee (ai_issuer op) (ai_fee op) (asset_issue_do_evaluate F op) (asset_issue_do_apply F op) d)"

record asset_reserve_operation =
  ar_fee :: asset
  ar_payer :: account_id_type
  ar_amount_to_reserve :: asset

definition asset_reserve_validate :: "asset_reserve_operation \<Rightarrow> unit result" where
  "asset_reserve_validate op =
     require (amount (ar_fee op) \<ge> 0) ''fee.amount >= 0''
    (require (amount (ar_amount_to_reserve op) \<le> GRAPHENE_MAX_SHARE_SUPPLY) ''amount_to_reserve.amount.value <= GRAPHENE_MAX_SHARE_SUPPLY''
    (require (amount (ar_amount_to_reserve op) > 0) ''amount_to_reserve.amount.value > 0'' (Inr ())))"

definition asset_reserve_do_evaluate :: "fc_lib \<Rightarrow> asset_reserve_operation \<Rightarrow> database \<Rightarrow> nat result" where
  "asset_reserve_do_evaluate F op d =
     bind_res (get_obj (assets d) (asset_id (ar_amount_to_reserve op))) (\<lambda>a.
     if is_market_issued a then Inl (Other_Exception ''asset_reserve_invalid_on_mia'')
     else
       bind_res (get_obj (accounts d) (ar_payer op)) (\<lambda>from_account.
       require (is_authorized_asset d from_account (asset_id (ar_amount_to_reserve op)) a) ''is_authorized_asset( d, *from_account, a )''
      (bind_res (get_obj (asset_dyn d) (dynamic_asset_data_id a)) (\<lambda>dyn.
       bind_res (safe_sub F (current_supply dyn) (amount (ar_amount_to_reserve op))) (\<lambda>s.
       require (s \<ge> 0) ''(current_supply - amount_to_reserve.amount) >= 0'' (Inr (dynamic_asset_data_id a)))))))"

definition asset_reserve_do_apply :: "fc_lib \<Rightarrow> asset_reserve_operation \<Rightarrow> nat \<Rightarrow> database \<Rightarrow> database result" where
  "asset_reserve_do_apply F op dyn_id d =
     bind_res (deduct_balance F (ar_payer op) (ar_amount_to_reserve op) d) (\<lambda>d1.
     modify_dyn dyn_id (\<lambda>dyn.
       bind_res (safe_sub F (current_supply dyn) (amount (ar_amount_to_reserve op))) (\<lambda>s. Inr (dyn\<lparr>current_supply := s\<rparr>))) d1)"

definition asset_reserve_evaluate :: "fc_lib \<Rightarrow> trx_state \<Rightarrow> int \<Rightarrow> asset_reserve_operation \<Rightarrow> database \<Rightarrow> database result" where
  "asset_reserve_evaluate F ts required_fee op d =
     bind_res (asset_reserve_validate op) (\<lambda>_.
     start_evaluate F ts required_fee (ar_payer op) (ar_fee op) (asset_reserve_do_evaluate F op) (asset_reserve_do_apply F op) d)"

record asset_fund_fee_pool_operation =
  af_fee :: asset
  af_from_account :: account_id_type
  af_asset_id :: asset_id_type
  af_amount :: int

definition asset_fund_fee_pool_validate :: "asset_fund_fee_pool_operation \<Rightarrow> unit result" where
  "asset_fund_fee_pool_validate op =
     require (amount (af_fee op) \<ge> 0) ''fee.amount >= 0''
    (require (asset_id (af_fee op) = 0) ''fee.asset_id == asset_id_type()''
    (require (af_amount op > 0) ''amount > 0'' (Inr ())))"

definition asset_fund_fee_pool_do_evaluate :: "asset_fund_fee_pool_operation \<Rightarrow> database \<Rightarrow> nat result" where
  "asset_fund_fee_pool_do_evaluate op d =
     bind_res (get_obj (assets d) (af_asset_id op)) (\<lambda>a.
     bind_res (get_obj (asset_dyn d) (dynamic_asset_data_id a)) (\<lambda>_. Inr (dynamic_asset_data_id a)))"

definition asset_fund_fee_pool_do_apply :: "fc_lib \<Rightarrow> asset_fund_fee_pool_operation \<Rightarrow> nat \<Rightarrow> database \<Rightarrow> database result" where
  "asset_fund_fee_pool_do_apply F op dyn_id d =
     bind_res (deduct_balance F (af_from_account op) (mk_asset (af_amount op) 0) d) (\<lambda>d1.
     modify_dyn dyn_id (\<lambda>dyn.
       bind_res (safe_add F (fee_pool dyn) (af_amount op)) (\<lambda>s. Inr (dyn\<lparr>fee_pool := s\<rparr>))) d1)"

definition asset_fund_fee_pool_evaluate :: "fc_lib \<Rightarrow> trx_state \<Rightarrow> int \<Rightarrow> asset_fund_fee_pool_operation \<Rightarrow> database \<Rightarrow> database result" where
  "asset_fund_fee_pool_evaluate F ts required_fee op d =
     bind_res (asset_fund_fee_pool_validate op) (\<lambda>_.
     start_evaluate F ts required_fee (af_from_account op) (af_fee op) (asset_fund_fee_pool_do_evaluate op)
       (asset_fund_fee_pool_do_apply F op) d)"

record asset_claim_fees_operation =
  acf_fee :: asset
  acf_issuer :: account_id_type
  acf_amount_to_claim :: asset

definition asset_claim_fees_validate :: "asset_claim_fees_operation \<Rightarrow> unit result" where
  "asset_claim_fees_validate op =
     require (amount (acf_fee op) \<ge> 0) ''fee.amount >= 0''
    (require (amount (acf_amount_to_claim op) > 0) ''amount_to_claim.amount > 0'' (Inr ()))"

definition asset_claim_fees_do_evaluate :: "asset_claim_fees_operation \<Rightarrow> database \<Rightarrow> unit result" where
  "asset_claim_fees_do_evaluate op d =
     require (head_block_time d > HARDFORK_413_TIME) ''head_block_time() > HARDFORK_413_TIME''
    (bind_res (get_obj (assets d) (asset_id (acf_amount_to_claim op))) (\<lambda>a.
     require (issuer a = acf_issuer op) ''Asset fees may only be claimed by the issuer'' (Inr ())))"

definition asset_claim_fees_do_apply :: "fc_lib \<Rightarrow> asset_claim_fees_operation \<Rightarrow> database \<Rightarrow> database result" where
  "asset_claim_fees_do_apply F op d =
     bind_res (get_obj (assets d) (asset_id (acf_amount_to_claim op))) (\<lambda>a.
     bind_res (modify_dyn (dynamic_asset_data_id a) (\<lambda>addo.
       require (amount (acf_amount_to_claim op) \<le> accumulated_fees addo) ''Attempt to claim more fees than have accumulated''
      (bind_res (safe_sub F (accumulated_fees addo) (amount (acf_amount_to_claim op))) (\<lambda>s. Inr (addo\<lparr>accumulated_fees := s\<rparr>)))) d) (\<lambda>d1.
     adjust_balance F (acf_issuer op) (acf_amount_to_claim op) d1))"

definition asset_claim_fees_evaluate :: "fc_lib \<Rightarrow> trx_state \<Rightarrow> int \<Rightarrow> asset_claim_fees_operation \<Rightarrow> database \<Rightarrow> database result" where
  "asset_claim_fees_evaluate F ts required_fee op d =
     bind_res (asset_claim_fees_validate op) (\<lambda>_.
     start_evaluate F ts required_fee (acf_issuer op) (acf_fee op) (asset_claim_fees_do_evaluate op)
       (\<lambda>_. asset_claim_fees_do_apply F op) d)"

record asset_claim_pool_operation =
  acp_fee :: asset
  acp_issuer :: account_id_type
  acp_asset_id :: asset_id_type
  acp_amount_to_claim :: asset

definition asset_claim_pool_validate :: "asset_claim_pool_operation \<Rightarrow> unit result" where
  "asset_claim_pool_validate op =
     require (amount (acp_fee op) \<ge> 0) ''fee.amount >= 0''
    (require (asset_id (acp_fee op) \<noteq> acp_asset_id op) ''fee.asset_id != asset_id''
    (require (amount (acp_amount_to_claim op) > 0) ''amount_to_claim.amount > 0''
    (require (asset_id (acp_amount_to_claim op) = 0) ''amount_to_claim.asset_id == asset_id_type()'' (Inr ()))))"

definition asset_claim_pool_do_evaluate :: "asset_claim_pool_operation \<Rightarrow> database \<Rightarrow> unit result" where
  "asset_claim_pool_do_evaluate op d =
     require (head_block_time d \<ge> HARDFORK_CORE_188_TIME) ''This operation is only available after Hardfork #188!''
    (bind_res (get_obj (assets d) (acp_asset_id op)) (\<lambda>a.
     require (issuer a = acp_issuer op) ''Asset fee pool may only be claimed by the issuer'' (Inr ())))"

definition asset_claim_pool_do_apply :: "fc_lib \<Rightarrow> asset_claim_pool_operation \<Rightarrow> database \<Rightarrow> database result" where
  "asset_claim_pool_do_apply F op d =
     bind_res (get_obj (assets d) (acp_asset_id op)) (\<lambda>a.
     bind_res (modify_dyn (dynamic_asset_data_id a) (\<lambda>addo.
       require (amount (acp_amount_to_claim op) \<le> fee_pool addo) ''Attempt to claim more fees than is available''
      (bind_res (safe_sub F (fee_pool addo) (amount (acp_amount_to_claim op))) (\<lambda>s. Inr (addo\<lparr>fee_pool := s\<rparr>)))) d) (\<lambda>d1.
     adjust_balance F (acp_issuer op) (acp_amount_to_claim op) d1))"

definition asset_claim_pool_evaluate :: "fc_lib \<Rightarrow> trx_state \<Rightarrow> int \<Rightarrow> asset_claim_pool_operation \<Rightarrow> database \<Rightarrow> database result" where
  "asset_claim_pool_evaluate F ts required_fee op d =
     bind_res (asset_claim_pool_validate op) (\<lambda>_.
     start_evaluate F ts required_fee (acp_issuer op) (acp_fee op) (asset_claim_pool_do_evaluate op)
       (\<lambda>_. asset_claim_pool_do_apply F op) d)"

subsection \<open>Updates of the options and of the issuer\<close>

definition validate_new_issuer :: "asset_object \<Rightarrow> account_id_type \<Rightarrow> database \<Rightarrow> unit result" where
  "validate_new_issuer a new_issuer d =
     require (new_issuer < length (accounts d)) ''d.find_object(new_issuer)''
    (if is_market_issued a \<and> new_issuer = GRAPHENE_COMMITTEE_ACCOUNT then
       bind_res (bitasset_data a d) (\<lambda>b.
       bind_res (get_obj (assets d) (bo_short_backing_asset (bd_options b))) (\<lambda>backing.
       if is_market_issued backing then
         bind_res (bitasset_data backing d) (\<lambda>bb.
         bind_res (get_obj (assets d) (bo_short_backing_asset (bd_options bb))) (\<lambda>_.
         require (bo_short_backing_asset (bd_options bb) = 0)
           ''May not create a blockchain-controlled market asset which is not backed by CORE.'' (Inr ())))
       else
         require (bo_short_backing_asset (bd_options b) = 0)
           ''May not create a blockchain-controlled market asset which is not backed by CORE.'' (Inr ())))
     else Inr ())"

record asset_update_operation =
  au_fee :: asset
  au_issuer :: account_id_type
  au_asset_to_update :: asset_id_type
  au_new_issuer :: "account_id_type option"
  au_new_options :: asset_options

definition asset_update_validate :: "asset_update_operation \<Rightarrow> unit result" where
  "asset_update_validate op =
     require (amount (au_fee op) \<ge> 0) ''fee.amount >= 0''
    (require (au_new_issuer op \<noteq> Some (au_issuer op)) ''issuer != *new_issuer''
    (bind_res (asset_options_validate (au_new_options op)) (\<lambda>_.
     bind_res (mul_price (mk_asset 1 (au_asset_to_update op)) (ao_core_exchange_rate (au_new_options op))) (\<lambda>dummy.
     require (asset_id dummy = 0) ''dummy.asset_id == asset_id_type()'' (Inr ())))))"

definition asset_update_do_evaluate :: "asset_update_operation \<Rightarrow> database \<Rightarrow> unit result" where
  "asset_update_do_evaluate op d =
     bind_res (get_obj (assets d) (au_asset_to_update op)) (\<lambda>a.
     bind_res (asset_object_validate (a\<lparr>options := au_new_options op\<rparr>)) (\<lambda>_.
     bind_res
       (case au_new_issuer op of
          None \<Rightarrow> Inr ()
        | Some new_issuer \<Rightarrow>
            require (head_block_time d < HARDFORK_CORE_199_TIME)
              ''Since Hardfork #199, updating issuer requires the use of asset_update_issuer_operation.''
              (validate_new_issuer a new_issuer d)) (\<lambda>_.
     bind_res (get_obj (asset_dyn d) (dynamic_asset_data_id a)) (\<lambda>dyn.
     require (head_block_time d < HARDFORK_572_TIME \<or> current_supply dyn \<noteq> 0 \<longrightarrow>
         ao_issuer_permissions (au_new_options op) AND NOT (ao_issuer_permissions (options a)) = 0)
       ''Cannot reinstate previously revoked issuer permissions on an asset.''
    (require ((ao_flags (au_new_options op) XOR ao_flags (options a)) AND NOT (ao_issuer_permissions (options a)) = 0)
       ''Flag change is forbidden by issuer permissions''
    (require (au_issuer op = issuer a) ''Incorrect issuer for asset!''
    (bind_res (check_authorities (ao_whitelist_authorities (au_new_options op)) d) (\<lambda>_.
     check_authorities (ao_blacklist_authorities (au_new_options op)) d))))))))"

text \<open>The settlement requests of an asset in the order of the index \<open>by_expiration\<close>.\<close>

definition settle_before :: "force_settlement_object \<Rightarrow> force_settlement_object \<Rightarrow> bool" where
  "settle_before x y \<longleftrightarrow> asset_id (fs_balance x) < asset_id (fs_balance y)
     \<or> asset_id (fs_balance x) = asset_id (fs_balance y) \<and> fs_settlement_date x < fs_settlement_date y"

definition settle_book :: "database \<Rightarrow> (nat \<times> force_settlement_object) list" where
  "settle_book d = sort_rows settle_before (rows (settle_orders d))"

definition settles_of :: "asset_id_type \<Rightarrow> database \<Rightarrow> nat list" where
  "settles_of a d = map fst (filter (\<lambda>(i, x). asset_id (fs_balance x) = a) (settle_book d))"

definition modify_asset :: "asset_id_type \<Rightarrow> (asset_object \<Rightarrow> asset_object) \<Rightarrow> database \<Rightarrow> database result" where
  "modify_asset i f d = bind_res (modify_obj i (\<lambda>x. Inr (f x)) (assets d)) (\<lambda>t. Inr (d\<lparr>assets := t\<rparr>))"

definition asset_update_do_apply :: "fc_lib \<Rightarrow> asset_update_operation \<Rightarrow> database \<Rightarrow> database result" where
  "asset_update_do_apply F op d =
     bind_res (get_obj (assets d) (au_asset_to_update op)) (\<lambda>a.
     bind_res
       (if has_flag (ao_flags (au_new_options op)) disable_force_settle \<and> can_force_settle a
        then fold_res (cancel_settle_order F) (settles_of (au_asset_to_update op) d) d
        else Inr d) (\<lambda>d1.
     modify_asset (au_asset_to_update op)
       (\<lambda>x. x\<lparr>issuer := (case au_new_issuer op of None \<Rightarrow> issuer x | Some i \<Rightarrow> i), options := au_new_options op\<rparr>) d1))"

definition asset_update_evaluate :: "fc_lib \<Rightarrow> trx_state \<Rightarrow> int \<Rightarrow> asset_update_operation \<Rightarrow> database \<Rightarrow> database result" where
  "asset_update_evaluate F ts required_fee op d =
     bind_res (asset_update_validate op) (\<lambda>_.
     start_evaluate F ts required_fee (au_issuer op) (au_fee op) (asset_update_do_evaluate op) (\<lambda>_. asset_update_do_apply F op) d)"

record asset_update_issuer_operation =
  aui_fee :: asset
  aui_issuer :: account_id_type
  aui_asset_to_update :: asset_id_type
  aui_new_issuer :: account_id_type

definition asset_update_issuer_validate :: "asset_update_issuer_operation \<Rightarrow> unit result" where
  "asset_update_issuer_validate op =
     require (amount (aui_fee op) \<ge> 0) ''fee.amount >= 0''
    (require (aui_issuer op \<noteq> aui_new_issuer op) ''issuer != new_issuer'' (Inr ()))"

definition asset_update_issuer_do_evaluate :: "asset_update_issuer_operation \<Rightarrow> database \<Rightarrow> unit result" where
  "asset_update_issuer_do_evaluate op d =
     bind_res (get_obj (assets d) (aui_asset_to_update op)) (\<lambda>a.
     bind_res (validate_new_issuer a (aui_new_issuer op) d) (\<lambda>_.
     require (aui_issuer op = issuer a) ''Incorrect issuer for asset!''
    (require (\<not> head_block_time d < HARDFORK_CORE_199_TIME) ''Not allowed until hardfork 199'' (Inr ()))))"

definition asset_update_issuer_do_apply :: "asset_update_issuer_operation \<Rightarrow> database \<Rightarrow> database result" where
  "asset_update_issuer_do_apply op d = modify_asset (aui_asset_to_update op) (\<lambda>x. x\<lparr>issuer := aui_new_issuer op\<rparr>) d"

definition asset_update_issuer_evaluate :: "fc_lib \<Rightarrow> trx_state \<Rightarrow> int \<Rightarrow> asset_update_issuer_operation \<Rightarrow> database \<Rightarrow> database result" where
  "asset_update_issuer_evaluate F ts required_fee op d =
     bind_res (asset_update_issuer_validate op) (\<lambda>_.
     start_evaluate F ts required_fee (aui_issuer op) (aui_fee op) (asset_update_issuer_do_evaluate op)
       (\<lambda>_. asset_update_issuer_do_apply op) d)"

end
