(* ===== verification/Bitasset_Ops.thy ===== *)
theory Bitasset_Ops
  imports Asset_Ops
begin

text \<open>
  The operations on market-issued assets (\<open>libraries/chain/asset_evaluator.cpp\<close>, \<open>protocol/asset_ops.cpp\<close>): their options, their feed
  producers, published feeds, forced and global settlement.
\<close>

subsection \<open>Market-issued assets: options and feed producers\<close>

record asset_update_bitasset_operation =
  aub_fee :: asset
  aub_issuer :: account_id_type
  aub_asset_to_update :: asset_id_type
  aub_new_options :: bitasset_options

definition asset_update_bitasset_validate :: "asset_update_bitasset_operation \<Rightarrow> unit result" where
  "asset_update_bitasset_validate op =
     require (amount (aub_fee op) \<ge> 0) ''fee.amount >= 0'' (bitasset_options_validate (aub_new_options op))"

text \<open>The market-issued assets in the order of their ids.\<close>

definition market_issued_ids :: "database \<Rightarrow> asset_id_type list" where
  "market_issued_ids d = filter (\<lambda>i. is_market_issued (assets d ! i)) [0..<length (assets d)]"

fun check_children :: "asset_update_bitasset_operation \<Rightarrow> asset_object \<Rightarrow> bool \<Rightarrow> database \<Rightarrow> asset_id_type list \<Rightarrow> unit result" where
  "check_children op new_backing after_hf_922_931 d [] = Inr ()"
| "check_children op new_backing after_hf_922_931 d (i # is) =
     bind_res (bitasset_data (assets d ! i) d) (\<lambda>child_data.
     if bo_short_backing_asset (bd_options child_data) = aub_asset_to_update op then
       (if after_hf_922_931 then
          require (i \<noteq> bo_short_backing_asset (aub_new_options op))
            ''A BitAsset would be invalidated by changing this backing asset (A backed by B backed by A).''
         (require (issuer (assets d ! i) \<noteq> GRAPHENE_COMMITTEE_ACCOUNT)
            ''A blockchain-controlled market asset would be invalidated by changing this backing asset.''
         (require (\<not> is_market_issued new_backing)
            ''A non-blockchain controlled BitAsset would be invalidated by changing this backing asset.''
         (check_children op new_backing after_hf_922_931 d is)))
        else if i = bo_short_backing_asset (aub_new_options op) \<or> issuer (assets d ! i) = GRAPHENE_COMMITTEE_ACCOUNT
          \<or> is_market_issued new_backing then Inr ()
        else check_children op new_backing after_hf_922_931 d is)
     else check_children op new_backing after_hf_922_931 d is)"

definition check_children_of_bitasset :: "asset_update_bitasset_operation \<Rightarrow> asset_object \<Rightarrow> bool \<Rightarrow> database \<Rightarrow> unit result" where
  "check_children_of_bitasset op new_backing after_hf_922_931 d =
     (if bo_short_backing_asset (aub_new_options op) = 0 then Inr ()
      else check_children op new_backing after_hf_922_931 d (market_issued_ids d))"

text \<open>A new backing asset, after and before the hard fork; before it most violations were only logged.\<close>

definition check_backing_after_hf :: "asset_update_bitasset_operation \<Rightarrow> asset_object \<Rightarrow> asset_bitasset_data_object \<Rightarrow> asset_object
    \<Rightarrow> database \<Rightarrow> unit result" where
  "check_backing_after_hf op a b new_backing d =
     (let new_id = bo_short_backing_asset (aub_new_options op) in
      require (new_id \<noteq> aub_asset_to_update op) ''Cannot update an asset to be backed by itself.''
     (require (bd_is_prediction_market b \<longrightarrow> precision a = precision new_backing) ''The precision of the asset and backing asset must be equal.''
     (bind_res
        (if issuer a = GRAPHENE_COMMITTEE_ACCOUNT then
           (if is_market_issued new_backing then
              bind_res (bitasset_data new_backing d) (\<lambda>nb.
              require (bo_short_backing_asset (bd_options nb) = 0)
                ''May not modify a blockchain-controlled market asset to be backed by an asset which is not backed by CORE.''
                (check_children_of_bitasset op new_backing True d))
            else
              require (new_id = 0)
                ''May not modify a blockchain-controlled market asset to be backed by an asset which is not market issued asset nor CORE.''
                (Inr ()))
         else if new_id \<noteq> 0 then check_children_of_bitasset op new_backing True d
         else Inr ()) (\<lambda>_.
      if is_market_issued new_backing then
        bind_res (bitasset_data new_backing d) (\<lambda>nb.
        if bo_short_backing_asset (bd_options nb) = 0 then Inr ()
        else
          bind_res (get_obj (assets d) (bo_short_backing_asset (bd_options nb))) (\<lambda>backing_backing.
          require (\<not> is_market_issued backing_backing)
            ''A BitAsset cannot be backed by a BitAsset that itself is backed by a BitAsset.'' (Inr ())))
      else Inr ()))))"

definition check_backing_before_hf :: "asset_update_bitasset_operation \<Rightarrow> asset_object \<Rightarrow> asset_bitasset_data_object \<Rightarrow> asset_object
    \<Rightarrow> database \<Rightarrow> unit result" where
  "check_backing_before_hf op a b new_backing d =
     (let new_id = bo_short_backing_asset (aub_new_options op) in
      bind_res
        (if issuer a = GRAPHENE_COMMITTEE_ACCOUNT then
           bind_res
             (if is_market_issued new_backing then
                bind_res (bitasset_data new_backing d) (\<lambda>_. check_children_of_bitasset op new_backing False d)
              else Inr ()) (\<lambda>_.
           bind_res (get_obj (assets d) (bo_short_backing_asset (bd_options b))) (\<lambda>old_backing.
           if is_market_issued old_backing then
             bind_res (bitasset_data old_backing d) (\<lambda>ob.
             require (bo_short_backing_asset (bd_options ob) = 0)
               ''May not modify a blockchain-controlled market asset to be backed by an asset which is not backed by CORE.'' (Inr ()))
           else
             require (bo_short_backing_asset (bd_options b) = 0)
               ''May not modify a blockchain-controlled market asset to be backed by an asset which is not market issued asset nor CORE.''
               (Inr ())))
         else if new_id \<noteq> 0 then check_children_of_bitasset op new_backing False d
         else Inr ()) (\<lambda>_.
      if is_market_issued new_backing then
        bind_res (bitasset_data new_backing d) (\<lambda>nb.
        if bo_short_backing_asset (bd_options nb) = 0 then Inr ()
        else bind_res (get_obj (assets d) (bo_short_backing_asset (bd_options nb))) (\<lambda>_. Inr ()))
      else Inr ()))"

definition asset_update_bitasset_do_evaluate :: "asset_update_bitasset_operation \<Rightarrow> database \<Rightarrow> unit result" where
  "asset_update_bitasset_do_evaluate op d =
     bind_res (get_obj (assets d) (aub_asset_to_update op)) (\<lambda>a.
     require (is_market_issued a) ''Cannot update BitAsset-specific settings on a non-BitAsset.''
    (require (aub_issuer op = issuer a) ''Only asset issuer can update bitasset_data of the asset.''
    (bind_res (bitasset_data a d) (\<lambda>b.
     require (\<not> has_settlement b) ''Cannot update a bitasset after a global settlement has executed''
    (let after = (maint_time d > HARDFORK_CORE_922_931_TIME) in
     bind_res
       (if bo_short_backing_asset (aub_new_options op) \<noteq> bo_short_backing_asset (bd_options b) then
          bind_res (get_obj (asset_dyn d) (dynamic_asset_data_id a)) (\<lambda>dyn.
          require (current_supply dyn = 0) ''Cannot update a bitasset if there is already a current supply.''
         (bind_res (get_obj (assets d) (bo_short_backing_asset (aub_new_options op))) (\<lambda>new_backing.
          if after then check_backing_after_hf op a b new_backing d else check_backing_before_hf op a b new_backing d)))
        else Inr ()) (\<lambda>_.
     require (after \<longrightarrow> bo_feed_lifetime_sec (aub_new_options op) > block_interval (parameters d)) ''Feed lifetime must exceed block interval.''
    (require (after \<longrightarrow> bo_force_settlement_delay_sec (aub_new_options op) > block_interval (parameters d))
       ''Force settlement delay must exceed block interval.'' (Inr ()))))))))"

definition update_bitasset_object_options :: "asset_update_bitasset_operation \<Rightarrow> database \<Rightarrow> asset_bitasset_data_object \<Rightarrow> asset_object
    \<Rightarrow> bool \<times> asset_bitasset_data_object" where
  "update_bitasset_object_options op d bdo a =
     (let after_868 = (maint_time d > HARDFORK_CORE_868_890_TIME);
          backing_asset_changed =
            (after_868 \<and> bo_short_backing_asset (aub_new_options op) \<noteq> bo_short_backing_asset (bd_options bdo));
          should_update_feeds =
            (bo_minimum_feeds (aub_new_options op) \<noteq> bo_minimum_feeds (bd_options bdo)
             \<or> after_868 \<and> bo_feed_lifetime_sec (aub_new_options op) \<noteq> bo_feed_lifetime_sec (bd_options bdo)
             \<or> backing_asset_changed);
          fed = has_flag (ao_flags (options a)) (witness_fed_asset OR committee_fed_asset);
          bdo1 = bdo\<lparr>bd_options := aub_new_options op\<rparr>;
          bdo2 = (if backing_asset_changed then
                    bdo1\<lparr>bd_feeds := (if fed then []
                      else map (\<lambda>(k, t, f). (k, t, f\<lparr>settlement_price := price_default\<rparr>)) (bd_feeds bdo1))\<rparr>
                  else bdo1);
          bdo3 = (if should_update_feeds then update_median_feeds (head_block_time d) bdo2 else bdo2);
          changed = (should_update_feeds \<and>
            (if maint_time d > HARDFORK_CORE_935_TIME then \<not> price_feed_eq (bd_current_feed bdo) (bd_current_feed bdo3)
             else after_868 \<and> \<not> price_eq (settlement_price (bd_current_feed bdo)) (settlement_price (bd_current_feed bdo3)))) in
      (changed, bdo3))"

definition asset_update_bitasset_do_apply :: "fc_lib \<Rightarrow> asset_update_bitasset_operation \<Rightarrow> database \<Rightarrow> database result" where
  "asset_update_bitasset_do_apply F op d =
     bind_res (get_obj (assets d) (aub_asset_to_update op)) (\<lambda>a.
     bind_res (bitasset_data a d) (\<lambda>b.
     bind_res (modify_bitasset a (\<lambda>bdo. snd (update_bitasset_object_options op d bdo a)) d) (\<lambda>d1.
     if fst (update_bitasset_object_options op d b a)
     then bind_res (check_call_orders F (aub_asset_to_update op) True False d1) (\<lambda>(_, d2). Inr d2)
     else Inr d1)))"

definition asset_update_bitasset_evaluate :: "fc_lib \<Rightarrow> trx_state \<Rightarrow> int \<Rightarrow> asset_update_bitasset_operation \<Rightarrow> database \<Rightarrow> database result" where
  "asset_update_bitasset_evaluate F ts required_fee op d =
     bind_res (asset_update_bitasset_validate op) (\<lambda>_.
     start_evaluate F ts required_fee (aub_issuer op) (aub_fee op) (asset_update_bitasset_do_evaluate op)
       (\<lambda>_. asset_update_bitasset_do_apply F op) d)"

record asset_update_feed_producers_operation =
  afp_fee :: asset
  afp_issuer :: account_id_type
  afp_asset_to_update :: asset_id_type
  afp_new_feed_producers :: "account_id_type set"

definition asset_update_feed_producers_validate :: "asset_update_feed_producers_operation \<Rightarrow> unit result" where
  "asset_update_feed_producers_validate op = require (amount (afp_fee op) \<ge> 0) ''fee.amount >= 0'' (Inr ())"

definition asset_update_feed_producers_do_evaluate :: "asset_update_feed_producers_operation \<Rightarrow> database \<Rightarrow> unit result" where
  "asset_update_feed_producers_do_evaluate op d =
     require (card (afp_new_feed_producers op) \<le> maximum_asset_feed_publishers (parameters d)) ''maximum_asset_feed_publishers''
    (if \<not> (\<forall>i\<in>afp_new_feed_producers op. i < length (accounts d)) then Inl Not_Found
     else
       bind_res (get_obj (assets d) (afp_asset_to_update op)) (\<lambda>a.
       require (is_market_issued a) ''Cannot update feed producers on a non-BitAsset.''
      (require (\<not> has_flag (ao_flags (options a)) committee_fed_asset) ''Cannot set feed producers on a committee-fed asset.''
      (require (\<not> has_flag (ao_flags (options a)) witness_fed_asset) ''Cannot set feed producers on a witness-fed asset.''
      (bind_res (bitasset_data a d) (\<lambda>_.
       require (issuer a = afp_issuer op) ''a.issuer == o.issuer'' (Inr ())))))))"

definition set_producers :: "account_id_type set \<Rightarrow> nat \<Rightarrow> asset_bitasset_data_object \<Rightarrow> asset_bitasset_data_object" where
  "set_producers producers now b =
     (let kept = filter (\<lambda>(k, _). k \<in> producers) (bd_feeds b);
          all_feeds = fold (\<lambda>k fs. if feeds_has k fs then fs else feeds_set k (0, price_feed_default) fs) (sorted_list_of_set producers) kept in
      update_median_feeds now (b\<lparr>bd_feeds := all_feeds\<rparr>))"

definition asset_update_feed_producers_do_apply :: "fc_lib \<Rightarrow> asset_update_feed_producers_operation \<Rightarrow> database \<Rightarrow> database result" where
  "asset_update_feed_producers_do_apply F op d =
     bind_res (get_obj (assets d) (afp_asset_to_update op)) (\<lambda>a.
     bind_res (modify_bitasset a (set_producers (afp_new_feed_producers op) (head_block_time d)) d) (\<lambda>d1.
     bind_res (check_call_orders F (afp_asset_to_update op) True False d1) (\<lambda>(_, d2). Inr d2)))"

definition asset_update_feed_producers_evaluate :: "fc_lib \<Rightarrow> trx_state \<Rightarrow> int \<Rightarrow> asset_update_feed_producers_operation \<Rightarrow> database
    \<Rightarrow> database result" where
  "asset_update_feed_producers_evaluate F ts required_fee op d =
     bind_res (asset_update_feed_producers_validate op) (\<lambda>_.
     start_evaluate F ts required_fee (afp_issuer op) (afp_fee op) (asset_update_feed_producers_do_evaluate op)
       (\<lambda>_. asset_update_feed_producers_do_apply F op) d)"

subsection \<open>Settlement\<close>

text \<open>The index \<open>by_collateral\<close>: positions from the least to the best collateralized.\<close>

definition collateral_key :: "call_order_object \<Rightarrow> price" where
  "collateral_key c = mk_price (get_collateral c) (get_debt c)"

definition collateral_book :: "database \<Rightarrow> (nat \<times> call_order_object) list" where
  "collateral_book d = sort_rows (\<lambda>x y. price_less (collateral_key x) (collateral_key y)) (rows (call_orders d))"

definition least_collateralized :: "asset_id_type \<Rightarrow> asset_id_type \<Rightarrow> database \<Rightarrow> (nat \<times> call_order_object) result" where
  "least_collateralized backing mia d =
     bind_res (price_min backing mia) (\<lambda>lowest.
     case filter (\<lambda>(i, c). \<not> price_less (collateral_key c) lowest) (collateral_book d) of
       [] \<Rightarrow> Inl (Assert_Exception ''itr != idx.end()'')
     | (i, c) # _ \<Rightarrow> require (debt_type c = mia) ''itr->debt_type()'' (Inr (i, c)))"

record asset_global_settle_operation =
  ags_fee :: asset
  ags_issuer :: account_id_type
  ags_asset_to_settle :: asset_id_type
  ags_settle_price :: price

definition asset_global_settle_validate :: "asset_global_settle_operation \<Rightarrow> unit result" where
  "asset_global_settle_validate op =
     require (amount (ags_fee op) \<ge> 0) ''fee.amount >= 0''
    (require (ags_asset_to_settle op = asset_id (base (ags_settle_price op))) ''asset_to_settle == settle_price.base.asset_id'' (Inr ()))"

definition asset_global_settle_do_evaluate :: "asset_global_settle_operation \<Rightarrow> database \<Rightarrow> unit result" where
  "asset_global_settle_do_evaluate op d =
     bind_res (get_obj (assets d) (ags_asset_to_settle op)) (\<lambda>a.
     require (is_market_issued a) ''asset_to_settle->is_market_issued()''
    (require (can_global_settle a) ''asset_to_settle->can_global_settle()''
    (require (issuer a = ags_issuer op) ''asset_to_settle->issuer == op.issuer''
    (bind_res (get_obj (asset_dyn d) (dynamic_asset_data_id a)) (\<lambda>dyn.
     require (current_supply dyn > 0) ''asset_to_settle->dynamic_data(d).current_supply > 0''
    (bind_res (bitasset_data a d) (\<lambda>b.
     require (\<not> has_settlement b) ''This asset has settlement, cannot global settle again''
    (bind_res (least_collateralized (bo_short_backing_asset (bd_options b)) (ags_asset_to_settle op) d) (\<lambda>(_, short).
     bind_res (mul_price (get_debt short) (ags_settle_price op)) (\<lambda>cost.
     bind_res (asset_le cost (get_collateral short)) (\<lambda>enough.
     require enough ''Cannot force settle at supplied price: least collateralized short lacks sufficient collateral to settle.'' (Inr ()))))))))))))"

definition asset_global_settle_do_apply :: "fc_lib \<Rightarrow> asset_global_settle_operation \<Rightarrow> database \<Rightarrow> database result" where
  "asset_global_settle_do_apply F op d = globally_settle_asset F (ags_asset_to_settle op) (ags_settle_price op) d"

definition asset_global_settle_evaluate :: "fc_lib \<Rightarrow> trx_state \<Rightarrow> int \<Rightarrow> asset_global_settle_operation \<Rightarrow> database \<Rightarrow> database result" where
  "asset_global_settle_evaluate F ts required_fee op d =
     bind_res (asset_global_settle_validate op) (\<lambda>_.
     start_evaluate F ts required_fee (ags_issuer op) (ags_fee op) (asset_global_settle_do_evaluate op)
       (\<lambda>_. asset_global_settle_do_apply F op) d)"

record asset_settle_operation =
  as_fee :: asset
  as_account :: account_id_type
  as_amount :: asset

definition asset_settle_validate :: "asset_settle_operation \<Rightarrow> unit result" where
  "asset_settle_validate op =
     require (amount (as_fee op) \<ge> 0) ''fee.amount >= 0''
    (require (amount (as_amount op) \<ge> 0) ''amount.amount >= 0'' (Inr ()))"

definition asset_settle_do_evaluate :: "asset_settle_operation \<Rightarrow> database \<Rightarrow> unit result" where
  "asset_settle_do_evaluate op d =
     bind_res (get_obj (assets d) (asset_id (as_amount op))) (\<lambda>a.
     require (is_market_issued a) ''asset_to_settle->is_market_issued()''
    (bind_res (bitasset_data a d) (\<lambda>b.
     require (can_force_settle a \<or> has_settlement b) ''asset_to_settle->can_force_settle() || bitasset.has_settlement()''
    (require (bd_is_prediction_market b \<longrightarrow> has_settlement b) ''global settlement must occur before force settling a prediction market''
    (if \<not> bd_is_prediction_market b \<and> price_is_null (settlement_price (bd_current_feed b))
         \<and> (head_block_time d \<le> HARDFORK_CORE_216_TIME \<or> \<not> has_settlement b)
     then Inl (Other_Exception ''insufficient_feeds'')
     else
       bind_res (get_obj (accounts d) (as_account op)) (\<lambda>_.
       bind_res (asset_ge (get_balance d (as_account op) (asset_id (as_amount op))) (as_amount op)) (\<lambda>enough.
       require enough ''d.get_balance(d.get(op.account), *asset_to_settle) >= op.amount'' (Inr ()))))))))"

text \<open>Settling against the fund of a globally settled asset: what is paid out and what is taken for it.\<close>

definition settled_amounts :: "asset \<Rightarrow> asset_bitasset_data_object \<Rightarrow> int \<Rightarrow> database \<Rightarrow> (asset \<times> asset) result" where
  "settled_amounts x b supply d =
     bind_res (mul_price x (bd_settlement_price b)) (\<lambda>worth.
     bind_res
       (if amount x = supply then Inr (worth\<lparr>amount := bd_settlement_fund b\<rparr>)
        else require (amount worth \<le> bd_settlement_fund b) ''settled_amount.amount <= bitasset.settlement_fund'' (Inr worth)) (\<lambda>settled.
     if amount settled = 0 \<and> \<not> bd_is_prediction_market b \<and> maint_time d > HARDFORK_CORE_184_TIME
     then Inl (Other_Exception ''Settle amount is too small to receive anything due to rounding'')
     else
       bind_res
         (if amount x \<noteq> supply \<and> amount settled \<noteq> 0 \<and> maint_time d > HARDFORK_CORE_342_TIME
          then multiply_and_round_up settled (bd_settlement_price b) else Inr x) (\<lambda>pays.
       Inr (settled, pays))))"

definition settle_from_fund :: "fc_lib \<Rightarrow> asset_settle_operation \<Rightarrow> asset_object \<Rightarrow> asset \<Rightarrow> asset \<Rightarrow> database \<Rightarrow> database result" where
  "settle_from_fund F op a settled pays d =
     bind_res (deduct_balance F (as_account op) pays d) (\<lambda>d1.
     bind_res
       (if amount settled > 0 then
          bind_res (bitasset_data a d1) (\<lambda>b.
          bind_res (safe_sub F (bd_settlement_fund b) (amount settled)) (\<lambda>fund.
          bind_res (modify_bitasset a (\<lambda>x. x\<lparr>bd_settlement_fund := fund\<rparr>) d1) (\<lambda>d2.
          adjust_balance F (as_account op) settled d2)))
        else Inr d1) (\<lambda>d3.
     modify_dyn (dynamic_asset_data_id a) (\<lambda>dyn.
       bind_res (safe_sub F (current_supply dyn) (amount pays)) (\<lambda>s. Inr (dyn\<lparr>current_supply := s\<rparr>))) d3))"

definition asset_settle_do_apply :: "fc_lib \<Rightarrow> asset_settle_operation \<Rightarrow> database \<Rightarrow> database result" where
  "asset_settle_do_apply F op d =
     bind_res (get_obj (assets d) (asset_id (as_amount op))) (\<lambda>a.
     bind_res (bitasset_data a d) (\<lambda>b.
     if has_settlement b then
       bind_res (get_obj (asset_dyn d) (dynamic_asset_data_id a)) (\<lambda>mia_dyn.
       bind_res (settled_amounts (as_amount op) b (current_supply mia_dyn) d) (\<lambda>(settled, pays).
       settle_from_fund F op a settled pays d))
     else
       bind_res (deduct_balance F (as_account op) (as_amount op) d) (\<lambda>d1.
       Inr (d1\<lparr>settle_orders := tbl_create \<lparr>fs_owner = as_account op, fs_balance = as_amount op,
              fs_settlement_date = (head_block_time d1 + bo_force_settlement_delay_sec (bd_options b)) mod 2 ^ 32\<rparr> (settle_orders d1)\<rparr>))))"

definition asset_settle_evaluate :: "fc_lib \<Rightarrow> trx_state \<Rightarrow> int \<Rightarrow> asset_settle_operation \<Rightarrow> database \<Rightarrow> database result" where
  "asset_settle_evaluate F ts required_fee op d =
     bind_res (asset_settle_validate op) (\<lambda>_.
     start_evaluate F ts required_fee (as_account op) (as_fee op) (asset_settle_do_evaluate op) (\<lambda>_. asset_settle_do_apply F op) d)"

subsection \<open>Publishing a feed\<close>

record asset_publish_feed_operation =
  apf_fee :: asset
  apf_publisher :: account_id_type
  apf_asset_id :: asset_id_type
  apf_feed :: price_feed

definition asset_publish_feed_validate :: "asset_publish_feed_operation \<Rightarrow> unit result" where
  "asset_publish_feed_validate op =
     require (amount (apf_fee op) \<ge> 0) ''fee.amount >= 0''
    (bind_res (price_feed_validate (apf_feed op)) (\<lambda>_.
     bind_res (if \<not> price_is_null (core_exchange_rate (apf_feed op)) then price_validate (core_exchange_rate (apf_feed op)) else Inr ()) (\<lambda>_.
     require (\<not> price_is_null (settlement_price (apf_feed op)) \<and> \<not> price_is_null (core_exchange_rate (apf_feed op)) \<longrightarrow>
         asset_id (base (settlement_price (apf_feed op))) = asset_id (base (core_exchange_rate (apf_feed op))))
       ''feed.settlement_price.base.asset_id == feed.core_exchange_rate.base.asset_id''
    (require (\<not> price_is_null (settlement_price (apf_feed op))) ''!feed.settlement_price.is_null()''
    (require (\<not> price_is_null (core_exchange_rate (apf_feed op))) ''!feed.core_exchange_rate.is_null()''
    (require (price_feed_is_for (apf_feed op) (apf_asset_id op)) ''feed.is_for( asset_id )'' (Inr ())))))))"

definition asset_publish_feed_do_evaluate :: "asset_publish_feed_operation \<Rightarrow> database \<Rightarrow> unit result" where
  "asset_publish_feed_do_evaluate op d =
     bind_res (get_obj (assets d) (apf_asset_id op)) (\<lambda>a.
     require (is_market_issued a) ''base.is_market_issued()''
    (bind_res (bitasset_data a d) (\<lambda>b.
     require (bd_is_prediction_market b \<or> head_block_time d \<le> HARDFORK_CORE_216_TIME \<longrightarrow> \<not> has_settlement b)
       ''No further feeds may be published after a settlement event''
    (require (asset_id (quote (settlement_price (apf_feed op))) = bo_short_backing_asset (bd_options b))
       ''o.feed.settlement_price.quote.asset_id == bitasset.options.short_backing_asset''
    (require
       (if head_block_time d > HARDFORK_480_TIME then
          \<not> price_is_null (core_exchange_rate (apf_feed op)) \<longrightarrow> asset_id (quote (core_exchange_rate (apf_feed op))) = 0
        else
          \<not> price_is_null (settlement_price (apf_feed op)) \<and> \<not> price_is_null (core_exchange_rate (apf_feed op)) \<longrightarrow>
          asset_id (quote (settlement_price (apf_feed op))) = asset_id (quote (core_exchange_rate (apf_feed op))))
       ''o.feed.core_exchange_rate.quote.asset_id''
    (if has_flag (ao_flags (options a)) witness_fed_asset then
       bind_res (get_obj (accounts d) GRAPHENE_WITNESS_ACCOUNT) (\<lambda>acct.
       require (apf_publisher op \<in> active_account_auths acct) ''active.account_auths.count(o.publisher)'' (Inr ()))
     else if has_flag (ao_flags (options a)) committee_fed_asset then
       bind_res (get_obj (accounts d) GRAPHENE_COMMITTEE_ACCOUNT) (\<lambda>acct.
       require (apf_publisher op \<in> active_account_auths acct) ''active.account_auths.count(o.publisher)'' (Inr ()))
     else require (feeds_has (apf_publisher op) (bd_feeds b)) ''bitasset.feeds.count(o.publisher)'' (Inr ())))))))"

text \<open>Whether a settled asset can be revived at its new feed.\<close>

definition can_revive :: "asset_id_type \<Rightarrow> int \<Rightarrow> asset_bitasset_data_object \<Rightarrow> bool result" where
  "can_revive a supply b =
     (if price_is_null (settlement_price (bd_current_feed b)) then Inr False
      else if supply = 0 then Inr True
      else
        bind_res (call_price (mk_asset supply a) (mk_asset (bd_settlement_fund b) (bo_short_backing_asset (bd_options b)))
            (maintenance_collateral_ratio (bd_current_feed b))) (\<lambda>p.
        Inr (price_less (price_inv p) (settlement_price (bd_current_feed b)))))"

definition publish_feed :: "account_id_type \<Rightarrow> price_feed \<Rightarrow> nat \<Rightarrow> asset_bitasset_data_object \<Rightarrow> asset_bitasset_data_object" where
  "publish_feed publisher feed now b = update_median_feeds now (b\<lparr>bd_feeds := feeds_set publisher (now, feed) (bd_feeds b)\<rparr>)"

definition asset_publish_feed_do_apply :: "fc_lib \<Rightarrow> asset_publish_feed_operation \<Rightarrow> database \<Rightarrow> database result" where
  "asset_publish_feed_do_apply F op d =
     bind_res (get_obj (assets d) (apf_asset_id op)) (\<lambda>a.
     bind_res (bitasset_data a d) (\<lambda>old.
     bind_res (modify_bitasset a (publish_feed (apf_publisher op) (apf_feed op) (head_block_time d)) d) (\<lambda>d1.
     bind_res (bitasset_data a d1) (\<lambda>bad.
     if price_feed_eq (bd_current_feed old) (bd_current_feed bad) then Inr d1
     else
       bind_res
         (if has_settlement bad then
            bind_res (get_obj (asset_dyn d1) (dynamic_asset_data_id a)) (\<lambda>mia_dyn.
            bind_res (can_revive (apf_asset_id op) (current_supply mia_dyn) bad) (\<lambda>revive.
            if revive then revive_bitasset F (apf_asset_id op) d1 else Inr d1))
          else Inr d1) (\<lambda>d2.
       bind_res (check_call_orders F (apf_asset_id op) True False d2) (\<lambda>(_, d3). Inr d3))))))"

definition asset_publish_feed_evaluate :: "fc_lib \<Rightarrow> trx_state \<Rightarrow> int \<Rightarrow> asset_publish_feed_operation \<Rightarrow> database \<Rightarrow> database result" where
  "asset_publish_feed_evaluate F ts required_fee op d =
     bind_res (asset_publish_feed_validate op) (\<lambda>_.
     start_evaluate F ts required_fee (apf_publisher op) (apf_fee op) (asset_publish_feed_do_evaluate op)
       (\<lambda>_. asset_publish_feed_do_apply F op) d)"

end
