(* ===== verification/Price_Ratio.thy ===== *)
theory Price_Ratio
  imports Asset_Price
begin

text \<open>
  Scaling a price by a ratio: \<open>operator *\<close> and \<open>operator /\<close> of \<open>price\<close> and \<open>ratio_type\<close> in
  \<open>libraries/chain/protocol/asset.cpp\<close>. The exact product is halved until both parts are share amounts;
  when that loses accuracy the result is compared with the nearest price with a part equal to one. The
  products fit the 128-bit integers of the code, so the model computes with integers. A ratio is the pair of
  its numerator and denominator.
\<close>

function ratio_shrink :: "int \<Rightarrow> int \<Rightarrow> (int \<times> int) \<times> bool" where
  "ratio_shrink n d =
     (if n > GRAPHENE_MAX_SHARE_SUPPLY \<or> d > GRAPHENE_MAX_SHARE_SUPPLY then
        (if n = 1 then ((1, GRAPHENE_MAX_SHARE_SUPPLY), False)
         else if d = 1 then ((GRAPHENE_MAX_SHARE_SUPPLY, 1), False)
         else (case rat_norm (n div 2) (d div 2) of (n', d') \<Rightarrow> (fst (ratio_shrink n' d'), True)))
      else ((n, d), False))"
  by pat_completeness auto
termination
proof (relation "measure (\<lambda>(n, d). nat (\<bar>n\<bar> + \<bar>d\<bar>))", goal_cases)
  case (2 n d n' d')
  from rat_norm_abs_le [of "n div 2" "d div 2"]
  have le: "\<bar>n'\<bar> \<le> \<bar>n div 2\<bar>" "\<bar>d'\<bar> \<le> \<bar>d div 2\<bar>" by (simp_all add: 2(4) [symmetric])
  have half: "\<bar>x div 2\<bar> \<le> \<bar>x\<bar>" "1 < x \<Longrightarrow> \<bar>x div 2\<bar> < \<bar>x\<bar>" for x :: int by presburger+
  from 2(1) have "1 < n \<or> 1 < d" by (auto simp: GRAPHENE_MAX_SHARE_SUPPLY_def)
  then have "\<bar>n'\<bar> + \<bar>d'\<bar> < \<bar>n\<bar> + \<bar>d\<bar>" using le half(1) [of n] half(1) [of d] half(2) [of n] half(2) [of d] by linarith
  then show ?case by simp
qed simp

declare ratio_shrink.simps [simp del]

text \<open>The nearest price with a part equal to one.\<close>

definition ratio_edge :: "int \<Rightarrow> int \<Rightarrow> int \<times> int" where
  "ratio_edge num den =
     (if num > den then (min (num div den) GRAPHENE_MAX_SHARE_SUPPLY, 1)
      else (1, min (den div num) GRAPHENE_MAX_SHARE_SUPPLY))"

text \<open>Which of two fractions is closer to a third: the sign of \<open>\<bar>a - c\<bar> - \<bar>b - c\<bar>\<close>, with positive denominators.\<close>

definition closer :: "int \<times> int \<Rightarrow> int \<times> int \<Rightarrow> int \<times> int \<Rightarrow> bool" where
  "closer a b c \<longleftrightarrow>
     \<bar>fst a * snd c - fst c * snd a\<bar> * snd b < \<bar>fst b * snd c - fst c * snd b\<bar> * snd a"

definition ratio_round :: "int \<times> int \<Rightarrow> int \<times> int" where
  "ratio_round ocp =
     (case ratio_shrink (fst ocp) (snd ocp) of (cp, shrinked) \<Rightarrow>
        if shrinked then
          (let ncp = ratio_edge (fst ocp) (snd ocp) in
           if fst ncp = GRAPHENE_MAX_SHARE_SUPPLY \<or> snd ncp = GRAPHENE_MAX_SHARE_SUPPLY then ncp
           else if closer ncp cp ocp then ncp else cp)
        else cp)"

definition price_mul_ratio :: "price \<Rightarrow> int \<times> int \<Rightarrow> price result" where
  "price_mul_ratio p r =
     bind_res (price_validate p) (\<lambda>_.
     require (fst r > 0 \<and> snd r > 0) ''r.numerator() > 0 && r.denominator() > 0''
    (if fst r = snd r then Inr p
     else
       bind_res (rational (amount (base p)) (amount (quote p))) (\<lambda>p128.
       bind_res (rational (fst r) (snd r)) (\<lambda>r128.
       bind_res (rational (fst p128 * fst r128) (snd p128 * snd r128)) (\<lambda>ocp.
       let cp = ratio_round ocp in
       bind_res (price_of (mk_asset (fst cp) (asset_id (base p))) (mk_asset (snd cp) (asset_id (quote p)))) (\<lambda>np0.
       let np = (if fst r > snd r \<and> price_less np0 p \<or> fst r < snd r \<and> price_greater np0 p then p else np0) in
       bind_res (price_validate np) (\<lambda>_. Inr np)))))))"

definition price_div_ratio :: "price \<Rightarrow> int \<times> int \<Rightarrow> price result" where
  "price_div_ratio p r = bind_res (rational (snd r) (fst r)) (\<lambda>r'. price_mul_ratio p r')"

subsection \<open>The scaled price\<close>

lemma rat_norm_parts: "0 < n \<Longrightarrow> 0 < d \<Longrightarrow> 0 < fst (rat_norm n d) \<and> 0 < snd (rat_norm n d)"
  by (simp add: rat_norm_def Let_def pos_imp_zdiv_pos_iff gcd_le1_int gcd_le2_int)

lemma ratio_shrink_range:
  assumes "0 < n" "0 < d"
  shows "0 < fst (fst (ratio_shrink n d)) \<and> fst (fst (ratio_shrink n d)) \<le> GRAPHENE_MAX_SHARE_SUPPLY
     \<and> 0 < snd (fst (ratio_shrink n d)) \<and> snd (fst (ratio_shrink n d)) \<le> GRAPHENE_MAX_SHARE_SUPPLY"
  using assms
proof (induction n d rule: ratio_shrink.induct)
  case (1 n d)
  show ?case
  proof (cases "(n > GRAPHENE_MAX_SHARE_SUPPLY \<or> d > GRAPHENE_MAX_SHARE_SUPPLY) \<and> n \<noteq> 1 \<and> d \<noteq> 1")
    case True
    obtain n' d' where nd: "rat_norm (n div 2) (d div 2) = (n', d')" by fastforce
    have "0 < n div 2" "0 < d div 2" using True 1(2,3) by presburger+
    from rat_norm_parts [OF this] have "0 < n' \<and> 0 < d'" by (simp add: nd)
    then show ?thesis using True 1(1) [OF _ _ _ nd [symmetric]] by (simp add: ratio_shrink.simps [of n d] nd)
  next
    case False
    then show ?thesis using 1(2,3) by (auto simp: ratio_shrink.simps [of n d] GRAPHENE_MAX_SHARE_SUPPLY_def)
  qed
qed

lemma ratio_edge_range:
  assumes "0 < n" "0 < d"
  shows "0 < fst (ratio_edge n d) \<and> fst (ratio_edge n d) \<le> GRAPHENE_MAX_SHARE_SUPPLY
     \<and> 0 < snd (ratio_edge n d) \<and> snd (ratio_edge n d) \<le> GRAPHENE_MAX_SHARE_SUPPLY"
  using assms by (auto simp: ratio_edge_def GRAPHENE_MAX_SHARE_SUPPLY_def pos_imp_zdiv_pos_iff)

lemma ratio_round_range:
  assumes "0 < fst c" "0 < snd c"
  shows "0 < fst (ratio_round c)" "fst (ratio_round c) \<le> GRAPHENE_MAX_SHARE_SUPPLY"
    "0 < snd (ratio_round c)" "snd (ratio_round c) \<le> GRAPHENE_MAX_SHARE_SUPPLY"
  using ratio_shrink_range [OF assms] ratio_edge_range [OF assms]
  by (auto simp: ratio_round_def Let_def split: prod.split)

text \<open>C34: Scaling a valid price by a positive ratio always gives a valid price of the same market, whose parts are
  share amounts unless it is the given price itself; a ratio above one never lowers the price and
  one below never raises it.\<close>

theorem price_mul_ratio_sound:
  assumes "price_validate p = Inr ()" "0 < fst r" "0 < snd r"
  shows "\<exists>np. price_mul_ratio p r = Inr np \<and> price_validate np = Inr ()
    \<and> asset_id (base np) = asset_id (base p) \<and> asset_id (quote np) = asset_id (quote p)
    \<and> (np = p \<or> amount (base np) \<le> GRAPHENE_MAX_SHARE_SUPPLY \<and> amount (quote np) \<le> GRAPHENE_MAX_SHARE_SUPPLY)
    \<and> (snd r \<le> fst r \<longrightarrow> np = p \<or> \<not> price_less np p) \<and> (fst r \<le> snd r \<longrightarrow> np = p \<or> \<not> price_greater np p)"
proof (cases "fst r = snd r")
  case True
  then show ?thesis using assms by (simp add: price_mul_ratio_def)
next
  case False
  have pos: "0 < amount (base p)" "0 < amount (quote p)" and ids: "asset_id (base p) \<noteq> asset_id (quote p)"
    using assms(1) by (simp_all add: price_validate_def)
  define c where "c = rat_norm (fst (rat_norm (amount (base p)) (amount (quote p))) * fst (rat_norm (fst r) (snd r)))
     (snd (rat_norm (amount (base p)) (amount (quote p))) * snd (rat_norm (fst r) (snd r)))"
  note parts = rat_norm_parts [OF pos] rat_norm_parts [OF assms(2,3)]
  have c: "0 < fst c" "0 < snd c" using rat_norm_parts [of "fst (rat_norm (amount (base p)) (amount (quote p))) * fst (rat_norm (fst r) (snd r))"
      "snd (rat_norm (amount (base p)) (amount (quote p))) * snd (rat_norm (fst r) (snd r))"] parts by (simp_all add: c_def)
  define np0 where "np0 = \<lparr>base = mk_asset (fst (ratio_round c)) (asset_id (base p)), quote = mk_asset (snd (ratio_round c)) (asset_id (quote p))\<rparr>"
  define np where "np = (if fst r > snd r \<and> price_less np0 p \<or> fst r < snd r \<and> price_greater np0 p then p else np0)"
  note rr = ratio_round_range [OF c]
  have v: "price_validate np = Inr ()" using assms(1) rr ids by (simp add: np_def np0_def price_validate_def)
  have "price_mul_ratio p r = Inr np"
    using assms False pos parts v ids
    by (simp add: price_mul_ratio_def rational_def Let_def price_of_def c_def [symmetric] np0_def [symmetric])
      (use v in \<open>auto simp: np_def split: if_splits\<close>)
  then show ?thesis using v rr False by (auto simp: np_def np0_def)
qed

theorem price_mul_ratio_sound_witness:
  "\<exists>np. price_mul_ratio \<lparr>base = mk_asset 10 1, quote = mk_asset 7 0\<rparr> (99, 100) = Inr np \<and> amount (base np) = 99 \<and> amount (quote np) = 70"
proof -
  obtain np where np: "price_mul_ratio \<lparr>base = mk_asset 10 1, quote = mk_asset 7 0\<rparr> (99, 100) = Inr np"
    using price_mul_ratio_sound [of "\<lparr>base = mk_asset 10 1, quote = mk_asset 7 0\<rparr>" "(99, 100)"] by (auto simp: price_validate_def)
  have "price_mul_ratio \<lparr>base = mk_asset 10 1, quote = mk_asset 7 0\<rparr> (99, 100) = Inr \<lparr>base = mk_asset 99 1, quote = mk_asset 70 0\<rparr>"
    by code_simp
  with np show ?thesis by simp
qed

end
