(* ===== verification/Settlement.thy ===== *)
theory Settlement
  imports Bitasset_Ops Price_Ratio
begin

text \<open>
  What the chain does by itself with orders, settlement requests, feeds and bids: \<open>clear_expired_orders\<close> and
  \<open>update_expired_feeds\<close> after every block (\<open>libraries/chain/db_update.cpp\<close>), \<open>process_bids\<close>, \<open>process_bitassets\<close> and the one-time
  repairs of the hard forks at maintenance (\<open>db_maint.cpp\<close>).
\<close>

definition HARDFORK_615_TIME :: nat where "HARDFORK_615_TIME = 1458752400"
definition HARDFORK_CORE_518_TIME :: nat where "HARDFORK_CORE_518_TIME = 1532008920"

subsection \<open>Expired limit orders\<close>

definition expiration_book :: "database \<Rightarrow> (nat \<times> limit_order_object) list" where
  "expiration_book d = sort_rows (\<lambda>x y. lo_expiration x < lo_expiration y) (rows (limit_orders d))"

definition expire_limit_step :: "fc_lib \<Rightarrow> database \<Rightarrow> (database + database) result" where
  "expire_limit_step F d =
     (case expiration_book d of
        [] \<Rightarrow> Inr (Inr d)
      | (i, order) # _ \<Rightarrow>
          if lo_expiration order \<le> head_block_time d then
            bind_res (cancel_limit_order F i True False d) (\<lambda>d1.
            if maint_time d \<le> HARDFORK_CORE_606_TIME then
              bind_res (check_call_orders F (sell_asset_id order) True False d1) (\<lambda>(_, d2).
              bind_res (check_call_orders F (receive_asset_id order) True False d2) (\<lambda>(_, d3). Inr (Inl d3)))
            else Inr (Inl d1))
          else Inr (Inr d))"

definition expire_limit_orders :: "fc_lib \<Rightarrow> database \<Rightarrow> database result" where
  "expire_limit_orders F d = run_loop (expire_limit_step F) d"

subsection \<open>Forced settlement\<close>

text \<open>The variables of the loop over the settlement requests.\<close>

record settle_state =
  ss_current_asset :: asset_id_type
  ss_max_settlement_volume :: asset
  ss_settlement_fill_price :: price
  ss_settlement_price :: price
  ss_current_asset_finished :: bool
  ss_db :: database

definition next_asset :: "settle_state \<Rightarrow> (settle_state + database) result" where
  "next_asset s =
     (case filter (\<lambda>(i, x). asset_id (fs_balance x) > ss_current_asset s) (settle_book (ss_db s)) of
        [] \<Rightarrow> Inr (Inr (ss_db s))
      | (i, x) # _ \<Rightarrow> Inr (Inl (s\<lparr>ss_current_asset := asset_id (fs_balance x), ss_current_asset_finished := False\<rparr>)))"

text \<open>One request against the least collateralized positions, until it is settled or the volume of the asset is used up: the settled
  volume, whether the asset is finished, and the database.\<close>

definition settle_match_step :: "fc_lib \<Rightarrow> asset_id_type \<Rightarrow> nat \<Rightarrow> price \<Rightarrow> asset \<Rightarrow> asset \<times> bool \<times> database
    \<Rightarrow> (asset \<times> bool \<times> database + asset \<times> bool \<times> database) result" where
  "settle_match_step F mia_id order_id match_price max_volume = (\<lambda>(settled, finished, d).
     bind_res (asset_less settled max_volume) (\<lambda>room.
     case tbl_find (settle_orders d) order_id of
       None \<Rightarrow> Inr (Inr (settled, finished, d))
     | Some order \<Rightarrow>
         if \<not> room then Inr (Inr (settled, finished, d))
         else
           bind_res (get_obj (assets d) mia_id) (\<lambda>mia_object.
           bind_res (bitasset_data mia_object d) (\<lambda>mia.
           bind_res (least_collateralized (bo_short_backing_asset (bd_options mia)) mia_id d) (\<lambda>(call_id, _).
           bind_res (asset_minus F max_volume settled) (\<lambda>max_settlement.
           if amount (fs_balance order) = 0 then
             bind_res (cancel_settle_order F order_id d) (\<lambda>d1. Inr (Inr (settled, finished, d1)))
           else
             (case match_call_settle F call_id order_id match_price max_settlement d of
                Inl e \<Rightarrow>
                  if e = Other_Exception ''black_swan_exception''
                  then bind_res (cancel_settle_order F order_id d) (\<lambda>d1. Inr (Inr (settled, finished, d1)))
                  else Inl e
              | Inr (new_settled, d1) \<Rightarrow>
                  if maint_time d > HARDFORK_CORE_184_TIME \<and> amount new_settled = 0
                  then Inr (Inr (settled, finished \<or> tbl_find (settle_orders d1) order_id \<noteq> None, d1))
                  else bind_res (asset_plus F settled new_settled) (\<lambda>settled1. Inr (Inl (settled1, finished, d1))))))))))"

definition settlement_prices :: "fc_lib \<Rightarrow> force_settlement_object \<Rightarrow> asset_bitasset_data_object \<Rightarrow> settle_state \<Rightarrow> (price \<times> price) result" where
  "settlement_prices F order mia s =
     (let current = asset_id (fs_balance order); feed_price = settlement_price (bd_current_feed mia);
          share = int GRAPHENE_100_PERCENT - int (bo_force_settlement_offset_percent (bd_options mia)) in
      bind_res
        (if asset_id (base (ss_settlement_fill_price s)) \<noteq> current
         then bind_res (rational share (int GRAPHENE_100_PERCENT)) (price_div_ratio feed_price)
         else Inr (ss_settlement_fill_price s)) (\<lambda>fill_price.
      bind_res
        (if maint_time (ss_db s) \<le> HARDFORK_CORE_342_TIME then
           bind_res (mul_price (fs_balance order) feed_price) (\<lambda>worth.
           bind_res (to_share F (to_u128 (amount worth) * to_u128 share div of_nat GRAPHENE_100_PERCENT)) (\<lambda>receives.
           require (receives \<le> amount worth) ''receives <= order.balance * mia.current_feed.settlement_price''
             (price_of (fs_balance order) (mk_asset receives (asset_id worth)))))
         else if asset_id (base (ss_settlement_price s)) \<noteq> current then Inr fill_price
         else Inr (ss_settlement_price s)) (\<lambda>settle_price.
      Inr (fill_price, settle_price))))"

definition set_settled_volume :: "asset_object \<Rightarrow> int \<Rightarrow> database \<Rightarrow> database result" where
  "set_settled_volume mia_object v d =
     bind_res (bitasset_data mia_object d) (\<lambda>mia.
     if bd_force_settled_volume mia \<noteq> v then modify_bitasset mia_object (\<lambda>b. b\<lparr>bd_force_settled_volume := v\<rparr>) d else Inr d)"

text \<open>Settling one request whose time has come.\<close>

definition settle_order :: "fc_lib \<Rightarrow> nat \<Rightarrow> force_settlement_object \<Rightarrow> asset_object \<Rightarrow> asset_bitasset_data_object \<Rightarrow> settle_state
    \<Rightarrow> (settle_state + database) result" where
  "settle_order F order_id order mia_object mia s =
     (let current = asset_id (fs_balance order) in
      bind_res
        (if asset_id (ss_max_settlement_volume s) \<noteq> current then
           bind_res (get_obj (asset_dyn (ss_db s)) (dynamic_asset_data_id mia_object)) (\<lambda>dyn.
           bind_res (max_force_settlement_volume F (current_supply dyn) mia) (\<lambda>v. Inr (mk_asset v current)))
         else Inr (ss_max_settlement_volume s)) (\<lambda>max_volume.
      let s1 = s\<lparr>ss_max_settlement_volume := max_volume\<rparr> in
      if bd_force_settled_volume mia \<ge> amount max_volume \<or> ss_current_asset_finished s then next_asset s1
      else
        bind_res (settlement_prices F order mia s1) (\<lambda>(fill_price, settle_price).
        bind_res (run_loop (settle_match_step F current order_id settle_price max_volume)
            (mk_asset (bd_force_settled_volume mia) current, ss_current_asset_finished s, ss_db s)) (\<lambda>(settled, finished, d1).
        bind_res (set_settled_volume mia_object (amount settled) d1) (\<lambda>d2.
        Inr (Inl (s1\<lparr>ss_settlement_fill_price := fill_price, ss_settlement_price := settle_price,
                     ss_current_asset_finished := finished, ss_db := d2\<rparr>)))))))"

definition settlement_step :: "fc_lib \<Rightarrow> settle_state \<Rightarrow> (settle_state + database) result" where
  "settlement_step F s =
     (case filter (\<lambda>(i, x). asset_id (fs_balance x) \<ge> ss_current_asset s) (settle_book (ss_db s)) of
        [] \<Rightarrow> Inr (Inr (ss_db s))
      | (order_id, order) # _ \<Rightarrow>
          let current = asset_id (fs_balance order); s0 = s\<lparr>ss_current_asset := current\<rparr> in
          bind_res (get_obj (assets (ss_db s)) current) (\<lambda>mia_object.
          bind_res (bitasset_data mia_object (ss_db s)) (\<lambda>mia.
          if has_settlement mia then
            bind_res (cancel_settle_order F order_id (ss_db s)) (\<lambda>d1. Inr (Inl (s0\<lparr>ss_db := d1\<rparr>)))
          else if fs_settlement_date order > head_block_time (ss_db s) then next_asset s0
          else if price_is_null (settlement_price (bd_current_feed mia)) then
            bind_res (cancel_settle_order F order_id (ss_db s)) (\<lambda>d1. Inr (Inl (s0\<lparr>ss_db := d1\<rparr>)))
          else settle_order F order_id order mia_object mia s0)))"

definition process_settlements :: "fc_lib \<Rightarrow> database \<Rightarrow> database result" where
  "process_settlements F d =
     (case settle_book d of
        [] \<Rightarrow> Inr d
      | (_, x) # _ \<Rightarrow>
          run_loop (settlement_step F) \<lparr>ss_current_asset = asset_id (fs_balance x), ss_max_settlement_volume = mk_asset 0 0,
            ss_settlement_fill_price = price_default, ss_settlement_price = price_default, ss_current_asset_finished = False, ss_db = d\<rparr>)"

definition clear_expired_orders :: "fc_lib \<Rightarrow> database \<Rightarrow> database result" where
  "clear_expired_orders F d = bind_res (expire_limit_orders F d) (process_settlements F)"

subsection \<open>Expired feeds\<close>

definition feed_has_expired :: "database \<Rightarrow> asset_bitasset_data_object \<Rightarrow> bool" where
  "feed_has_expired d b =
     (if head_block_time d < HARDFORK_615_TIME then feed_is_expired_before_hardfork_615 (head_block_time d) b
      else feed_is_expired (head_block_time d) b)"

definition refresh_expired_feed :: "fc_lib \<Rightarrow> asset_object \<Rightarrow> database \<Rightarrow> database result" where
  "refresh_expired_feed F a d =
     bind_res (bitasset_data a d) (\<lambda>b.
     if feed_has_expired d b then
       bind_res (modify_bitasset a (update_median_feeds (head_block_time d)) d) (\<lambda>d1.
       bind_res (bitasset_data a d1) (\<lambda>b1.
       bind_res (get_obj (assets d1) (asset_id (base (settlement_price (bd_current_feed b1))))) (\<lambda>_.
       bind_res (check_call_orders F (asset_id (base (settlement_price (bd_current_feed b1)))) True False d1) (\<lambda>(_, d2). Inr d2))))
     else Inr d)"

definition copy_core_rate :: "asset_id_type \<Rightarrow> asset_object \<Rightarrow> database \<Rightarrow> database result" where
  "copy_core_rate i a d =
     bind_res (bitasset_data a d) (\<lambda>b.
     if \<not> price_is_null (core_exchange_rate (bd_current_feed b))
         \<and> \<not> price_eq (ao_core_exchange_rate (options a)) (core_exchange_rate (bd_current_feed b))
     then modify_asset i (\<lambda>x. x\<lparr>options := (options x)\<lparr>ao_core_exchange_rate := core_exchange_rate (bd_current_feed b)\<rparr>\<rparr>) d
     else Inr d)"

definition update_expired_feed :: "fc_lib \<Rightarrow> asset_id_type \<Rightarrow> database \<Rightarrow> database result" where
  "update_expired_feed F i d =
     bind_res (get_obj (assets d) i) (\<lambda>a.
     bind_res (refresh_expired_feed F a d) (copy_core_rate i a))"

definition update_expired_feeds :: "fc_lib \<Rightarrow> database \<Rightarrow> database result" where
  "update_expired_feeds F d = fold_res (update_expired_feed F) (market_issued_ids d) d"

subsection \<open>Bids for a settled asset\<close>

text \<open>The bids, best first, that together cover the supply of the asset at a price above its margin call price.\<close>

fun covering_bids :: "fc_lib \<Rightarrow> asset_bitasset_data_object \<Rightarrow> int \<Rightarrow> int \<Rightarrow> nat list \<Rightarrow> database \<Rightarrow> (int \<times> nat list) result" where
  "covering_bids F bad supply covered [] d = Inr (covered, [])"
| "covering_bids F bad supply covered (i # is) d =
     (if \<not> covered < supply then Inr (covered, [])
      else
        bind_res (tbl_get (collateral_bids d) i) (\<lambda>bid.
        bind_res (mul_price (quote (cbo_inv_swan_price bid)) (bd_settlement_price bad)) (\<lambda>from_fund.
        bind_res (asset_plus F from_fund (base (cbo_inv_swan_price bid))) (\<lambda>total_collateral.
        bind_res (call_price (quote (cbo_inv_swan_price bid)) total_collateral (maintenance_collateral_ratio (bd_current_feed bad))) (\<lambda>cp.
        if price_ge (price_inv cp) (settlement_price (bd_current_feed bad)) then Inr (covered, [])
        else
          bind_res (safe_add F covered (amount (quote (cbo_inv_swan_price bid)))) (\<lambda>covered1.
          bind_res (covering_bids F bad supply covered1 is d) (\<lambda>(c, taken). Inr (c, i # taken))))))))"

definition execute_covering_bid :: "fc_lib \<Rightarrow> asset_bitasset_data_object \<Rightarrow> nat \<Rightarrow> int \<times> int \<times> database \<Rightarrow> (int \<times> int \<times> database) result" where
  "execute_covering_bid F bad i = (\<lambda>(to_cover, remaining_fund, d).
     bind_res (tbl_get (collateral_bids d) i) (\<lambda>bid.
     let debt_bid = quote (cbo_inv_swan_price bid) in
     bind_res (mul_price debt_bid (bd_settlement_price bad)) (\<lambda>share.
     let debt = (if amount debt_bid \<ge> to_cover then to_cover else amount debt_bid);
         collateral = (if amount debt_bid \<ge> to_cover then remaining_fund else amount share) in
     bind_res (safe_sub F to_cover debt) (\<lambda>to_cover1.
     bind_res (safe_sub F remaining_fund collateral) (\<lambda>remaining_fund1.
     bind_res (execute_bid F i debt collateral (bd_current_feed bad) d) (\<lambda>d1.
     Inr (to_cover1, remaining_fund1, d1)))))))"

definition process_bids :: "fc_lib \<Rightarrow> asset_bitasset_data_object \<Rightarrow> database \<Rightarrow> database result" where
  "process_bids F bad d =
     (if bd_is_prediction_market bad then Inr d
      else if price_is_null (settlement_price (bd_current_feed bad)) then Inr d
      else
        bind_res (mul_price (mk_asset 0 (bo_short_backing_asset (bd_options bad))) (bd_settlement_price bad)) (\<lambda>x.
        let to_revive_id = asset_id x in
        bind_res (get_obj (assets d) to_revive_id) (\<lambda>to_revive.
        bind_res (get_obj (asset_dyn d) (dynamic_asset_data_id to_revive)) (\<lambda>bdd.
        bind_res (price_max (bo_short_backing_asset (bd_options bad)) to_revive_id) (\<lambda>highest.
        bind_res (covering_bids F bad (current_supply bdd) 0 (bids_of to_revive_id highest d) d) (\<lambda>(covered, taken).
        if covered < current_supply bdd then Inr d
        else
          bind_res (fold_res (execute_covering_bid F bad) taken (current_supply bdd, bd_settlement_fund bad, d)) (\<lambda>(to_cover, remaining_fund, d1).
          require (remaining_fund = 0) ''remaining_fund == 0''
         (require (to_cover = 0) ''to_cover == 0'' (cancel_bids_and_revive_mpa F to_revive_id d1))))))))) "

subsection \<open>Maintenance of market-issued assets\<close>

definition clear_old_feeds :: "asset_object \<Rightarrow> nat \<Rightarrow> asset_bitasset_data_object \<Rightarrow> asset_bitasset_data_object" where
  "clear_old_feeds a now b =
     (if has_flag (ao_flags (options a)) (witness_fed_asset OR committee_fed_asset) \<and> bo_feed_lifetime_sec (bd_options b) < now
      then b\<lparr>bd_feeds := filter (\<lambda>(_, t, _). \<not> t < now - bo_feed_lifetime_sec (bd_options b)) (bd_feeds b)\<rparr>
      else b)"

definition update_bitasset :: "nat \<Rightarrow> database \<Rightarrow> database result" where
  "update_bitasset i d =
     bind_res (get_obj (bitassets d) i) (\<lambda>b.
     let b1 = b\<lparr>bd_force_settled_volume := 0\<rparr> in
     bind_res
       (if head_block_time d \<ge> HARDFORK_CORE_518_TIME
        then bind_res (get_obj (assets d) (bd_asset_id b)) (\<lambda>a. Inr (clear_old_feeds a (head_block_time d) b1))
        else Inr b1) (\<lambda>b2.
     Inr (d\<lparr>bitassets := (bitassets d)[i := b2]\<rparr>)))"

definition process_bitasset :: "fc_lib \<Rightarrow> nat \<Rightarrow> database \<Rightarrow> database result" where
  "process_bitasset F i d =
     bind_res (update_bitasset i d) (\<lambda>d1.
     bind_res (get_obj (bitassets d1) i) (\<lambda>b.
     if has_settlement b then process_bids F b d1 else Inr d1))"

definition process_bitassets :: "fc_lib \<Rightarrow> database \<Rightarrow> database result" where
  "process_bitassets F d = fold_res (process_bitasset F) [0..<length (bitassets d)] d"

subsection \<open>One-time repairs at hard forks\<close>

text \<open>New call prices for all positions, then margin calls in every market.\<close>

definition refresh_call_price :: "nat \<Rightarrow> database \<Rightarrow> database result" where
  "refresh_call_price i d =
     bind_res (tbl_get (call_orders d) i) (\<lambda>call.
     bind_res (get_obj (assets d) (debt_type call)) (\<lambda>a.
     bind_res (bitasset_data a d) (\<lambda>abd.
     if bd_is_prediction_market abd then Inr d
     else
       bind_res (call_price (get_debt call) (get_collateral call) (maintenance_collateral_ratio (bd_current_feed abd))) (\<lambda>p.
       Inr (d\<lparr>call_orders := tbl_set i (call\<lparr>co_call_price := p\<rparr>) (call_orders d)\<rparr>)))))"

definition match_all_calls :: "fc_lib \<Rightarrow> database \<Rightarrow> database result" where
  "match_all_calls F d = fold_res (\<lambda>i d. bind_res (check_call_orders F i True False d) (\<lambda>(_, d1). Inr d1)) (market_issued_ids d) d"

definition update_and_match_call_orders :: "fc_lib \<Rightarrow> database \<Rightarrow> database result" where
  "update_and_match_call_orders F d =
     bind_res (fold_res refresh_call_price (map fst (collateral_book d)) d) (match_all_calls F)"

text \<open>Feeds quoted in a former backing asset are removed or nullified.\<close>

definition feed_invalid :: "bool \<Rightarrow> asset_bitasset_data_object \<Rightarrow> price_feed \<Rightarrow> bool" where
  "feed_invalid fed b f \<longleftrightarrow> asset_id (quote (settlement_price f)) \<noteq> bo_short_backing_asset (bd_options b)
     \<and> (fed \<or> \<not> price_eq (settlement_price f) price_default)"

definition repair_feeds :: "bool \<Rightarrow> asset_bitasset_data_object \<Rightarrow> asset_bitasset_data_object" where
  "repair_feeds fed b =
     b\<lparr>bd_feeds := (if fed then filter (\<lambda>(_, _, f). \<not> feed_invalid fed b f) (bd_feeds b)
        else map (\<lambda>(k, t, f). (k, t, if feed_invalid fed b f then f\<lparr>settlement_price := price_default\<rparr> else f)) (bd_feeds b))\<rparr>"

definition repair_asset_868_890 :: "fc_lib \<Rightarrow> bool \<Rightarrow> asset_id_type \<Rightarrow> database \<Rightarrow> database result" where
  "repair_asset_868_890 F skip_check_call_orders i d =
     bind_res (get_obj (assets d) i) (\<lambda>a.
     bind_res (bitasset_data a d) (\<lambda>b.
     let fed = has_flag (ao_flags (options a)) (witness_fed_asset OR committee_fed_asset) in
     bind_res (modify_bitasset a (\<lambda>x. update_median_feeds (head_block_time d) (repair_feeds fed x)) d) (\<lambda>d1.
     bind_res (bitasset_data a d1) (\<lambda>b1.
     if \<not> skip_check_call_orders \<and> \<not> price_eq (settlement_price (bd_current_feed b)) (settlement_price (bd_current_feed b1))
     then bind_res (check_call_orders F i True False d1) (\<lambda>(_, d2). Inr d2)
     else Inr d1))))"

definition process_hf_868_890 :: "fc_lib \<Rightarrow> bool \<Rightarrow> database \<Rightarrow> database result" where
  "process_hf_868_890 F skip_check_call_orders d = fold_res (repair_asset_868_890 F skip_check_call_orders) (market_issued_ids d) d"

definition process_hf_935 :: "fc_lib \<Rightarrow> database \<Rightarrow> database result" where
  "process_hf_935 F d = match_all_calls F d"

end
