(* ===== verification/Asset_Ledger.thy ===== *)
theory Asset_Ledger
  imports Order_Ledger Settlement
begin

text \<open>Issuing, reserving and claiming of assets, price feeds and the revival of settled assets on the ledger: how each changes what is held.\<close>

subsection \<open>Issue, reserve, fee pools and claims\<close>

lemma dyn_step:
  assumes "modify_dyn i f d = Inr e" "i = dynamic_asset_data_id (assets d ! a)" "market_wf d" "a < length (assets d)" "y < length (assets d)"
    and "\<And>x x'. f x = Inr x' \<Longrightarrow> dyn_shift khd y a x x' = \<delta>"
  shows "shift khd y d e \<delta>" "quiet d e"
proof -
  have m: "modify_dyn (dynamic_asset_data_id (assets d ! a)) f d = Inr e" using assms(1,2) by simp
  have "shift khd y d e \<delta> \<and> quiet d e"
    by (rule modify_dyn_shift [OF m assms(3-5), of khd]) (use assms(6) in force)
  then show "shift khd y d e \<delta>" "quiet d e" by simp_all
qed

context fc_arith
begin

text \<open>Supply created on or taken from an account.\<close>

lemma mint_shift:
  assumes "adjust_balance F acct x d = Inr d1" "market_wf d" "acct < length (accounts d)" "y < length (assets d)" "asset_id x < length (assets d)"
    and "modify_dyn (dynamic_asset_data_id (assets d ! asset_id x)) (\<lambda>dyn. bind_res (safe_add F (current_supply dyn) (amount x))
        (\<lambda>s. Inr (dyn\<lparr>current_supply := s\<rparr>))) d1 = Inr e"
  shows "shift khd y d e 0"
proof -
  note 1 = adjust_shift(1) [OF assms(1-3), of khd y]
  have w: "market_wf d1" "assets d1 = assets d" using shiftD [OF 1] by auto
  have s2: "shift khd y d1 e (if y = asset_id x then amount x else 0)"
    by (rule dyn_step(1) [where a = "asset_id x", OF assms(6) _ w(1)]) (use w assms(4,5) in \<open>auto simp: fc_iffs dyn_shift_def dyn_net_def\<close>)
  show ?thesis using shift_trans [OF 1 s2] by (auto simp: in_asset_def split: if_splits)
qed

lemma burn_shift:
  assumes "deduct_balance F acct x d = Inr d1" "market_wf d" "acct < length (accounts d)" "y < length (assets d)" "asset_id x < length (assets d)"
    and "modify_dyn (dynamic_asset_data_id (assets d ! asset_id x)) (\<lambda>dyn. bind_res (safe_sub F (current_supply dyn) (amount x))
        (\<lambda>s. Inr (dyn\<lparr>current_supply := s\<rparr>))) d1 = Inr e"
  shows "shift khd y d e 0"
proof -
  note 1 = deduct_shift(1) [OF assms(1-3), of khd y]
  have w: "market_wf d1" "assets d1 = assets d" using shiftD [OF 1] by auto
  have s2: "shift khd y d1 e (- (if y = asset_id x then amount x else 0))"
    by (rule dyn_step(1) [where a = "asset_id x", OF assms(6) _ w(1)]) (use w assms(4,5) in \<open>auto simp: fc_iffs dyn_shift_def dyn_net_def\<close>)
  show ?thesis using shift_trans [OF 1 s2] by (auto simp: in_asset_def split: if_splits)
qed

lemma asset_issue_conserves:
  assumes "asset_issue_evaluate F ts fee op d = Inr d'" "\<not> skip_fee ts" "market_wf d" "y < length (assets d)"
  shows "shift khd y d d' 0"
proof -
  have run: "start_evaluate F ts fee (ai_issuer op) (ai_fee op) (asset_issue_do_evaluate F op) (asset_issue_do_apply F op) d = Inr d'"
    using assms(1) by (simp add: asset_issue_evaluate_def)
  show ?thesis
  proof (rule market_operation_conserves [OF run assms(2-4)])
    fix c d2 d3 assume ev: "asset_issue_do_evaluate F op d = Inr c" and fr: "fee_frame d d2" and w: "market_wf d2" "y < length (assets d2)"
      and ap: "asset_issue_do_apply F op c d2 = Inr d3"
    note same = quiet_fields(1,2) [OF fee_frame_quiet [OF fr]]
    from ev have ok: "ai_issue_to_account op < length (accounts d2)" "asset_id (ai_asset_to_issue op) < length (assets d2)"
      "c = dynamic_asset_data_id (assets d2 ! asset_id (ai_asset_to_issue op))"
      by (auto simp: asset_issue_do_evaluate_def same)
    from ap obtain d4 where "adjust_balance F (ai_issue_to_account op) (ai_asset_to_issue op) d2 = Inr d4"
      "modify_dyn c (\<lambda>dyn. bind_res (safe_add F (current_supply dyn) (amount (ai_asset_to_issue op))) (\<lambda>s. Inr (dyn\<lparr>current_supply := s\<rparr>))) d4 = Inr d3"
      by (auto simp: asset_issue_do_apply_def)
    then show "shift khd y d2 d3 0" using mint_shift w ok by blast
  qed
qed

lemma asset_reserve_conserves:
  assumes "asset_reserve_evaluate F ts fee op d = Inr d'" "\<not> skip_fee ts" "market_wf d" "y < length (assets d)"
  shows "shift khd y d d' 0"
proof -
  have run: "start_evaluate F ts fee (ar_payer op) (ar_fee op) (asset_reserve_do_evaluate F op) (asset_reserve_do_apply F op) d = Inr d'"
    using assms(1) by (simp add: asset_reserve_evaluate_def)
  show ?thesis
  proof (rule market_operation_conserves [OF run assms(2-4)])
    fix c d2 d3 assume ev: "asset_reserve_do_evaluate F op d = Inr c" and fr: "fee_frame d d2" and w: "market_wf d2" "y < length (assets d2)"
      and ap: "asset_reserve_do_apply F op c d2 = Inr d3"
    note same = quiet_fields(1,2) [OF fee_frame_quiet [OF fr]]
    from ev have ok: "ar_payer op < length (accounts d2)" "asset_id (ar_amount_to_reserve op) < length (assets d2)"
      "c = dynamic_asset_data_id (assets d2 ! asset_id (ar_amount_to_reserve op))"
      by (auto simp: asset_reserve_do_evaluate_def same split: if_splits)
    from ap obtain d4 where "deduct_balance F (ar_payer op) (ar_amount_to_reserve op) d2 = Inr d4"
      "modify_dyn c (\<lambda>dyn. bind_res (safe_sub F (current_supply dyn) (amount (ar_amount_to_reserve op))) (\<lambda>s. Inr (dyn\<lparr>current_supply := s\<rparr>))) d4 = Inr d3"
      by (auto simp: asset_reserve_do_apply_def)
    then show "shift khd y d2 d3 0" using burn_shift w ok by blast
  qed
qed

lemma asset_fund_fee_pool_conserves:
  assumes "asset_fund_fee_pool_evaluate F ts fee op d = Inr d'" "\<not> skip_fee ts" "market_wf d" "y < length (assets d)"
  shows "shift khd y d d' 0"
proof -
  have run: "start_evaluate F ts fee (af_from_account op) (af_fee op) (asset_fund_fee_pool_do_evaluate op) (asset_fund_fee_pool_do_apply F op) d = Inr d'"
    using assms(1) by (simp add: asset_fund_fee_pool_evaluate_def)
  have payer: "af_from_account op < length (accounts d)"
    using run prepare_fee_facts(2) by (auto simp: start_evaluate_def evaluate_op_def)
  show ?thesis
  proof (rule market_operation_conserves [OF run assms(2-4)])
    fix c d2 d3 assume ev: "asset_fund_fee_pool_do_evaluate op d = Inr c" and fr: "fee_frame d d2" and w: "market_wf d2" "y < length (assets d2)"
      and ap: "asset_fund_fee_pool_do_apply F op c d2 = Inr d3"
    note same = quiet_fields(1,2) [OF fee_frame_quiet [OF fr]]
    from ev have ok: "af_asset_id op < length (assets d2)" "c = dynamic_asset_data_id (assets d2 ! af_asset_id op)"
      by (auto simp: asset_fund_fee_pool_do_evaluate_def same)
    from ap obtain d4 where 1: "deduct_balance F (af_from_account op) (mk_asset (af_amount op) 0) d2 = Inr d4"
      and 2: "modify_dyn c (\<lambda>dyn. bind_res (safe_add F (fee_pool dyn) (af_amount op)) (\<lambda>s. Inr (dyn\<lparr>fee_pool := s\<rparr>))) d4 = Inr d3"
      by (auto simp: asset_fund_fee_pool_do_apply_def)
    have s1: "shift khd y d2 d4 (in_asset y (mk_asset (af_amount op) 0))"
      by (rule deduct_shift(1) [OF 1 w(1)]) (use payer same in simp)
    have w4: "market_wf d4" "assets d4 = assets d2" using shiftD [OF s1] by auto
    have s2: "shift khd y d4 d3 (- (if y = 0 then af_amount op else 0))"
      by (rule dyn_step(1) [where a = "af_asset_id op", OF 2 _ w4(1)]) (use w4 ok w in \<open>auto simp: fc_iffs dyn_shift_def dyn_net_def\<close>)
    show "shift khd y d2 d3 0" using shift_trans [OF s1 s2] by (simp add: in_asset_core)
  qed
qed

text \<open>A claim takes from a field of the dynamic data what it pays out.\<close>

lemma claim_shift:
  assumes "modify_dyn (dynamic_asset_data_id (assets d ! a)) f d = Inr d1" "adjust_balance F acct x d1 = Inr e"
    and "market_wf d" "a < length (assets d)" "y < length (assets d)" "acct < length (accounts d)"
    and "\<And>z z'. f z = Inr z' \<Longrightarrow> dyn_shift khd y a z z' = in_asset y x"
  shows "shift khd y d e 0"
proof -
  have s1: "shift khd y d d1 (in_asset y x)" by (rule dyn_step(1) [OF assms(1) refl assms(3-5,7)])
  have w: "market_wf d1" "acct < length (accounts d1)" using shiftD [OF s1] assms(6) by auto
  show ?thesis using shift_trans [OF s1 adjust_shift(1) [OF assms(2) w]] by simp
qed

lemma asset_claim_fees_conserves:
  assumes "asset_claim_fees_evaluate F ts fee op d = Inr d'" "\<not> skip_fee ts" "market_wf d" "y < length (assets d)"
  shows "shift khd y d d' 0"
proof -
  have run: "start_evaluate F ts fee (acf_issuer op) (acf_fee op) (asset_claim_fees_do_evaluate op) (\<lambda>_. asset_claim_fees_do_apply F op) d = Inr d'"
    using assms(1) by (simp add: asset_claim_fees_evaluate_def)
  have payer: "acf_issuer op < length (accounts d)"
    using run prepare_fee_facts(2) by (auto simp: start_evaluate_def evaluate_op_def)
  show ?thesis
  proof (rule market_operation_conserves [OF run assms(2-4)])
    fix c d2 d3 assume fr: "fee_frame d d2" and w: "market_wf d2" "y < length (assets d2)" and ap: "asset_claim_fees_do_apply F op d2 = Inr d3"
    from ap obtain d4 where a: "asset_id (acf_amount_to_claim op) < length (assets d2)"
      and 1: "modify_dyn (dynamic_asset_data_id (assets d2 ! asset_id (acf_amount_to_claim op))) (\<lambda>addo.
       require (amount (acf_amount_to_claim op) \<le> accumulated_fees addo) ''Attempt to claim more fees than have accumulated''
      (bind_res (safe_sub F (accumulated_fees addo) (amount (acf_amount_to_claim op))) (\<lambda>s. Inr (addo\<lparr>accumulated_fees := s\<rparr>)))) d2 = Inr d4"
      and 2: "adjust_balance F (acf_issuer op) (acf_amount_to_claim op) d4 = Inr d3"
      by (auto simp: asset_claim_fees_do_apply_def)
    show "shift khd y d2 d3 0"
      by (rule claim_shift [OF 1 2 w(1) a w(2)])
        (use payer quiet_fields(2) [OF fee_frame_quiet [OF fr]] in \<open>auto simp: fc_iffs dyn_shift_def dyn_net_def in_asset_def\<close>)
  qed
qed

lemma asset_claim_pool_conserves:
  assumes "asset_claim_pool_evaluate F ts fee op d = Inr d'" "\<not> skip_fee ts" "market_wf d" "y < length (assets d)"
  shows "shift khd y d d' 0"
proof -
  have run: "start_evaluate F ts fee (acp_issuer op) (acp_fee op) (asset_claim_pool_do_evaluate op) (\<lambda>_. asset_claim_pool_do_apply F op) d = Inr d'"
    and core: "asset_id (acp_amount_to_claim op) = 0"
    using assms(1) by (auto simp: asset_claim_pool_evaluate_def asset_claim_pool_validate_def)
  have payer: "acp_issuer op < length (accounts d)"
    using run prepare_fee_facts(2) by (auto simp: start_evaluate_def evaluate_op_def)
  show ?thesis
  proof (rule market_operation_conserves [OF run assms(2-4)])
    fix c d2 d3 assume fr: "fee_frame d d2" and w: "market_wf d2" "y < length (assets d2)" and ap: "asset_claim_pool_do_apply F op d2 = Inr d3"
    from ap obtain d4 where a: "acp_asset_id op < length (assets d2)"
      and 1: "modify_dyn (dynamic_asset_data_id (assets d2 ! acp_asset_id op)) (\<lambda>addo.
       require (amount (acp_amount_to_claim op) \<le> fee_pool addo) ''Attempt to claim more fees than is available''
      (bind_res (safe_sub F (fee_pool addo) (amount (acp_amount_to_claim op))) (\<lambda>s. Inr (addo\<lparr>fee_pool := s\<rparr>)))) d2 = Inr d4"
      and 2: "adjust_balance F (acp_issuer op) (acp_amount_to_claim op) d4 = Inr d3"
      by (auto simp: asset_claim_pool_do_apply_def)
    show "shift khd y d2 d3 0"
      by (rule claim_shift [OF 1 2 w(1) a w(2)])
        (use payer core quiet_fields(2) [OF fee_frame_quiet [OF fr]] in \<open>auto simp: fc_iffs dyn_shift_def dyn_net_def in_asset_def\<close>)
  qed
qed

end

subsection \<open>Feeds, settlement and bids\<close>

text \<open>A change of the bitasset data that touches neither the options nor the settlement.\<close>

lemma feeds_shift:
  assumes "modify_bitasset a f d = Inr e" "market_wf d" "bitasset_data a d = Inr b"
    and "bd_options (f b) = bd_options b" "bd_settlement_price (f b) = bd_settlement_price b" "bd_settlement_fund (f b) = bd_settlement_fund b"
    and "feed_wf b \<Longrightarrow> feed_wf (f b)"
  shows "shift khd y d e 0" "bitasset_data a e = Inr (f b)"
proof -
  have fw: "fund_wf d i (f b)" if "fund_wf d i b" for i
    using that assms(4-7) by (auto simp: fund_wf_def has_settlement_def split: if_splits)
  have "fund_held y b - fund_held y (f b) = 0" using assms(4-6) by (simp add: fund_held_def)
  then show "shift khd y d e 0" "bitasset_data a e = Inr (f b)"
    using modify_bitasset_shift(1) [OF assms(1-4), of khd y] modify_bitasset_shift(2) [OF assms(1-4)] fw by auto
qed

lemma modify_bitassetE:
  assumes "modify_bitasset a f d = Inr e"
  obtains b where "bitasset_data a d = Inr b"
  using assms by (auto simp: modify_bitasset_def bitasset_data_def split: option.splits)

lemma median_frame [simp]:
  "bd_options (update_median_feeds now b) = bd_options b" "bd_settlement_price (update_median_feeds now b) = bd_settlement_price b"
  "bd_settlement_fund (update_median_feeds now b) = bd_settlement_fund b"
  by (simp_all add: update_median_feeds_def Let_def)

lemma nth_element_set: "set (nth_element lt xs) = set xs"
proof (induction xs)
  case (Cons x xs)
  have "set (insert_by lt x zs) = insert x (set zs)" for zs by (induction zs) auto
  then show ?case using Cons.IH by simp
qed simp

lemma nth_element_length: "length (nth_element lt xs) = length xs"
proof (induction xs)
  case (Cons x xs)
  have "length (insert_by lt x zs) = Suc (length zs)" for zs by (induction zs) auto
  then show ?case using Cons.IH by simp
qed simp

text \<open>The median of valid feeds is valid, so new feeds may be put into the map as long as they are valid.\<close>

lemma median_feed_wf:
  assumes "0 < bo_minimum_feeds (bd_options b)" "\<forall>(k, t, f)\<in>set (bd_feeds b). price_is_null (settlement_price f) \<or> price_ok (settlement_price f)"
  shows "feed_wf (update_median_feeds now b)"
proof -
  have live: "price_is_null (settlement_price f) \<or> price_ok (settlement_price f)" if "f \<in> set (live_values now b)" for f
    using assms(2) that by (force simp: live_values_def live_feeds_def)
  let ?lt = "\<lambda>a b. price_less (settlement_price a) (settlement_price b)"
  let ?fs = "live_values now b"
  have med: "price_is_null (settlement_price (median_feed ?fs)) \<or> price_ok (settlement_price (median_feed ?fs))" if "?fs \<noteq> []"
  proof -
    have "length ?fs div 2 < length (nth_element ?lt ?fs)" using that by (simp add: nth_element_length)
    then have "nth_element ?lt ?fs ! (length ?fs div 2) \<in> set ?fs" using nth_mem nth_element_set by metis
    then show ?thesis using live by (simp add: median_feed_def Let_def)
  qed
  have null: "price_is_null (settlement_price price_feed_default)" by (simp add: price_feed_default_def price_is_null_iff price_default_def)
  consider "length ?fs < bo_minimum_feeds (bd_options b)" | f where "?fs = [f]" "\<not> length ?fs < bo_minimum_feeds (bd_options b)"
    | "?fs \<noteq> []" "length ?fs \<noteq> 1" "\<not> length ?fs < bo_minimum_feeds (bd_options b)"
    using assms(1) by (cases ?fs) fastforce+
  then show ?thesis
  proof cases
    case 1
    then show ?thesis using null assms by (simp add: update_median_feeds_def Let_def feed_wf_def)
  next
    case (2 f)
    then show ?thesis using live [of f] assms by (simp add: update_median_feeds_def Let_def feed_wf_def)
  next
    case 3
    then show ?thesis using med assms by (simp add: update_median_feeds_def Let_def feed_wf_def)
  qed
qed

lemma backing_ofI:
  assumes "bitasset_data (assets d ! a) d = Inr b" "a < length (assets d)"
  shows "backing_of d a = Some (bo_short_backing_asset (bd_options b))"
  using assms by (auto simp: backing_of_def elim!: bitasset_dataE)

text \<open>The settlement price of a settled asset relates it to its backing asset.\<close>

lemma settled_ids:
  assumes "bitasset_data (assets d ! a) d = Inr b" "a < length (assets d)" "has_settlement b" "market_wf d"
  shows "asset_id (base (bd_settlement_price b)) = a" "asset_id (quote (bd_settlement_price b)) = bo_short_backing_asset (bd_options b)"
    "a \<noteq> bo_short_backing_asset (bd_options b)"
proof -
  obtain i where i: "bitasset_data_id (assets d ! a) = Some i" "i < length (bitassets d)" "bitassets d ! i = b" by (rule bitasset_dataE [OF assms(1)])
  have "fund_wf d i b" using market_owners(5) [OF assms(4) i(2)] i(3) by simp
  then have *: "asset_id (base (bd_settlement_price b)) < length (assets d)"
    "bitasset_data_id (assets d ! asset_id (base (bd_settlement_price b))) = Some i"
    "asset_id (quote (bd_settlement_price b)) = bo_short_backing_asset (bd_options b)"
    "asset_id (base (bd_settlement_price b)) \<noteq> asset_id (quote (bd_settlement_price b))"
    using assms(3) by (simp_all add: fund_wf_def)
  then show "asset_id (base (bd_settlement_price b)) = a" using market_tables_wf(6) [OF assms(4)] i(1) assms(2) unfolding own_data_def by blast
  then show "asset_id (quote (bd_settlement_price b)) = bo_short_backing_asset (bd_options b)" "a \<noteq> bo_short_backing_asset (bd_options b)"
    using * by simp_all
qed

context fc_arith
begin

lemma create_bid_shift:
  assumes "create_bid x d = Inr e" "market_wf d" "bid_wf d x"
  shows "shift khd y d e (- in_asset y (base (cbo_inv_swan_price x)))" "tbl_find (collateral_bids e) (next_instance (collateral_bids d)) = Some x"
    "bitassets e = bitassets d" "asset_dyn e = asset_dyn d"
proof -
  have e: "e = d\<lparr>collateral_bids := tbl_create x (collateral_bids d)\<rparr>" using assms(1) by (simp add: create_bid_def)
  show "shift khd y d e (- in_asset y (base (cbo_inv_swan_price x)))" unfolding e by (rule bid_table_shifts(3) [OF assms(2,3)])
  show "tbl_find (collateral_bids e) (next_instance (collateral_bids d)) = Some x"
    using tbl.find_create [OF market_tables_wf(4) [OF assms(2)]] by (simp add: e)
  show "bitassets e = bitassets d" "asset_dyn e = asset_dyn d" by (simp_all add: e)
qed

lemma execute_bid_shift:
  assumes "execute_bid F i debt coll feed d = Inr e" "market_wf d" "tbl_find (collateral_bids d) i = Some x"
  shows "shift khd y d e (- in_asset y (mk_asset coll (asset_id (base (cbo_inv_swan_price x)))))"
    "tbl_find (collateral_bids e) j = (if j = i then None else tbl_find (collateral_bids d) j)" "bitassets e = bitassets d"
proof -
  let ?ca = "asset_id (base (cbo_inv_swan_price x))" and ?da = "asset_id (quote (cbo_inv_swan_price x))"
  let ?all = "amount (base (cbo_inv_swan_price x)) + coll"
  from assms(1,3) obtain cp c d1 d2 where cp: "call_price (mk_asset debt ?da) (mk_asset ?all ?ca) (maintenance_collateral_ratio feed) = Inr cp"
    and c: "c = \<lparr>co_borrower = cbo_bidder x, co_collateral = ?all, co_debt = debt, co_call_price = cp, co_target_collateral_ratio = None\<rparr>"
    and d1: "d1 = d\<lparr>call_orders := tbl_create c (call_orders d)\<rparr>"
    and d2: "(if ?ca = 0 then modify_stats (cbo_bidder x) (add_core_in_orders F ?all) d1 else Inr d1) = Inr d2"
    and e: "e = d2\<lparr>collateral_bids := tbl_remove i (collateral_bids d2)\<rparr>"
    by (auto simp: execute_bid_def Let_def fc_iffs create_call_order_def)
  have ids: "asset_id (base cp) = ?ca" "asset_id (quote cp) = ?da" using call_price_ids [OF cp] by simp_all
  have "backing_of d ?da = Some ?ca" using market_owners(4) [OF assms(2,3)] by (simp add: bid_wf_def)
  then have "call_wf d c" using ids by (simp add: call_wf_def c call_order_defs)
  then have s1: "shift khd y d d1 (- call_held y c)" unfolding d1 by (rule call_table_shifts(3) [OF assms(2)])
  have w1: "market_wf d1" using shiftD [OF s1] by simp
  have s2: "shift khd y d1 d2 0 \<and> quiet d1 d2"
  proof (cases "?ca = 0")
    case True
    then show ?thesis using d2 by (intro stats_quiet [OF _ w1]) (auto dest: core_in_orders_pending)
  qed (use d2 w1 in simp)
  have x2: "tbl_find (collateral_bids d2) i = Some x" "market_wf d2" using assms(3) quiet_fields(7) [of d1 d2] s2 shiftD [of khd y d1 d2] by (auto simp: d1)
  have s3: "shift khd y d2 e (in_asset y (base (cbo_inv_swan_price x)))" unfolding e by (rule bid_table_shifts(1) [OF x2(2,1)])
  have "call_held y c = in_asset y (mk_asset ?all ?ca)" using ids by (simp add: call_held_def c)
  then show "shift khd y d e (- in_asset y (mk_asset coll ?ca))"
    using shift_trans [OF shift_trans [OF s1 conjunct1 [OF s2]] s3] by (auto simp: in_asset_def split: if_splits)
  show "tbl_find (collateral_bids e) j = (if j = i then None else tbl_find (collateral_bids d) j)" "bitassets e = bitassets d"
    using quiet_fields(3,7) [of d1 d2] s2 by (auto simp: e d1 tbl.find_remove)
qed

lemma cancel_revive_shift:
  assumes "cancel_bids_and_revive_mpa F a d = Inr e" "market_wf d" "y < length (assets d)" "bitasset_data (assets d ! a) d = Inr b"
  shows "shift khd y d e (fund_held y b)"
proof -
  from assms(1,4) obtain ids d1 where a: "a < length (assets d)" and 1: "fold_res (cancel_bid F) ids d = Inr d1"
    and 2: "modify_bitasset (assets d ! a) (\<lambda>b. b\<lparr>bd_settlement_price := price_default, bd_settlement_fund := 0\<rparr>) d1 = Inr e"
    by (auto simp: cancel_bids_and_revive_mpa_def)
  have s1: "shift khd y d d1 0 \<and> bitassets d1 = bitassets d"
    using 1
  proof (rule fold_res_invariant [where P = "\<lambda>e. shift khd y d e 0 \<and> bitassets e = bitassets d"])
    fix i s s' assume s: "shift khd y d s 0 \<and> bitassets s = bitassets d" and st: "cancel_bid F i s = Inr s'"
    have "market_wf s" using s shiftD [of khd y d s] by blast
    from cancel_bid_shift(1) [OF st this, of khd y] cancel_bid_shift(2) [OF st this] show "shift khd y d s' 0 \<and> bitassets s' = bitassets d"
      using s shift_trans [of khd y d s 0 s' 0] by simp
  qed (use assms(2) in simp)
  have b1: "bitasset_data (assets d ! a) d1 = Inr b" "market_wf d1"
    using assms(4) s1 shiftD [of khd y d d1] by (auto simp: bitasset_data_def cong: option.case_cong)
  have "shift khd y d1 e (fund_held y b - fund_held y (b\<lparr>bd_settlement_price := price_default, bd_settlement_fund := 0\<rparr>))"
    by (rule modify_bitasset_shift(1) [OF 2 b1(2,1)]) (simp_all add: fund_wf_def has_settlement_def price_is_null_iff price_default_def)
  then show ?thesis using shift_trans [of khd y d d1 0 e] s1 by (auto simp: fund_held_def in_asset_def)
qed

lemma revive_shift:
  assumes "revive_bitasset F a d = Inr e" "market_wf d" "y < length (assets d)"
  shows "shift khd y d e 0"
proof -
  from assms(1) obtain bad d2 where a: "a < length (assets d)" and bad: "bitasset_data (assets d ! a) d = Inr bad" "has_settlement bad"
    and 1: "(if current_supply (dyn_of d a) > 0 then
          bind_res (price_of (mk_asset 0 (bo_short_backing_asset (bd_options bad))) (mk_asset (current_supply (dyn_of d a)) a)) (\<lambda>p.
          bind_res (create_bid \<lparr>cbo_bidder = issuer (assets d ! a), cbo_inv_swan_price = p\<rparr> d) (\<lambda>d1.
          execute_bid F (next_instance (collateral_bids d)) (current_supply (dyn_of d a)) (bd_settlement_fund bad) (bd_current_feed bad) d1))
        else require (bd_settlement_fund bad = 0) ''bad.settlement_fund == 0'' (Inr d)) = Inr d2"
    and 2: "cancel_bids_and_revive_mpa F a d2 = Inr e"
    unfolding dyn_of_def by (auto simp: revive_bitasset_def split del: if_split)
  let ?bck = "bo_short_backing_asset (bd_options bad)"
  have s1: "shift khd y d d2 (- fund_held y bad) \<and> bitassets d2 = bitassets d"
  proof (cases "current_supply (dyn_of d a) > 0")
    case True
    with 1 obtain p d1 where p: "price_of (mk_asset 0 ?bck) (mk_asset (current_supply (dyn_of d a)) a) = Inr p"
      and b: "create_bid \<lparr>cbo_bidder = issuer (assets d ! a), cbo_inv_swan_price = p\<rparr> d = Inr d1"
      and x: "execute_bid F (next_instance (collateral_bids d)) (current_supply (dyn_of d a)) (bd_settlement_fund bad) (bd_current_feed bad) d1 = Inr d2"
      by auto
    note pb = price_of_base [OF p]
    have bw: "bid_wf d \<lparr>cbo_bidder = issuer (assets d ! a), cbo_inv_swan_price = p\<rparr>"
      using market_owners(6) [OF assms(2), of "assets d ! a"] a backing_ofI [OF bad(1) a] pb by (simp add: bid_wf_def)
    note c = create_bid_shift [OF b assms(2) bw]
    have w1: "market_wf d1" using shiftD [OF c(1) [of khd y]] by simp
    note ex = execute_bid_shift [OF x w1 c(2)]
    show ?thesis
      using shift_trans [OF c(1) [of khd y] ex(1) [of khd y]] pb ex(3) c(3) by (simp add: fund_held_def in_asset_0)
  next
    case False
    then show ?thesis using 1 assms(2) by (simp add: fund_held_def)
  qed
  have w2: "market_wf d2" "assets d2 = assets d" using s1 shiftD [of khd y d d2] by auto
  have "bitasset_data (assets d2 ! a) d2 = Inr bad" using bad(1) s1 w2 by (simp add: bitasset_data_def cong: option.case_cong)
  from cancel_revive_shift [OF 2 w2(1) _ this, of y khd] show ?thesis
    using shift_trans [of khd y d d2 "- fund_held y bad" e] s1 w2 assms(3) by fastforce
qed

end

end
