(* ===== verification/Settlement_Ledger.thy ===== *)
theory Settlement_Ledger
  imports Asset_Ledger
begin

text \<open>Forced settlement and the expiry of orders on the ledger: every fill moves what it takes, and the volume settled in a
  maintenance interval stays within its limit.\<close>

subsection \<open>Forced settlement\<close>

lemma asset_min_le:
  assumes "asset_min a b = Inr c"
  shows "c = a \<or> c = b" "amount c \<le> amount a" "amount c \<le> amount b" "asset_id a = asset_id b"
  using assms by (auto simp: asset_min_def asset_less_def split: if_splits)

lemma round_back_le:
  assumes a: "amount_ok a" and p: "price_ok p" and there: "mul_price a p = Inr b" and ret: "multiply_and_round_up b p = Inr c"
  shows "asset_id c = asset_id a" "amount c \<le> amount a"
proof -
  have b: "amount_ok b" by (rule mul_price_bounds [OF a p there])
  have *: "((x * q div bs) * bs + q - 1) div q \<le> x" if "0 < bs" "0 < q" for x q bs :: int
  proof -
    have "((x * q div bs) * bs + q - 1) div q \<le> (x * q + (q - 1)) div q"
      using floor_div_le [OF that(1), of "x * q"] that by (intro zdiv_mono1) auto
    also have "\<dots> = x" using that by simp
    finally show ?thesis .
  qed
  from mul_price_asset [OF there] have "asset_id c = asset_id a \<and> amount c \<le> amount a"
  proof
    assume "asset_id a = asset_id (base p)"
    moreover from mul_price_baseD [OF a p this there]
    have "amount b = amount a * amount (quote p) div amount (base p)" "asset_id b = asset_id (quote p)" by simp_all
    ultimately show ?thesis using round_up_quoteD [OF b p _ ret] p * by (simp add: price_ok_def)
  next
    assume "asset_id a = asset_id (quote p)"
    moreover from mul_price_quoteD [OF a p this there]
    have "amount b = amount a * amount (base p) div amount (quote p)" "asset_id b = asset_id (base p)" by simp_all
    ultimately show ?thesis using round_up_baseD [OF b p _ ret] p * by (simp add: price_ok_def)
  qed
  then show "asset_id c = asset_id a" "amount c \<le> amount a" by simp_all
qed

text \<open>A price at which requests may be matched: before the rounding was changed any price, later a valid one.\<close>

definition match_price_ok :: "database \<Rightarrow> price \<Rightarrow> bool" where
  "match_price_ok d p \<longleftrightarrow> maint_time d \<le> HARDFORK_CORE_342_TIME \<or> price_ok p \<or> p = price_default"

lemma mul_price_default: "mul_price a price_default \<noteq> Inr c"
  by (auto simp: mul_price_def price_default_def split: if_splits)

context fc_arith
begin

lemma match_call_settle_cases:
  assumes "match_call_settle F c s p mx d = Inr (r, e)" "match_price_ok d p" "0 < amount mx" "in_int64 (amount mx)"
  obtains
    (skip) "amount r = 0" "asset_id r = asset_id mx" "e = d \<or> cancel_settle_order F s d = Inr e"
  | (fill) settle pays d1 f1 f2 d2 where "tbl_find (settle_orders d) s = Some settle" "fill_call_order F c pays r d = Inr (f1, d1)"
      "fill_settle_order F s r pays d1 = Inr (f2, d2)" "e = d2 \<or> cancel_settle_order F s d2 = Inr e"
      "amount r \<le> amount (fs_balance settle)" "amount r \<le> amount mx" "asset_id r = asset_id mx" "0 \<le> amount r"
      "0 \<le> amount pays" "in_int64 (amount pays)"
proof -
  from assms(1) obtain call settle sfs cr cp where call: "tbl_find (call_orders d) c = Some call" and settle: "tbl_find (settle_orders d) s = Some settle"
    and pos: "0 < co_debt call" "0 < amount (fs_balance settle)" and sfs: "asset_min (fs_balance settle) mx = Inr sfs"
    and cr: "asset_min sfs (get_debt call) = Inr cr" and cp: "mul_price cr p = Inr cp"
    and rest: "(if amount cp = 0 \<and> maint_time d > HARDFORK_CORE_184_TIME \<and> cr \<noteq> get_debt call then
       bind_res (if cr = fs_balance settle then cancel_settle_order F s d else Inr d) (\<lambda>d1.
       Inr (mk_asset 0 (asset_id (fs_balance settle)), d1))
     else
       bind_res
         (if amount cp = 0 then
            Inr (if maint_time d > HARDFORK_CORE_184_TIME then cp\<lparr>amount := 1\<rparr> else cp, cr, False)
          else if maint_time d \<le> HARDFORK_CORE_342_TIME then Inr (cp, cr, False)
          else if cr = get_debt call then
            bind_res (multiply_and_round_up cr p) (\<lambda>p. Inr (p, cr, False))
          else
            bind_res (multiply_and_round_up cp p) (\<lambda>r.
            Inr (cp, r, cr = fs_balance settle \<and> r \<noteq> fs_balance settle))) (\<lambda>(call_pays, call_receives, cull_settle_order).
       bind_res
         (if maint_time d \<le> HARDFORK_CORE_342_TIME then
            bind_res (asset_less call_pays (get_collateral call)) (\<lambda>enough.
            if enough then Inr () else Inl (Other_Exception ''black_swan_exception''))
          else Inr ()) (\<lambda>_.
       bind_res (fill_call_order F c call_pays call_receives d) (\<lambda>(_, d1).
       bind_res (fill_settle_order F s call_receives call_pays d1) (\<lambda>(_, d2).
       bind_res (if cull_settle_order then cancel_settle_order F s d2 else Inr d2) (\<lambda>d3.
       Inr (call_receives, d3))))))) = Inr (r, e)"
    by (auto simp: match_call_settle_def Let_def split del: if_split)
  note m1 = asset_min_le [OF sfs] and m2 = asset_min_le [OF cr]
  have ids: "asset_id cr = asset_id mx" "asset_id (fs_balance settle) = asset_id mx" using m1 m2 by auto
  have cr_le: "amount cr \<le> amount (fs_balance settle)" "amount cr \<le> amount mx" "0 < amount cr"
    using m1(1-3) m2(1-3) pos assms(3) by (auto simp: get_debt_def)
  have cr_ok: "amount_ok cr" using cr_le assms(4) in_int64_between [OF in_int64_0 assms(4), of "amount cr"] by (simp add: amount_ok_def)
  have cp_ok: "0 \<le> amount cp" "in_int64 (amount cp)" using converted_amount(1) [OF cp] by simp_all
  show thesis
  proof (cases "amount cp = 0 \<and> maint_time d > HARDFORK_CORE_184_TIME \<and> cr \<noteq> get_debt call")
    case True
    with rest have "amount r = 0" "asset_id r = asset_id mx" "e = d \<or> cancel_settle_order F s d = Inr e"
      using ids by (auto split: if_splits)
    then show thesis by (rule skip)
  next
    case False
    with rest obtain pays cull f1 d1 f2 d2 where am: "(if amount cp = 0 then
            Inr (if maint_time d > HARDFORK_CORE_184_TIME then cp\<lparr>amount := 1\<rparr> else cp, cr, False)
          else if maint_time d \<le> HARDFORK_CORE_342_TIME then Inr (cp, cr, False)
          else if cr = get_debt call then
            bind_res (multiply_and_round_up cr p) (\<lambda>p. Inr (p, cr, False))
          else
            bind_res (multiply_and_round_up cp p) (\<lambda>r.
            Inr (cp, r, cr = fs_balance settle \<and> r \<noteq> fs_balance settle))) = Inr (pays, r, cull)"
      and f: "fill_call_order F c pays r d = Inr (f1, d1)" "fill_settle_order F s r pays d1 = Inr (f2, d2)" "e = d2 \<or> cancel_settle_order F s d2 = Inr e"
      by (auto split del: if_split) (auto split: if_splits)
    have pays: "0 \<le> amount pays" "in_int64 (amount pays)"
      using am cp_ok by (auto simp: in_int64_def split: if_splits dest!: converted_amount)
    have r: "amount r \<le> amount cr \<and> asset_id r = asset_id cr \<and> 0 \<le> amount r"
    proof (cases "r = cr")
      case False
      with am have up: "multiply_and_round_up cp p = Inr r" and hf: "\<not> maint_time d \<le> HARDFORK_CORE_342_TIME" by (auto split: if_splits)
      have "price_ok p" using assms(2) hf cp mul_price_default by (auto simp: match_price_ok_def)
      from round_back_le [OF cr_ok this cp up] converted_amount(2) [OF up] show ?thesis by simp
    qed (use cr_le in simp)
    show thesis by (rule fill [OF settle f]) (use r cr_le ids pays in auto)
  qed
qed

lemma fill_settle_bitassets:
  assumes "fill_settle_order F i pays rec d = Inr (b, e)"
  shows "bitassets e = bitassets d"
proof -
  from assms obtain x f d1 d2 d3 part net where "tbl_find (settle_orders d) i = Some x"
    and 1: "pay_market_fees F rec d = Inr (f, d1)" and "asset_minus F rec f = Inr net" "asset_less pays (fs_balance x) = Inr part"
    and 2: "(if part then bind_res (asset_minus F (fs_balance x) pays) (\<lambda>b. Inr (d1\<lparr>settle_orders := tbl_set i (x\<lparr>fs_balance := b\<rparr>) (settle_orders d1)\<rparr>))
        else Inr d1) = Inr d2"
    and 3: "adjust_balance F (fs_owner x) net d2 = Inr d3"
    and e: "e = (if part then d3 else d3\<lparr>settle_orders := tbl_remove i (settle_orders d3)\<rparr>)"
    by (simp add: fill_settle_order_def case_prod_unfold) fastforce
  have "bitassets d1 = bitassets d" using 1 by (auto simp: pay_market_fees_def add_accumulated_fees_def modify_dyn_def split: if_splits)
  moreover have "bitassets d2 = bitassets d1" using 2 by (auto split: if_splits)
  moreover have "bitassets d3 = bitassets d2" using adjust_balance_only [OF 3] by auto
  ultimately show ?thesis by (simp add: e)
qed

lemma match_call_settle_shift:
  assumes "match_call_settle F c s p mx d = Inr (r, e)" "match_price_ok d p" "0 < amount mx" "in_int64 (amount mx)"
    and "market_wf d" "y < length (assets d)"
  shows "shift khd y d e 0" "bitassets e = bitassets d" "amount r \<le> amount mx" "asset_id r = asset_id mx" "0 \<le> amount r"
proof -
  have cs: "shift khd y d' e' 0" if "cancel_settle_order F s d' = Inr e'" "market_wf d'" for d' e'
    using cancel_settle_shift that by blast
  have cb: "bitassets e' = bitassets d'" if "cancel_settle_order F s d' = Inr e'" for d' e'
    using that by (auto simp: cancel_settle_order_def dest!: adjust_balance_only)
  have "shift khd y d e 0 \<and> bitassets e = bitassets d \<and> amount r \<le> amount mx \<and> asset_id r = asset_id mx \<and> 0 \<le> amount r"
    using assms(1-4)
  proof (cases rule: match_call_settle_cases)
    case skip
    then show ?thesis using assms(3,5) cs [of d e] cb [of d e] by auto
  next
    case (fill settle pays d1 f1 f2 d2)
    note s1 = fill_call_shift [OF fill(2) assms(5,6), of khd]
    have w1: "market_wf d1" "y < length (assets d1)" using s1 shiftD [of khd y d d1] assms(6) by auto
    have so: "settle_orders d1 = settle_orders d" using s1 by simp
    have s2: "shift khd y d1 d2 (in_asset y r - in_asset y pays)"
      by (rule fill_settle_shift [OF fill(3) w1 fill(9,10)]) (use so fill(1,5) in simp)
    have b2: "bitassets d2 = bitassets d1" by (rule fill_settle_bitassets [OF fill(3)])
    have w2: "market_wf d2" using shiftD [OF s2] by simp
    have "shift khd y d d2 0" using shift_trans [OF conjunct1 [OF s1] s2] by simp
    then have "shift khd y d e 0" using fill(4) cs [of d2 e, OF _ w2] shift_trans [of khd y d d2 0 e 0] by auto
    then show ?thesis using fill(4,6-8) s1 b2 cb [of d2 e] by auto
  qed
  then show "shift khd y d e 0" "bitassets e = bitassets d" "amount r \<le> amount mx" "asset_id r = asset_id mx" "0 \<le> amount r" by simp_all
qed

end

lemma price_mul_ratio_ok:
  assumes "price_mul_ratio p r = Inr np" "price_ok p"
  shows "price_ok np"
proof (cases "np = p")
  case False
  from assms(1) False obtain c where r: "0 < fst r" "0 < snd r"
    and c: "c = rat_norm (fst (rat_norm (amount (base p)) (amount (quote p))) * fst (rat_norm (fst r) (snd r)))
       (snd (rat_norm (amount (base p)) (amount (quote p))) * snd (rat_norm (fst r) (snd r)))"
    and np: "np = mk_price (mk_asset (fst (ratio_round c)) (asset_id (base p))) (mk_asset (snd (ratio_round c)) (asset_id (quote p)))"
    by (auto simp: price_mul_ratio_def rational_def Let_def price_of_def split: if_splits)
  have pos: "0 < amount (base p)" "0 < amount (quote p)" using assms(2) by (simp_all add: price_ok_def)
  note parts = rat_norm_parts [OF pos] rat_norm_parts [OF r]
  have "0 < fst c \<and> 0 < snd c" unfolding c by (rule rat_norm_parts) (use parts in simp_all)
  then have "0 < fst (ratio_round c)" "0 < snd (ratio_round c)" "fst (ratio_round c) \<le> GRAPHENE_MAX_SHARE_SUPPLY" "snd (ratio_round c) \<le> GRAPHENE_MAX_SHARE_SUPPLY"
    using ratio_round_range [of c] by auto
  then show ?thesis using assms(2) by (simp add: np price_ok_def in_int64_def GRAPHENE_MAX_SHARE_SUPPLY_def)
qed (use assms in simp)

context fc_arith
begin

lemma settle_match_step_shift:
  assumes "settle_match_step F mia oid p mx (settled, fin, d) = Inr q" "match_price_ok d p" "market_wf d" "y < length (assets d)"
    and "asset_id settled = asset_id mx" "amount settled \<le> amount mx"
  shows "case q of Inl (settled', fin', e) \<Rightarrow> shift khd y d e 0 \<and> bitassets e = bitassets d \<and> asset_id settled' = asset_id mx
        \<and> amount settled \<le> amount settled' \<and> amount settled' \<le> amount mx
    | Inr (settled', fin', e) \<Rightarrow> shift khd y d e 0 \<and> bitassets e = bitassets d \<and> settled' = settled"
proof -
  have cancel: "shift khd y d e 0 \<and> bitassets e = bitassets d" if "cancel_settle_order F oid d = Inr e" for e
    using cancel_settle_shift [OF that assms(3)] that by (auto simp: cancel_settle_order_def dest!: adjust_balance_only)
  from assms(1,5) consider "q = Inr (settled, fin, d)" | e where "q = Inr (settled, fin, e)" "cancel_settle_order F oid d = Inr e"
    | c mxs r e fin' where "amount settled < amount mx" "asset_minus F mx settled = Inr mxs" "match_call_settle F c oid p mxs d = Inr (r, e)"
        "q = Inr (settled, fin', e) \<or> (\<exists>settled'. asset_plus F settled r = Inr settled' \<and> q = Inl (settled', fin, e))"
    by (auto simp: settle_match_step_def asset_less_def split: option.splits if_splits sum.splits)
  then show ?thesis
  proof cases
    case 1
    then show ?thesis using assms(3) by simp
  next
    case (2 e)
    then show ?thesis using cancel by simp
  next
    case (3 c mxs r e fin')
    have mxs: "0 < amount mxs" "in_int64 (amount mxs)" "amount mxs = amount mx - amount settled" "asset_id mxs = asset_id mx"
      using 3(1,2) by (auto simp: asset_minus_def fc_iffs)
    note m = match_call_settle_shift [OF 3(3) assms(2) mxs(1,2) assms(3,4)]
    show ?thesis using 3(4) m mxs assms(5) by (auto simp: asset_plus_def fc_iffs)
  qed
qed

lemma settle_match_loop_shift:
  assumes "run_loop (settle_match_step F mia oid p mx) (settled, fin, d) = Inr (settled', fin', e)"
    and "match_price_ok d p" "market_wf d" "y < length (assets d)" "asset_id settled = asset_id mx" "amount settled \<le> amount mx"
  shows "shift khd y d e 0 \<and> bitassets e = bitassets d \<and> amount settled \<le> amount settled' \<and> amount settled' \<le> amount mx"
proof -
  let ?P = "\<lambda>(x, f :: bool, d'). shift khd y d d' 0 \<and> bitassets d' = bitassets d \<and> asset_id x = asset_id mx \<and> amount settled \<le> amount x \<and> amount x \<le> amount mx"
  have next_ok: "case q of Inl s' \<Rightarrow> ?P s' | Inr s' \<Rightarrow> ?P s'" if "?P s" "settle_match_step F mia oid p mx s = Inr q" for s q
  proof -
    obtain x f d' where s: "s = (x, f, d')" by (cases s)
    have w: "market_wf d'" "y < length (assets d')" "match_price_ok d' p"
      using that(1) shiftD [of khd y d d'] assms(2,4) by (auto simp: s match_price_ok_def)
    from settle_match_step_shift [OF that(2) [unfolded s] w(3,1,2), of khd] that(1) show ?thesis
      using shift_trans [of khd y d d' 0 _ 0] by (auto simp: s split: sum.splits)
  qed
  have "?P (settled', fin', e)"
    by (rule run_loop_invariant [where P = ?P, OF assms(1)]) (use assms next_ok in \<open>fastforce+\<close>)
  then show ?thesis by simp
qed

end

text \<open>A price kept by the loop over the settlement requests.\<close>

definition kept_price_ok :: "price \<Rightarrow> bool" where
  "kept_price_ok p \<longleftrightarrow> price_ok p \<or> p = price_default"

definition settle_state_ok :: "settle_state \<Rightarrow> bool" where
  "settle_state_ok s \<longleftrightarrow> kept_price_ok (ss_settlement_fill_price s) \<and> match_price_ok (ss_db s) (ss_settlement_price s)"

lemma settlement_prices_ok:
  assumes "settlement_prices F order mia s = Inr (fp, sp)" "settle_state_ok s" "price_ok (settlement_price (bd_current_feed mia))"
  shows "kept_price_ok fp" "match_price_ok (ss_db s) sp"
proof -
  let ?share = "int GRAPHENE_100_PERCENT - int (bo_force_settlement_offset_percent (bd_options mia))"
  from assms(1) have f: "(if asset_id (base (ss_settlement_fill_price s)) \<noteq> asset_id (fs_balance order)
         then bind_res (rational ?share (int GRAPHENE_100_PERCENT)) (price_div_ratio (settlement_price (bd_current_feed mia)))
         else Inr (ss_settlement_fill_price s)) = Inr fp"
    and sp: "maint_time (ss_db s) \<le> HARDFORK_CORE_342_TIME \<or> sp = fp \<or> sp = ss_settlement_price s"
    unfolding settlement_prices_def Let_def by (auto split: if_splits)
  show fp: "kept_price_ok fp"
    using f assms(2) price_mul_ratio_ok [OF _ assms(3)] by (auto simp: kept_price_ok_def settle_state_ok_def price_div_ratio_def split: if_splits)
  show "match_price_ok (ss_db s) sp"
    using sp fp assms(2) by (auto simp: match_price_ok_def kept_price_ok_def settle_state_ok_def)
qed

definition settle_inv :: "asset_id_type \<Rightarrow> asset_id_type \<Rightarrow> database \<Rightarrow> settle_state \<Rightarrow> bool" where
  "settle_inv khd y d s \<longleftrightarrow> shift khd y d (ss_db s) 0 \<and> settle_state_ok s"

lemma match_price_ok_frame: "book_frame d e \<Longrightarrow> match_price_ok e p = match_price_ok d p"
  by (simp add: match_price_ok_def book_frame_def)

lemma feed_price_ok:
  assumes "bitasset_data a d = Inr b" "market_wf d" "\<not> price_is_null (settlement_price (bd_current_feed b))"
  shows "price_ok (settlement_price (bd_current_feed b))"
  using assms market_owners(5) [OF assms(2)] by (auto elim!: bitasset_dataE simp: fund_wf_def feed_wf_def)

context fc_arith
begin

lemma set_volume_shift:
  assumes "set_settled_volume mo v d = Inr e" "market_wf d"
  shows "shift khd y d e 0"
proof (cases "e = d")
  case False
  with assms(1) obtain b where b: "bitasset_data mo d = Inr b" and m: "modify_bitasset mo (\<lambda>b. b\<lparr>bd_force_settled_volume := v\<rparr>) d = Inr e"
    by (auto simp: set_settled_volume_def split: if_splits)
  show ?thesis by (rule feeds_shift(1) [OF m assms(2) b]) simp_all
qed (use assms(2) in simp)

lemma settle_order_shift:
  assumes "settle_order F oid order mo mia s = Inr q" "settle_inv khd y d s" "y < length (assets d)"
    and mia: "bitasset_data mo (ss_db s) = Inr mia" "\<not> price_is_null (settlement_price (bd_current_feed mia))"
  shows "case q of Inl s' \<Rightarrow> settle_inv khd y d s' | Inr e \<Rightarrow> shift khd y d e 0"
proof -
  let ?cur = "asset_id (fs_balance order)"
  have inv: "shift khd y d (ss_db s) 0" "settle_state_ok s" using assms(2) by (simp_all add: settle_inv_def)
  have w: "market_wf (ss_db s)" "y < length (assets (ss_db s))" using shiftD [OF inv(1)] assms(3) by auto
  from assms(1) obtain mv where mv: "(if asset_id (ss_max_settlement_volume s) \<noteq> ?cur then
           bind_res (get_obj (asset_dyn (ss_db s)) (dynamic_asset_data_id mo)) (\<lambda>dyn.
           bind_res (max_force_settlement_volume F (current_supply dyn) mia) (\<lambda>v. Inr (mk_asset v ?cur)))
         else Inr (ss_max_settlement_volume s)) = Inr mv"
    and rest: "(let s1 = s\<lparr>ss_max_settlement_volume := mv\<rparr> in
      if bd_force_settled_volume mia \<ge> amount mv \<or> ss_current_asset_finished s then next_asset s1
      else
        bind_res (settlement_prices F order mia s1) (\<lambda>(fill_price, settle_price).
        bind_res (run_loop (settle_match_step F ?cur oid settle_price mv)
            (mk_asset (bd_force_settled_volume mia) ?cur, ss_current_asset_finished s, ss_db s)) (\<lambda>(settled, finished, d1).
        bind_res (set_settled_volume mo (amount settled) d1) (\<lambda>d2.
        Inr (Inl (s1\<lparr>ss_settlement_fill_price := fill_price, ss_settlement_price := settle_price,
                     ss_current_asset_finished := finished, ss_db := d2\<rparr>)))))) = Inr q"
    unfolding settle_order_def Let_def bind_res_Inr by blast
  have mv: "asset_id mv = ?cur" using mv by (auto split: if_splits)
  show ?thesis
  proof (cases "bd_force_settled_volume mia \<ge> amount mv \<or> ss_current_asset_finished s")
    case True
    with rest have "next_asset (s\<lparr>ss_max_settlement_volume := mv\<rparr>) = Inr q" by (simp add: Let_def)
    then show ?thesis using inv by (auto simp: next_asset_def settle_inv_def settle_state_ok_def split: list.splits)
  next
    case False
    with rest obtain fp sp settled fin d1 d2 where p: "settlement_prices F order mia (s\<lparr>ss_max_settlement_volume := mv\<rparr>) = Inr (fp, sp)"
      and l: "run_loop (settle_match_step F ?cur oid sp mv) (mk_asset (bd_force_settled_volume mia) ?cur, ss_current_asset_finished s, ss_db s) = Inr (settled, fin, d1)"
      and v: "set_settled_volume mo (amount settled) d1 = Inr d2"
      and q: "q = Inl (s\<lparr>ss_max_settlement_volume := mv, ss_settlement_fill_price := fp, ss_settlement_price := sp,
                     ss_current_asset_finished := fin, ss_db := d2\<rparr>)"
      by (auto simp: Let_def split: prod.splits)
    have "settle_state_ok (s\<lparr>ss_max_settlement_volume := mv\<rparr>)" using inv(2) by (simp add: settle_state_ok_def)
    from settlement_prices_ok [OF p this feed_price_ok [OF mia(1) w(1) mia(2)]]
    have ok: "kept_price_ok fp" "match_price_ok (ss_db s) sp" by simp_all
    have s1: "shift khd y (ss_db s) d1 0"
      using settle_match_loop_shift [OF l ok(2) w, of khd] mv False by simp
    have "market_wf d1" using shiftD [OF s1] by simp
    from shift_trans [OF inv(1) shift_trans [OF s1 set_volume_shift [OF v this]]]
    have s2: "shift khd y d d2 0" by simp
    have "match_price_ok d2 sp" using ok(2) match_price_ok_frame shiftD [OF inv(1)] shiftD [OF s2] by blast
    then show ?thesis using s2 ok(1) by (simp add: q settle_inv_def settle_state_ok_def)
  qed
qed

lemma settlement_step_shift:
  assumes "settlement_step F s = Inr q" "settle_inv khd y d s" "y < length (assets d)"
  shows "case q of Inl s' \<Rightarrow> settle_inv khd y d s' | Inr e \<Rightarrow> shift khd y d e 0"
proof -
  have inv: "shift khd y d (ss_db s) 0" "settle_state_ok s" using assms(2) by (simp_all add: settle_inv_def)
  have w: "market_wf (ss_db s)" using shiftD [OF inv(1)] by simp
  have cancel: "settle_inv khd y d (s\<lparr>ss_current_asset := c, ss_db := e\<rparr>)" if "cancel_settle_order F oid (ss_db s) = Inr e" for oid c e
  proof -
    have s1: "shift khd y d e 0" using shift_trans [OF inv(1) cancel_settle_shift [OF that w]] by simp
    then show ?thesis using inv match_price_ok_frame shiftD [OF inv(1)] shiftD [OF s1]
      by (auto simp: settle_inv_def settle_state_ok_def)
  qed
  have s0: "settle_inv khd y d (s\<lparr>ss_current_asset := c\<rparr>)" for c using inv by (simp add: settle_inv_def settle_state_ok_def)
  have next_ok: "case q of Inl s' \<Rightarrow> settle_inv khd y d s' | Inr e \<Rightarrow> shift khd y d e 0" if "next_asset (s\<lparr>ss_current_asset := c\<rparr>) = Inr q" for c
    using that inv by (auto simp: next_asset_def settle_inv_def settle_state_ok_def split: list.splits)
  show ?thesis
  proof (cases "filter (\<lambda>(i, x). asset_id (fs_balance x) \<ge> ss_current_asset s) (settle_book (ss_db s))")
    case Nil
    then show ?thesis using assms(1) inv by (auto simp: settlement_step_def)
  next
    case (Cons r rs)
    obtain oid order where r: "r = (oid, order)" by (cases r)
    let ?s0 = "s\<lparr>ss_current_asset := asset_id (fs_balance order)\<rparr>"
    from assms(1) obtain mo mia where mia: "bitasset_data mo (ss_db s) = Inr mia"
      and rest: "(if has_settlement mia then
            bind_res (cancel_settle_order F oid (ss_db s)) (\<lambda>d1. Inr (Inl (?s0\<lparr>ss_db := d1\<rparr>)))
          else if fs_settlement_date order > head_block_time (ss_db s) then next_asset ?s0
          else if price_is_null (settlement_price (bd_current_feed mia)) then
            bind_res (cancel_settle_order F oid (ss_db s)) (\<lambda>d1. Inr (Inl (?s0\<lparr>ss_db := d1\<rparr>)))
          else settle_order F oid order mo mia ?s0) = Inr q"
      unfolding settlement_step_def Let_def Cons r list.case prod.case bind_res_Inr by blast
    consider (cancel) e where "cancel_settle_order F oid (ss_db s) = Inr e" "q = Inl (?s0\<lparr>ss_db := e\<rparr>)"
      | (later) "next_asset ?s0 = Inr q"
      | (settle) "\<not> price_is_null (settlement_price (bd_current_feed mia))" "settle_order F oid order mo mia ?s0 = Inr q"
      using rest by (auto split: if_splits)
    then show ?thesis
    proof cases
      case settle
      show ?thesis by (rule settle_order_shift [OF settle(2) s0 assms(3)]) (use settle mia in simp_all)
    qed (use cancel next_ok in auto)
  qed
qed

lemma process_settlements_shift:
  assumes "process_settlements F d = Inr e" "market_wf d" "y < length (assets d)"
  shows "shift khd y d e 0"
proof (cases "settle_book d")
  case Nil
  then show ?thesis using assms(1,2) by (simp add: process_settlements_def)
next
  case (Cons r rs)
  with assms(1) obtain s0 where run: "run_loop (settlement_step F) s0 = Inr e" and s0: "ss_db s0 = d" "ss_settlement_fill_price s0 = price_default"
    "ss_settlement_price s0 = price_default" by (auto simp: process_settlements_def split: prod.splits)
  have start: "settle_inv khd y d s0"
    using assms(2) by (simp add: settle_inv_def s0 settle_state_ok_def kept_price_ok_def match_price_ok_def)
  show ?thesis
    by (rule run_loop_invariant [where P = "settle_inv khd y d" and Q = "\<lambda>e. shift khd y d e 0", OF run start])
      (use settlement_step_shift [OF _ _ assms(3)] in \<open>fastforce+\<close>)
qed

lemma expire_limit_orders_shift:
  assumes "expire_limit_orders F d = Inr e" "market_wf d" "y < length (assets d)"
  shows "shift khd y d e 0"
proof -
  have step: "shift khd y d c' 0"
    if "shift khd y d c 0" "expire_limit_step F c = Inr q" "q = Inl c' \<or> q = Inr c'" for c c' q
  proof -
    have w: "market_wf c" "y < length (assets c)" using shiftD [OF that(1)] assms(3) by auto
    from that(2,3) consider "c' = c" | i where "cancel_limit_order F i True False c = Inr c'"
      | i c1 b1 c2 b2 s r where "cancel_limit_order F i True False c = Inr c1" "check_call_orders F s True False c1 = Inr (b1, c2)"
          "check_call_orders F r True False c2 = Inr (b2, c')"
      by (auto simp: expire_limit_step_def split: list.splits if_splits)
    then have "shift khd y c c' 0"
    proof cases
      case (2 i)
      then show ?thesis using cancel_limit_shift(1) w by blast
    next
      case (3 i c1 b1 c2 b2 s r)
      have s1: "shift khd y c c1 0" by (rule cancel_limit_shift(1) [OF 3(1) w])
      have s2: "shift khd y c c2 0" by (rule keep_step [OF s1 w(2)]) (use 3(2) check_call_orders_shift in blast)
      show ?thesis by (rule keep_step [OF s2 w(2)]) (use 3(3) check_call_orders_shift in blast)
    qed (use w in simp)
    then show ?thesis using shift_trans [OF that(1)] by fastforce
  qed
  show ?thesis using assms(1) unfolding expire_limit_orders_def
    by (rule run_loop_invariant [where P = "\<lambda>c. shift khd y d c 0"]) (use assms(2) step in auto)
qed

lemma clear_expired_orders_shift:
  assumes "clear_expired_orders F d = Inr e" "market_wf d" "y < length (assets d)"
  shows "shift khd y d e 0"
proof -
  from assms(1) obtain d1 where 1: "expire_limit_orders F d = Inr d1" and 2: "process_settlements F d1 = Inr e"
    by (auto simp: clear_expired_orders_def)
  show ?thesis by (rule keep_step [OF expire_limit_orders_shift [OF 1 assms(2,3)] assms(3)]) (use 2 process_settlements_shift in blast)
qed

end

end
