(* ===== verification/Issuer_Ledger.thy ===== *)
theory Issuer_Ledger
  imports Settlement_Ledger
begin

text \<open>The operations of issuers and feed producers, the maintenance of market-issued assets and the repairs at hard forks on the ledger.\<close>

subsection \<open>Feeds, settlement and global settlement as operations\<close>

lemma feeds_set_mem: "v \<in> set (feeds_set k w xs) \<Longrightarrow> v = (k, w) \<or> v \<in> set xs"
  by (induction k w xs rule: feeds_set.induct) (auto split: if_splits)

lemma null_feed [simp]: "price_is_null (settlement_price price_feed_default)"
  by (simp add: price_feed_default_def price_is_null_iff price_default_def)

lemma publish_feed_wf:
  assumes "feed_wf b" "price_is_null (settlement_price f) \<or> price_ok (settlement_price f)"
  shows "feed_wf (publish_feed k f now b)"
  unfolding publish_feed_def using assms by (intro median_feed_wf) (auto simp: feed_wf_def dest!: feeds_set_mem)

lemma set_producers_wf:
  assumes "feed_wf b"
  shows "feed_wf (set_producers ps now b)"
proof -
  let ?ok = "\<lambda>fs. \<forall>(k, t, f)\<in>set fs. price_is_null (settlement_price f) \<or> price_ok (settlement_price f)"
  let ?add = "\<lambda>k fs. if feeds_has k fs then fs else feeds_set k (0, price_feed_default) fs"
  have fold_ok: "?ok (fold ?add ks fs)" if "?ok fs" for ks and fs :: "(account_id_type \<times> nat \<times> price_feed) list"
    using that
  proof (induction ks arbitrary: fs)
    case (Cons k ks)
    have "?ok (?add k fs)" using Cons.prems by (auto dest!: feeds_set_mem)
    then show ?case using Cons.IH by simp
  qed simp
  have kept: "?ok (filter (\<lambda>(k, _). k \<in> ps) (bd_feeds b))" using assms by (auto simp: feed_wf_def)
  show ?thesis unfolding set_producers_def Let_def
    by (rule median_feed_wf) (use fold_ok [OF kept] assms in \<open>simp_all add: feed_wf_def\<close>)
qed

lemma feed_changes [simp]:
  "bd_options (publish_feed k f now b) = bd_options b" "bd_settlement_price (publish_feed k f now b) = bd_settlement_price b"
  "bd_settlement_fund (publish_feed k f now b) = bd_settlement_fund b"
  "bd_options (set_producers ps now b) = bd_options b" "bd_settlement_price (set_producers ps now b) = bd_settlement_price b"
  "bd_settlement_fund (set_producers ps now b) = bd_settlement_fund b"
  by (simp_all add: publish_feed_def set_producers_def Let_def)

lemma price_validate_ok:
  "price_validate p = Inr () \<Longrightarrow> in_int64 (amount (base p)) \<Longrightarrow> in_int64 (amount (quote p)) \<Longrightarrow> price_ok p"
  by (simp add: price_validate_def price_ok_def)

context fc_arith
begin

lemma publish_feed_conserves:
  assumes "asset_publish_feed_evaluate F ts fee op d = Inr d'" "\<not> skip_fee ts" "market_wf d" "y < length (assets d)"
    and "in_int64 (amount (base (settlement_price (apf_feed op))))" "in_int64 (amount (quote (settlement_price (apf_feed op))))"
  shows "shift khd y d d' 0"
proof -
  have run: "start_evaluate F ts fee (apf_publisher op) (apf_fee op) (asset_publish_feed_do_evaluate op) (\<lambda>_. asset_publish_feed_do_apply F op) d = Inr d'"
    and v: "asset_publish_feed_validate op = Inr ()"
    using assms(1) by (auto simp: asset_publish_feed_evaluate_def)
  have ok: "price_ok (settlement_price (apf_feed op))"
    by (rule price_validate_ok [OF _ assms(5,6)]) (use v in \<open>auto simp: asset_publish_feed_validate_def price_feed_validate_def split: if_splits\<close>)
  show ?thesis
  proof (rule market_operation_conserves [OF run assms(2-4)])
    fix c d2 d3 assume w: "market_wf d2" "y < length (assets d2)" and ap: "asset_publish_feed_do_apply F op d2 = Inr d3"
    let ?a = "assets d2 ! apf_asset_id op"
    from ap obtain b d4 where b: "bitasset_data ?a d2 = Inr b"
      and m: "modify_bitasset ?a (publish_feed (apf_publisher op) (apf_feed op) (head_block_time d2)) d2 = Inr d4"
      and rest: "d3 = d4 \<or> (\<exists>d5 r. (d5 = d4 \<or> revive_bitasset F (apf_asset_id op) d4 = Inr d5) \<and> check_call_orders F (apf_asset_id op) True False d5 = Inr (r, d3))"
      unfolding asset_publish_feed_do_apply_def by (fastforce split: if_splits)
    have s1: "shift khd y d2 d4 0" by (rule feeds_shift(1) [OF m w(1) b]) (use publish_feed_wf ok in simp_all)
    show "shift khd y d2 d3 0"
    proof (cases "d3 = d4")
      case False
      with rest obtain d5 r where 5: "d5 = d4 \<or> revive_bitasset F (apf_asset_id op) d4 = Inr d5" "check_call_orders F (apf_asset_id op) True False d5 = Inr (r, d3)"
        by blast
      have s2: "shift khd y d2 d5 0" by (rule keep_step [OF s1 w(2)]) (use 5(1) revive_shift in auto)
      show ?thesis by (rule keep_step [OF s2 w(2)]) (use 5(2) check_call_orders_shift in blast)
    qed (use s1 in simp)
  qed
qed

lemma feed_producers_conserves:
  assumes "asset_update_feed_producers_evaluate F ts fee op d = Inr d'" "\<not> skip_fee ts" "market_wf d" "y < length (assets d)"
  shows "shift khd y d d' 0"
proof -
  have run: "start_evaluate F ts fee (afp_issuer op) (afp_fee op) (asset_update_feed_producers_do_evaluate op)
      (\<lambda>_. asset_update_feed_producers_do_apply F op) d = Inr d'"
    using assms(1) by (auto simp: asset_update_feed_producers_evaluate_def)
  show ?thesis
  proof (rule market_operation_conserves [OF run assms(2-4)])
    fix c d2 d3 assume w: "market_wf d2" "y < length (assets d2)" and ap: "asset_update_feed_producers_do_apply F op d2 = Inr d3"
    from ap obtain d4 r where m: "modify_bitasset (assets d2 ! afp_asset_to_update op) (set_producers (afp_new_feed_producers op) (head_block_time d2)) d2 = Inr d4"
      and c: "check_call_orders F (afp_asset_to_update op) True False d4 = Inr (r, d3)"
      by (auto simp: asset_update_feed_producers_do_apply_def)
    obtain b where b: "bitasset_data (assets d2 ! afp_asset_to_update op) d2 = Inr b" by (rule modify_bitassetE [OF m])
    have s1: "shift khd y d2 d4 0" by (rule feeds_shift(1) [OF m w(1) b]) (use set_producers_wf in simp_all)
    show "shift khd y d2 d3 0" by (rule keep_step [OF s1 w(2)]) (use c check_call_orders_shift in blast)
  qed
qed

lemma global_settle_conserves:
  assumes "asset_global_settle_evaluate F ts fee op d = Inr d'" "\<not> skip_fee ts" "market_wf d" "y < length (assets d)"
  shows "shift khd y d d' 0"
proof -
  have run: "start_evaluate F ts fee (ags_issuer op) (ags_fee op) (asset_global_settle_do_evaluate op) (\<lambda>_. asset_global_settle_do_apply F op) d = Inr d'"
    using assms(1) by (auto simp: asset_global_settle_evaluate_def)
  show ?thesis
    by (rule market_operation_conserves [OF run assms(2-4)]) (auto simp: asset_global_settle_do_apply_def intro: global_settle_shift)
qed

lemma settle_from_fund_shift:
  assumes "settle_from_fund F op a settled pays d = Inr e" "market_wf d" "y < length (assets d)" "as_account op < length (accounts d)"
    and a: "a = assets d ! i" "i < length (assets d)" "bitasset_data a d = Inr b" "has_settlement b"
    and ids: "asset_id pays = i" "asset_id settled = bo_short_backing_asset (bd_options b)"
  shows "shift khd y d e 0"
proof -
  from assms(1) obtain d1 d3 where 1: "deduct_balance F (as_account op) pays d = Inr d1"
    and 2: "(if amount settled > 0 then
          bind_res (bitasset_data a d1) (\<lambda>b.
          bind_res (safe_sub F (bd_settlement_fund b) (amount settled)) (\<lambda>fund.
          bind_res (modify_bitasset a (\<lambda>x. x\<lparr>bd_settlement_fund := fund\<rparr>) d1) (\<lambda>d2.
          adjust_balance F (as_account op) settled d2)))
        else Inr d1) = Inr d3"
    and 3: "modify_dyn (dynamic_asset_data_id a) (\<lambda>dyn. bind_res (safe_sub F (current_supply dyn) (amount pays)) (\<lambda>s. Inr (dyn\<lparr>current_supply := s\<rparr>))) d3 = Inr e"
    unfolding settle_from_fund_def bind_res_Inr by blast
  have s1: "shift khd y d d1 (in_asset y pays)" and q1: "quiet d d1" using deduct_shift [OF 1 assms(2,4)] by auto
  have w1: "market_wf d1" "assets d1 = assets d" "accounts d1 = accounts d" using shiftD [OF s1] by auto
  have b1: "bitasset_data a d1 = Inr b" using a(3) quiet_fields(3) [OF q1] by (simp add: bitasset_data_def cong: option.case_cong)
  have s2: "shift khd y d1 d3 0"
  proof (cases "amount settled > 0")
    case True
    let ?f = "\<lambda>x. x\<lparr>bd_settlement_fund := bd_settlement_fund b - amount settled\<rparr>"
    from True 2 b1 obtain d2 where m: "modify_bitasset a ?f d1 = Inr d2" and ad: "adjust_balance F (as_account op) settled d2 = Inr d3"
      by (auto simp: fc_iffs)
    have s: "shift khd y d1 d2 (fund_held y b - fund_held y (?f b))"
      by (rule modify_bitasset_shift(1) [OF m w1(1) b1]) (use a(4) in \<open>simp_all add: fund_wf_def has_settlement_def\<close>)
    have w2: "market_wf d2" "as_account op < length (accounts d2)" using shiftD [OF s] w1 assms(4) by auto
    have "fund_held y b - fund_held y (?f b) = in_asset y settled" using ids(2) by (simp add: fund_held_def in_asset_def)
    then show ?thesis using shift_trans [OF s adjust_shift(1) [OF ad w2]] by simp
  qed (use 2 w1 in simp)
  have w3: "market_wf d3" "assets d3 = assets d" using shiftD [OF s2] w1 by auto
  have s3: "shift khd y d3 e (- (if y = i then amount pays else 0))"
    by (rule dyn_step(1) [where a = i, OF 3 _ w3(1)]) (use w3 a assms(3) in \<open>auto simp: fc_iffs dyn_shift_def dyn_net_def\<close>)
  show ?thesis using shift_trans [OF shift_trans [OF s1 s2] s3] ids(1) by (auto simp: in_asset_def split: if_splits)
qed

lemma settled_amounts_ids:
  assumes "settled_amounts x b supply d = Inr (settled, pays)" "asset_id (base (bd_settlement_price b)) = asset_id x"
    and "asset_id (quote (bd_settlement_price b)) \<noteq> asset_id x"
  shows "asset_id settled = asset_id (quote (bd_settlement_price b))" "asset_id pays = asset_id x"
proof -
  from assms(1) obtain worth where w: "mul_price x (bd_settlement_price b) = Inr worth" and s: "asset_id settled = asset_id worth"
    and p: "pays = x \<or> multiply_and_round_up settled (bd_settlement_price b) = Inr pays"
    by (auto simp: settled_amounts_def split: if_splits)
  have "asset_id worth = asset_id (quote (bd_settlement_price b))" using w assms(2) by (auto simp: mul_price_def Let_def split: if_splits)
  then show "asset_id settled = asset_id (quote (bd_settlement_price b))" using s by simp
  then show "asset_id pays = asset_id x" using p assms(2,3) by (auto simp: multiply_and_round_up_def Let_def split: if_splits)
qed

lemma asset_settle_conserves:
  assumes "asset_settle_evaluate F ts fee op d = Inr d'" "\<not> skip_fee ts" "market_wf d" "y < length (assets d)"
  shows "shift khd y d d' 0"
proof -
  have run: "start_evaluate F ts fee (as_account op) (as_fee op) (asset_settle_do_evaluate op) (\<lambda>_. asset_settle_do_apply F op) d = Inr d'"
    using assms(1) by (auto simp: asset_settle_evaluate_def)
  have payer: "as_account op < length (accounts d)"
    using run prepare_fee_facts(2) by (auto simp: start_evaluate_def evaluate_op_def)
  show ?thesis
  proof (rule market_operation_conserves [OF run assms(2-4)])
    fix c d2 d3 assume fr: "fee_frame d d2" and w: "market_wf d2" "y < length (assets d2)" and ap: "asset_settle_do_apply F op d2 = Inr d3"
    let ?i = "asset_id (as_amount op)"
    have acct: "as_account op < length (accounts d2)" using payer quiet_fields(2) [OF fee_frame_quiet [OF fr]] by simp
    from ap obtain b where i: "?i < length (assets d2)" and b: "bitasset_data (assets d2 ! ?i) d2 = Inr b"
      and rest: "(if has_settlement b then
       bind_res (get_obj (asset_dyn d2) (dynamic_asset_data_id (assets d2 ! ?i))) (\<lambda>mia_dyn.
       bind_res (settled_amounts (as_amount op) b (current_supply mia_dyn) d2) (\<lambda>(settled, pays).
       settle_from_fund F op (assets d2 ! ?i) settled pays d2))
     else
       bind_res (deduct_balance F (as_account op) (as_amount op) d2) (\<lambda>d1.
       Inr (d1\<lparr>settle_orders := tbl_create \<lparr>fs_owner = as_account op, fs_balance = as_amount op,
              fs_settlement_date = (head_block_time d1 + bo_force_settlement_delay_sec (bd_options b)) mod 2 ^ 32\<rparr> (settle_orders d1)\<rparr>))) = Inr d3"
      unfolding asset_settle_do_apply_def bind_res_Inr get_obj_Inr by blast
    show "shift khd y d2 d3 0"
    proof (cases "has_settlement b")
      case True
      with rest obtain sup s p where sp: "settled_amounts (as_amount op) b sup d2 = Inr (s, p)"
        and sf: "settle_from_fund F op (assets d2 ! ?i) s p d2 = Inr d3" by auto
      note ids = settled_ids [OF b i True w(1)]
      have "asset_id s = bo_short_backing_asset (bd_options b)" "asset_id p = ?i"
        using settled_amounts_ids [OF sp] ids by auto
      then show ?thesis using settle_from_fund_shift [OF sf w acct refl i b True] by simp
    next
      case False
      with rest obtain d1 dt where d1: "deduct_balance F (as_account op) (as_amount op) d2 = Inr d1"
        and d3: "d3 = d1\<lparr>settle_orders := tbl_create \<lparr>fs_owner = as_account op, fs_balance = as_amount op, fs_settlement_date = dt\<rparr> (settle_orders d1)\<rparr>" by auto
      have s1: "shift khd y d2 d1 (in_asset y (as_amount op))" by (rule deduct_shift(1) [OF d1 w(1) acct])
      have w1: "market_wf d1" "as_account op < length (accounts d1)" using shiftD [OF s1] acct by auto
      have "shift khd y d1 d3 (- in_asset y (as_amount op))"
        unfolding d3 using settle_table_shifts(3) [OF w1(1), of "\<lparr>fs_owner = as_account op, fs_balance = as_amount op, fs_settlement_date = dt\<rparr>"] w1(2) by simp
      from shift_trans [OF s1 this] show ?thesis by simp
    qed
  qed
qed

end

subsection \<open>Bids and the maintenance of market-issued assets\<close>

lemma covering_bids_subset: "covering_bids F bad supply covered is d = Inr (c, taken) \<Longrightarrow> set taken \<subseteq> set is"
  by (induction "is" arbitrary: covered c taken) (fastforce split: if_splits)+

lemma bids_of_found:
  assumes "j \<in> set (bids_of a h d)" "market_wf d"
  obtains x where "tbl_find (collateral_bids d) j = Some x" "asset_id (quote (cbo_inv_swan_price x)) = a"
proof -
  from assms(1) obtain x where x: "(j, x) \<in> set (rows (collateral_bids d))" "asset_id (quote (cbo_inv_swan_price x)) = a"
    by (auto simp: bids_of_def)
  have "distinct (map fst (rows (collateral_bids d)))" using market_tables_wf(4) [OF assms(2)] by (simp add: tbl_wf_def)
  then have "tbl_find (collateral_bids d) j = Some x" using x(1) by (simp add: tbl_find_def)
  then show thesis using that x(2) by blast
qed

context fc_arith
begin

lemma execute_covering_bid_shift:
  assumes "execute_covering_bid F bad j (tc, rf, d) = Inr (tc', rf', e)" "market_wf d"
  obtains x where "tbl_find (collateral_bids d) j = Some x" "shift khd y d e (- in_asset y (mk_asset (rf - rf') (asset_id (base (cbo_inv_swan_price x)))))"
    "bitassets e = bitassets d" "\<And>k z. tbl_find (collateral_bids e) k = Some z \<Longrightarrow> tbl_find (collateral_bids d) k = Some z"
proof -
  from assms(1) obtain x debt where x: "tbl_find (collateral_bids d) j = Some x"
    and ex: "execute_bid F j debt (rf - rf') (bd_current_feed bad) d = Inr e"
    by (auto simp: execute_covering_bid_def Let_def fc_iffs split: if_splits)
  note 1 = execute_bid_shift [OF ex assms(2) x]
  show thesis by (rule that [OF x 1(1) 1(3)]) (use 1(2) in \<open>auto split: if_splits\<close>)
qed

lemma process_bids_shift:
  assumes "process_bids F bad d = Inr e" "market_wf d" "y < length (assets d)" "i < length (bitassets d)" "bitassets d ! i = bad" "has_settlement bad"
  shows "shift khd y d e 0"
proof (cases "e = d")
  case False
  let ?bck = "bo_short_backing_asset (bd_options bad)" and ?a = "asset_id (base (bd_settlement_price bad))"
  have fw: "?a < length (assets d)" "bitasset_data_id (assets d ! ?a) = Some i" "asset_id (quote (bd_settlement_price bad)) = ?bck" "?a \<noteq> ?bck"
    using market_owners(5) [OF assms(2,4)] assms(5,6) by (auto simp: fund_wf_def)
  have bd: "bitasset_data (assets d ! ?a) d = Inr bad" using fw(2) assms(4,5) by (simp add: bitasset_data_def)
  from False assms(1) obtain x sup h cov taken tc d1 where x: "mul_price (mk_asset 0 ?bck) (bd_settlement_price bad) = Inr x"
    and cov: "covering_bids F bad sup 0 (bids_of (asset_id x) h d) d = Inr (cov, taken)"
    and fold: "fold_res (execute_covering_bid F bad) taken (sup, bd_settlement_fund bad, d) = Inr (tc, 0, d1)"
    and last: "cancel_bids_and_revive_mpa F (asset_id x) d1 = Inr e"
    by (auto simp: process_bids_def Let_def split: if_splits)
  have xa: "asset_id x = ?a" using x fw(3,4) by (auto simp: mul_price_def Let_def split: if_splits)
  have bk: "asset_id (base (cbo_inv_swan_price z)) = ?bck" if "j \<in> set taken" "tbl_find (collateral_bids d) j = Some z" for j z
  proof -
    have j: "j \<in> set (bids_of ?a h d)" using covering_bids_subset [OF cov] that(1) xa by auto
    obtain z' where "tbl_find (collateral_bids d) j = Some z'" "asset_id (quote (cbo_inv_swan_price z')) = ?a" by (rule bids_of_found [OF j assms(2)])
    then have "asset_id (quote (cbo_inv_swan_price z)) = ?a" using that(2) by simp
    then show ?thesis using market_owners(4) [OF assms(2) that(2)] backing_ofI [OF bd fw(1)] by (simp add: bid_wf_def)
  qed
  let ?P = "\<lambda>(tc :: int, rf, d'). shift khd y d d' (- in_asset y (mk_asset (bd_settlement_fund bad - rf) ?bck)) \<and> bitassets d' = bitassets d
    \<and> (\<forall>k z. tbl_find (collateral_bids d') k = Some z \<longrightarrow> tbl_find (collateral_bids d) k = Some z)"
  have "?P (tc, 0, d1)" using fold
  proof (rule fold_res_invariant [where P = ?P])
    fix j s s' assume j: "j \<in> set taken" and s: "?P s" and st: "execute_covering_bid F bad j s = Inr s'"
    obtain tc1 rf1 e1 tc2 rf2 e2 where ss: "s = (tc1, rf1, e1)" "s' = (tc2, rf2, e2)" by (cases s, cases s')
    have w1: "market_wf e1" using s shiftD [of khd y d e1] by (auto simp: ss)
    obtain z where z: "tbl_find (collateral_bids e1) j = Some z" "shift khd y e1 e2 (- in_asset y (mk_asset (rf1 - rf2) (asset_id (base (cbo_inv_swan_price z)))))"
      "bitassets e2 = bitassets e1" "\<And>k z. tbl_find (collateral_bids e2) k = Some z \<Longrightarrow> tbl_find (collateral_bids e1) k = Some z"
      by (rule execute_covering_bid_shift [OF st [unfolded ss] w1, of khd y]) auto
    have "asset_id (base (cbo_inv_swan_price z)) = ?bck" using bk [OF j] s z(1) by (auto simp: ss)
    then have "shift khd y d e2 (- in_asset y (mk_asset (bd_settlement_fund bad - rf2) ?bck))"
      using shift_trans [of khd y d e1 _ e2] s z(2) by (fastforce simp: ss in_asset_def split: if_splits)
    then show "?P s'" using s z(3,4) by (auto simp: ss)
  qed (use assms(2) in simp)
  then have s1: "shift khd y d d1 (- fund_held y bad)" and b1: "bitassets d1 = bitassets d" by (simp_all add: fund_held_def)
  have w1: "market_wf d1" "assets d1 = assets d" using shiftD [OF s1] by auto
  have "bitasset_data (assets d1 ! ?a) d1 = Inr bad" using bd b1 w1(2) by (simp add: bitasset_data_def cong: option.case_cong)
  from cancel_revive_shift [OF last [unfolded xa] w1(1) _ this, of y khd] show ?thesis
    using shift_trans [OF s1] w1(2) assms(3) by fastforce
qed (use assms(2) in simp)

lemma update_bitasset_shift:
  assumes "update_bitasset i d = Inr e" "market_wf d"
  shows "shift khd y d e 0"
proof -
  from assms(1) obtain x a where i: "i < length (bitassets d)" and e: "e = d\<lparr>bitassets := (bitassets d)[i := x]\<rparr>"
    and x: "x = (bitassets d ! i)\<lparr>bd_force_settled_volume := 0\<rparr> \<or> x = clear_old_feeds a (head_block_time d) ((bitassets d ! i)\<lparr>bd_force_settled_volume := 0\<rparr>)"
    by (auto simp: update_bitasset_def Let_def split: if_splits)
  have same: "bd_options x = bd_options (bitassets d ! i)" "bd_settlement_price x = bd_settlement_price (bitassets d ! i)"
    "bd_settlement_fund x = bd_settlement_fund (bitassets d ! i)"
    using x by (auto simp: clear_old_feeds_def)
  have "feed_wf x" if "feed_wf (bitassets d ! i)" using x that by (auto simp: clear_old_feeds_def feed_wf_def split: if_splits)
  then have "fund_wf d i x" using market_owners(5) [OF assms(2) i] same by (auto simp: fund_wf_def has_settlement_def split: if_splits)
  from set_bitasset_shift [OF i assms(2) same(1) this, of khd y] show ?thesis using same by (simp add: e fund_held_def)
qed

lemma process_bitassets_shift:
  assumes "process_bitassets F d = Inr e" "market_wf d" "y < length (assets d)"
  shows "shift khd y d e 0"
  using assms(1) unfolding process_bitassets_def
proof (rule fold_res_invariant [where P = "\<lambda>c. shift khd y d c 0"])
  fix i c c' assume c: "shift khd y d c 0" and st: "process_bitasset F i c = Inr c'"
  have w: "market_wf c" "y < length (assets c)" using shiftD [OF c] assms(3) by auto
  from st obtain c1 where 1: "update_bitasset i c = Inr c1" and i: "i < length (bitassets c1)"
    and 2: "if has_settlement (bitassets c1 ! i) then process_bids F (bitassets c1 ! i) c1 = Inr c' else c' = c1"
    by (auto simp: process_bitasset_def split: if_splits)
  have s1: "shift khd y c c1 0" by (rule update_bitasset_shift [OF 1 w(1)])
  have "shift khd y c c' 0"
  proof (cases "has_settlement (bitassets c1 ! i)")
    case True
    show ?thesis by (rule keep_step [OF s1 w(2)]) (use 2 True i process_bids_shift in auto)
  qed (use 2 s1 in simp)
  then show "shift khd y d c' 0" using shift_trans [OF c] by fastforce
qed (use assms(2) in simp)

end

subsection \<open>Repairs at hard forks\<close>

lemma median_wf: "feed_wf b \<Longrightarrow> feed_wf (update_median_feeds now b)"
  by (rule median_feed_wf) (simp_all add: feed_wf_def)

lemma repair_feeds_wf:
  assumes "feed_wf b"
  shows "feed_wf (update_median_feeds now (repair_feeds fed b))"
  using assms by (intro median_feed_wf) (auto simp: repair_feeds_def feed_wf_def price_is_null_iff price_default_def split: if_splits)

context fc_arith
begin

lemma refresh_call_price_shift:
  assumes "refresh_call_price i d = Inr e" "market_wf d"
  shows "shift khd y d e 0"
proof (cases "e = d")
  case False
  with assms(1) obtain c p r where c: "tbl_find (call_orders d) i = Some c" and p: "call_price (get_debt c) (get_collateral c) r = Inr p"
    and e: "e = d\<lparr>call_orders := tbl_set i (c\<lparr>co_call_price := p\<rparr>) (call_orders d)\<rparr>"
    by (auto simp: refresh_call_price_def split: if_splits)
  have ids: "asset_id (base p) = collateral_type c" "asset_id (quote p) = debt_type c"
    using call_price_ids [OF p] by (simp_all add: get_debt_def get_collateral_def)
  have "call_wf d (c\<lparr>co_call_price := p\<rparr>)" using market_owners(2) [OF assms(2) c] ids by (simp add: call_wf_def call_order_defs)
  from call_table_shifts(2) [OF assms(2) c this, of khd y] show ?thesis using ids by (simp add: e call_held_def call_order_defs)
qed (use assms(2) in simp)

lemma fold_keeps:
  assumes "fold_res f xs d = Inr e" "market_wf d" "y < length (assets d)"
    and "\<And>x c c'. x \<in> set xs \<Longrightarrow> f x c = Inr c' \<Longrightarrow> market_wf c \<Longrightarrow> y < length (assets c) \<Longrightarrow> shift khd y c c' 0"
  shows "shift khd y d e 0"
  using assms(1)
  by (rule fold_res_invariant [where P = "\<lambda>c. shift khd y d c 0"]) (use assms(2) keep_step [OF _ assms(3)] assms(4) in auto)

lemma match_all_calls_shift:
  assumes "match_all_calls F d = Inr e" "market_wf d" "y < length (assets d)"
  shows "shift khd y d e 0"
  using assms(1) unfolding match_all_calls_def
  by (rule fold_keeps [OF _ assms(2,3)]) (auto intro: check_call_orders_shift)

lemma update_and_match_shift:
  assumes "update_and_match_call_orders F d = Inr e" "market_wf d" "y < length (assets d)"
  shows "shift khd y d e 0"
proof -
  from assms(1) obtain d1 where 1: "fold_res refresh_call_price (map fst (collateral_book d)) d = Inr d1" and 2: "match_all_calls F d1 = Inr e"
    by (auto simp: update_and_match_call_orders_def)
  have "shift khd y d d1 0" by (rule fold_keeps [OF 1 assms(2,3)]) (rule refresh_call_price_shift)
  from keep_step [OF this assms(3)] show ?thesis using match_all_calls_shift [OF 2] by blast
qed

lemma process_hf_868_890_shift:
  assumes "process_hf_868_890 F skip d = Inr e" "market_wf d" "y < length (assets d)"
  shows "shift khd y d e 0"
  using assms(1) unfolding process_hf_868_890_def
proof (rule fold_keeps [OF _ assms(2,3)])
  fix i c c' assume st: "repair_asset_868_890 F skip i c = Inr c'" and w: "market_wf c" "y < length (assets c)"
  from st obtain b fed c1 where b: "bitasset_data (assets c ! i) c = Inr b"
    and m: "modify_bitasset (assets c ! i) (\<lambda>x. update_median_feeds (head_block_time c) (repair_feeds fed x)) c = Inr c1"
    and rest: "c' = c1 \<or> (\<exists>r. check_call_orders F i True False c1 = Inr (r, c'))"
    unfolding repair_asset_868_890_def Let_def by (fastforce split: if_splits)
  have s1: "shift khd y c c1 0" by (rule feeds_shift(1) [OF m w(1) b]) (use repair_feeds_wf in \<open>simp_all add: repair_feeds_def\<close>)
  from rest show "shift khd y c c' 0" using s1 keep_step [OF s1 w(2)] check_call_orders_shift by blast
qed

end

subsection \<open>Changes of the assets\<close>

text \<open>Steps that change assets without touching their symbols, their dynamic data or their bitasset data.\<close>

definition asset_core :: "asset_object \<Rightarrow> string \<times> nat \<times> nat option" where
  "asset_core a = (symbol a, dynamic_asset_data_id a, bitasset_data_id a)"

definition keeps :: "asset_id_type \<Rightarrow> asset_id_type \<Rightarrow> database \<Rightarrow> database \<Rightarrow> bool" where
  "keeps khd y d e \<longleftrightarrow> market_wf e \<and> unaccounted khd e y = unaccounted khd d y \<and> map asset_core (assets e) = map asset_core (assets d)
     \<and> accounts e = accounts d \<and> investments e = investments d"

lemma shift_keeps: "shift khd y d e 0 \<Longrightarrow> keeps khd y d e"
  by (simp add: shift_def keeps_def book_frame_def)

lemma keeps_trans: "keeps khd y d e \<Longrightarrow> keeps khd y e f \<Longrightarrow> keeps khd y d f"
  by (simp add: keeps_def)

lemma keeps_refl: "market_wf d \<Longrightarrow> keeps khd y d d"
  by (simp add: keeps_def)

lemma keepsD: "keeps khd y d e \<Longrightarrow> market_wf e \<and> length (assets e) = length (assets d) \<and> accounts e = accounts d"
  unfolding keeps_def by (metis length_map)

lemma modify_asset_keeps:
  assumes "modify_asset i f d = Inr e" "market_wf d"
    and "\<And>a. asset_core (f a) = asset_core a"
    and "\<And>a. a = assets d ! i \<Longrightarrow> fee_options_wf a \<and> issuer a < length (accounts d) \<Longrightarrow> fee_options_wf (f a) \<and> issuer (f a) < length (accounts d)"
  shows "keeps khd y d e"
proof -
  from assms(1) have i: "i < length (assets d)" and e: "e = d\<lparr>assets := (assets d)[i := f (assets d ! i)]\<rparr>" by (auto simp: modify_asset_def)
  let ?x = "f (assets d ! i)"
  have same: "asset_core ((assets d)[i := ?x] ! k) = asset_core (assets d ! k)" for k using assms(3) i by (cases "k = i") simp_all
  have dyn: "dynamic_asset_data_id ((assets d)[i := ?x] ! k) = dynamic_asset_data_id (assets d ! k)"
    and bit: "bitasset_data_id ((assets d)[i := ?x] ! k) = bitasset_data_id (assets d ! k)" for k
    using same [of k] by (simp_all add: asset_core_def)
  have cores: "map asset_core ((assets d)[i := ?x]) = map asset_core (assets d)" using assms(3) i by (simp add: map_update_same)
  have dd: "map dynamic_asset_data_id ((assets d)[i := ?x]) = map dynamic_asset_data_id (assets d)"
    using assms(3) [of "assets d ! i"] i by (simp add: asset_core_def map_update_same)
  have bk: "backing_of e = backing_of d" by (auto simp: backing_of_def fun_eq_iff e bit split: option.splits)
  have "\<forall>a\<in>set ((assets d)[i := ?x]). fee_options_wf a \<and> issuer a < length (accounts d)"
    using market_owners(6) [OF assms(2)] assms(4) [OF refl] i by (auto dest!: set_update_subset_insert [THEN subsetD])
  moreover have "fund_wf e = fund_wf d" "own_data e = own_data d" by (simp_all add: fund_wf_def own_data_def fun_eq_iff e bit)
  ultimately have "market_wf e" using assms(2) bk unfolding market_wf_def
    by (simp add: e dyn_wf_def dd dyn order_wf_def call_wf_def bid_wf_def)
  moreover have "unaccounted khd e y = unaccounted khd d y" unfolding e by (rule unaccounted_assets) (use dyn [of i] i in simp)
  ultimately show ?thesis using cores by (simp add: keeps_def e)
qed

context fc_arith
begin

lemma operation_keeps:
  assumes run: "start_evaluate F ts required_fee payer fee do_evaluate do_apply d = Inr d'" and wf: "\<not> skip_fee ts" "market_wf d" "y < length (assets d)"
    and step: "\<And>c d2 d3. do_evaluate d = Inr c \<Longrightarrow> fee_frame d d2 \<Longrightarrow> market_wf d2 \<Longrightarrow> y < length (assets d2) \<Longrightarrow> do_apply c d2 = Inr d3 \<Longrightarrow>
      keeps khd y d2 d3"
  shows "keeps khd y d d'"
proof -
  from run obtain fs c d1 d2 d3 where *: "prepare_fee d payer fee = Inr fs" "do_evaluate d = Inr c"
    "convert_fee F ts fs d = Inr d1" "pay_fee F ts fs d1 = Inr d2" "do_apply c d2 = Inr d3"
    "deduct_balance F payer (fee_from_account fs) d3 = Inr d'"
    by (auto simp: start_evaluate_def evaluate_op_def apply_op_def) blast+
  have fr: "fee_frame d d2" using *(3,4) convert_fee_frame pay_fee_frame fee_frame_trans by blast
  have step': "keeps khd y e2 e3" if "do_evaluate d = Inr c" "fee_frame d e2" "do_apply c e2 = Inr e3" for c e2 e3
  proof -
    note q = fee_frame_quiet [OF that(2)]
    show ?thesis by (rule step [OF that(1,2) quiet_wf [OF q wf(2)] _ that(3)]) (use quiet_fields(1) [OF q] wf(3) in simp)
  qed
  note k = step' [OF *(2) fr *(5)] and q = fee_frame_quiet [OF fr]
  have payer: "payer < length (accounts d3)" using prepare_fee_facts(2) [OF *(1)] keepsD [OF k] quiet_fields(2) [OF q] by simp
  have s4: "shift khd y d3 d' (in_asset y (fee_from_account fs))" by (rule deduct_shift(1) [OF *(6) _ payer]) (use keepsD [OF k] in simp)
  have "unaccounted khd d' y = unaccounted khd d y"
  proof (rule operation_conserves [OF run wf(1) market_tables_wf(5) [OF wf(2)] wf(3)])
    fix c e2 e3 assume e: "do_evaluate d = Inr c" "fee_frame d e2" "do_apply c e2 = Inr e3"
    show "unaccounted khd e3 y = unaccounted khd e2 y \<and> length (accounts e3) = length (accounts d)"
      using step' [OF e] quiet_fields(2) [OF fee_frame_quiet [OF e(2)]] by (simp add: keeps_def)
  qed
  then show ?thesis using shiftD [OF s4] k quiet_fields [OF q] by (simp add: keeps_def book_frame_def)
qed

lemma asset_update_keeps:
  assumes "asset_update_evaluate F ts fee op d = Inr d'" "\<not> skip_fee ts" "market_wf d" "y < length (assets d)"
  shows "keeps khd y d d'"
proof -
  have run: "start_evaluate F ts fee (au_issuer op) (au_fee op) (asset_update_do_evaluate op) (\<lambda>_. asset_update_do_apply F op) d = Inr d'"
    and v: "asset_options_validate (au_new_options op) = Inr ()"
    using assms(1) by (auto simp: asset_update_evaluate_def asset_update_validate_def)
  have fees: "ao_market_fee_percent (au_new_options op) \<le> GRAPHENE_100_PERCENT" "0 \<le> ao_max_market_fee (au_new_options op)"
    using v by (auto simp: asset_options_validate_def)
  show ?thesis
  proof (rule operation_keeps [OF run assms(2-4)])
    fix c d2 d3 assume ev: "asset_update_do_evaluate op d = Inr c" and fr: "fee_frame d d2" and w: "market_wf d2" "y < length (assets d2)"
      and ap: "asset_update_do_apply F op d2 = Inr d3"
    from ap obtain d4 where 1: "d4 = d2 \<or> (\<exists>xs. fold_res (cancel_settle_order F) xs d2 = Inr d4)"
      and 2: "modify_asset (au_asset_to_update op)
       (\<lambda>x. x\<lparr>issuer := (case au_new_issuer op of None \<Rightarrow> issuer x | Some i \<Rightarrow> i), options := au_new_options op\<rparr>) d4 = Inr d3"
      unfolding asset_update_do_apply_def bind_res_Inr by (auto split: if_splits)
    have s1: "shift khd y d2 d4 0" using 1 w fold_keeps [OF _ w] cancel_settle_shift by fastforce
    have new: "i < length (accounts d4)" if "au_new_issuer op = Some i" for i
      using ev that shiftD [OF s1] quiet_fields(2) [OF fee_frame_quiet [OF fr]]
      by (auto simp: asset_update_do_evaluate_def validate_new_issuer_def)
    have "keeps khd y d4 d3"
      by (rule modify_asset_keeps [OF 2]) (use shiftD [OF s1] fees new in \<open>auto simp: asset_core_def fee_options_wf_def split: option.splits\<close>)
    then show "keeps khd y d2 d3" using shift_keeps [OF s1] keeps_trans by blast
  qed
qed

lemma asset_update_issuer_keeps:
  assumes "asset_update_issuer_evaluate F ts fee op d = Inr d'" "\<not> skip_fee ts" "market_wf d" "y < length (assets d)"
  shows "keeps khd y d d'"
proof -
  have run: "start_evaluate F ts fee (aui_issuer op) (aui_fee op) (asset_update_issuer_do_evaluate op) (\<lambda>_. asset_update_issuer_do_apply op) d = Inr d'"
    using assms(1) by (auto simp: asset_update_issuer_evaluate_def)
  show ?thesis
  proof (rule operation_keeps [OF run assms(2-4)])
    fix c d2 d3 assume ev: "asset_update_issuer_do_evaluate op d = Inr c" and fr: "fee_frame d d2" and w: "market_wf d2" "y < length (assets d2)"
      and ap: "asset_update_issuer_do_apply op d2 = Inr d3"
    have new: "aui_new_issuer op < length (accounts d2)"
      using ev quiet_fields(2) [OF fee_frame_quiet [OF fr]] by (auto simp: asset_update_issuer_do_evaluate_def validate_new_issuer_def)
    from ap have m: "modify_asset (aui_asset_to_update op) (\<lambda>x. x\<lparr>issuer := aui_new_issuer op\<rparr>) d2 = Inr d3" by (simp add: asset_update_issuer_do_apply_def)
    show "keeps khd y d2 d3"
      by (rule modify_asset_keeps [OF m w(1)]) (use new in \<open>auto simp: asset_core_def fee_options_wf_def\<close>)
  qed
qed

lemma refresh_expired_feed_shift:
  assumes "refresh_expired_feed F a d = Inr e" "market_wf d" "y < length (assets d)"
  shows "shift khd y d e 0"
proof (cases "e = d")
  case False
  with assms(1) obtain b c1 j r where b: "bitasset_data a d = Inr b" and m: "modify_bitasset a (update_median_feeds (head_block_time d)) d = Inr c1"
    and cc: "check_call_orders F j True False c1 = Inr (r, e)" by (auto simp: refresh_expired_feed_def split: if_splits)
  have "shift khd y d c1 0" by (rule feeds_shift(1) [OF m assms(2) b]) (use median_wf in simp_all)
  from keep_step [OF this assms(3)] show ?thesis using cc check_call_orders_shift by blast
qed (use assms(2) in simp)

lemma copy_core_rate_keeps:
  assumes "copy_core_rate i a d = Inr e" "market_wf d"
  shows "keeps khd y d e"
proof (cases "e = d")
  case False
  with assms(1) obtain p where m: "modify_asset i (\<lambda>x. x\<lparr>options := (options x)\<lparr>ao_core_exchange_rate := p\<rparr>\<rparr>) d = Inr e"
    by (auto simp: copy_core_rate_def split: if_splits)
  show ?thesis by (rule modify_asset_keeps [OF m assms(2)]) (auto simp: asset_core_def fee_options_wf_def)
qed (use assms(2) keeps_refl in simp)

lemma update_expired_feeds_keeps:
  assumes "update_expired_feeds F d = Inr e" "market_wf d" "y < length (assets d)"
  shows "keeps khd y d e"
  using assms(1) unfolding update_expired_feeds_def
proof (rule fold_res_invariant [where P = "keeps khd y d"])
  fix i c c' assume k: "keeps khd y d c" and st: "update_expired_feed F i c = Inr c'"
  have w: "market_wf c" "y < length (assets c)" using keepsD [OF k] assms(3) by auto
  from st obtain c1 where 1: "refresh_expired_feed F (assets c ! i) c = Inr c1" and 2: "copy_core_rate i (assets c ! i) c1 = Inr c'"
    by (auto simp: update_expired_feed_def)
  have s1: "shift khd y c c1 0" by (rule refresh_expired_feed_shift [OF 1 w])
  have "keeps khd y c1 c'" by (rule copy_core_rate_keeps [OF 2]) (use shiftD [OF s1] in simp)
  then show "keeps khd y d c'" using k shift_keeps [OF s1] keeps_trans by blast
qed (use assms(2) keeps_refl in simp)

end

end
