(* ===== verification/Creation_Ledger.thy ===== *)
theory Creation_Ledger
  imports Issuer_Ledger
begin

text \<open>The creation of assets and new options of market-issued assets on the ledger, and which parts of the state the books of the market
  depend on.\<close>

subsection \<open>Creation of an asset\<close>

lemma append_dyn_wf:
  assumes "market_wf d"
  shows "market_wf (d\<lparr>asset_dyn := asset_dyn d @ [x]\<rparr>)"
  using assms by (auto simp: market_wf_def dyn_wf_def order_wf_def call_wf_def bid_wf_def)

lemma append_dyn_unaccounted:
  assumes "dyn_wf d" "y < length (assets d)"
  shows "unaccounted khd (d\<lparr>asset_dyn := asset_dyn d @ [x]\<rparr>) y = unaccounted khd d y - (if y = 0 then fee_pool x else 0)
    - (if y = khd then financing_current_supply x else 0)"
  using assms by (auto simp: unaccounted_defs dyn_wf_def nth_append)

lemma append_bitasset_wf:
  assumes "market_wf d" "feed_wf x" "\<not> has_settlement x" "bd_settlement_fund x = 0"
  shows "market_wf (d\<lparr>bitassets := bitassets d @ [x]\<rparr>)" "unaccounted khd (d\<lparr>bitassets := bitassets d @ [x]\<rparr>) y = unaccounted khd d y"
proof -
  let ?e = "d\<lparr>bitassets := bitassets d @ [x]\<rparr>"
  have od: "i < length (bitassets d)" if "a < length (assets d)" "bitasset_data_id (assets d ! a) = Some i" for a i
    using market_tables_wf(6) [OF assms(1)] that by (auto simp: own_data_def)
  have bk: "backing_of ?e = backing_of d"
    by (auto simp: backing_of_def fun_eq_iff nth_append dest: od split: option.splits)
  have "own_data ?e" using market_tables_wf(6) [OF assms(1)] by (force simp: own_data_def intro: less_SucI)
  moreover have "fund_wf d i ((bitassets d @ [x]) ! i)" if "i < Suc (length (bitassets d))" for i
    using that market_owners(5) [OF assms(1), of i] assms(2-4) by (cases "i < length (bitassets d)") (auto simp: nth_append fund_wf_def)
  ultimately show "market_wf ?e" using assms(1) bk unfolding market_wf_def
    by (simp add: dyn_wf_def order_wf_def call_wf_def bid_wf_def)
  show "unaccounted khd ?e y = unaccounted khd d y" using assms(4) by (simp add: unaccounted_defs fund_held_def in_asset_def)
qed

lemma append_asset_wf:
  assumes wf: "market_wf d" and a: "fee_options_wf a" "issuer a < length (accounts d)"
    and dyn: "dynamic_asset_data_id a < length (asset_dyn d)" "dynamic_asset_data_id a \<notin> dynamic_asset_data_id ` set (assets d)"
    and bit: "\<And>i. bitasset_data_id a = Some i \<Longrightarrow> i < length (bitassets d) \<and> (\<forall>b<length (assets d). bitasset_data_id (assets d ! b) \<noteq> Some i)"
  shows "market_wf (d\<lparr>assets := assets d @ [a]\<rparr>)"
    "y < length (assets d) \<Longrightarrow> unaccounted khd (d\<lparr>assets := assets d @ [a]\<rparr>) y = unaccounted khd d y"
proof -
  let ?e = "d\<lparr>assets := assets d @ [a]\<rparr>"
  have bk: "backing_of ?e i = Some j" if "backing_of d i = Some j" for i j
    using that by (auto simp: backing_of_def nth_append split: if_splits option.splits)
  have own: "own_data ?e" using market_tables_wf(6) [OF wf] bit by (auto simp: own_data_def nth_append less_Suc_eq)
  have fund: "fund_wf ?e i b" if "fund_wf d i b" for i b
    using that by (auto simp: fund_wf_def nth_append split: if_splits)
  have dw: "dyn_wf ?e" using market_tables_wf(5) [OF wf] dyn by (auto simp: dyn_wf_def nth_append less_Suc_eq)
  have ow: "order_wf ?e x" if "tbl_find (limit_orders d) i = Some x" for i x
    using market_owners(1) [OF wf that] by (simp add: order_wf_def)
  have cw: "call_wf ?e x" if "tbl_find (call_orders d) i = Some x" for i x
    using market_owners(2) [OF wf that] by (simp add: call_wf_def bk)
  have bw: "bid_wf ?e x" if "tbl_find (collateral_bids d) i = Some x" for i x
    using market_owners(4) [OF wf that] by (simp add: bid_wf_def bk)
  show "market_wf ?e" unfolding market_wf_def
    using own dw ow cw bw fund market_tables_wf(1-4) [OF wf] market_owners(3,5,6) [OF wf] a by simp
  show "unaccounted khd ?e y = unaccounted khd d y" if "y < length (assets d)"
    using that by (simp add: unaccounted_defs nth_append)
qed

text \<open>What the well-formedness of the books depends on.\<close>

definition asset_books :: "asset_object \<Rightarrow> string \<times> account_id_type \<times> asset_options \<times> nat \<times> nat option" where
  "asset_books a = (symbol a, issuer a, options a, dynamic_asset_data_id a, bitasset_data_id a)"

definition same_books :: "database \<Rightarrow> database \<Rightarrow> bool" where
  "same_books d e \<longleftrightarrow> map asset_books (assets e) = map asset_books (assets d) \<and> length (asset_dyn e) = length (asset_dyn d) \<and> length (accounts e) = length (accounts d)
     \<and> bitassets e = bitassets d \<and> limit_orders e = limit_orders d \<and> call_orders e = call_orders d
     \<and> settle_orders e = settle_orders d \<and> collateral_bids e = collateral_bids d"

lemma same_booksD:
  assumes "same_books d e"
  shows "length (assets e) = length (assets d)"
    "i < length (assets d) \<Longrightarrow> symbol (assets e ! i) = symbol (assets d ! i) \<and> issuer (assets e ! i) = issuer (assets d ! i)
      \<and> options (assets e ! i) = options (assets d ! i) \<and> dynamic_asset_data_id (assets e ! i) = dynamic_asset_data_id (assets d ! i)
      \<and> bitasset_data_id (assets e ! i) = bitasset_data_id (assets d ! i)"
proof -
  have m: "map asset_books (assets e) = map asset_books (assets d)" using assms by (simp add: same_books_def)
  show len: "length (assets e) = length (assets d)" using map_eq_imp_length_eq [OF m] .
  assume "i < length (assets d)"
  then have "asset_books (assets e ! i) = asset_books (assets d ! i)" using m len by (metis nth_map)
  then show "symbol (assets e ! i) = symbol (assets d ! i) \<and> issuer (assets e ! i) = issuer (assets d ! i)
      \<and> options (assets e ! i) = options (assets d ! i) \<and> dynamic_asset_data_id (assets e ! i) = dynamic_asset_data_id (assets d ! i)
      \<and> bitasset_data_id (assets e ! i) = bitasset_data_id (assets d ! i)" by (simp add: asset_books_def)
qed

lemma same_books_wf:
  assumes "same_books d e" "market_wf d"
  shows "market_wf e"
proof -
  note len = same_booksD(1) [OF assms(1)] and nth = same_booksD(2) [OF assms(1)]
  have "backing_of e = backing_of d" using assms(1) len nth by (simp add: same_books_def backing_of_def fun_eq_iff split: option.splits)
  moreover have "map dynamic_asset_data_id (assets e) = map dynamic_asset_data_id (assets d)" using len nth by (simp add: list_eq_iff_nth_eq)
  then have "dyn_wf e = dyn_wf d" using assms(1) len nth by (simp add: same_books_def dyn_wf_def)
  moreover have "own_data e = own_data d"
    using assms(1) len nth by (simp add: same_books_def own_data_def) (metis (no_types))
  moreover have "fund_wf e i b = fund_wf d i b" for i b using len nth by (auto simp: fund_wf_def)
  ultimately have same: "order_wf e = order_wf d" "call_wf e = call_wf d" "bid_wf e = bid_wf d" "fund_wf e = fund_wf d" "own_data e = own_data d" "dyn_wf e = dyn_wf d"
    using assms(1) by (simp_all add: fun_eq_iff same_books_def order_wf_def call_wf_def bid_wf_def)
  have "fee_options_wf x \<and> issuer x < length (accounts d)" if x: "x \<in> set (assets e)" for x
  proof -
    obtain i where i: "i < length (assets e)" "x = assets e ! i" using x by (auto simp: in_set_conv_nth)
    then show ?thesis using market_owners(6) [OF assms(2), of "assets d ! i"] len nth [of i] by (simp add: fee_options_wf_def)
  qed
  then show ?thesis using assms same by (simp add: same_books_def market_wf_def)
qed

lemma same_books_trans: "same_books d e \<Longrightarrow> same_books e f \<Longrightarrow> same_books d f"
  by (simp add: same_books_def)

lemma dyn_ids_bounded: "dyn_wf d \<Longrightarrow> length (asset_dyn d) \<notin> dynamic_asset_data_id ` set (assets d)"
  by (auto simp: dyn_wf_def in_set_conv_nth)

lemma create_bitasset_data_wf:
  assumes "market_wf d" "\<And>b. ac_bitasset_opts op = Some b \<Longrightarrow> 0 < bo_minimum_feeds b"
  shows "market_wf (create_bitasset_data op d)" "unaccounted khd (create_bitasset_data op d) y = unaccounted khd d y"
    "\<exists>t. create_bitasset_data op d = d\<lparr>bitassets := bitassets d @ t\<rparr> \<and> length t = (if ac_bitasset_opts op = None then 0 else 1)"
proof -
  have ok: "feed_wf (new_bitasset_data i b pm)" "\<not> has_settlement (new_bitasset_data i b pm)" "bd_settlement_fund (new_bitasset_data i b pm) = 0"
    if "0 < bo_minimum_feeds b" for i b pm
    using that by (simp_all add: feed_wf_def new_bitasset_data_def has_settlement_def price_feed_default_def price_default_def price_is_null_iff)
  show "market_wf (create_bitasset_data op d)" "unaccounted khd (create_bitasset_data op d) y = unaccounted khd d y"
    using append_bitasset_wf [OF assms(1) ok] assms by (auto simp: create_bitasset_data_def split: option.splits)
  show "\<exists>t. create_bitasset_data op d = d\<lparr>bitassets := bitassets d @ t\<rparr> \<and> length t = (if ac_bitasset_opts op = None then 0 else 1)"
  proof (cases "ac_bitasset_opts op")
    case None then show ?thesis by (auto simp: create_bitasset_data_def intro: exI [of _ "[]"])
  next
    case (Some b) then show ?thesis by (auto simp: create_bitasset_data_def)
  qed
qed

text \<open>What the creation keeps and adds: one asset, with data of its own.\<close>

definition extends :: "asset_id_type \<Rightarrow> asset_id_type \<Rightarrow> asset_object \<Rightarrow> database \<Rightarrow> database \<Rightarrow> bool" where
  "extends khd y a d e \<longleftrightarrow> market_wf e \<and> unaccounted khd e y = unaccounted khd d y \<and> assets e = assets d @ [a]
     \<and> accounts e = accounts d \<and> investments e = investments d"

context fc_arith
begin

lemma core_supply_inc_shift:
  assumes "core_supply_inc F d = Inr e" "market_wf d" "0 < length (assets d)" "y < length (assets d)"
  shows "shift khd y d e (if y = 0 then 1 else 0)" "quiet d e"
proof -
  have m: "modify_dyn (dynamic_asset_data_id (assets d ! 0))
      (\<lambda>dd. bind_res (safe_add F (current_supply dd) 1) (\<lambda>s. Inr (dd\<lparr>current_supply := s\<rparr>))) d = Inr e"
    using assms(1) by (auto simp: core_supply_inc_def fc_iffs)
  show "shift khd y d e (if y = 0 then 1 else 0)" "quiet d e"
    by (rule dyn_step [where a = 0 and \<delta> = "if y = 0 then 1 else 0", OF m refl assms(2,3,4)], auto simp: fc_iffs dyn_shift_def dyn_net_def)+
qed

lemma asset_create_do_applyE:
  assumes "asset_create_do_apply F op st half fee_is_odd d = Inr e"
  obtains pool d1 d2 v where "pool = half - (if fee_is_odd \<and> head_block_time d > HARDFORK_CORE_429_TIME then 1 else 0)"
    "d1 = d\<lparr>asset_dyn := asset_dyn d @ [new_dyn_data pool st]\<rparr>"
    "if fee_is_odd \<and> \<not> head_block_time d > HARDFORK_CORE_429_TIME then core_supply_inc F d1 = Inr d2 else d2 = d1"
    "e = (create_bitasset_data op d2)\<lparr>assets := assets (create_bitasset_data op d2) @ [new_asset op d], locked_powers := v\<rparr>"
proof -
  define hf where "hf \<longleftrightarrow> fee_is_odd \<and> head_block_time d > HARDFORK_CORE_429_TIME"
  from assms obtain pool d2 where p: "safe_sub F half (if hf then 1 else 0) = Inr pool"
    and 2: "(if fee_is_odd \<and> \<not> hf then core_supply_inc F (d\<lparr>asset_dyn := asset_dyn d @ [new_dyn_data pool st]\<rparr>)
        else Inr (d\<lparr>asset_dyn := asset_dyn d @ [new_dyn_data pool st]\<rparr>)) = Inr d2"
    and 3: "(case ac_project_asset_opts op of
        None \<Rightarrow> Inr ((create_bitasset_data op d2)\<lparr>assets := assets (create_bitasset_data op d2) @ [new_asset op d]\<rparr>)
      | Some p \<Rightarrow> lock_power op (length (assets d)) p ((create_bitasset_data op d2)\<lparr>assets := assets (create_bitasset_data op d2) @ [new_asset op d]\<rparr>)) = Inr e"
    unfolding asset_create_do_apply_def Let_def hf_def bind_res_Inr by blast
  have "\<exists>v. e = (create_bitasset_data op d2)\<lparr>assets := assets (create_bitasset_data op d2) @ [new_asset op d], locked_powers := v\<rparr>"
  proof (cases "ac_project_asset_opts op")
    case None
    then show ?thesis using 3 by (intro exI [of _ "locked_powers (create_bitasset_data op d2)"]) auto
  next
    case (Some p)
    then show ?thesis using 3 by (auto simp: lock_power_def split: option.splits if_splits)
  qed
  then obtain v where "e = (create_bitasset_data op d2)\<lparr>assets := assets (create_bitasset_data op d2) @ [new_asset op d], locked_powers := v\<rparr>" by blast
  moreover have "pool = half - (if hf then 1 else 0)" using p by (simp add: fc_iffs)
  moreover have "if fee_is_odd \<and> \<not> head_block_time d > HARDFORK_CORE_429_TIME
      then core_supply_inc F (d\<lparr>asset_dyn := asset_dyn d @ [new_dyn_data pool st]\<rparr>) = Inr d2
      else d2 = d\<lparr>asset_dyn := asset_dyn d @ [new_dyn_data pool st]\<rparr>"
    using 2 by (cases fee_is_odd) (simp_all add: hf_def split: if_splits)
  ultimately show thesis using that [OF _ refl] by (simp only: hf_def)
qed

text \<open>Creating the objects of a new asset: only the fee pool is paid in.\<close>

lemma asset_create_apply_books:
  assumes ap: "asset_create_do_apply F op st half fee_is_odd d = Inr e" and wf: "market_wf d" "y < length (assets d)" "ac_issuer op < length (accounts d)"
    and opts: "ao_market_fee_percent (ac_common_options op) \<le> GRAPHENE_100_PERCENT" "0 \<le> ao_max_market_fee (ac_common_options op)"
      "\<And>b. ac_bitasset_opts op = Some b \<Longrightarrow> 0 < bo_minimum_feeds b"
  shows "market_wf e" "unaccounted khd e y = unaccounted khd d y - (if y = 0 then half - (if fee_is_odd then 1 else 0) else 0)"
    "assets e = assets d @ [new_asset op d]" "accounts e = accounts d" "investments e = investments d"
proof -
  from ap obtain pool d1 d2 v where pool: "pool = half - (if fee_is_odd \<and> head_block_time d > HARDFORK_CORE_429_TIME then 1 else 0)"
    and d1: "d1 = d\<lparr>asset_dyn := asset_dyn d @ [new_dyn_data pool st]\<rparr>"
    and d2: "if fee_is_odd \<and> \<not> head_block_time d > HARDFORK_CORE_429_TIME then core_supply_inc F d1 = Inr d2 else d2 = d1"
    and e: "e = (create_bitasset_data op d2)\<lparr>assets := assets (create_bitasset_data op d2) @ [new_asset op d], locked_powers := v\<rparr>"
    by (rule asset_create_do_applyE)
  have w1: "market_wf d1" "unaccounted khd d1 y = unaccounted khd d y - (if y = 0 then pool else 0)" "assets d1 = assets d"
    using append_dyn_wf [OF wf(1)] append_dyn_unaccounted [OF market_tables_wf(5) [OF wf(1)] wf(2)] by (simp_all add: d1 new_dyn_data_def)
  have w2: "shift khd y d1 d2 (if y = 0 \<and> fee_is_odd \<and> \<not> head_block_time d > HARDFORK_CORE_429_TIME then 1 else 0)" "quiet d1 d2"
  proof -
    have ne: "0 < length (assets d1)" "y < length (assets d1)" using wf(2) w1(3) by auto
    show "shift khd y d1 d2 (if y = 0 \<and> fee_is_odd \<and> \<not> head_block_time d > HARDFORK_CORE_429_TIME then 1 else 0)" "quiet d1 d2"
      using d2 core_supply_inc_shift [of d1 d2 y, OF _ w1(1) ne] shift_refl [OF w1(1)] quiet_refl by (auto split: if_splits)
  qed
  note q = quiet_fields [OF w2(2)]
  let ?d3 = "create_bitasset_data op d2"
  have wf2: "market_wf d2" "unaccounted khd d2 y = unaccounted khd d y - (if y = 0 then half - (if fee_is_odd then 1 else 0) else 0)"
    using w2(1) w1(2) pool by (auto simp: shift_def)
  from create_bitasset_data_wf(3) [OF wf2(1) opts(3)] obtain t where t: "?d3 = d2\<lparr>bitassets := bitassets d2 @ t\<rparr>"
    "length t = (if ac_bitasset_opts op = None then 0 else 1)" by blast
  note w3 = create_bitasset_data_wf(1,2) [OF wf2(1) opts(3)]
  let ?d4 = "?d3\<lparr>assets := assets ?d3 @ [new_asset op d]\<rparr>"
  have as: "assets ?d3 = assets d" "accounts ?d3 = accounts d" using t(1) q(1,2) w1(3) by (simp_all add: d1)
  have len: "length (asset_dyn ?d3) = Suc (length (asset_dyn d))" using t(1) q(11) by (simp add: d1)
  have od: "i < length (bitassets d)" if "a < length (assets d)" "bitasset_data_id (assets d ! a) = Some i" for a i
    using market_tables_wf(6) [OF wf(1)] that by (auto simp: own_data_def)
  have bits: "bitassets ?d3 = bitassets d @ t" using t(1) q(3) by (simp add: d1)
  have a: "fee_options_wf (new_asset op d)" "issuer (new_asset op d) < length (accounts ?d3)"
    using opts(1,2) wf(3) as by (simp_all add: fee_options_wf_def new_asset_def)
  have dyn: "dynamic_asset_data_id (new_asset op d) < length (asset_dyn ?d3)"
    "dynamic_asset_data_id (new_asset op d) \<notin> dynamic_asset_data_id ` set (assets ?d3)"
    using dyn_ids_bounded [OF market_tables_wf(5) [OF wf(1)]] len as by (simp_all add: new_asset_def)
  have bit: "i < length (bitassets ?d3) \<and> (\<forall>b<length (assets ?d3). bitasset_data_id (assets ?d3 ! b) \<noteq> Some i)"
    if "bitasset_data_id (new_asset op d) = Some i" for i
    using that t(2) od as bits by (auto simp: new_asset_def split: option.splits)
  have w4: "market_wf ?d4" "unaccounted khd ?d4 y = unaccounted khd ?d3 y"
    using append_asset_wf [OF w3(1) a dyn bit] wf(2) as by auto
  have "same_books ?d4 e" by (simp add: e same_books_def)
  then show "market_wf e" using same_books_wf w4(1) by blast
  have "unaccounted khd e y = unaccounted khd ?d4 y" by (simp add: e)
  then show "unaccounted khd e y = unaccounted khd d y - (if y = 0 then half - (if fee_is_odd then 1 else 0) else 0)"
    using w4(2) w3(2) wf2(2) by simp
  show "assets e = assets d @ [new_asset op d]" "accounts e = accounts d" using as by (simp_all add: e)
  show "investments e = investments d" using w2(1) t(1) by (simp add: e shift_def book_frame_def d1)
qed

lemma asset_create_conserves:
  assumes "asset_create_evaluate F ts fee op d = Inr d'" "\<not> skip_fee ts" "market_wf d" "y < length (assets d)"
  shows "extends khd y (new_asset op d) d d'" "find_symbol (ac_symbol op) d = None"
proof -
  from assms(1) obtain st fs d1 d2 d3 where v: "asset_create_validate op = Inr ()" and fs: "prepare_fee d (ac_issuer op) (ac_fee op) = Inr fs"
    and ev: "asset_create_do_evaluate op d = Inr st"
    and 1: "convert_fee F ts fs d = Inr d1" and 2: "pay_fee F ts (asset_create_fee fs) d1 = Inr d2"
    and 3: "asset_create_do_apply F op st (core_fee_paid (asset_create_fee fs)) (odd (core_fee_paid fs)) d2 = Inr d3"
    and 4: "deduct_balance F (ac_issuer op) (fee_from_account fs) d3 = Inr d'"
    by (auto simp: asset_create_evaluate_def evaluate_op_def) blast+
  show "find_symbol (ac_symbol op) d = None" using ev by (auto simp: asset_create_do_evaluate_def)
  note fee = prepare_fee_facts [OF fs]
  have fr: "fee_frame d d2" using 1 2 convert_fee_frame pay_fee_frame fee_frame_trans by blast
  note q = fee_frame_quiet [OF fr] note f = quiet_fields [OF q]
  have opts: "ao_market_fee_percent (ac_common_options op) \<le> GRAPHENE_100_PERCENT" "0 \<le> ao_max_market_fee (ac_common_options op)"
    using v by (auto simp: asset_create_validate_def asset_options_validate_def)
  have feeds: "0 < bo_minimum_feeds b" if "ac_bitasset_opts op = Some b" for b
    using v that by (auto simp: asset_create_validate_def bitasset_options_validate_def)
  have w2: "market_wf d2" "y < length (assets d2)" "ac_issuer op < length (accounts d2)" using quiet_wf [OF q assms(3)] f assms(4) fee(2) by simp_all
  note b3 = asset_create_apply_books [OF 3 w2 opts feeds]
  have issuer: "ac_issuer op < length (accounts d3)" using b3(4) w2(3) by simp
  note s4 = deduct_shift(1) [OF 4 b3(1) issuer, of khd y]
  have "unaccounted khd d2 y = unaccounted khd d1 y - (if y = 0 then core_fee_paid (asset_create_fee fs) else 0)"
    by (rule unaccounted_pay_fee [OF 2 assms(2)])
  moreover have "unaccounted khd d1 y = unaccounted khd d y
    - (if asset_id (ac_fee op) \<noteq> 0 then (if y = asset_id (ac_fee op) then amount (ac_fee op) else 0) - (if y = 0 then core_fee_paid fs else 0) else 0)"
    using unaccounted_convert_fee [OF 1 assms(2) market_tables_wf(5) [OF assms(3)] assms(4)] fee by simp
  moreover have "core_fee_paid (asset_create_fee fs) + core_fee_paid (asset_create_fee fs) - (if odd (core_fee_paid fs) then 1 else 0) = core_fee_paid fs"
    by (simp add: asset_create_fee_def) presburger
  ultimately have "unaccounted khd d' y = unaccounted khd d y"
    using b3(2) s4 fee(1,5) by (auto simp: shift_def in_asset_def split: if_splits)
  moreover have "new_asset op d2 = new_asset op d" using f by (simp add: new_asset_def split: option.splits)
  ultimately show "extends khd y (new_asset op d) d d'"
    using shiftD [OF s4] s4 b3 f fee_frame_fields(3) [OF fr] by (simp add: extends_def shift_def book_frame_def)
qed

end

subsection \<open>New options of a market-issued asset\<close>

definition no_positions :: "database \<Rightarrow> asset_id_type \<Rightarrow> bool" where
  "no_positions d a \<longleftrightarrow> (\<forall>i c. tbl_find (call_orders d) i = Some c \<longrightarrow> debt_type c \<noteq> a)
     \<and> (\<forall>i x. tbl_find (collateral_bids d) i = Some x \<longrightarrow> asset_id (quote (cbo_inv_swan_price x)) \<noteq> a)"

lemma set_options_keeps:
  assumes wf: "market_wf d" and a: "a < length (assets d)" "bitasset_data_id (assets d ! a) = Some i"
    and old: "\<not> has_settlement (bitassets d ! i)" and new: "\<not> has_settlement x" "bd_settlement_fund x = bd_settlement_fund (bitassets d ! i)" "feed_wf x"
    and bck: "backing_of d a = Some (bo_short_backing_asset (bd_options x)) \<or> no_positions d a"
  shows "keeps khd y d (d\<lparr>bitassets := (bitassets d)[i := x]\<rparr>)"
proof -
  let ?e = "d\<lparr>bitassets := (bitassets d)[i := x]\<rparr>"
  note od = market_tables_wf(6) [OF wf]
  have i: "i < length (bitassets d)" using od a by (auto simp: own_data_def)
  have fund: "bd_settlement_fund (bitassets d ! i) = 0" using market_owners(5) [OF wf i] old by (simp add: fund_wf_def)
  have other: "backing_of ?e b = backing_of d b" if "b \<noteq> a" for b
    using od that a by (auto simp: backing_of_def own_data_def nth_list_update split: option.splits)
  have self: "backing_of ?e a = Some (bo_short_backing_asset (bd_options x))" using a i by (simp add: backing_of_def)
  have cw: "call_wf ?e c" if "tbl_find (call_orders d) k = Some c" for k c
    using market_owners(2) [OF wf that] bck other self that by (cases "debt_type c = a") (auto simp: call_wf_def no_positions_def)
  have bw: "bid_wf ?e c" if "tbl_find (collateral_bids d) k = Some c" for k c
    using market_owners(4) [OF wf that] bck other self that
    by (cases "asset_id (quote (cbo_inv_swan_price c)) = a") (auto simp: bid_wf_def no_positions_def)
  have fw: "fund_wf ?e k ((bitassets d)[i := x] ! k)" if "k < length (bitassets d)" for k
    using market_owners(5) [OF wf that] new fund i that by (cases "k = i") (auto simp: fund_wf_def)
  have ow: "order_wf ?e c" if "tbl_find (limit_orders d) k = Some c" for k c
    using market_owners(1) [OF wf that] by (simp add: order_wf_def)
  have "dyn_wf ?e" "own_data ?e" using market_tables_wf(5) [OF wf] od by (simp_all add: dyn_wf_def own_data_def)
  then have "market_wf ?e" unfolding market_wf_def
    using cw bw fw ow market_tables_wf(1-4) [OF wf] market_owners(3,6) [OF wf] by simp
  moreover have "unaccounted khd ?e y = unaccounted khd d y"
    using i fund new(2) by (simp add: unaccounted_defs sum_list_map_update fund_held_def in_asset_def)
  ultimately show ?thesis by (simp add: keeps_def)
qed

lemma update_options_wf:
  assumes "feed_wf b" "0 < bo_minimum_feeds (aub_new_options op)"
  shows "feed_wf (snd (update_bitasset_object_options op d b a))"
    "bd_settlement_price (snd (update_bitasset_object_options op d b a)) = bd_settlement_price b"
    "bd_settlement_fund (snd (update_bitasset_object_options op d b a)) = bd_settlement_fund b"
    "bd_options (snd (update_bitasset_object_options op d b a)) = aub_new_options op"
proof -
  let ?b1 = "b\<lparr>bd_options := aub_new_options op\<rparr>"
  have 1: "feed_wf ?b1" using assms by (simp add: feed_wf_def)
  have 2: "feed_wf (?b1\<lparr>bd_feeds := []\<rparr>)" using 1 by (simp add: feed_wf_def)
  have 3: "feed_wf (?b1\<lparr>bd_feeds := map (\<lambda>(k, t, f). (k, t, f\<lparr>settlement_price := price_default\<rparr>)) (bd_feeds b)\<rparr>)"
    using 1 by (auto simp: feed_wf_def price_is_null_iff price_default_def)
  show "feed_wf (snd (update_bitasset_object_options op d b a))"
    using 1 2 3 median_wf [OF 1] median_wf [OF 2] median_wf [OF 3] by (simp add: update_bitasset_object_options_def Let_def)
  show "bd_settlement_price (snd (update_bitasset_object_options op d b a)) = bd_settlement_price b"
    "bd_settlement_fund (snd (update_bitasset_object_options op d b a)) = bd_settlement_fund b"
    "bd_options (snd (update_bitasset_object_options op d b a)) = aub_new_options op"
    by (simp_all add: update_bitasset_object_options_def Let_def)
qed

context fc_arith
begin

lemma asset_update_bitasset_keeps:
  assumes "asset_update_bitasset_evaluate F ts fee op d = Inr d'" "\<not> skip_fee ts" "market_wf d" "y < length (assets d)"
    and bck: "backing_of d (aub_asset_to_update op) = Some (bo_short_backing_asset (aub_new_options op)) \<or> no_positions d (aub_asset_to_update op)"
  shows "keeps khd y d d'"
proof -
  have run: "start_evaluate F ts fee (aub_issuer op) (aub_fee op) (asset_update_bitasset_do_evaluate op) (\<lambda>_. asset_update_bitasset_do_apply F op) d = Inr d'"
    and v: "0 < bo_minimum_feeds (aub_new_options op)"
    using assms(1) by (auto simp: asset_update_bitasset_evaluate_def asset_update_bitasset_validate_def bitasset_options_validate_def)
  show ?thesis
  proof (rule operation_keeps [OF run assms(2-4)])
    fix c d2 d3 assume ev: "asset_update_bitasset_do_evaluate op d = Inr c" and fr: "fee_frame d d2" and w: "market_wf d2" "y < length (assets d2)"
      and ap: "asset_update_bitasset_do_apply F op d2 = Inr d3"
    note q = quiet_fields [OF fee_frame_quiet [OF fr]]
    let ?a = "assets d ! aub_asset_to_update op"
    from ev obtain b where a: "aub_asset_to_update op < length (assets d)" and b: "bitasset_data ?a d = Inr b" and ns: "\<not> has_settlement b"
      by (auto simp: asset_update_bitasset_do_evaluate_def)
    obtain i where i: "bitasset_data_id ?a = Some i" "i < length (bitassets d)" "bitassets d ! i = b" by (rule bitasset_dataE [OF b])
    let ?x = "snd (update_bitasset_object_options op d2 b ?a)"
    from ap obtain d4 r where 1: "modify_bitasset ?a (\<lambda>bdo. snd (update_bitasset_object_options op d2 bdo ?a)) d2 = Inr d4"
      and 2: "d3 = d4 \<or> check_call_orders F (aub_asset_to_update op) True False d4 = Inr (r, d3)"
      unfolding asset_update_bitasset_do_apply_def bind_res_Inr q by (auto split: if_splits)
    have d4: "d4 = d2\<lparr>bitassets := (bitassets d2)[i := ?x]\<rparr>" using 1 i q by (auto simp: modify_bitasset_def)
    have fw: "feed_wf b" using market_owners(5) [OF assms(3) i(2)] i(3) by (simp add: fund_wf_def)
    note x = update_options_wf [OF fw v, of d2 ?a]
    have "keeps khd y d2 d4" unfolding d4
    proof (rule set_options_keeps [OF w(1)])
      show "\<not> has_settlement ?x" using x(2) ns by (simp add: has_settlement_def)
      show "backing_of d2 (aub_asset_to_update op) = Some (bo_short_backing_asset (bd_options ?x)) \<or> no_positions d2 (aub_asset_to_update op)"
        using bck x(4) book_frame_backing [OF quiet_frame [OF fee_frame_quiet [OF fr]]] q by (simp add: no_positions_def)
    qed (use x a i q ns in simp_all)
    moreover have "shift khd y d4 d3 0" if "check_call_orders F (aub_asset_to_update op) True False d4 = Inr (r, d3)"
      by (rule check_call_orders_shift [OF that]) (use keepsD [OF calculation] w(2) in auto)
    ultimately show "keeps khd y d2 d3" using 2 shift_keeps keeps_trans by blast
  qed
qed

end

end
