(* ===== verification/Witness_Schedule.thy ===== *)
theory Witness_Schedule
  imports Vesting
begin

unbundle bit_operations_syntax

text \<open>
  Slots, the shuffled schedule of the witnesses and what the application of a block does to it:
  \<open>libraries/chain/db_witness_schedule.cpp\<close> and the first half of \<open>db_update.cpp\<close>.

  Times and slot numbers are 32-bit unsigned in the source; they are natural numbers with the
  reduction modulo \<open>2 ^ 32\<close> written out.  Absolute slot numbers, the counters and the keys of the
  shuffle are words of their widths.  \<open>update_global_dynamic_data\<close> ends by resizing the undo
  history and the fork database: the new size is part of its result.
\<close>

definition GRAPHENE_1_PERCENT :: nat where "GRAPHENE_1_PERCENT = 100"
definition GRAPHENE_IRREVERSIBLE_THRESHOLD :: nat where "GRAPHENE_IRREVERSIBLE_THRESHOLD = 70 * GRAPHENE_1_PERCENT"
definition GRAPHENE_RECENTLY_MISSED_COUNT_INCREMENT :: u32 where "GRAPHENE_RECENTLY_MISSED_COUNT_INCREMENT = 4"
definition GRAPHENE_RECENTLY_MISSED_COUNT_DECREMENT :: u32 where "GRAPHENE_RECENTLY_MISSED_COUNT_DECREMENT = 3"
definition GRAPHENE_MAX_UNDO_HISTORY :: nat where "GRAPHENE_MAX_UNDO_HISTORY = 10000"
definition maintenance_flag :: u32 where "maintenance_flag = 1"

subsection \<open>Slots\<close>

definition to_u32 :: "nat \<Rightarrow> nat" where
  "to_u32 n = n mod 2 ^ 32"

definition get_slot_time :: "database \<Rightarrow> nat \<Rightarrow> nat result" where
  "get_slot_time d slot_num =
     (let interval = block_interval (parameters d) in
      if slot_num = 0 then Inr 0
      else if head_block_number d = 0 then Inr (to_u32 (head_block_time d + to_u32 (slot_num * interval)))
      else if interval = 0 then Inl Divide_By_Zero
      else
        let head_block_abs_slot = head_block_time d div interval;
            head_slot_time = to_u32 (head_block_abs_slot * interval);
            slot = (if dynamic_flags (dgp d) AND maintenance_flag \<noteq> 0
                    then to_u32 (slot_num + maintenance_skip_slots (parameters d)) else slot_num)
        in Inr (to_u32 (head_slot_time + to_u32 (slot * interval))))"

definition get_slot_at_time :: "database \<Rightarrow> nat \<Rightarrow> nat result" where
  "get_slot_at_time d when =
     bind_res (get_slot_time d 1) (\<lambda>first_slot_time.
     if when < first_slot_time then Inr 0
     else if block_interval (parameters d) = 0 then Inl Divide_By_Zero
     else Inr (to_u32 ((when - first_slot_time) div block_interval (parameters d) + 1)))"

definition get_scheduled_witness :: "database \<Rightarrow> nat \<Rightarrow> nat result" where
  "get_scheduled_witness d slot_num =
     (let aslot = current_aslot (dgp d) + of_nat slot_num;
          n = length (current_shuffled_witnesses d) in
      if n = 0 then Inl Divide_By_Zero else Inr (current_shuffled_witnesses d ! (unat aslot mod n)))"

definition popcount :: "u128 \<Rightarrow> nat" where
  "popcount w = length (filter (bit w) [0..<128])"

definition witness_participation_rate :: "database \<Rightarrow> nat" where
  "witness_participation_rate d = GRAPHENE_100_PERCENT * popcount (recent_slots_filled (dgp d)) div 128"

subsection \<open>The shuffle\<close>

definition shuffle_key :: "nat \<Rightarrow> nat \<Rightarrow> u64" where
  "shuffle_key now i =
     (let now_hi = push_bit 32 (of_nat now :: u64);
          k0 = now_hi + of_nat i * 2685821657736338717;
          k1 = k0 XOR drop_bit 12 k0;
          k2 = k1 XOR push_bit 25 k1;
          k3 = k2 XOR drop_bit 27 k2
      in k3 * 2685821657736338717)"

definition swap_at :: "nat \<Rightarrow> nat \<Rightarrow> 'a list \<Rightarrow> 'a list" where
  "swap_at i j xs = xs[i := xs ! j, j := xs ! i]"

definition shuffle_step :: "nat \<Rightarrow> nat \<Rightarrow> 'a list \<Rightarrow> 'a list" where
  "shuffle_step now i xs =
     (let jmax = length xs - i; j = i + unat (shuffle_key now i) mod jmax in swap_at i j xs)"

definition shuffle :: "nat \<Rightarrow> 'a list \<Rightarrow> 'a list" where
  "shuffle now xs = fold (shuffle_step now) [0..<length xs] xs"

definition update_witness_schedule :: "database \<Rightarrow> database result" where
  "update_witness_schedule d =
     (if active_witnesses d = [] then Inl Divide_By_Zero
      else if head_block_number d mod length (active_witnesses d) = 0
      then Inr (d\<lparr>current_shuffled_witnesses := shuffle (head_block_time d) (active_witnesses d)\<rparr>)
      else Inr d)"

subsection \<open>Applying a block\<close>

definition count_missed :: "nat \<Rightarrow> nat \<Rightarrow> database \<Rightarrow> database result" where
  "count_missed b_witness i d =
     bind_res (get_scheduled_witness d (i + 1)) (\<lambda>w.
     bind_res (get_obj (witnesses d) w) (\<lambda>witness_missed.
     if w \<noteq> b_witness
     then Inr (d\<lparr>witnesses := (witnesses d)[w := witness_missed\<lparr>total_missed := total_missed witness_missed + 1\<rparr>]\<rparr>)
     else Inr d))"

definition missed_count_after :: "nat \<Rightarrow> nat option \<Rightarrow> nat \<Rightarrow> u32 \<Rightarrow> u32" where
  "missed_count_after b_num last_checkpoint missed_blocks c =
     (if b_num = 1 then 0
      else if (case last_checkpoint of None \<Rightarrow> False | Some cp \<Rightarrow> cp \<ge> b_num) then 0
      else if missed_blocks \<noteq> 0 then c + GRAPHENE_RECENTLY_MISSED_COUNT_INCREMENT * of_nat missed_blocks
      else if c > GRAPHENE_RECENTLY_MISSED_COUNT_INCREMENT then c - GRAPHENE_RECENTLY_MISSED_COUNT_DECREMENT
      else if c > 0 then c - 1
      else c)"

text \<open>\<open>u32_diff\<close> is the difference of two block numbers as \<open>uint32_t\<close>.\<close>

definition u32_diff :: "nat \<Rightarrow> nat \<Rightarrow> nat" where
  "u32_diff a b = (a + 2 ^ 32 - b) mod 2 ^ 32"

definition update_global_dynamic_data :: "bool \<Rightarrow> nat option \<Rightarrow> nat \<Rightarrow> nat \<Rightarrow> nat \<Rightarrow> database \<Rightarrow> (database \<times> nat) result" where
  "update_global_dynamic_data skip_undo_history_check last_checkpoint b_num b_timestamp b_witness d =
     bind_res (get_slot_at_time d b_timestamp) (\<lambda>slot.
     require (slot \<noteq> 0) ''missed_blocks != 0''
    (let missed_blocks = slot - 1 in
     bind_res (fold_res (count_missed b_witness) [0..<missed_blocks] d) (\<lambda>d1.
     let p = dgp d1;
         p' = p\<lparr>recently_missed_count := missed_count_after b_num last_checkpoint missed_blocks (recently_missed_count p),
                current_witness := b_witness,
                recent_slots_filled := push_bit missed_blocks (push_bit 1 (recent_slots_filled p) + 1),
                current_aslot := current_aslot p + of_nat (to_u32 (missed_blocks + 1))\<rparr>;
         d2 = d1\<lparr>head_block_number := b_num, head_block_time := b_timestamp, dgp := p'\<rparr> in
     require (\<not> skip_undo_history_check \<longrightarrow> u32_diff b_num (last_irreversible_block_num p') < GRAPHENE_MAX_UNDO_HISTORY)
        ''The database does not have enough undo history''
     (Inr (d2, to_u32 (u32_diff b_num (last_irreversible_block_num p') + 1))))))"

definition update_signing_witness :: "fc_lib \<Rightarrow> nat \<Rightarrow> nat \<Rightarrow> nat \<Rightarrow> database \<Rightarrow> database result" where
  "update_signing_witness F signing_witness b_num b_timestamp d =
     bind_res (get_slot_at_time d b_timestamp) (\<lambda>slot.
     let new_block_aslot = current_aslot (dgp d) + of_nat slot;
         witness_pay = min (witness_pay_per_block (parameters d)) (witness_budget (dgp d)) in
     bind_res (safe_sub F (witness_budget (dgp d)) witness_pay) (\<lambda>budget.
     bind_res (deposit_witness_pay F signing_witness witness_pay (d\<lparr>dgp := (dgp d)\<lparr>witness_budget := budget\<rparr>\<rparr>)) (\<lambda>d1.
     bind_res (modify_obj signing_witness (\<lambda>w. Inr (w\<lparr>last_aslot := unat new_block_aslot,
         last_confirmed_block_num := b_num\<rparr>)) (witnesses d1)) (\<lambda>ws.
     Inr (d1\<lparr>witnesses := ws\<rparr>)))))"

fun get_objs :: "'o list \<Rightarrow> nat list \<Rightarrow> 'o list result" where
  "get_objs tbl [] = Inr []"
| "get_objs tbl (i # is) = bind_res (get_obj tbl i) (\<lambda>x. bind_res (get_objs tbl is) (\<lambda>xs. Inr (x # xs)))"

text \<open>\<open>std::nth_element\<close> puts the element at its position that sorting would put there.\<close>

definition irreversible_offset :: "nat \<Rightarrow> nat" where
  "irreversible_offset n = (GRAPHENE_100_PERCENT - GRAPHENE_IRREVERSIBLE_THRESHOLD) * n div GRAPHENE_100_PERCENT"

definition update_last_irreversible_block :: "database \<Rightarrow> database result" where
  "update_last_irreversible_block d =
     bind_res (get_objs (witnesses d) (active_witnesses d)) (\<lambda>wit_objs.
     let offset = irreversible_offset (length wit_objs) in
     if offset < length wit_objs then
       let new_num = sort (map last_confirmed_block_num wit_objs) ! offset in
       Inr (if new_num > last_irreversible_block_num (dgp d)
            then d\<lparr>dgp := (dgp d)\<lparr>last_irreversible_block_num := new_num\<rparr>\<rparr> else d)
     else Inl Out_Of_Range)"

definition update_maintenance_flag :: "bool \<Rightarrow> database \<Rightarrow> database" where
  "update_maintenance_flag new_maintenance_flag d =
     d\<lparr>dgp := (dgp d)\<lparr>dynamic_flags := (dynamic_flags (dgp d) AND NOT maintenance_flag)
         OR (if new_maintenance_flag then maintenance_flag else 0)\<rparr>\<rparr>"


subsection \<open>Slots and times\<close>

text \<open>The time of slot 1, as long as no 32-bit value overflows.\<close>

definition slot_base :: "database \<Rightarrow> nat" where
  "slot_base d =
     (if head_block_number d = 0 then head_block_time d
      else head_block_time d div block_interval (parameters d) * block_interval (parameters d)
        + (if dynamic_flags (dgp d) AND maintenance_flag \<noteq> 0
           then maintenance_skip_slots (parameters d) * block_interval (parameters d) else 0))"

lemma get_slot_time_exact:
  assumes "0 < n" "0 < block_interval (parameters d)" "slot_base d + n * block_interval (parameters d) < 2 ^ 32"
  shows "get_slot_time d n = Inr (slot_base d + n * block_interval (parameters d))"
proof (cases "head_block_number d = 0")
  case True
  then show ?thesis using assms by (simp add: get_slot_time_def slot_base_def to_u32_def Let_def)
next
  case False
  let ?i = "block_interval (parameters d)" and ?k = "maintenance_skip_slots (parameters d)"
  have le: "m \<le> m * ?i" for m using assms(2) by simp
  show ?thesis
  proof (cases "dynamic_flags (dgp d) AND maintenance_flag = 0")
    case True
    then show ?thesis using assms False by (simp add: get_slot_time_def slot_base_def to_u32_def Let_def)
  next
    case flag: False
    have "(n + ?k) * ?i < 2 ^ 32" using assms(3) False flag by (simp add: slot_base_def algebra_simps)
    moreover from this have "n + ?k < 2 ^ 32" using le [of "n + ?k"] by linarith
    moreover have "head_block_time d div ?i * ?i + (n + ?k) * ?i < 2 ^ 32"
      using assms(3) False flag by (simp add: slot_base_def algebra_simps)
    ultimately show ?thesis using assms False flag
      by (simp add: get_slot_time_def slot_base_def to_u32_def Let_def algebra_simps)
  qed
qed

lemma get_slot_at_time_exact:
  assumes "0 < block_interval (parameters d)" "slot_base d + block_interval (parameters d) < 2 ^ 32" "when < 2 ^ 32"
  shows "get_slot_at_time d when = Inr (if when < slot_base d + block_interval (parameters d) then 0
    else (when - slot_base d) div block_interval (parameters d))"
proof -
  let ?i = "block_interval (parameters d)"
  have "(when - (slot_base d + ?i)) div ?i + 1 = (when - slot_base d) div ?i" if "slot_base d + ?i \<le> when"
  proof -
    have "when - slot_base d = (when - (slot_base d + ?i)) + ?i" using that by simp
    then show ?thesis using assms(1) by (metis Suc_eq_plus1 add.commute div_add_self2 less_numeral_extra(3))
  qed
  moreover have "(when - slot_base d) div ?i < 2 ^ 32"
    using div_le_dividend [of "when - slot_base d" ?i] assms(3) by linarith
  ultimately show ?thesis
    using get_slot_time_exact [of 1 d] assms by (auto simp: get_slot_at_time_def to_u32_def not_less)
qed

text \<open>C27: Slots and times fit together.  While 32-bit times do not overflow, the slots are consecutive
  intervals: \<open>get_slot_time\<close> of slot \<open>n > 0\<close> is one interval after that of slot \<open>n - 1\<close>, a time is in
  slot \<open>n\<close> for \<open>get_slot_at_time\<close> exactly from the time of slot \<open>n\<close> until the time of slot
  \<open>n + 1\<close>, and times before slot 1 are in no slot (0).\<close>

theorem slot_time_roundtrip:
  assumes "0 < block_interval (parameters d)" "0 < n" "when < 2 ^ 32"
    and "get_slot_time d n = Inr t" "slot_base d + (n + 1) * block_interval (parameters d) < 2 ^ 32"
  shows "get_slot_time d (n + 1) = Inr (t + block_interval (parameters d))
    \<and> (get_slot_at_time d when = Inr n \<longleftrightarrow> t \<le> when \<and> when < t + block_interval (parameters d))
    \<and> (get_slot_at_time d when = Inr 0 \<longleftrightarrow> when < slot_base d + block_interval (parameters d))"
proof -
  let ?i = "block_interval (parameters d)"
  have base: "slot_base d + n * ?i < 2 ^ 32" "slot_base d + ?i < 2 ^ 32"
    using assms(2,5) by (simp_all add: algebra_simps)
  have t: "t = slot_base d + n * ?i" using get_slot_time_exact [OF assms(2,1) base(1)] assms(4) by simp
  have next_slot: "get_slot_time d (n + 1) = Inr (t + ?i)"
    using get_slot_time_exact [of "n + 1" d] assms t by (simp add: algebra_simps)
  note at = get_slot_at_time_exact [OF assms(1) base(2) assms(3)]
  have quot: "x div ?i = n \<longleftrightarrow> n * ?i \<le> x \<and> x < n * ?i + ?i" for x
    using assms(1) by (metis add.commute div_nat_eqI dividend_less_times_div div_times_less_eq_dividend mult.commute mult_Suc_right)
  have "?i \<le> n * ?i" using assms(2) by simp
  have mid: "get_slot_at_time d when = Inr n \<longleftrightarrow> t \<le> when \<and> when < t + ?i"
  proof (cases "when < slot_base d + ?i")
    case True
    then have "\<not> t \<le> when" using t \<open>?i \<le> n * ?i\<close> by linarith
    then show ?thesis using at assms(2) True by simp
  next
    case False
    then have "get_slot_at_time d when = Inr n \<longleftrightarrow> (when - slot_base d) div ?i = n" using at by simp
    then show ?thesis unfolding quot t using False by linarith
  qed
  have "0 < (when - slot_base d) div ?i" if "\<not> when < slot_base d + ?i"
    using that assms(1) by (simp add: div_greater_zero_iff)
  then have "get_slot_at_time d when = Inr 0 \<longleftrightarrow> when < slot_base d + ?i" using at by auto
  with next_slot mid show ?thesis by blast
qed

theorem slot_time_roundtrip_witness:
  "get_slot_time demo_db 3 = Inr 1008 \<and> get_slot_at_time demo_db 1007 = Inr 2"
proof -
  have t: "get_slot_time demo_db 2 = Inr 1005"
    by (simp add: get_slot_time_def to_u32_def demo_defs maintenance_flag_def Let_def)
  have "0 < block_interval (parameters demo_db)" "(1007 :: nat) < 2 ^ 32"
    "slot_base demo_db + (2 + 1) * block_interval (parameters demo_db) < 2 ^ 32" "block_interval (parameters demo_db) = 3"
    by (simp_all add: slot_base_def demo_defs maintenance_flag_def)
  then show ?thesis using slot_time_roundtrip [of demo_db 2 1007 1005] t by simp
qed

subsection \<open>The schedule\<close>

lemma mset_swap_at: "i < length xs \<Longrightarrow> j < length xs \<Longrightarrow> mset (swap_at i j xs) = mset xs"
  by (simp add: swap_at_def mset_swap)

lemma length_shuffle_step [simp]: "length (shuffle_step now i xs) = length xs"
  by (simp add: shuffle_step_def swap_at_def Let_def)

lemma mset_shuffle_step: "i < length xs \<Longrightarrow> mset (shuffle_step now i xs) = mset xs"
proof -
  assume i: "i < length xs"
  then have "unat (shuffle_key now i) mod (length xs - i) < length xs - i" by simp
  then have "i + unat (shuffle_key now i) mod (length xs - i) < length xs" by linarith
  then show ?thesis using i by (simp add: shuffle_step_def Let_def mset_swap_at)
qed

lemma shuffle_permutes: "mset (shuffle now xs) = mset xs" "length (shuffle now xs) = length xs"
proof -
  have "mset (fold (shuffle_step now) is ys) = mset ys \<and> length (fold (shuffle_step now) is ys) = length ys"
    if "\<forall>i\<in>set is. i < length ys" for "is" and ys :: "'a list"
    using that by (induction "is" arbitrary: ys) (auto simp: mset_shuffle_step)
  from this [of "[0..<length xs]" xs] show "mset (shuffle now xs) = mset xs" "length (shuffle now xs) = length xs"
    by (auto simp: shuffle_def)
qed

text \<open>A window of consecutive indices modulo the length meets every index once.\<close>

lemma mset_rotation:
  "mset (map (\<lambda>i. xs ! ((a + i) mod length xs)) [0..<length xs]) = mset xs"
proof (cases "xs = []")
  case False
  have "map (\<lambda>i. xs ! ((a + i) mod length xs)) [0..<length xs] = rotate a xs"
    using False by (intro nth_equalityI) (auto simp: nth_rotate add.commute)
  moreover have "mset (rotate a xs) = mset xs"
    by (metis append_take_drop_id mset_append add.commute rotate_drop_take)
  ultimately show ?thesis by simp
qed simp

lemma scheduled_index:
  assumes "unat (current_aslot (dgp d)) + n < 2 ^ 64" "current_shuffled_witnesses d \<noteq> []"
  shows "get_scheduled_witness d n
    = Inr (current_shuffled_witnesses d ! ((unat (current_aslot (dgp d)) + n) mod length (current_shuffled_witnesses d)))"
proof -
  have "unat (of_nat n :: u64) = n" using assms(1) by (simp add: unat_of_nat take_bit_nat_eq_self)
  then have "unat (current_aslot (dgp d) + of_nat n) = unat (current_aslot (dgp d)) + n"
    using assms(1) by (simp add: unat_word_ariths(1))
  then show ?thesis using assms(2) by (simp add: get_scheduled_witness_def Let_def)
qed

text \<open>C26: A new schedule gives every witness its turn.  When \<open>update_witness_schedule\<close> starts a new
  round, the shuffled list is a permutation of the active witnesses, and in the window of as many slots
  as there are active witnesses, starting anywhere, each of them is scheduled exactly once
  (\<open>get_scheduled_witness\<close> never reads past the list).\<close>

theorem schedule_is_fair:
  assumes "update_witness_schedule d = Inr d'" "head_block_number d mod length (active_witnesses d) = 0"
    and "unat (current_aslot (dgp d)) + k + length (active_witnesses d) < 2 ^ 64"
  shows "mset (current_shuffled_witnesses d') = mset (active_witnesses d)
    \<and> (\<exists>ws. map (get_scheduled_witness d') [k..<k + length (active_witnesses d)] = map Inr ws
          \<and> mset ws = mset (active_witnesses d))"
proof -
  let ?n = "length (active_witnesses d)" and ?a = "unat (current_aslot (dgp d))"
  have d': "d' = d\<lparr>current_shuffled_witnesses := shuffle (head_block_time d) (active_witnesses d)\<rparr>" "?n \<noteq> 0"
    using assms(1,2) by (auto simp: update_witness_schedule_def split: if_splits)
  define ws where "ws = current_shuffled_witnesses d'"
  have ws: "mset ws = mset (active_witnesses d)" "length ws = ?n" by (simp_all add: ws_def d' shuffle_permutes)
  have "map (get_scheduled_witness d') [k..<k + ?n] = map Inr (map (\<lambda>i. ws ! ((?a + k + i) mod length ws)) [0..<?n])"
  proof (rule nth_equalityI)
    fix i assume "i < length (map (get_scheduled_witness d') [k..<k + ?n])"
    then have i: "i < ?n" by simp
    then have "get_scheduled_witness d' (k + i) = Inr (ws ! ((?a + (k + i)) mod length ws))"
    proof (subst scheduled_index)
      show "unat (current_aslot (dgp d')) + (k + i) < 2 ^ 64" "current_shuffled_witnesses d' \<noteq> []"
        using assms(3) ws(2) d' i by (auto simp: ws_def)
    qed (simp add: ws_def d'(1))
    then show "map (get_scheduled_witness d') [k..<k + ?n] ! i
        = map Inr (map (\<lambda>i. ws ! ((?a + k + i) mod length ws)) [0..<?n]) ! i"
      using i by (simp add: add.assoc)
  qed simp
  moreover have "mset (map (\<lambda>i. ws ! ((?a + k + i) mod length ws)) [0..<?n]) = mset ws"
    using mset_rotation [of ws "?a + k"] ws(2) by simp
  ultimately have "\<exists>vs. map (get_scheduled_witness d') [k..<k + ?n] = map Inr vs \<and> mset vs = mset (active_witnesses d)"
    using ws(1) by metis
  then show ?thesis using ws(1) by (simp add: ws_def)
qed

theorem schedule_is_fair_witness:
  "\<exists>d' ws. update_witness_schedule (demo_db\<lparr>active_witnesses := [4, 5, 7]\<rparr>) = Inr d'
     \<and> map (get_scheduled_witness d') [1..<4] = map Inr ws \<and> mset ws = mset [4, 5, 7]"
proof -
  let ?d = "demo_db\<lparr>active_witnesses := [4, 5, 7]\<rparr>"
  have "\<exists>d'. update_witness_schedule ?d = Inr d'" by (simp add: update_witness_schedule_def)
  then obtain d' where d': "update_witness_schedule ?d = Inr d'" ..
  have "head_block_number ?d mod length (active_witnesses ?d) = 0"
    "unat (current_aslot (dgp ?d)) + 1 + length (active_witnesses ?d) < 2 ^ 64"
    by (simp_all add: demo_db_def demo_dgp_def)
  from schedule_is_fair [OF d' this] obtain ws where "map (get_scheduled_witness d') [1..<1 + length (active_witnesses ?d)] = map Inr ws"
    "mset ws = mset (active_witnesses ?d)" by blast
  moreover have "1 + length (active_witnesses ?d) = 4" "active_witnesses ?d = [4, 5, 7]" by simp_all
  ultimately show ?thesis using d' by metis
qed

subsection \<open>The last irreversible block\<close>

lemma get_objs_known: "\<forall>i\<in>set is. i < length tbl \<Longrightarrow> get_objs tbl is = Inr (map (\<lambda>i. tbl ! i) is)"
  by (induction "is") auto

lemma sorted_nth_count:
  fixes xs :: "nat list"
  assumes "k < length xs"
  shows "length xs - k \<le> length (filter (\<lambda>x. sort xs ! k \<le> x) xs)"
proof -
  let ?v = "sort xs ! k"
  have "\<forall>x\<in>set (drop k (sort xs)). ?v \<le> x"
  proof
    fix x assume "x \<in> set (drop k (sort xs))"
    then obtain i where "i < length xs - k" "x = sort xs ! (k + i)" by (auto simp: in_set_conv_nth)
    then show "?v \<le> x" by (simp add: sorted_nth_mono)
  qed
  then have "filter (\<lambda>x. ?v \<le> x) (drop k (sort xs)) = drop k (sort xs)" by simp
  then have "length (filter (\<lambda>x. ?v \<le> x) (drop k (sort xs))) = length xs - k" by simp
  then have "length xs - k \<le> length (filter (\<lambda>x. ?v \<le> x) (take k (sort xs) @ drop k (sort xs)))"
    by (simp only: filter_append length_append)
  also have "\<dots> = length (filter (\<lambda>x. ?v \<le> x) (sort xs))" by (simp only: append_take_drop_id)
  also have "\<dots> = length (filter (\<lambda>x. ?v \<le> x) xs)" by (metis mset_filter mset_sort size_mset)
  finally show ?thesis .
qed

text \<open>C25: The last irreversible block only moves forward, and it moves to a block only when at least 70 %
  of the active witnesses have confirmed that block or a later one; with an active witness the update
  always succeeds on known witnesses.\<close>

theorem irreversible_needs_supermajority:
  assumes "\<forall>w\<in>set (active_witnesses d). w < length (witnesses d)" "active_witnesses d \<noteq> []"
  shows "\<exists>d'. update_last_irreversible_block d = Inr d'
    \<and> last_irreversible_block_num (dgp d) \<le> last_irreversible_block_num (dgp d')
    \<and> (last_irreversible_block_num (dgp d') \<noteq> last_irreversible_block_num (dgp d) \<longrightarrow>
        7 * length (active_witnesses d) \<le>
        10 * length (filter (\<lambda>w. last_irreversible_block_num (dgp d') \<le> last_confirmed_block_num (witnesses d ! w)) (active_witnesses d)))"
proof -
  let ?ws = "map (\<lambda>i. witnesses d ! i) (active_witnesses d)" and ?n = "length (active_witnesses d)"
  have objs: "get_objs (witnesses d) (active_witnesses d) = Inr ?ws"
    using assms(1) by (rule get_objs_known)
  let ?k = "irreversible_offset ?n"
  have k: "?k = 3 * ?n div 10"
    by (simp add: irreversible_offset_def GRAPHENE_IRREVERSIBLE_THRESHOLD_def GRAPHENE_1_PERCENT_def GRAPHENE_100_PERCENT_def)
  then have lt: "?k < ?n" using assms(2) by (cases "active_witnesses d") auto
  let ?xs = "map last_confirmed_block_num ?ws"
  let ?v = "sort ?xs ! ?k"
  have "?n - ?k \<le> length (filter (\<lambda>x. ?v \<le> x) ?xs)" using sorted_nth_count [of ?k ?xs] lt by simp
  also have "\<dots> = length (filter (\<lambda>w. ?v \<le> last_confirmed_block_num (witnesses d ! w)) (active_witnesses d))"
    by (simp add: filter_map comp_def)
  finally have "7 * ?n \<le> 10 * length (filter (\<lambda>w. ?v \<le> last_confirmed_block_num (witnesses d ! w)) (active_witnesses d))"
    using k by linarith
  then show ?thesis using objs lt by (simp add: update_last_irreversible_block_def Let_def comp_def)
qed

theorem irreversible_needs_supermajority_witness:
  "\<exists>d'. update_last_irreversible_block (demo_db\<lparr>active_witnesses := [0], witnesses := [\<lparr>witness_account = 6, last_aslot = 1,
      pay_vb = None, witness_vote_id = 1, total_votes = 0, total_missed = 0, last_confirmed_block_num = 9\<rparr>]\<rparr>) = Inr d'
     \<and> 0 \<le> last_irreversible_block_num (dgp d')"
  using irreversible_needs_supermajority [of "demo_db\<lparr>active_witnesses := [0], witnesses := [\<lparr>witness_account = 6, last_aslot = 1,
      pay_vb = None, witness_vote_id = 1, total_votes = 0, total_missed = 0, last_confirmed_block_num = 9\<rparr>]\<rparr>"] by fastforce
end
