(* ===== verification/Chain_Frame.thy ===== *)
theory Chain_Frame
  imports Creation_Ledger Witness_Schedule
begin

text \<open>Operations and per-block updates that leave the books of the market alone.\<close>

subsection \<open>Operations that leave the books of the market alone\<close>

definition calm :: "asset_id_type \<Rightarrow> database \<Rightarrow> database \<Rightarrow> bool" where
  "calm khd d e \<longleftrightarrow> same_books d e \<and> (khd_wf d khd \<longrightarrow> khd_wf e khd)"

lemma calm_refl [simp]: "calm khd d d"
  by (simp add: calm_def same_books_def)

lemma calm_trans [trans]: "calm khd d e \<Longrightarrow> calm khd e f \<Longrightarrow> calm khd d f"
  using same_books_trans unfolding calm_def by blast

lemma calm_fields [simp]:
  "calm khd d (d\<lparr>balances := m\<rparr>)" "calm khd d (d\<lparr>vestings := v\<rparr>)" "calm khd d (d\<lparr>account_stats := s\<rparr>)" "calm khd d (d\<lparr>witnesses := w\<rparr>)"
  "length t = length (asset_dyn d) \<Longrightarrow> calm khd d (d\<lparr>asset_dyn := t\<rparr>)" "length a = length (accounts d) \<Longrightarrow> calm khd d (d\<lparr>accounts := a\<rparr>)"
  "calm khd d (d\<lparr>locked_powers := p\<rparr>)"
  by (simp_all add: calm_def same_books_def khd_wf_def)

lemma calm_investments:
  assumes "\<And>v. v \<in> set vs \<Longrightarrow> khd_wf d khd \<Longrightarrow> asset_id (investment_khd_amount v) = khd"
  shows "calm khd d (d\<lparr>investments := vs\<rparr>)"
  using assms by (auto simp: calm_def same_books_def khd_wf_def)

lemma calm_views:
  assumes "map (\<lambda>v. investment_khd_amount v) vs = map (\<lambda>v. investment_khd_amount v) (investments d)"
  shows "calm khd d (d\<lparr>investments := vs\<rparr>)"
proof (rule calm_investments)
  fix v assume v: "v \<in> set vs" "khd_wf d khd"
  then have "investment_khd_amount v \<in> set (map (\<lambda>v. investment_khd_amount v) (investments d))" using assms by (metis image_eqI set_map)
  then show "asset_id (investment_khd_amount v) = khd" using v(2) by (auto simp: khd_wf_def)
qed

lemma view_amounts:
  assumes "map inv_view vs = map inv_view ws"
  shows "map (\<lambda>v. investment_khd_amount v) vs = map (\<lambda>v. investment_khd_amount v) ws"
proof -
  have "map (\<lambda>v. investment_khd_amount v) xs = map (fst \<circ> snd) (map inv_view xs)" for xs by (simp add: inv_view_def)
  then show ?thesis using assms by metis
qed

lemma calm_tokens [simp]:
  "calm khd d (d\<lparr>investments := fold set_tokens zs (investments d)\<rparr>)" "calm khd d (d\<lparr>investments := fold mark_received js (investments d)\<rparr>)"
  by (rule calm_views, rule view_amounts, rule view_fold_set_tokens view_fold_mark_received)+

lemma quiet_calm: "quiet d e \<Longrightarrow> investments e = investments d \<Longrightarrow> calm khd d e"
  using quiet_fields [of d e] by (auto simp: calm_def same_books_def khd_wf_def)

lemma modify_dyn_calm: "modify_dyn i f d = Inr e \<Longrightarrow> calm khd d e"
  by (auto simp: modify_dyn_def)

lemma adjust_calm: "adjust_balance F a x d = Inr e \<Longrightarrow> calm khd d e"
  by (auto dest!: adjust_balance_only)

lemma deduct_calm: "deduct_balance F a x d = Inr e \<Longrightarrow> calm khd d e"
  by (auto dest!: deduct_balance_only)

context fc_arith
begin

lemma fee_frame_calm: "fee_frame d e \<Longrightarrow> calm khd d e"
  using quiet_calm fee_frame_quiet fee_frame_fields(3) by blast

lemma operation_calm:
  assumes "start_evaluate F ts required_fee payer fee do_evaluate do_apply d = Inr d'"
    and "\<And>c d2 d3. do_evaluate d = Inr c \<Longrightarrow> fee_frame d d2 \<Longrightarrow> do_apply c d2 = Inr d3 \<Longrightarrow> calm khd d2 d3"
  shows "calm khd d d'"
proof -
  from assms(1) obtain fs c d1 d2 d3 where *: "do_evaluate d = Inr c"
    "convert_fee F ts fs d = Inr d1" "pay_fee F ts fs d1 = Inr d2" "do_apply c d2 = Inr d3"
    "deduct_balance F payer (fee_from_account fs) d3 = Inr d'"
    by (auto simp: start_evaluate_def evaluate_op_def apply_op_def) blast+
  have fr: "fee_frame d d2" using *(2,3) convert_fee_frame pay_fee_frame fee_frame_trans by blast
  then show ?thesis using assms(2) [OF *(1) fr *(4)] fee_frame_calm deduct_calm [OF *(5)] calm_trans by blast
qed

lemma transfer_calm: "transfer_evaluate F ts fee op d = Inr d' \<Longrightarrow> calm khd d d'"
  by (auto simp: transfer_evaluate_def transfer_do_apply_def elim!: operation_calm intro: calm_trans [OF deduct_calm adjust_calm])

lemma override_transfer_calm: "override_transfer_evaluate F ts fee op d = Inr d' \<Longrightarrow> calm khd d d'"
  by (auto simp: override_transfer_evaluate_def override_transfer_do_apply_def elim!: operation_calm intro: calm_trans [OF deduct_calm adjust_calm])

lemma vesting_create_calm: "vesting_balance_create_evaluate F ts fee op d = Inr d' \<Longrightarrow> calm khd d d'"
  by (auto simp: vesting_balance_create_evaluate_def vesting_balance_create_do_apply_def elim!: operation_calm intro: calm_trans [OF deduct_calm calm_fields(2)])

lemma vesting_withdraw_calm: "vesting_balance_withdraw_evaluate F ts fee op d = Inr d' \<Longrightarrow> calm khd d d'"
  by (auto simp: vesting_balance_withdraw_evaluate_def vesting_balance_withdraw_do_apply_def elim!: operation_calm intro: calm_trans [OF calm_fields(2) adjust_calm])

lemma invest_calm:
  assumes "asset_investment_evaluate F ts fee now op d = Inr d'"
  shows "calm khd d d'"
proof -
  have run: "start_evaluate F ts fee (iv_account_id op) (iv_fee op) (asset_investment_do_evaluate op) (\<lambda>_. asset_investment_do_apply F now op) d = Inr d'"
    using assms by (auto simp: asset_investment_evaluate_def)
  show ?thesis
  proof (rule operation_calm [OF run])
    fix c d2 d3 assume ev: "asset_investment_do_evaluate op d = Inr c" and fr: "fee_frame d d2" and ap: "asset_investment_do_apply F now op d2 = Inr d3"
    let ?a = "iv_investment_asset_id op"
    let ?A = "assets d2 ! ?a"
    have khd: "asset_id (iv_amount op) < length (assets d2)" "symbol (assets d2 ! asset_id (iv_amount op)) = KHD_ASSET_SYMBOL" "?a < length (assets d2)"
      using ev fee_frame_fields(2) [OF fr] by (auto simp: asset_investment_do_evaluate_def)
    let ?D = "dyn_of d2 ?a"
    let ?max = "po_max_financing_amount (proj_options ?A)"
    let ?adv = "?max \<le> financing_current_supply ?D + amount (iv_amount op)"
    define actual where "actual = (if ?adv then ?max - financing_current_supply ?D else amount (iv_amount op))"
    define A' where "A' = (if ?adv then advance_end_financing (head_block_number d2) now ?A else ?A)"
    from ap obtain x v where 4: "deduct_balance F (iv_account_id op) (mk_asset actual (asset_id (iv_amount op))) (d2\<lparr>assets := (assets d2)[?a := A'],
        investments := investments d2 @ [v], asset_dyn := (asset_dyn d2)[dynamic_asset_data_id ?A := x]\<rparr>) = Inr d3"
      and v: "asset_id (investment_khd_amount v) = asset_id (iv_amount op)"
      by (auto simp: asset_investment_do_apply_def Let_def modify_dyn_def fc_iffs dyn_of_def actual_def A'_def split: if_splits)
    have A': "asset_books A' = asset_books ?A" by (simp add: A'_def asset_books_def advance_end_financing_def)
    have "calm khd d2 (d2\<lparr>assets := (assets d2)[?a := A'],
        investments := investments d2 @ [v], asset_dyn := (asset_dyn d2)[dynamic_asset_data_id ?A := x]\<rparr>)"
      using A' v khd by (auto simp: calm_def same_books_def khd_wf_def asset_books_def nth_list_update intro!: map_update_same)
    then show "calm khd d2 d3" using deduct_calm [OF 4] calm_trans by blast
  qed
qed

lemma issue_calm: "issue_asset_to_investors_evaluate F ts fee op d = Inr d' \<Longrightarrow> calm khd d d'"
  unfolding issue_asset_to_investors_evaluate_def
  by (auto simp: issue_asset_to_investors_do_apply_def Let_def elim!: operation_calm intro: calm_trans [OF calm_tokens(1) modify_dyn_calm])

lemma refund_calm:
  assumes "refund_investment_evaluate F ts fee op d = Inr d'"
  shows "calm khd d d'"
proof -
  have one: "calm khd e e'" if "refund_one F i a j e = Inr e'" for i a j e e'
  proof -
    from that obtain e1 e2 f x y where 1: "modify_dyn i f e = Inr e1" and 2: "adjust_balance F a x e1 = Inr e2"
      and 3: "e' = e2\<lparr>investments := (investments e2)[j := (investments e2 ! j)\<lparr>return_financing_flag := True\<rparr>]\<rparr>" "j < length (investments e2)"
      by (auto simp: refund_one_def)
    have "calm khd e2 e'" unfolding 3 by (rule calm_views) (simp add: map_update_same 3(2))
    then show ?thesis using modify_dyn_calm [OF 1] adjust_calm [OF 2] calm_trans by blast
  qed
  have fold: "calm khd e e'" if "fold_res (refund_one F i a) js e = Inr e'" for i a js e e'
    using that by (rule fold_res_invariant [where P = "calm khd e"]) (use one calm_trans in auto)
  show ?thesis using assms
    by (auto simp: refund_investment_evaluate_def refund_investment_do_apply_def elim!: operation_calm intro: fold)
qed

lemma claim_khd_calm: "claim_bitasset_investment_evaluate F ts fee op d = Inr d' \<Longrightarrow> calm khd d d'"
  by (auto simp: claim_bitasset_investment_evaluate_def claim_bitasset_investment_do_apply_def elim!: operation_calm
      intro: calm_trans [OF adjust_calm modify_dyn_calm])

lemma claim_tokens_calm: "claim_asset_investment_evaluate F ts fee op d = Inr d' \<Longrightarrow> calm khd d d'"
  by (auto simp: claim_asset_investment_evaluate_def claim_asset_investment_do_apply_def elim!: operation_calm
      intro: calm_trans [OF calm_trans [OF adjust_calm modify_dyn_calm] calm_tokens(2)])

lemma cashback_calm:
  assumes "deposit_cashback F acct amt rv d = Inr d'"
  shows "calm khd d d'"
proof -
  consider "d' = d" | t where "d' = d\<lparr>asset_dyn := t\<rparr>" "length t = length (asset_dyn d)"
    | a :: account_object and r and ac :: account_object where "deposit_lazy_vesting F (cashback_vb a) amt (cashback_vesting_period_seconds (parameters d)) acct rv d = Inr r"
        "d' = (fst r)\<lparr>accounts := (accounts (fst r))[acct := ac]\<rparr> \<or> d' = fst r"
    using assms by (auto simp: deposit_cashback_def modify_dyn_def fc_iffs split: if_splits option.splits prod.splits) blast
  then show ?thesis
  proof cases
    case (3 a r)
    obtain w where w: "fst r = d\<lparr>vestings := w\<rparr>" using lazy_vesting_conserves(2) [OF 3(1)] by blast
    have "calm khd d (fst r)" by (simp add: w)
    moreover have "calm khd (fst r) ((fst r)\<lparr>accounts := (accounts (fst r))[acct := x]\<rparr>)" for x by simp
    ultimately show ?thesis using 3(2) calm_trans by blast
  qed simp_all
qed

lemma pay_out_calm:
  assumes "pay_out_fees F acct fees rv d = Inr d'"
  shows "calm khd d d'"
proof -
  from assms obtain d1 and a :: account_object and network lifetime d2 rr d3 d4 where 1: "refresh_referrer acct d = Inr d1"
    and 2: "modify_dyn 0 (\<lambda>x. bind_res (safe_add F (accumulated_fees x) network) (\<lambda>s. Inr (x\<lparr>accumulated_fees := s\<rparr>))) d1 = Inr d2"
    and 3: "deposit_cashback F (lifetime_referrer a) lifetime rv d2 = Inr d3" "deposit_cashback F (referrer a) rr rv d3 = Inr d4"
      "deposit_cashback F (registrar a) (fees - network - lifetime - rr) rv d4 = Inr d'"
    by (auto simp: pay_out_fees_def fc_iffs)
  have "calm khd d d1" using 1 by (auto simp: refresh_referrer_def split: if_splits)
  also have "calm khd d1 d2" by (rule modify_dyn_calm [OF 2])
  also have "calm khd d2 d3" by (rule cashback_calm [OF 3(1)])
  also have "calm khd d3 d4" by (rule cashback_calm [OF 3(2)])
  also have "calm khd d4 d'" by (rule cashback_calm [OF 3(3)])
  finally show ?thesis .
qed

lemma process_fees_calm:
  assumes "process_fees F st acct d = Inr d'"
  shows "calm khd d d'"
proof (cases "d' = d")
  case False
  let ?s = "account_stats d ! st"
  from False assms obtain d1 d2 t where 1: "pay_out_fees F acct (pending_fees ?s) True d = Inr d1"
    and 2: "pay_out_fees F acct (pending_vested_fees ?s) False d1 = Inr d2" and 3: "d' = d2\<lparr>account_stats := t\<rparr>"
    by (auto simp: process_fees_def split: if_splits)
  show ?thesis using pay_out_calm [OF 1] pay_out_calm [OF 2] calm_trans calm_fields(3) unfolding 3 by blast
qed simp

end

lemma project_states_calm:
  assumes "update_asset_project_states d = Inr d'"
  shows "calm khd d d'"
  using assms unfolding update_asset_project_states_def
proof (rule fold_res_invariant [where P = "calm khd d"])
  fix a e e' assume k: "calm khd d e" and st: "update_one_project_state a e = Inr e'"
  have "calm khd e e'"
  proof (cases "e' = e")
    case False
    with st obtain i f x where "modify_dyn i f (if x then update_asset_power_status a (assets e ! a) False e else e) = Inr e'"
      by (cases "is_project_asset (assets e ! a)") (auto simp: update_one_project_state_def split: option.splits)
    moreover have "calm khd e (if x then update_asset_power_status a (assets e ! a) False e else e)"
      by (simp add: update_asset_power_status_def Let_def)
    ultimately show ?thesis using modify_dyn_calm calm_trans by blast
  qed simp
  then show "calm khd d e'" using k calm_trans by blast
qed simp

subsection \<open>Per-block updates\<close>

lemma unaccounted_head:
  "unaccounted khd (d\<lparr>head_block_number := n, head_block_time := t, dgp := p\<rparr>) y =
     unaccounted khd d y - (if y = 0 then witness_budget p - witness_budget (dgp d) else 0)"
  "unaccounted khd (d\<lparr>dgp := p\<rparr>) y = unaccounted khd d y - (if y = 0 then witness_budget p - witness_budget (dgp d) else 0)"
  "unaccounted khd (d\<lparr>current_shuffled_witnesses := ws\<rparr>) y = unaccounted khd d y"
  by (simp_all add: unaccounted_defs balance_of_def)

lemma calm_head [simp]:
  "calm khd d (d\<lparr>head_block_number := n, head_block_time := t, dgp := p\<rparr>)" "calm khd d (d\<lparr>dgp := p\<rparr>)" "calm khd d (d\<lparr>current_shuffled_witnesses := ws\<rparr>)"
  by (simp_all add: calm_def same_books_def khd_wf_def)

lemma global_dynamic_data_neutral:
  assumes "update_global_dynamic_data skip cp n t w d = Inr (d', m)"
  shows "calm khd d d'" "unaccounted khd d' y = unaccounted khd d y"
proof -
  from assms obtain slot d1 where 1: "fold_res (count_missed w) [0..<slot - 1] d = Inr d1"
    and e: "d' = d1\<lparr>head_block_number := n, head_block_time := t,
      dgp := (dgp d1)\<lparr>recently_missed_count := missed_count_after n cp (slot - 1) (recently_missed_count (dgp d1)), current_witness := w,
        recent_slots_filled := push_bit (slot - 1) (push_bit 1 (recent_slots_filled (dgp d1)) + 1),
        current_aslot := current_aslot (dgp d1) + of_nat (to_u32 (slot - 1 + 1))\<rparr>\<rparr>"
    unfolding update_global_dynamic_data_def Let_def bind_res_Inr require_Inr sum.inject prod.inject by blast
  then have 2: "d' = d1\<lparr>head_block_number := n, head_block_time := t, dgp := dgp d'\<rparr>" "witness_budget (dgp d') = witness_budget (dgp d1)" by simp_all
  have "calm khd d d1 \<and> unaccounted khd d1 y = unaccounted khd d y \<and> dgp d1 = dgp d"
    using 1 by (rule fold_res_invariant [where P = "\<lambda>e. calm khd d e \<and> unaccounted khd e y = unaccounted khd d y \<and> dgp e = dgp d"])
      (auto simp: count_missed_def split: if_splits intro: calm_trans [OF _ calm_fields(4)])
  then show "calm khd d d'" "unaccounted khd d' y = unaccounted khd d y"
    using 2 unaccounted_head(1) [where d = d1 and khd = khd and n = n and t = t and p = "dgp d'" and y = y]
      calm_trans [OF _ calm_head(1) [where d = d1 and khd = khd and n = n and t = t and p = "dgp d'"], of d] by simp_all
qed

context fc_arith
begin

lemma witness_pay_neutral:
  assumes "deposit_witness_pay F w amt d = Inr d'"
  shows "calm khd d d'" "unaccounted khd d' y = unaccounted khd d y - (if y = 0 then amt else 0)"
proof -
  have "calm khd d d' \<and> unaccounted khd d' y = unaccounted khd d y - (if y = 0 then amt else 0)"
  proof (cases "amt = 0")
    case True
    then show ?thesis using assms by (simp add: deposit_witness_pay_def)
  next
    case False
    then obtain r ws where r: "deposit_lazy_vesting F (pay_vb (witnesses d ! w)) amt (witness_pay_vesting_seconds (parameters d))
        (witness_account (witnesses d ! w)) True d = Inr r" and d': "d' = fst r \<or> d' = (fst r)\<lparr>witnesses := ws\<rparr>"
      using assms by (auto simp: deposit_witness_pay_def split: option.splits prod.splits) blast
    obtain v where v: "fst r = d\<lparr>vestings := v\<rparr>" using lazy_vesting_conserves(2) [OF r] by blast
    have "calm khd d (fst r)" by (simp add: v)
    then show ?thesis using lazy_vesting_conserves(1) [OF r, of khd y] d' calm_trans [OF _ calm_fields(4)] by auto
  qed
  then show "calm khd d d'" "unaccounted khd d' y = unaccounted khd d y - (if y = 0 then amt else 0)" by simp_all
qed

lemma signing_witness_neutral:
  assumes "update_signing_witness F w n t d = Inr d'"
  shows "calm khd d d'" "unaccounted khd d' y = unaccounted khd d y"
proof -
  define pay where "pay = min (witness_pay_per_block (parameters d)) (witness_budget (dgp d))"
  define d1 where "d1 = d\<lparr>dgp := (dgp d)\<lparr>witness_budget := witness_budget (dgp d) - pay\<rparr>\<rparr>"
  from assms obtain d2 ws where 2: "deposit_witness_pay F w pay d1 = Inr d2" and d': "d' = d2\<lparr>witnesses := ws\<rparr>"
    by (auto simp: update_signing_witness_def Let_def fc_iffs pay_def d1_def)
  have "calm khd d d1" by (simp add: d1_def)
  also have "calm khd d1 d2" by (rule witness_pay_neutral(1) [OF 2])
  also have "calm khd d2 d'" by (simp add: d')
  finally show "calm khd d d'" .
  show "unaccounted khd d' y = unaccounted khd d y"
    using witness_pay_neutral(2) [OF 2, of khd y] unaccounted_head(2) [where d = d and khd = khd and y = y and p = "(dgp d)\<lparr>witness_budget := witness_budget (dgp d) - pay\<rparr>"]
    by (simp add: d' d1_def)
qed

end

lemma irreversible_neutral:
  assumes "update_last_irreversible_block d = Inr d'"
  shows "calm khd d d'" "unaccounted khd d' y = unaccounted khd d y"
  using assms by (auto simp: update_last_irreversible_block_def Let_def unaccounted_head split: if_splits)

lemma schedule_neutral:
  assumes "update_witness_schedule d = Inr d'"
  shows "calm khd d d'" "unaccounted khd d' y = unaccounted khd d y"
  using assms by (auto simp: update_witness_schedule_def unaccounted_head split: if_splits)

end
