(* ===== verification/Supply.thy ===== *)
theory Supply
  imports Chain_Frame
begin

text \<open>The chain as a whole: its steps, the invariant of its states, and that no sequence of steps creates or destroys an asset outside
  its recorded supply.\<close>

subsection \<open>Well-formed states\<close>

text \<open>The core asset comes first, the asset KHD exists and is the only one of its symbol, all investments are in KHD, and the books of the
  market are well-formed.\<close>

definition chain_wf :: "asset_id_type \<Rightarrow> database \<Rightarrow> bool" where
  "chain_wf khd d \<longleftrightarrow> core_wf d \<and> khd_wf d khd \<and> market_wf d \<and> khd < length (assets d) \<and> symbol (assets d ! khd) = KHD_ASSET_SYMBOL"

text \<open>What a step guarantees: a well-formed state in which every asset that existed is conserved.\<close>

definition conserving :: "asset_id_type \<Rightarrow> database \<Rightarrow> database \<Rightarrow> bool" where
  "conserving khd d e \<longleftrightarrow> chain_wf khd e \<and> length (assets d) \<le> length (assets e)
     \<and> (\<forall>y<length (assets d). unaccounted khd e y = unaccounted khd d y)"

lemma calm_conserving:
  assumes "chain_wf khd d" "calm khd d e" "\<And>y. y < length (assets d) \<Longrightarrow> unaccounted khd e y = unaccounted khd d y"
  shows "conserving khd d e"
proof -
  have sb: "same_books d e" and khd: "khd_wf e khd" using assms(1,2) by (simp_all add: calm_def chain_wf_def)
  have wf: "market_wf e" using same_books_wf [OF sb] assms(1) by (simp add: chain_wf_def)
  then have "dyn_wf e" using market_tables_wf(5) by simp
  moreover have pos: "0 < length (assets d)" "khd < length (assets d)" using assms(1) by (auto simp: chain_wf_def core_wf_def)
  ultimately have "core_wf e" using same_booksD [OF sb] assms(1) by (auto simp: core_wf_def chain_wf_def)
  then show ?thesis using wf khd pos assms(1,3) same_booksD [OF sb] by (simp add: conserving_def chain_wf_def)
qed

lemma keeps_conserving:
  assumes "chain_wf khd d" "\<And>y. y < length (assets d) \<Longrightarrow> keeps khd y d e"
  shows "conserving khd d e"
proof -
  have khd: "khd < length (assets d)" "symbol (assets d ! khd) = KHD_ASSET_SYMBOL" "0 < length (assets d)" "khd_wf d khd"
    "dynamic_asset_data_id (assets d ! 0) = 0" using assms(1) by (auto simp: chain_wf_def core_wf_def)
  note k = assms(2) [OF khd(1)]
  have len: "length (assets e) = length (assets d)" and wf: "market_wf e" using keepsD [OF k] by simp_all
  have core: "symbol (assets e ! i) = symbol (assets d ! i) \<and> dynamic_asset_data_id (assets e ! i) = dynamic_asset_data_id (assets d ! i)"
    if i: "i < length (assets d)" for i
  proof -
    have "asset_core (assets e ! i) = asset_core (assets d ! i)" using k i len unfolding keeps_def by (metis nth_map)
    then show ?thesis by (simp add: asset_core_def)
  qed
  have "khd_wf e khd" using khd(4) k len core by (simp add: khd_wf_def keeps_def)
  moreover have "core_wf e" using market_tables_wf(5) [OF wf] len core khd(3,5) by (simp add: core_wf_def)
  ultimately show ?thesis using wf len core khd assms(2) by (simp add: conserving_def chain_wf_def keeps_def)
qed

lemma shift_conserving:
  assumes "chain_wf khd d" "\<And>y. market_wf d \<Longrightarrow> y < length (assets d) \<Longrightarrow> shift khd y d e 0"
  shows "conserving khd d e"
  using assms(2) assms(1) by (intro keeps_conserving shift_keeps) (simp_all add: chain_wf_def)

lemma find_symbol_None: "find_symbol s d = None \<Longrightarrow> i < length (assets d) \<Longrightarrow> symbol (assets d ! i) \<noteq> s"
proof -
  have "index_of P xs n = None \<Longrightarrow> i < length xs \<Longrightarrow> \<not> P (xs ! i)" for P :: "asset_object \<Rightarrow> bool" and xs n i
    by (induction P xs n arbitrary: i rule: index_of.induct) (auto split: if_splits simp: nth_Cons' gr0_conv_Suc)
  then show "find_symbol s d = None \<Longrightarrow> i < length (assets d) \<Longrightarrow> symbol (assets d ! i) \<noteq> s" unfolding find_symbol_def by blast
qed

lemma extends_conserving:
  fixes a :: asset_object
  assumes "chain_wf khd d" "\<And>y. y < length (assets d) \<Longrightarrow> extends khd y a d e" "find_symbol (symbol a) d = None"
  shows "conserving khd d e"
proof -
  have khd: "khd < length (assets d)" "symbol (assets d ! khd) = KHD_ASSET_SYMBOL" "0 < length (assets d)" "khd_wf d khd"
    "dynamic_asset_data_id (assets d ! 0) = 0" using assms(1) by (auto simp: chain_wf_def core_wf_def)
  note k = assms(2) [OF khd(1)]
  have as: "assets e = assets d @ [a]" and wf: "market_wf e" using k by (simp_all add: extends_def)
  have "symbol a \<noteq> KHD_ASSET_SYMBOL" using find_symbol_None [OF assms(3) khd(1)] khd(2) by simp
  then have "khd_wf e khd" using khd(4) k as by (auto simp: khd_wf_def extends_def nth_append less_Suc_eq)
  moreover have "core_wf e" using market_tables_wf(5) [OF wf] as khd(3,5) by (simp add: core_wf_def nth_append)
  ultimately show ?thesis using wf as khd assms(2) by (simp add: conserving_def chain_wf_def extends_def nth_append)
qed

subsection \<open>The steps of the chain\<close>

text \<open>The operations of a block, each with its fee, the updates after the transactions of a block, and the steps of the maintenance.
  The 64-bit ranges of amounts are those of their fields. Two rules have a condition that the code does not check: a backing asset is
  exchanged only while no position or bid is open, and project tokens are issued to investors while the asset has no earlier investment supply.\<close>

inductive chain_step :: "fc_lib \<Rightarrow> database \<Rightarrow> database \<Rightarrow> bool" for F where
  transfer: "transfer_evaluate F ts fee op d = Inr d' \<Longrightarrow> \<not> skip_fee ts \<Longrightarrow> chain_step F d d'"
| override_transfer: "override_transfer_evaluate F ts fee op d = Inr d' \<Longrightarrow> \<not> skip_fee ts \<Longrightarrow> chain_step F d d'"
| vesting_create: "vesting_balance_create_evaluate F ts fee op d = Inr d' \<Longrightarrow> \<not> skip_fee ts \<Longrightarrow> chain_step F d d'"
| vesting_withdraw: "vesting_balance_withdraw_evaluate F ts fee op d = Inr d' \<Longrightarrow> \<not> skip_fee ts \<Longrightarrow> chain_step F d d'"
| invest: "asset_investment_evaluate F ts fee now op d = Inr d' \<Longrightarrow> \<not> skip_fee ts \<Longrightarrow> chain_step F d d'"
| issue: "issue_asset_to_investors_evaluate F ts fee op d = Inr d' \<Longrightarrow> \<not> skip_fee ts \<Longrightarrow> 
    investment_current_supply (dyn_of d (is_investment_asset_id op)) = 0 \<Longrightarrow> chain_step F d d'"
| refund: "refund_investment_evaluate F ts fee op d = Inr d' \<Longrightarrow> \<not> skip_fee ts \<Longrightarrow> chain_step F d d'"
| claim_khd: "claim_bitasset_investment_evaluate F ts fee op d = Inr d' \<Longrightarrow> \<not> skip_fee ts \<Longrightarrow> chain_step F d d'"
| claim_tokens: "claim_asset_investment_evaluate F ts fee op d = Inr d' \<Longrightarrow> \<not> skip_fee ts \<Longrightarrow> chain_step F d d'"
| limit_order_create: "limit_order_create_evaluate F ts fee op d = Inr d' \<Longrightarrow> \<not> skip_fee ts \<Longrightarrow> 
    in_int64 (amount (lc_amount_to_sell op)) \<Longrightarrow> chain_step F d d'"
| limit_order_cancel: "limit_order_cancel_evaluate F ts fee op d = Inr d' \<Longrightarrow> \<not> skip_fee ts \<Longrightarrow> chain_step F d d'"
| call_order_update: "call_order_update_evaluate F ts fee op d = Inr d' \<Longrightarrow> \<not> skip_fee ts \<Longrightarrow> chain_step F d d'"
| bid_collateral: "bid_collateral_evaluate F ts fee op d = Inr d' \<Longrightarrow> \<not> skip_fee ts \<Longrightarrow> chain_step F d d'"
| asset_create: "asset_create_evaluate F ts fee op d = Inr d' \<Longrightarrow> \<not> skip_fee ts \<Longrightarrow> chain_step F d d'"
| asset_issue: "asset_issue_evaluate F ts fee op d = Inr d' \<Longrightarrow> \<not> skip_fee ts \<Longrightarrow> chain_step F d d'"
| asset_reserve: "asset_reserve_evaluate F ts fee op d = Inr d' \<Longrightarrow> \<not> skip_fee ts \<Longrightarrow> chain_step F d d'"
| asset_fund_fee_pool: "asset_fund_fee_pool_evaluate F ts fee op d = Inr d' \<Longrightarrow> \<not> skip_fee ts \<Longrightarrow> chain_step F d d'"
| asset_claim_fees: "asset_claim_fees_evaluate F ts fee op d = Inr d' \<Longrightarrow> \<not> skip_fee ts \<Longrightarrow> chain_step F d d'"
| asset_claim_pool: "asset_claim_pool_evaluate F ts fee op d = Inr d' \<Longrightarrow> \<not> skip_fee ts \<Longrightarrow> chain_step F d d'"
| asset_update: "asset_update_evaluate F ts fee op d = Inr d' \<Longrightarrow> \<not> skip_fee ts \<Longrightarrow> chain_step F d d'"
| asset_update_issuer: "asset_update_issuer_evaluate F ts fee op d = Inr d' \<Longrightarrow> \<not> skip_fee ts \<Longrightarrow> chain_step F d d'"
| asset_update_bitasset: "asset_update_bitasset_evaluate F ts fee op d = Inr d' \<Longrightarrow> \<not> skip_fee ts \<Longrightarrow> 
    backing_of d (aub_asset_to_update op) = Some (bo_short_backing_asset (aub_new_options op)) \<or> no_positions d (aub_asset_to_update op) \<Longrightarrow>
    chain_step F d d'"
| asset_update_feed_producers: "asset_update_feed_producers_evaluate F ts fee op d = Inr d' \<Longrightarrow> \<not> skip_fee ts \<Longrightarrow> chain_step F d d'"
| asset_global_settle: "asset_global_settle_evaluate F ts fee op d = Inr d' \<Longrightarrow> \<not> skip_fee ts \<Longrightarrow> chain_step F d d'"
| asset_settle: "asset_settle_evaluate F ts fee op d = Inr d' \<Longrightarrow> \<not> skip_fee ts \<Longrightarrow> chain_step F d d'"
| asset_publish_feed: "asset_publish_feed_evaluate F ts fee op d = Inr d' \<Longrightarrow> \<not> skip_fee ts \<Longrightarrow> 
    in_int64 (amount (base (settlement_price (apf_feed op)))) \<Longrightarrow> in_int64 (amount (quote (settlement_price (apf_feed op)))) \<Longrightarrow> chain_step F d d'"
| fees: "process_fees F st acct d = Inr d' \<Longrightarrow> chain_step F d d'"
| project_states: "update_asset_project_states d = Inr d' \<Longrightarrow> chain_step F d d'"
| expired_orders: "clear_expired_orders F d = Inr d' \<Longrightarrow> chain_step F d d'"
| expired_feeds: "update_expired_feeds F d = Inr d' \<Longrightarrow> chain_step F d d'"
| bitassets_maintained: "process_bitassets F d = Inr d' \<Longrightarrow> chain_step F d d'"
| call_orders_matched: "update_and_match_call_orders F d = Inr d' \<Longrightarrow> chain_step F d d'"
| feeds_repaired: "process_hf_868_890 F skip d = Inr d' \<Longrightarrow> chain_step F d d'"
| calls_checked: "process_hf_935 F d = Inr d' \<Longrightarrow> chain_step F d d'"
| witness_paid: "update_signing_witness F w n t d = Inr d' \<Longrightarrow> chain_step F d d'"
| irreversible: "update_last_irreversible_block d = Inr d' \<Longrightarrow> chain_step F d d'"
| schedule: "update_witness_schedule d = Inr d' \<Longrightarrow> chain_step F d d'"
| head: "update_global_dynamic_data skip cp n t w d = Inr (d', m) \<Longrightarrow> chain_step F d d'"

inductive_cases chain_stepE: "chain_step F d d'"

lemmas shift_rules = fc_arith.limit_order_create_conserves fc_arith.limit_order_cancel_conserves fc_arith.call_order_update_conserves
  fc_arith.bid_collateral_conserves fc_arith.asset_issue_conserves fc_arith.asset_reserve_conserves fc_arith.asset_fund_fee_pool_conserves
  fc_arith.asset_claim_fees_conserves fc_arith.asset_claim_pool_conserves fc_arith.feed_producers_conserves fc_arith.global_settle_conserves
  fc_arith.asset_settle_conserves fc_arith.publish_feed_conserves fc_arith.clear_expired_orders_shift fc_arith.process_bitassets_shift
  fc_arith.update_and_match_shift fc_arith.process_hf_868_890_shift
  fc_arith.match_all_calls_shift [folded process_hf_935_def]

lemmas calm_rules = fc_arith.transfer_calm fc_arith.override_transfer_calm fc_arith.vesting_create_calm fc_arith.vesting_withdraw_calm
  fc_arith.invest_calm fc_arith.issue_calm fc_arith.refund_calm fc_arith.claim_khd_calm fc_arith.claim_tokens_calm fc_arith.process_fees_calm
  project_states_calm fc_arith.signing_witness_neutral(1) irreversible_neutral(1) schedule_neutral(1) global_dynamic_data_neutral(1)

lemmas neutral_rules = fc_arith.transfer_conserves fc_arith.override_transfer_conserves fc_arith.vesting_create_conserves
  fc_arith.vesting_withdraw_conserves fc_arith.invest_conserves fc_arith.issue_conserves fc_arith.refund_conserves
  fc_arith.claim_khd_conserves fc_arith.claim_tokens_conserves fc_arith.process_fees_conserves project_states_conserve
  fc_arith.signing_witness_neutral(2) irreversible_neutral(2) schedule_neutral(2) global_dynamic_data_neutral(2)

lemmas keeps_rules = fc_arith.asset_update_keeps fc_arith.asset_update_issuer_keeps fc_arith.asset_update_bitasset_keeps
  fc_arith.update_expired_feeds_keeps

lemma step_conserving:
  assumes F: "fc_arith F" and st: "chain_step F d d'" and wf: "chain_wf khd d"
  shows "conserving khd d d'"
proof -
  have parts: "core_wf d" "dyn_wf d" "khd_wf d khd" "market_wf d" using wf by (simp_all add: chain_wf_def core_wf_def)
  show ?thesis using st
  proof (rule chain_stepE)
    fix ts fee op assume *: "asset_create_evaluate F ts fee op d = Inr d'" "\<not> skip_fee ts"
    have "symbol (new_asset op d) = ac_symbol op" by (simp add: new_asset_def)
    then show ?thesis using fc_arith.asset_create_conserves [OF F * parts(4)] wf
      by (intro extends_conserving [of khd d "new_asset op d"]) (auto simp: chain_wf_def)
  qed ((rule shift_conserving [OF wf], rule shift_rules [OF F], assumption+)
      | (rule keeps_conserving [OF wf], rule keeps_rules [OF F], (assumption | rule parts)+)
      | (rule calm_conserving [OF wf], rule calm_rules, (assumption | rule F)+, rule neutral_rules, (assumption | rule F parts)+))+
qed

lemma steps_conserving:
  assumes "fc_arith F" "(chain_step F)\<^sup>*\<^sup>* d d'" "chain_wf khd d"
  shows "conserving khd d d'"
  using assms(2)
proof (induction rule: rtranclp_induct)
  case base
  then show ?case using assms(3) by (simp add: conserving_def)
next
  case (step e f)
  have "chain_wf khd e" using step.IH by (simp add: conserving_def)
  then have "conserving khd e f" by (rule step_conserving [OF assms(1) step.hyps(2)])
  then show ?case using step.IH by (auto simp: conserving_def)
qed

subsection \<open>Conservation and well-formedness along every execution\<close>

text \<open>C1: No sequence of steps creates or destroys an asset outside its recorded supply: for every asset
  the difference between \<open>current_supply\<close> and everything held (balances, vesting balances, orders with
  their deferred fees, collateral of positions, settlement requests, bids and settlement funds,
  accumulated fees, tokens to be claimed, fee pools, pending fees, the budget of the witnesses, and for KHD the funds held for
  projects) is the same at the start and at the end of every sequence of transfers, vesting and financing operations, limit orders
  placed or cancelled with all the matches, margin calls and settlements they set off, changes of borrowing positions, bids,
  operations on assets (creation, issue, reserve, fee pools, claims, updates, feeds, settlements), distributions of fees, witness pay,
  expiry of orders and feeds, and the maintenance of projects and market-issued assets, the fees of the operations included. The steps are those of
  \<open>chain_step\<close>, with the two conditions stated there.\<close>

theorem supply_conserved:
  assumes "fc_arith F" "(chain_step F)\<^sup>*\<^sup>* d d'" "chain_wf khd d" "y < length (assets d)"
  shows "unaccounted khd d' y = unaccounted khd d y"
  using steps_conserving [OF assms(1-3)] assms(4) by (simp add: conserving_def)


lemma demo_own_data: "own_data demo_db"
proof -
  have "\<forall>x\<in>set (assets demo_db). bitasset_data_id x = None" by (simp add: demo_defs)
  then show ?thesis by (force simp: own_data_def dest: nth_mem)
qed

lemma demo_chain_wf: "chain_wf 1 demo_db"
proof -
  have "core_wf demo_db" by (simp add: core_wf_def dyn_wf_def demo_defs less_Suc_eq)
  moreover have "khd_wf demo_db 1" by (simp add: khd_wf_def demo_defs khc_defs less_Suc_eq)
  moreover have "market_wf demo_db"
    using demo_own_data by (simp add: market_wf_def dyn_wf_def fee_options_wf_def demo_defs less_Suc_eq)
  moreover have "1 < length (assets demo_db)" "symbol (assets demo_db ! 1) = KHD_ASSET_SYMBOL" by (simp_all add: demo_defs khc_defs)
  ultimately show ?thesis by (simp add: chain_wf_def)
qed

lemma demo_step: "\<exists>d'. transfer_evaluate fc64 demo_ts 10 demo_transfer demo_db = Inr d' \<and> (chain_step fc64)\<^sup>*\<^sup>* demo_db d'"
proof -
  have "\<exists>d'. transfer_evaluate fc64 demo_ts 10 demo_transfer demo_db = Inr d'"
    by (simp add: transfer_evaluate_def transfer_validate_def transfer_do_evaluate_def transfer_do_apply_def
        is_transfer_restricted_def fee_eval demo_defs demo_ts_def demo_transfer_def fc64_eval)
  then obtain d' where d': "transfer_evaluate fc64 demo_ts 10 demo_transfer demo_db = Inr d'" by blast
  have "chain_step fc64 demo_db d'" using chain_step.transfer [OF d'] by (simp add: demo_ts_def)
  then show ?thesis using d' by blast
qed

theorem supply_conserved_witness:
  "\<exists>d'. transfer_evaluate fc64 demo_ts 10 demo_transfer demo_db = Inr d'
     \<and> unaccounted 1 demo_db 0 = 0 \<and> unaccounted 1 d' 0 = 0"
proof -
  obtain d' where d': "transfer_evaluate fc64 demo_ts 10 demo_transfer demo_db = Inr d'" "(chain_step fc64)\<^sup>*\<^sup>* demo_db d'"
    using demo_step by blast
  moreover have "unaccounted 1 demo_db 0 = 0"
    by (simp add: unaccounted_defs demo_defs balance_of_def lessThan_Suc)
  ultimately show ?thesis
    using supply_conserved [OF fc64_arith.fc_arith_axioms d'(2) demo_chain_wf, of 0] by (simp add: demo_db_def)
qed


end
