(* ===== verification/Authority.thy ===== *)
theory Authority
  imports Chain_DB
begin

text \<open>
  Authorities and the check of the signatures of a transaction: \<open>protocol/authority.hpp\<close>, \<open>protocol/operations.cpp\<close> and
  \<open>protocol/transaction.cpp\<close>.  An authority is a set of keys, addresses and accounts with weights and a threshold; an account counts
  when its own active authority is satisfied, to a limited depth.  Keys and addresses are types of their own; the addresses a key has
  (five forms of its hash) and the authorities of accounts are parameters, as \<open>get_active\<close> and \<open>get_owner\<close> are in the code.
  The flat maps and sets of the code are lists in the order of their keys.
\<close>

subsection \<open>Authorities\<close>

record ('k, 'a) authority =
  weight_threshold :: u32
  account_auths :: "(account_id_type \<times> u16) list"
  key_auths :: "('k \<times> u16) list"
  address_auths :: "('a \<times> u16) list"

fun total_weights :: "('x \<times> u16) list \<Rightarrow> u64" where
  "total_weights [] = 0"
| "total_weights ((x, w) # xs) = ucast w + total_weights xs"

definition is_impossible :: "('k, 'a) authority \<Rightarrow> bool" where
  "is_impossible au \<longleftrightarrow>
     total_weights (account_auths au) + total_weights (key_auths au) + total_weights (address_auths au) < ucast (weight_threshold au)"

definition num_auths :: "('k, 'a) authority \<Rightarrow> u32" where
  "num_auths au = of_nat (length (account_auths au) + length (key_auths au) + length (address_auths au))"

definition get_keys :: "('k, 'a) authority \<Rightarrow> 'k list" where
  "get_keys au = map fst (key_auths au)"

definition get_addresses :: "('k, 'a) authority \<Rightarrow> 'a list" where
  "get_addresses au = map fst (address_auths au)"

definition clear_auths :: "('k, 'a) authority \<Rightarrow> ('k, 'a) authority" where
  "clear_auths au = au\<lparr>account_auths := [], key_auths := []\<rparr>"

definition null_authority :: "('k, 'a) authority" where
  "null_authority = \<lparr>weight_threshold = 1, account_auths = [(GRAPHENE_NULL_ACCOUNT, 1)], key_auths = [], address_auths = []\<rparr>"

subsection \<open>The state of a check\<close>

record ('k, 'a) sign_state =
  available_address_sigs :: "('a \<rightharpoonup> 'k) option"
  provided_address_sigs :: "('a \<rightharpoonup> 'k) option"
  provided_signatures :: "('k \<times> bool) list"
  approved_by :: "account_id_type set"

text \<open>What does not change during a check: the active authorities, the keys that could sign and the addresses of a key.\<close>

record ('k, 'a) sign_env =
  get_active :: "account_id_type \<Rightarrow> ('k, 'a) authority option"
  available_keys :: "'k list"
  addresses_of :: "'k \<Rightarrow> 'a list"

definition GRAPHENE_MAX_SIG_CHECK_DEPTH :: nat where "GRAPHENE_MAX_SIG_CHECK_DEPTH = 2"

fun flag_used :: "'k \<Rightarrow> ('k \<times> bool) list \<Rightarrow> ('k \<times> bool) list" where
  "flag_used k [] = [(k, True)]"
| "flag_used k ((k', b) # xs) = (if k = k' then (k, True) # xs else (k', b) # flag_used k xs)"

definition sign_state_init :: "'k list \<Rightarrow> ('k, 'a) sign_state" where
  "sign_state_init sigs = \<lparr>available_address_sigs = None, provided_address_sigs = None,
     provided_signatures = map (\<lambda>k. (k, False)) sigs, approved_by = {GRAPHENE_TEMP_ACCOUNT}\<rparr>"

definition signed_by_key :: "('k, 'a) sign_env \<Rightarrow> 'k \<Rightarrow> ('k, 'a) sign_state \<Rightarrow> bool \<times> ('k, 'a) sign_state" where
  "signed_by_key env k s =
     (if k \<in> fst ` set (provided_signatures s) \<or> k \<in> set (available_keys env)
      then (True, s\<lparr>provided_signatures := flag_used k (provided_signatures s)\<rparr>)
      else (False, s))"

definition address_map :: "('k \<Rightarrow> 'a list) \<Rightarrow> 'k list \<Rightarrow> ('a \<rightharpoonup> 'k)" where
  "address_map addrs ks = fold (\<lambda>k m. fold (\<lambda>a m. m(a \<mapsto> k)) (addrs k) m) ks Map.empty"

definition init_addresses :: "('k, 'a) sign_env \<Rightarrow> ('k, 'a) sign_state \<Rightarrow> ('k, 'a) sign_state" where
  "init_addresses env s =
     (case available_address_sigs s of
        Some _ \<Rightarrow> s
      | None \<Rightarrow> s\<lparr>available_address_sigs := Some (address_map (addresses_of env) (available_keys env)),
                 provided_address_sigs := Some (address_map (addresses_of env) (map fst (provided_signatures s)))\<rparr>)"

text \<open>An address that is neither in the one map nor in the other is looked up with the end of the map: undefined in the code.\<close>

definition signed_by_address :: "('k, 'a) sign_env \<Rightarrow> 'a \<Rightarrow> ('k, 'a) sign_state \<Rightarrow> (bool \<times> ('k, 'a) sign_state) result" where
  "signed_by_address env a s0 =
     (let s = init_addresses env s0;
          mark = (\<lambda>k. (True, s\<lparr>provided_signatures := flag_used k (provided_signatures s)\<rparr>)) in
      case (provided_address_sigs s, available_address_sigs s) of
        (Some p, Some v) \<Rightarrow>
          (case p a of
             Some k \<Rightarrow> Inr (mark k)
           | None \<Rightarrow>
               (case v a of
                  Some k \<Rightarrow> Inr (if k \<in> set (available_keys env) then mark k else (False, s))
                | None \<Rightarrow> Inl Out_Of_Range))
      | _ \<Rightarrow> Inl Out_Of_Range)"

subsection \<open>The check of an authority\<close>

text \<open>A loop over weighted items: the weight of every item that passes is added, and the loop ends as soon as the threshold is reached.
  The result says whether it was reached, with the weight so far.\<close>

fun add_weights :: "('x \<Rightarrow> 's \<Rightarrow> (bool \<times> 's) result) \<Rightarrow> u32 \<Rightarrow> ('x \<times> u16) list \<Rightarrow> u32 \<Rightarrow> 's \<Rightarrow> (bool \<times> u32 \<times> 's) result" where
  "add_weights test thr [] tot s = Inr (False, tot, s)"
| "add_weights test thr ((x, w) # xs) tot s =
     bind_res (test x s) (\<lambda>(ok, s1).
     if ok then
       if tot + ucast w \<ge> thr then Inr (True, tot + ucast w, s1)
       else add_weights test thr xs (tot + ucast w) s1
     else add_weights test thr xs tot s1)"

text \<open>An account counts when it has approved or when its active authority is satisfied; at the recursion limit \<open>check\<close> is absent.\<close>

definition account_approved :: "('k, 'a) sign_env \<Rightarrow> (('k, 'a) authority option \<Rightarrow> ('k, 'a) sign_state \<Rightarrow> (bool \<times> ('k, 'a) sign_state) result) option
    \<Rightarrow> account_id_type \<Rightarrow> ('k, 'a) sign_state \<Rightarrow> (bool \<times> ('k, 'a) sign_state) result" where
  "account_approved env check a s =
     (if a \<in> approved_by s then Inr (True, s)
      else case check of
        None \<Rightarrow> Inr (False, s)
      | Some chk \<Rightarrow>
          bind_res (chk (get_active env a) s) (\<lambda>(ok, s1).
          Inr (ok, if ok then s1\<lparr>approved_by := insert a (approved_by s1)\<rparr> else s1)))"

definition check_one_authority :: "('k, 'a) sign_env \<Rightarrow> (('k, 'a) authority option \<Rightarrow> ('k, 'a) sign_state \<Rightarrow> (bool \<times> ('k, 'a) sign_state) result) option
    \<Rightarrow> ('k, 'a) authority option \<Rightarrow> ('k, 'a) sign_state \<Rightarrow> (bool \<times> ('k, 'a) sign_state) result" where
  "check_one_authority env check au s =
     (case au of
        None \<Rightarrow> Inr (False, s)
      | Some auth \<Rightarrow>
          bind_res (add_weights (\<lambda>k s. Inr (signed_by_key env k s)) (weight_threshold auth) (key_auths auth) 0 s) (\<lambda>(fin1, total1, s1).
          if fin1 then Inr (True, s1)
          else bind_res (add_weights (signed_by_address env) (weight_threshold auth) (address_auths auth) total1 s1) (\<lambda>(fin2, total2, s2).
          if fin2 then Inr (True, s2)
          else bind_res (add_weights (account_approved env check) (weight_threshold auth) (account_auths auth) total2 s2) (\<lambda>(fin3, total3, s3).
          Inr (fin3 \<or> total3 \<ge> weight_threshold auth, s3)))))"

text \<open>The recursion depth counts up to \<open>max_recursion\<close> in the code; here it is what is left of it.\<close>

primrec check_authority :: "('k, 'a) sign_env \<Rightarrow> nat \<Rightarrow> ('k, 'a) authority option \<Rightarrow> ('k, 'a) sign_state \<Rightarrow> (bool \<times> ('k, 'a) sign_state) result" where
  "check_authority env 0 = check_one_authority env None"
| "check_authority env (Suc n) = check_one_authority env (Some (check_authority env n))"

definition check_account :: "('k, 'a) sign_env \<Rightarrow> nat \<Rightarrow> account_id_type \<Rightarrow> ('k, 'a) sign_state \<Rightarrow> (bool \<times> ('k, 'a) sign_state) result" where
  "check_account env max_recursion a s =
     (if a \<in> approved_by s then Inr (True, s) else check_authority env max_recursion (get_active env a) s)"

definition remove_unused_signatures :: "('k, 'a) sign_state \<Rightarrow> bool \<times> ('k, 'a) sign_state" where
  "remove_unused_signatures s =
     (\<exists>x\<in>set (provided_signatures s). \<not> snd x, s\<lparr>provided_signatures := filter snd (provided_signatures s)\<rparr>)"

subsection \<open>The authorities an operation needs\<close>

record ('k, 'a) operation_auths =
  fee_payer :: account_id_type
  required_active_authorities :: "account_id_type list"
  required_owner_authorities :: "account_id_type list"
  required_authorities :: "('k, 'a) authority list"

fun flat_insert :: "nat \<Rightarrow> nat list \<Rightarrow> nat list" where
  "flat_insert x [] = [x]"
| "flat_insert x (y # ys) = (if x < y then x # y # ys else if x = y then y # ys else y # flat_insert x ys)"

definition operation_get_required_authorities :: "('k, 'a) operation_auths \<Rightarrow> account_id_type list \<times> account_id_type list \<times> ('k, 'a) authority list
    \<Rightarrow> account_id_type list \<times> account_id_type list \<times> ('k, 'a) authority list" where
  "operation_get_required_authorities op = (\<lambda>(active, owner, other).
     (fold flat_insert (required_active_authorities op) (flat_insert (fee_payer op) active),
      fold flat_insert (required_owner_authorities op) owner, other @ required_authorities op))"

definition get_required_authorities :: "('k, 'a) operation_auths list \<Rightarrow> account_id_type list \<times> account_id_type list \<times> ('k, 'a) authority list" where
  "get_required_authorities ops =
     (case fold operation_get_required_authorities ops ([], [], []) of
        (active, owner, other) \<Rightarrow> (filter (\<lambda>a. a \<notin> set owner) active, owner, other))"

subsection \<open>The check of a transaction\<close>

definition tx_error :: "string \<Rightarrow> bool \<Rightarrow> 's \<Rightarrow> 's result" where
  "tx_error name ok s = (if ok then Inr s else Inl (Other_Exception name))"

definition check_other :: "('k, 'a) sign_env \<Rightarrow> nat \<Rightarrow> ('k, 'a) authority \<Rightarrow> ('k, 'a) sign_state \<Rightarrow> ('k, 'a) sign_state result" where
  "check_other env n auth s =
     bind_res (check_authority env n (Some auth) s) (\<lambda>(ok, s1). tx_error ''tx_missing_other_auth'' ok s1)"

definition check_active_or_owner :: "('k, 'a) sign_env \<Rightarrow> (account_id_type \<Rightarrow> ('k, 'a) authority option) \<Rightarrow> nat \<Rightarrow> account_id_type
    \<Rightarrow> ('k, 'a) sign_state \<Rightarrow> (bool \<times> ('k, 'a) sign_state) result" where
  "check_active_or_owner env get_owner n a s =
     bind_res (check_account env n a s) (\<lambda>(ok, s1). if ok then Inr (True, s1) else check_authority env n (get_owner a) s1)"

definition check_active :: "('k, 'a) sign_env \<Rightarrow> (account_id_type \<Rightarrow> ('k, 'a) authority option) \<Rightarrow> nat \<Rightarrow> account_id_type
    \<Rightarrow> ('k, 'a) sign_state \<Rightarrow> ('k, 'a) sign_state result" where
  "check_active env get_owner n a s =
     bind_res (check_active_or_owner env get_owner n a s) (\<lambda>(ok, s1). tx_error ''tx_missing_active_auth'' ok s1)"

definition check_owner :: "('k, 'a) sign_env \<Rightarrow> (account_id_type \<Rightarrow> ('k, 'a) authority option) \<Rightarrow> nat \<Rightarrow> account_id_type set \<Rightarrow> account_id_type
    \<Rightarrow> ('k, 'a) sign_state \<Rightarrow> ('k, 'a) sign_state result" where
  "check_owner env get_owner n owner_approvals a s =
     (if a \<in> owner_approvals then Inr s
      else bind_res (check_authority env n (get_owner a) s) (\<lambda>(ok, s1). tx_error ''tx_missing_owner_auth'' ok s1))"

definition verify_authority :: "('k, 'a) operation_auths list \<Rightarrow> 'k list \<Rightarrow> (account_id_type \<Rightarrow> ('k, 'a) authority option)
    \<Rightarrow> (account_id_type \<Rightarrow> ('k, 'a) authority option) \<Rightarrow> ('k \<Rightarrow> 'a list) \<Rightarrow> nat \<Rightarrow> bool \<Rightarrow> account_id_type set \<Rightarrow> account_id_type set \<Rightarrow> unit result" where
  "verify_authority ops sigs active owner addrs max_recursion_depth allow_committe active_aprovals owner_approvals =
     (case fold operation_get_required_authorities ops ([], [], []) of
        (required_active, required_owner, other) \<Rightarrow>
          let env = \<lparr>get_active = active, available_keys = [], addresses_of = addrs\<rparr>;
              s0 = sign_state_init sigs;
              s1 = s0\<lparr>approved_by := approved_by s0 \<union> active_aprovals \<union> owner_approvals\<rparr> in
          bind_res (tx_error ''invalid_committee_approval'' (\<not> allow_committe \<longrightarrow> GRAPHENE_COMMITTEE_ACCOUNT \<notin> set required_active) ()) (\<lambda>_.
          bind_res (fold_res (check_other env max_recursion_depth) other s1) (\<lambda>s2.
          bind_res (fold_res (check_active env owner max_recursion_depth) required_active s2) (\<lambda>s3.
          bind_res (fold_res (check_owner env owner max_recursion_depth owner_approvals) required_owner s3) (\<lambda>s4.
          tx_error ''tx_irrelevant_sig'' (\<not> fst (remove_unused_signatures s4)) ())))))"

definition get_required_signatures :: "('k, 'a) operation_auths list \<Rightarrow> 'k list \<Rightarrow> 'k list \<Rightarrow> (account_id_type \<Rightarrow> ('k, 'a) authority option)
    \<Rightarrow> (account_id_type \<Rightarrow> ('k, 'a) authority option) \<Rightarrow> ('k \<Rightarrow> 'a list) \<Rightarrow> nat \<Rightarrow> 'k list result" where
  "get_required_signatures ops signature_keys avail active owner addrs n =
     (case get_required_authorities ops of
        (required_active, required_owner, other) \<Rightarrow>
          let env = \<lparr>get_active = active, available_keys = avail, addresses_of = addrs\<rparr> in
          bind_res (fold_res (\<lambda>au s. bind_res (check_authority env n (Some au) s) (\<lambda>(_, s1). Inr s1)) other (sign_state_init signature_keys)) (\<lambda>s1.
          bind_res (fold_res (\<lambda>a s. bind_res (check_authority env n (owner a) s) (\<lambda>(_, s1). Inr s1)) required_owner s1) (\<lambda>s2.
          bind_res (fold_res (\<lambda>a s. bind_res (check_active_or_owner env owner n a s) (\<lambda>(_, s1). Inr s1)) required_active s2) (\<lambda>s3.
          let s4 = snd (remove_unused_signatures s3) in
          Inr (filter (\<lambda>k. k \<in> set avail \<and> k \<notin> set signature_keys) (map fst (provided_signatures s4)))))))"

text \<open>The keys that signed, recovered from the signatures; a key may sign only once.\<close>

definition get_signature_keys :: "('s \<Rightarrow> 'k) \<Rightarrow> 's list \<Rightarrow> 'k list result" where
  "get_signature_keys recover signatures =
     fold_res (\<lambda>sig ks. if recover sig \<in> set ks then Inl (Other_Exception ''tx_duplicate_sig'') else Inr (ks @ [recover sig])) signatures []"

definition minimize_required_signatures :: "('k, 'a) operation_auths list \<Rightarrow> 'k list \<Rightarrow> 'k list \<Rightarrow> (account_id_type \<Rightarrow> ('k, 'a) authority option)
    \<Rightarrow> (account_id_type \<Rightarrow> ('k, 'a) authority option) \<Rightarrow> ('k \<Rightarrow> 'a list) \<Rightarrow> nat \<Rightarrow> 'k list result" where
  "minimize_required_signatures ops signature_keys avail active owner addrs n =
     bind_res (get_required_signatures ops signature_keys avail active owner addrs n) (\<lambda>s.
     fold_res (\<lambda>k r.
       case verify_authority ops (remove1 k r) active owner addrs n False {} {} of
         Inr _ \<Rightarrow> Inr (remove1 k r)
       | Inl e \<Rightarrow>
           if e \<in> {Other_Exception ''tx_missing_owner_auth'', Other_Exception ''tx_missing_active_auth'', Other_Exception ''tx_missing_other_auth''}
           then Inr r else Inl e) s s)"

definition tx_verify_authority :: "('s \<Rightarrow> 'k) \<Rightarrow> ('k, 'a) operation_auths list \<Rightarrow> 's list \<Rightarrow> (account_id_type \<Rightarrow> ('k, 'a) authority option)
    \<Rightarrow> (account_id_type \<Rightarrow> ('k, 'a) authority option) \<Rightarrow> ('k \<Rightarrow> 'a list) \<Rightarrow> nat \<Rightarrow> unit result" where
  "tx_verify_authority recover ops signatures active owner addrs n =
     bind_res (get_signature_keys recover signatures) (\<lambda>sigs. verify_authority ops sigs active owner addrs n False {} {})"

end
