(* ===== verification/Authority_Check.thy ===== *)
theory Authority_Check
  imports Authority
begin

text \<open>What it means that an authority is satisfied, and that the check of a transaction accepts exactly on that ground: it is sound for
  any depth and complete up to its recursion limit.\<close>

subsection \<open>When an authority is satisfied\<close>

definition weight_of :: "('x \<Rightarrow> bool) \<Rightarrow> ('x \<times> u16) list \<Rightarrow> nat" where
  "weight_of P xs = (\<Sum>(x, w)\<leftarrow>xs. if P x then unat w else 0)"

text \<open>The keys, addresses and accounts that count have together at least the weight of the threshold.\<close>

definition enough :: "('k \<Rightarrow> bool) \<Rightarrow> ('a \<Rightarrow> bool) \<Rightarrow> (account_id_type \<Rightarrow> bool) \<Rightarrow> ('k, 'a) authority \<Rightarrow> bool" where
  "enough K A C au \<longleftrightarrow> unat (weight_threshold au) \<le> weight_of K (key_auths au) + weight_of A (address_auths au) + weight_of C (account_auths au)"

lemma weight_of_simps [simp]:
  "weight_of P [] = 0" "weight_of P ((x, w) # xs) = (if P x then unat w else 0) + weight_of P xs"
  by (simp_all add: weight_of_def)

lemma weight_of_mono: "(\<And>x. x \<in> fst ` set xs \<Longrightarrow> P x \<Longrightarrow> Q x) \<Longrightarrow> weight_of P xs \<le> weight_of Q xs"
proof (induction xs)
  case (Cons y ys)
  then show ?case by (cases y) (auto intro: add_mono)
qed simp

lemma enough_mono: "(\<And>a. C a \<longrightarrow> D a) \<Longrightarrow> enough K A C au \<longrightarrow> enough K A D au"
  using weight_of_mono [of "account_auths au" C D] by (auto simp: enough_def)

text \<open>The meaning of an authority, without a limit of the depth: an account counts when it is in \<open>B\<close> or its active authority is satisfied.\<close>

inductive satisfied :: "(account_id_type \<Rightarrow> ('k, 'a) authority option) \<Rightarrow> ('k \<Rightarrow> bool) \<Rightarrow> ('a \<Rightarrow> bool) \<Rightarrow> account_id_type set
    \<Rightarrow> ('k, 'a) authority \<Rightarrow> bool" for active K A B where
  satisfied: "enough K A (\<lambda>a. a \<in> B \<or> (\<exists>x. active a = Some x \<and> satisfied active K A B x)) au \<Longrightarrow> satisfied active K A B au"
  monos enough_mono

definition holds :: "(account_id_type \<Rightarrow> ('k, 'a) authority option) \<Rightarrow> ('k \<Rightarrow> bool) \<Rightarrow> ('a \<Rightarrow> bool) \<Rightarrow> account_id_type set
    \<Rightarrow> ('k, 'a) authority option \<Rightarrow> bool" where
  "holds active K A B au \<longleftrightarrow> (\<exists>x. au = Some x \<and> satisfied active K A B x)"

text \<open>The same with a limit of the depth.\<close>

primrec satisfied_within :: "(account_id_type \<Rightarrow> ('k, 'a) authority option) \<Rightarrow> ('k \<Rightarrow> bool) \<Rightarrow> ('a \<Rightarrow> bool) \<Rightarrow> account_id_type set
    \<Rightarrow> nat \<Rightarrow> ('k, 'a) authority \<Rightarrow> bool" where
  "satisfied_within active K A B 0 au = enough K A (\<lambda>a. a \<in> B) au"
| "satisfied_within active K A B (Suc n) au =
     enough K A (\<lambda>a. a \<in> B \<or> (case active a of None \<Rightarrow> False | Some x \<Rightarrow> satisfied_within active K A B n x)) au"

text \<open>Weights small enough for the 32-bit sum of the code.\<close>

definition small :: "('k, 'a) authority \<Rightarrow> bool" where
  "small au \<longleftrightarrow> weight_of (\<lambda>_. True) (key_auths au) + weight_of (\<lambda>_. True) (address_auths au) + weight_of (\<lambda>_. True) (account_auths au) < 2 ^ 32"

subsection \<open>The loops\<close>

lemma weight_step:
  assumes "unat (t :: u32) + (unat w + m) < 2 ^ 32"
  shows "unat (t + ucast (w :: u16)) = unat t + unat w"
proof -
  have "unat (ucast w :: u32) = unat w" using unsigned_less [of w, where ?'a = nat] by (simp add: unsigned_ucast_eq take_bit_nat_eq_self)
  then show ?thesis using assms by (simp add: unat_word_ariths take_bit_nat_eq_self)
qed

lemma add_weights_sound:
  assumes "add_weights test thr xs tot s = Inr (fin, tot', s')" "I s" "unat tot + weight_of (\<lambda>_. True) xs < 2 ^ 32"
    and "\<And>x s ok s'. x \<in> fst ` set xs \<Longrightarrow> I s \<Longrightarrow> test x s = Inr (ok, s') \<Longrightarrow> I s' \<and> (ok \<longrightarrow> P x)"
  shows "I s' \<and> unat tot' \<le> unat tot + weight_of P xs \<and> (fin \<longrightarrow> thr \<le> tot')"
  using assms
proof (induction xs arbitrary: tot s)
  case (Cons y ys)
  obtain x w where y: "y = (x, w)" by (cases y)
  from Cons.prems(1) obtain ok s1 where t: "test x s = Inr (ok, s1)"
    and r: "(if ok then if tot + ucast w \<ge> thr then Inr (True, tot + ucast w, s1) else add_weights test thr ys (tot + ucast w) s1
       else add_weights test thr ys tot s1) = Inr (fin, tot', s')" by (auto simp: y)
  have s1: "I s1" "ok \<longrightarrow> P x" using Cons.prems(2) Cons.prems(4) [OF _ _ t] by (auto simp: y)
  have add: "unat (tot + ucast w) = unat tot + unat w"
    by (rule weight_step) (use Cons.prems(3) in \<open>simp add: y add.assoc\<close>)
  have rest: "I s' \<and> (ok \<longrightarrow> P x)" if "x \<in> fst ` set ys" "I s" "test x s = Inr (ok, s')" for x s ok s'
    using Cons.prems(4) [of x s ok s'] that by simp
  have ih: "I s' \<and> unat tot' \<le> unat t + weight_of P ys \<and> (fin \<longrightarrow> thr \<le> tot')"
    if "add_weights test thr ys t s1 = Inr (fin, tot', s')" "unat t + weight_of (\<lambda>_. True) ys < 2 ^ 32" for t
    by (rule Cons.IH [OF that(1) s1(1) that(2)]) (rule rest)
  show ?case using r s1 add ih [of tot] ih [of "tot + ucast w"] Cons.prems(3) by (auto simp: y split: if_splits)
qed simp

lemma add_weights_complete:
  assumes "add_weights test thr xs tot s = Inr (fin, tot', s')" "I s" "unat tot + weight_of (\<lambda>_. True) xs < 2 ^ 32"
    and "\<And>x s ok s'. x \<in> fst ` set xs \<Longrightarrow> I s \<Longrightarrow> test x s = Inr (ok, s') \<Longrightarrow> I s' \<and> (P x \<longrightarrow> ok)"
  shows "fin \<or> unat tot + weight_of P xs \<le> unat tot'"
  using assms
proof (induction xs arbitrary: tot s)
  case (Cons y ys)
  obtain x w where y: "y = (x, w)" by (cases y)
  from Cons.prems(1) obtain ok s1 where t: "test x s = Inr (ok, s1)"
    and r: "(if ok then if tot + ucast w \<ge> thr then Inr (True, tot + ucast w, s1) else add_weights test thr ys (tot + ucast w) s1
       else add_weights test thr ys tot s1) = Inr (fin, tot', s')" by (auto simp: y)
  have s1: "I s1" "P x \<longrightarrow> ok" using Cons.prems(2) Cons.prems(4) [OF _ _ t] by (auto simp: y)
  have add: "unat (tot + ucast w) = unat tot + unat w"
    by (rule weight_step) (use Cons.prems(3) in \<open>simp add: y add.assoc\<close>)
  have rest: "I s' \<and> (P x \<longrightarrow> ok)" if "x \<in> fst ` set ys" "I s" "test x s = Inr (ok, s')" for x s ok s'
    using Cons.prems(4) [of x s ok s'] that by simp
  have ih: "fin \<or> unat t + weight_of P ys \<le> unat tot'"
    if "add_weights test thr ys t s1 = Inr (fin, tot', s')" "unat t + weight_of (\<lambda>_. True) ys < 2 ^ 32" for t
    by (rule Cons.IH [OF that(1) s1(1) that(2)]) (rule rest)
  show ?case using r s1 add ih [of tot] ih [of "tot + ucast w"] Cons.prems(3) by (auto simp: y split: if_splits)
qed simp

lemma add_weights_runs:
  assumes "\<And>x s. I s \<Longrightarrow> \<exists>ok s'. test x s = Inr (ok, s') \<and> I s'" "I s"
  shows "\<exists>fin tot' s'. add_weights test thr xs tot s = Inr (fin, tot', s') \<and> I s'"
  using assms(2)
proof (induction xs arbitrary: tot s)
  case (Cons y ys)
  obtain x w where y: "y = (x, w)" by (cases y)
  obtain ok s1 where "test x s = Inr (ok, s1)" "I s1" using assms(1) Cons.prems by blast
  then show ?case using Cons.IH [of s1] by (auto simp: y)
qed auto

lemma total_weights_exact:
  assumes "weight_of (\<lambda>_. True) xs < 2 ^ 64"
  shows "unat (total_weights xs) = weight_of (\<lambda>_. True) xs"
  using assms
proof (induction xs)
  case (Cons y ys)
  obtain x w where y: "y = (x, w)" by (cases y)
  have "unat (ucast w :: u64) = unat w" using unsigned_less [of w, where ?'a = nat] by (simp add: unsigned_ucast_eq take_bit_nat_eq_self)
  then show ?case using Cons by (simp add: y unat_word_ariths)
qed simp

lemma impossible_not_satisfied:
  assumes "is_impossible au" "small au"
  shows "\<not> satisfied active K A B au"
proof
  assume "satisfied active K A B au"
  then have "enough K A (\<lambda>a. a \<in> B \<or> (\<exists>x. active a = Some x \<and> satisfied active K A B x)) au" by (cases rule: satisfied.cases)
  then have le: "unat (weight_threshold au) \<le> weight_of (\<lambda>_. True) (key_auths au) + weight_of (\<lambda>_. True) (address_auths au) + weight_of (\<lambda>_. True) (account_auths au)"
    unfolding enough_def by (rule order_trans) (intro add_mono weight_of_mono; simp)
  have w: "unat (total_weights (key_auths au)) = weight_of (\<lambda>_. True) (key_auths au)" "unat (total_weights (address_auths au)) = weight_of (\<lambda>_. True) (address_auths au)"
    "unat (total_weights (account_auths au)) = weight_of (\<lambda>_. True) (account_auths au)"
    by (rule total_weights_exact, use assms(2) in \<open>simp add: small_def\<close>)+
  have "unat (ucast (weight_threshold au) :: u64) = unat (weight_threshold au)"
    using unsigned_less [of "weight_threshold au", where ?'a = nat] by (simp add: unsigned_ucast_eq take_bit_nat_eq_self)
  then show False using assms le w by (simp add: is_impossible_def small_def word_less_nat_alt unat_word_ariths)
qed

subsection \<open>What the state of a check means\<close>

abbreviation (input) has_key :: "'k list \<Rightarrow> 'k \<Rightarrow> bool" where
  "has_key sigs \<equiv> \<lambda>k. k \<in> set sigs"

abbreviation (input) has_address :: "('k \<Rightarrow> 'a list) \<Rightarrow> 'k list \<Rightarrow> 'a \<Rightarrow> bool" where
  "has_address addrs sigs \<equiv> \<lambda>a. \<exists>k\<in>set sigs. a \<in> set (addrs k)"

text \<open>A key occurs in one of the authorities \<open>W\<close>, as a key or through one of its addresses.\<close>

definition occurs :: "('k \<Rightarrow> 'a list) \<Rightarrow> ('k, 'a) authority set \<Rightarrow> 'k \<Rightarrow> bool" where
  "occurs addrs W k \<longleftrightarrow> (\<exists>au\<in>W. k \<in> set (get_keys au) \<or> (\<exists>a\<in>set (get_addresses au). a \<in> set (addrs k)))"

text \<open>The signatures are those given, an account counts as approved only with reason, and only keys that occur are marked as used.\<close>

definition sign_inv :: "('k, 'a) sign_env \<Rightarrow> 'k list \<Rightarrow> account_id_type set \<Rightarrow> ('k, 'a) authority set \<Rightarrow> ('k, 'a) sign_state \<Rightarrow> bool" where
  "sign_inv env sigs B W s \<longleftrightarrow> fst ` set (provided_signatures s) = set sigs
     \<and> (case provided_address_sigs s of
          None \<Rightarrow> available_address_sigs s = None
        | Some p \<Rightarrow> available_address_sigs s = Some Map.empty \<and> (\<forall>a k. p a = Some k \<longrightarrow> k \<in> set sigs \<and> a \<in> set (addresses_of env k)))
     \<and> (\<forall>a\<in>approved_by s. a \<in> B \<or> holds (get_active env) (has_key sigs) (has_address (addresses_of env) sigs) B (get_active env a))
     \<and> (\<forall>k. (k, True) \<in> set (provided_signatures s) \<longrightarrow> occurs (addresses_of env) W k)"

lemma flag_used_facts:
  "fst ` set (flag_used k xs) = insert k (fst ` set xs)" "(k', True) \<in> set (flag_used k xs) \<Longrightarrow> k' = k \<or> (k', True) \<in> set xs"
  by (induction k xs rule: flag_used.induct) (auto split: if_splits)

lemma address_map_sound:
  assumes "address_map addrs ks a = Some k"
  shows "k \<in> set ks \<and> a \<in> set (addrs k)"
proof -
  have inner: "m x = Some k \<or> k' = k \<and> x \<in> set as" if "fold (\<lambda>a m. m(a \<mapsto> k')) as m x = Some k" for as m x k'
    using that
  proof (induction as arbitrary: m)
    case (Cons a as)
    have "(m(a \<mapsto> k')) x = Some k \<or> k' = k \<and> x \<in> set as" using Cons.IH [of "m(a \<mapsto> k')"] Cons.prems by simp
    then show ?case by (auto split: if_splits)
  qed simp
  have "m a = Some k \<or> k \<in> set ks \<and> a \<in> set (addrs k)"
    if "fold (\<lambda>k m. fold (\<lambda>a m. m(a \<mapsto> k)) (addrs k) m) ks m a = Some k" for m
    using that
  proof (induction ks arbitrary: m)
    case (Cons x ks)
    have "fold (\<lambda>a m. m(a \<mapsto> x)) (addrs x) m a = Some k \<or> k \<in> set ks \<and> a \<in> set (addrs k)"
      using Cons.IH [of "fold (\<lambda>a m. m(a \<mapsto> x)) (addrs x) m"] Cons.prems by (simp del: fun_upd_apply)
    then show ?case using inner [of x "addrs x" m a] by auto
  qed simp
  from this [of Map.empty] show ?thesis using assms by (simp add: address_map_def)
qed

lemma mark_inv:
  assumes "sign_inv env sigs B W s" "k \<in> set sigs" "occurs (addresses_of env) W k"
  shows "sign_inv env sigs B W (s\<lparr>provided_signatures := flag_used k (provided_signatures s)\<rparr>)"
proof -
  have "fst ` set (flag_used k (provided_signatures s)) = set sigs" using assms(1,2) by (simp add: flag_used_facts(1) sign_inv_def insert_absorb)
  moreover have "occurs (addresses_of env) W k'" if "(k', True) \<in> set (flag_used k (provided_signatures s))" for k'
    using flag_used_facts(2) [OF that] assms(1,3) by (auto simp: sign_inv_def)
  ultimately show ?thesis using assms(1) by (simp add: sign_inv_def split: option.splits)
qed

lemma approve_inv:
  assumes "sign_inv env sigs B W s" "holds (get_active env) (has_key sigs) (has_address (addresses_of env) sigs) B (get_active env a)"
  shows "sign_inv env sigs B W (s\<lparr>approved_by := insert a (approved_by s)\<rparr>)"
  using assms by (auto simp: sign_inv_def split: option.splits)

lemma key_test:
  assumes "sign_inv env sigs B W s" "available_keys env = []" "signed_by_key env k s = (ok, s')" "au \<in> W" "k \<in> fst ` set (key_auths au)"
  shows "sign_inv env sigs B W s'" "ok \<longleftrightarrow> k \<in> set sigs"
proof -
  have occ: "occurs (addresses_of env) W k" using assms(4,5) by (force simp: occurs_def get_keys_def)
  have sig: "k \<in> fst ` set (provided_signatures s) \<longleftrightarrow> k \<in> set sigs" using assms(1) by (simp add: sign_inv_def)
  show "sign_inv env sigs B W s'" "ok \<longleftrightarrow> k \<in> set sigs"
    using assms(2,3) sig assms(1) mark_inv [OF assms(1) _ occ] by (auto simp: signed_by_key_def split: if_splits)
qed

lemma init_addresses_inv:
  assumes "sign_inv env sigs B W s" "available_keys env = []"
  shows "sign_inv env sigs B W (init_addresses env s)"
proof (cases "available_address_sigs s")
  case None
  have "k \<in> set sigs \<and> a \<in> set (addresses_of env k)" if "address_map (addresses_of env) (map fst (provided_signatures s)) a = Some k" for a k
    using address_map_sound [OF that] assms(1) by (auto simp: sign_inv_def)
  moreover have "address_map (addresses_of env) [] = Map.empty" by (simp add: address_map_def)
  ultimately show ?thesis using None assms by (simp add: init_addresses_def sign_inv_def)
next
  case (Some v)
  then show ?thesis using assms by (simp add: init_addresses_def)
qed

lemma address_test:
  assumes "sign_inv env sigs B W s" "available_keys env = []" "signed_by_address env a s = Inr (ok, s')" "au \<in> W" "a \<in> fst ` set (address_auths au)"
  shows "sign_inv env sigs B W s' \<and> (ok \<longrightarrow> has_address (addresses_of env) sigs a)"
proof -
  let ?s = "init_addresses env s"
  note inv = init_addresses_inv [OF assms(1,2)]
  from assms(3) obtain p v where pv: "provided_address_sigs ?s = Some p" "available_address_sigs ?s = Some v"
    by (auto simp: signed_by_address_def Let_def split: option.splits)
  then have v: "v = Map.empty" and p: "\<And>k. p a = Some k \<Longrightarrow> k \<in> set sigs \<and> a \<in> set (addresses_of env k)"
    using inv by (auto simp: sign_inv_def)
  then obtain k where k: "p a = Some k" and s': "s' = ?s\<lparr>provided_signatures := flag_used k (provided_signatures ?s)\<rparr>"
    using assms(3) pv by (auto simp: signed_by_address_def Let_def split: option.splits)
  have "occurs (addresses_of env) W k" using assms(4,5) p [OF k] by (force simp: occurs_def get_addresses_def)
  then show ?thesis using mark_inv [OF inv] p [OF k] s' by auto
qed

subsection \<open>The check is sound\<close>

definition checks_active :: "('k, 'a) sign_env \<Rightarrow> 'k list \<Rightarrow> account_id_type set \<Rightarrow> ('k, 'a) authority set
    \<Rightarrow> (('k, 'a) authority option \<Rightarrow> ('k, 'a) sign_state \<Rightarrow> (bool \<times> ('k, 'a) sign_state) result) option \<Rightarrow> bool" where
  "checks_active env sigs B W check \<longleftrightarrow> (\<forall>chk a s ok s'. check = Some chk \<longrightarrow> sign_inv env sigs B W s \<longrightarrow> chk (get_active env a) s = Inr (ok, s') \<longrightarrow>
      sign_inv env sigs B W s' \<and> (ok \<longrightarrow> holds (get_active env) (has_key sigs) (has_address (addresses_of env) sigs) B (get_active env a)))"

lemma account_test:
  assumes check: "checks_active env sigs B W check" and e: "sign_inv env sigs B W e" and ap: "account_approved env check b e = Inr (ok, e')"
  shows "sign_inv env sigs B W e' \<and> (ok \<longrightarrow> b \<in> B \<or> holds (get_active env) (has_key sigs) (has_address (addresses_of env) sigs) B (get_active env b))"
proof (cases "b \<in> approved_by e")
  case True
  then have "b \<in> B \<or> holds (get_active env) (has_key sigs) (has_address (addresses_of env) sigs) B (get_active env b)"
    using e by (simp add: sign_inv_def)
  then show ?thesis using True e ap by (simp add: account_approved_def)
next
  case False
  show ?thesis
  proof (cases check)
    case None
    then show ?thesis using False e ap by (simp add: account_approved_def)
  next
    case (Some chk)
    then obtain e1 where e1: "chk (get_active env b) e = Inr (ok, e1)" and e': "e' = (if ok then e1\<lparr>approved_by := insert b (approved_by e1)\<rparr> else e1)"
      using False ap by (auto simp: account_approved_def)
    have "sign_inv env sigs B W e1 \<and> (ok \<longrightarrow> holds (get_active env) (has_key sigs) (has_address (addresses_of env) sigs) B (get_active env b))"
      using check Some e e1 unfolding checks_active_def by blast
    then show ?thesis using approve_inv [of env sigs B W e1 b] by (simp add: e')
  qed
qed

lemma check_one_sound:
  assumes r: "check_one_authority env check au s = Inr (ok, s')" and inv: "sign_inv env sigs B W s" and env: "available_keys env = []"
    and W: "\<And>x. au = Some x \<Longrightarrow> x \<in> W \<and> small x"
    and check: "checks_active env sigs B W check"
  shows "sign_inv env sigs B W s' \<and> (ok \<longrightarrow> holds (get_active env) (has_key sigs) (has_address (addresses_of env) sigs) B au)"
proof (cases au)
  case None
  then show ?thesis using r inv by (simp add: check_one_authority_def)
next
  case (Some x)
  have x: "x \<in> W" "small x" using W [OF Some] by simp_all
  let ?K = "has_key sigs" and ?A = "has_address (addresses_of env) sigs" and ?thr = "weight_threshold x"
  let ?C = "\<lambda>a. a \<in> B \<or> holds (get_active env) ?K ?A B (get_active env a)"
  have le: "weight_of ?K (key_auths x) \<le> weight_of (\<lambda>_. True) (key_auths x)" "weight_of ?A (address_auths x) \<le> weight_of (\<lambda>_. True) (address_auths x)"
    by (auto intro: weight_of_mono)
  have enough: "holds (get_active env) ?K ?A B au"
    if "?thr \<le> (t :: u32)" "unat t \<le> weight_of ?K (key_auths x) + weight_of ?A (address_auths x) + weight_of ?C (account_auths x)" for t
  proof -
    have "unat ?thr \<le> unat t" using that(1) by (simp add: word_le_nat_alt)
    then have "enough ?K ?A ?C x" using that(2) by (simp add: enough_def)
    then have "satisfied (get_active env) ?K ?A B x" by (intro satisfied.satisfied) (simp add: holds_def)
    then show ?thesis by (simp add: holds_def Some)
  qed
  from r obtain f1 t1 s1 where 1: "add_weights (\<lambda>k s. Inr (signed_by_key env k s)) ?thr (key_auths x) 0 s = Inr (f1, t1, s1)"
    by (auto simp: check_one_authority_def Some)
  have k: "sign_inv env sigs B W s1 \<and> unat t1 \<le> unat (0 :: u32) + weight_of ?K (key_auths x) \<and> (f1 \<longrightarrow> ?thr \<le> t1)"
    by (rule add_weights_sound [OF 1, where I = "sign_inv env sigs B W"]) (use inv x(2) key_test [OF _ env _ x(1)] in \<open>auto simp: small_def\<close>)
  show ?thesis
  proof (cases f1)
    case True
    then show ?thesis using r 1 k enough [of t1] by (auto simp: check_one_authority_def Some)
  next
    case f1: False
    with r 1 obtain f2 t2 s2 where 2: "add_weights (signed_by_address env) ?thr (address_auths x) t1 s1 = Inr (f2, t2, s2)"
      by (auto simp: check_one_authority_def Some)
    have a: "sign_inv env sigs B W s2 \<and> unat t2 \<le> unat t1 + weight_of ?A (address_auths x) \<and> (f2 \<longrightarrow> ?thr \<le> t2)"
      by (rule add_weights_sound [OF 2, where I = "sign_inv env sigs B W"]) (use x(2) k le(1) address_test [OF _ env _ x(1)] in \<open>auto simp: small_def\<close>)
    show ?thesis
    proof (cases f2)
      case True
      then show ?thesis using r 1 2 f1 k a enough [of t2] by (auto simp: check_one_authority_def Some)
    next
      case f2: False
      with r 1 2 f1 obtain f3 t3 where 3: "add_weights (account_approved env check) ?thr (account_auths x) t2 s2 = Inr (f3, t3, s')"
        and ok: "ok \<longleftrightarrow> f3 \<or> ?thr \<le> t3" by (auto simp: check_one_authority_def Some)
      have "sign_inv env sigs B W s' \<and> unat t3 \<le> unat t2 + weight_of ?C (account_auths x) \<and> (f3 \<longrightarrow> ?thr \<le> t3)"
        by (rule add_weights_sound [OF 3, where I = "sign_inv env sigs B W"]) (use x(2) k a le account_test [OF check] in \<open>auto simp: small_def\<close>)
      then show ?thesis using ok k a enough [of t3] by auto
    qed
  qed
qed

lemma check_authority_sound:
  assumes "check_authority env n au s = Inr (ok, s')" "sign_inv env sigs B W s" "available_keys env = []"
    and "\<And>x. au = Some x \<Longrightarrow> x \<in> W" "\<And>a x. get_active env a = Some x \<Longrightarrow> x \<in> W" "\<And>x. x \<in> W \<Longrightarrow> small x"
  shows "sign_inv env sigs B W s' \<and> (ok \<longrightarrow> holds (get_active env) (has_key sigs) (has_address (addresses_of env) sigs) B au)"
  using assms(1,2,4)
proof (induction n arbitrary: au s ok s')
  case 0
  have r: "check_one_authority env None au s = Inr (ok, s')" using 0(1) by simp
  show ?case by (rule check_one_sound [OF r 0(2) assms(3)]) (use 0(3) assms(6) in \<open>auto simp: checks_active_def\<close>)
next
  case (Suc n)
  have r: "check_one_authority env (Some (check_authority env n)) au s = Inr (ok, s')" using Suc.prems(1) by simp
  have "checks_active env sigs B W (Some (check_authority env n))"
    unfolding checks_active_def using Suc.IH assms(5) by blast
  then show ?case by (intro check_one_sound [OF r Suc.prems(2) assms(3)]) (use Suc.prems(3) assms(6) in auto)
qed

subsection \<open>The check finds what is satisfied within its depth\<close>

definition sign_start :: "'k list \<Rightarrow> account_id_type set \<Rightarrow> ('k, 'a) sign_state \<Rightarrow> bool" where
  "sign_start sigs B s \<longleftrightarrow> fst ` set (provided_signatures s) = set sigs \<and> B \<subseteq> approved_by s"

lemma key_runs:
  assumes "sign_start sigs B s" "available_keys env = []"
  shows "\<exists>ok s'. signed_by_key env k s = (ok, s') \<and> sign_start sigs B s' \<and> (k \<in> set sigs \<longrightarrow> ok)"
  using assms by (auto simp: signed_by_key_def sign_start_def flag_used_facts(1))

lemma key_runsD:
  assumes "signed_by_key env k s = (ok, s')" "sign_start sigs B s" "available_keys env = []"
  shows "sign_start sigs B s' \<and> (k \<in> set sigs \<longrightarrow> ok)"
  using key_runs [OF assms(2,3), of k] assms(1) by simp

text \<open>What the recursive check does for the accounts \<open>C\<close> when it is there.\<close>

definition finds :: "('k, 'a) sign_env \<Rightarrow> 'k list \<Rightarrow> account_id_type set \<Rightarrow> (account_id_type \<Rightarrow> bool)
    \<Rightarrow> (('k, 'a) authority option \<Rightarrow> ('k, 'a) sign_state \<Rightarrow> (bool \<times> ('k, 'a) sign_state) result) option \<Rightarrow> bool" where
  "finds env sigs B C check \<longleftrightarrow> (case check of
     None \<Rightarrow> \<forall>a. C a \<longrightarrow> a \<in> B
   | Some chk \<Rightarrow> \<forall>a s. sign_start sigs B s \<longrightarrow>
       (\<exists>ok s'. chk (get_active env a) s = Inr (ok, s') \<and> sign_start sigs B s' \<and> (C a \<and> a \<notin> B \<longrightarrow> ok)))"

lemma account_runs:
  assumes "finds env sigs B C check" "sign_start sigs B s"
  shows "\<exists>ok s'. account_approved env check a s = Inr (ok, s') \<and> sign_start sigs B s' \<and> (C a \<or> a \<in> B \<longrightarrow> ok)"
proof (cases "a \<in> approved_by s")
  case True
  then show ?thesis using assms(2) by (auto simp: account_approved_def)
next
  case False
  then have nB: "a \<notin> B" using assms(2) by (auto simp: sign_start_def)
  show ?thesis
  proof (cases check)
    case None
    then show ?thesis using False nB assms by (auto simp: account_approved_def finds_def)
  next
    case (Some chk)
    then obtain ok s' where "chk (get_active env a) s = Inr (ok, s')" "sign_start sigs B s'" "C a \<and> a \<notin> B \<longrightarrow> ok"
      using assms by (auto simp: finds_def) blast
    then show ?thesis using Some False nB by (auto simp: account_approved_def sign_start_def)
  qed
qed

lemma account_runsD:
  assumes "account_approved env check a s = Inr (ok, s')" "finds env sigs B C check" "sign_start sigs B s"
  shows "sign_start sigs B s' \<and> (C a \<or> a \<in> B \<longrightarrow> ok)"
  using account_runs [OF assms(2,3), of a] assms(1) by simp

lemma check_one_complete:
  assumes check: "finds env sigs B C check" and s: "sign_start sigs B s" and env: "available_keys env = []"
    and x: "\<And>x. au = Some x \<Longrightarrow> address_auths x = [] \<and> small x"
  shows "\<exists>ok s'. check_one_authority env check au s = Inr (ok, s') \<and> sign_start sigs B s'
    \<and> ((\<exists>x. au = Some x \<and> enough (has_key sigs) (\<lambda>_. False) (\<lambda>a. C a \<or> a \<in> B) x) \<longrightarrow> ok)"
proof (cases au)
  case None
  then show ?thesis using s by (auto simp: check_one_authority_def)
next
  case (Some x)
  let ?thr = "weight_threshold x" and ?I = "sign_start sigs B" and ?C = "\<lambda>a. C a \<or> a \<in> B"
  have na: "address_auths x = []" and sm: "small x" using assms(4) [OF Some] by simp_all
  have "\<exists>ok s'. Inr (signed_by_key env k e) = Inr (ok, s') \<and> ?I s'" if "?I e" for k e using key_runs [OF that env, of k] by auto
  from add_weights_runs [of ?I "\<lambda>k s. Inr (signed_by_key env k s)", OF this s] obtain f1 t1 s1
    where 1: "add_weights (\<lambda>k s. Inr (signed_by_key env k s)) ?thr (key_auths x) 0 s = Inr (f1, t1, s1)" and s1: "?I s1" by blast
  have key: "?I e' \<and> (y \<in> set sigs \<longrightarrow> r)" if "y \<in> fst ` set (key_auths x)" "?I e" "Inr (signed_by_key env y e) = Inr (r, e')" for y e r e'
    using key_runsD [OF _ that(2) env] that(3) by blast
  have "f1 \<or> unat (0 :: u32) + weight_of (has_key sigs) (key_auths x) \<le> unat t1"
    by (rule add_weights_complete [where I = ?I and P = "has_key sigs", OF 1 s _ key]) (use sm in \<open>simp_all add: small_def\<close>)
  moreover have "?I s1 \<and> unat t1 \<le> unat (0 :: u32) + weight_of (\<lambda>_. True) (key_auths x) \<and> (f1 \<longrightarrow> ?thr \<le> t1)"
    by (rule add_weights_sound [where I = ?I and P = "\<lambda>_. True", OF 1 s]) (use sm key in \<open>simp_all add: small_def\<close>)
  ultimately have k: "f1 \<or> weight_of (has_key sigs) (key_auths x) \<le> unat t1" "unat t1 \<le> weight_of (\<lambda>_. True) (key_auths x)" by auto
  show ?thesis
  proof (cases f1)
    case True
    then show ?thesis using 1 s1 by (auto simp: check_one_authority_def Some)
  next
    case False
    have "\<exists>ok s'. account_approved env check a e = Inr (ok, s') \<and> ?I s'" if "?I e" for a e using account_runs [OF check that] by blast
    from add_weights_runs [of ?I "account_approved env check", OF this s1] obtain f3 t3 s3
      where 3: "add_weights (account_approved env check) ?thr (account_auths x) t1 s1 = Inr (f3, t3, s3)" and s3: "?I s3" by blast
    have acc: "?I e' \<and> (?C y \<longrightarrow> r)" if "y \<in> fst ` set (account_auths x)" "?I e" "account_approved env check y e = Inr (r, e')" for y e r e'
      using account_runsD [OF that(3) check that(2)] .
    have "f3 \<or> unat t1 + weight_of ?C (account_auths x) \<le> unat t3"
      by (rule add_weights_complete [where I = ?I and P = ?C, OF 3 s1 _ acc]) (use k(2) sm in \<open>simp_all add: small_def\<close>)
    moreover have "unat ?thr \<le> weight_of (has_key sigs) (key_auths x) + weight_of ?C (account_auths x)"
      if "enough (has_key sigs) (\<lambda>_. False) ?C x" using that na by (simp add: enough_def)
    ultimately have "enough (has_key sigs) (\<lambda>_. False) ?C x \<longrightarrow> f3 \<or> ?thr \<le> t3" using k(1) False by (auto simp: word_le_nat_alt)
    then show ?thesis using 1 3 s3 False na by (simp add: check_one_authority_def Some)
  qed
qed

lemma check_authority_complete:
  assumes "sign_start sigs B s" "available_keys env = []"
    and "\<And>x. au = Some x \<Longrightarrow> address_auths x = [] \<and> small x" "\<And>a x. get_active env a = Some x \<Longrightarrow> address_auths x = [] \<and> small x"
  shows "\<exists>ok s'. check_authority env n au s = Inr (ok, s') \<and> sign_start sigs B s'
    \<and> ((\<exists>x. au = Some x \<and> satisfied_within (get_active env) (has_key sigs) (\<lambda>_. False) B n x) \<longrightarrow> ok)"
  using assms(1,3)
proof (induction n arbitrary: au s)
  case 0
  have "finds env sigs B (\<lambda>a. a \<in> B) None" by (simp add: finds_def)
  from check_one_complete [OF this 0(1) assms(2) 0(2)] show ?case by simp
next
  case (Suc n)
  let ?C = "\<lambda>a. case get_active env a of None \<Rightarrow> False | Some x \<Rightarrow> satisfied_within (get_active env) (has_key sigs) (\<lambda>_. False) B n x"
  have "\<exists>ok s'. check_authority env n (get_active env a) e = Inr (ok, s') \<and> sign_start sigs B s' \<and> (?C a \<and> a \<notin> B \<longrightarrow> ok)"
    if "sign_start sigs B e" for a e
    using Suc.IH [OF that, of "get_active env a"] assms(4) [of a] by (auto split: option.splits)
  then have "finds env sigs B ?C (Some (check_authority env n))" by (simp add: finds_def)
  from check_one_complete [OF this Suc.prems(1) assms(2) Suc.prems(2)] show ?case by (simp add: disj_commute)
qed

subsection \<open>Transactions\<close>

lemma set_flat_insert [simp]: "set (flat_insert x xs) = insert x (set xs)"
  by (induction x xs rule: flat_insert.induct) auto

lemma set_fold_flat_insert [simp]: "set (fold flat_insert xs ys) = set xs \<union> set ys"
  by (induction xs arbitrary: ys) auto

definition needs_active :: "('k, 'a) operation_auths list \<Rightarrow> account_id_type set" where
  "needs_active ops = (\<Union>op\<in>set ops. insert (fee_payer op) (set (required_active_authorities op)))"

definition needs_owner :: "('k, 'a) operation_auths list \<Rightarrow> account_id_type set" where
  "needs_owner ops = (\<Union>op\<in>set ops. set (required_owner_authorities op))"

definition needs_other :: "('k, 'a) operation_auths list \<Rightarrow> ('k, 'a) authority set" where
  "needs_other ops = (\<Union>op\<in>set ops. set (required_authorities op))"

lemma required_sets:
  assumes "fold operation_get_required_authorities ops (a0, o0, x0) = (active, owner, other)"
  shows "set active = set a0 \<union> needs_active ops" "set owner = set o0 \<union> needs_owner ops" "set other = set x0 \<union> needs_other ops"
  using assms
  by (induction ops arbitrary: a0 o0 x0)
    (auto simp: operation_get_required_authorities_def needs_active_def needs_owner_def needs_other_def)

lemma fold_res_visits:
  assumes "fold_res f xs s = Inr t" "I s" "\<And>x s s'. x \<in> set xs \<Longrightarrow> I s \<Longrightarrow> f x s = Inr s' \<Longrightarrow> I s' \<and> Q x"
  shows "I t \<and> (\<forall>x\<in>set xs. Q x)"
  using assms
proof (induction xs arbitrary: s)
  case (Cons x xs)
  then obtain s1 where 1: "f x s = Inr s1" "fold_res f xs s1 = Inr t" by auto
  have "I s1 \<and> Q x" using Cons.prems(2) Cons.prems(3) [of x s s1] 1(1) by simp
  then show ?case using Cons.IH [OF 1(2)] Cons.prems(3) by (metis list.set_intros(2) set_ConsD)
qed simp


lemma fold_res_runs:
  assumes "\<And>x s. x \<in> set xs \<Longrightarrow> I s \<Longrightarrow> \<exists>s'. f x s = Inr s' \<and> I s'" "I s"
  shows "\<exists>t. fold_res f xs s = Inr t \<and> I t"
  using assms
proof (induction xs arbitrary: s)
  case (Cons x xs)
  obtain s1 where "f x s = Inr s1" "I s1" using Cons.prems(1) [of x s] Cons.prems(2) by auto
  then show ?case using Cons.IH [of s1] Cons.prems(1) by simp
qed simp

text \<open>C37: A transaction whose authorities are satisfied within the recursion limit is never refused for a missing authority: with
  authorities of keys and accounts only, \<open>verify_authority\<close> accepts it or complains about a signature that is not needed.\<close>

theorem verify_authority_complete:
  fixes sigs :: "'k list" and addrs :: "'k \<Rightarrow> 'a list" and active_aprovals owner_approvals :: "account_id_type set" and n :: nat
  assumes "\<forall>x \<in> needs_other ops \<union> ran active \<union> ran owner. address_auths x = [] \<and> small x"
    and "allow \<or> GRAPHENE_COMMITTEE_ACCOUNT \<notin> needs_active ops"
  defines "B \<equiv> {GRAPHENE_TEMP_ACCOUNT} \<union> active_aprovals \<union> owner_approvals"
  defines "ok \<equiv> \<lambda>au. \<exists>x. au = Some x \<and> satisfied_within active (\<lambda>k. k \<in> set sigs) (\<lambda>_. False) B n x"
  assumes "\<forall>x\<in>needs_other ops. ok (Some x)" "\<forall>a\<in>needs_active ops. a \<in> B \<or> ok (active a) \<or> ok (owner a)"
    "\<forall>a\<in>needs_owner ops. a \<in> owner_approvals \<or> ok (owner a)"
  shows "verify_authority ops sigs active owner addrs n allow active_aprovals owner_approvals
    \<in> {Inr (), Inl (Other_Exception ''tx_irrelevant_sig'')}"
proof -
  obtain act own oth where req: "fold operation_get_required_authorities ops ([], [], []) = (act, own, oth)" by (metis prod_cases3)
  have sets: "set act = needs_active ops" "set own = needs_owner ops" "set oth = needs_other ops" using required_sets [OF req] by simp_all
  define env where "env = \<lparr>get_active = active, available_keys = [], addresses_of = addrs\<rparr>"
  define s1 :: "('k, 'a) sign_state" where "s1 = (sign_state_init sigs)\<lparr>approved_by := B\<rparr>"
  let ?I = "sign_start sigs B"
  have env: "available_keys env = []" "get_active env = active" by (simp_all add: env_def)
  have B: "approved_by (sign_state_init sigs :: ('k, 'a) sign_state) \<union> active_aprovals \<union> owner_approvals = B" by (simp add: B_def sign_state_init_def)
  have 1: "?I s1" by (auto simp: sign_start_def s1_def sign_state_init_def image_image)
  have runs: "\<exists>r e'. check_authority env n au e = Inr (r, e') \<and> ?I e' \<and> (ok au \<longrightarrow> r)"
    if "?I e" "\<And>x. au = Some x \<Longrightarrow> x \<in> needs_other ops \<union> ran active \<union> ran owner" for au e
    unfolding ok_def env(2) [symmetric]
    by (rule check_authority_complete [OF that(1) env(1)]) (use that(2) assms(1) in \<open>auto simp: env ran_def\<close>)
  have "\<exists>e'. check_other env n x e = Inr e' \<and> ?I e'" if x: "x \<in> set oth" "?I e" for x e
  proof -
    obtain r e' where "check_authority env n (Some x) e = Inr (r, e')" "?I e'" "ok (Some x) \<longrightarrow> r"
      using runs [OF x(2), of "Some x"] x(1) sets by auto
    then show ?thesis using x(1) assms(5) sets by (simp add: check_other_def tx_error_def)
  qed
  from fold_res_runs [where f = "check_other env n" and xs = oth and I = ?I, OF this 1] obtain s2 where 2: "fold_res (check_other env n) oth s1 = Inr s2" "?I s2" by blast
  have "\<exists>e'. check_active env owner n a e = Inr e' \<and> ?I e'" if a: "a \<in> set act" "?I e" for a e
  proof -
    have "\<exists>r e1. check_authority env n (active a) e = Inr (r, e1) \<and> ?I e1 \<and> (ok (active a) \<longrightarrow> r)"
      by (rule runs [OF a(2)]) (auto simp: ran_def)
    moreover have "a \<in> B \<Longrightarrow> a \<in> approved_by e" using a(2) by (auto simp: sign_start_def)
    ultimately have "\<exists>r e1. check_account env n a e = Inr (r, e1) \<and> ?I e1 \<and> (a \<in> B \<or> ok (active a) \<longrightarrow> r)"
      using a(2) by (cases "a \<in> approved_by e") (auto simp: check_account_def env)
    then obtain r e1 where r: "check_account env n a e = Inr (r, e1)" "?I e1" "a \<in> B \<or> ok (active a) \<longrightarrow> r" by blast
    obtain r' e2 where "check_authority env n (owner a) e1 = Inr (r', e2)" "?I e2" "ok (owner a) \<longrightarrow> r'"
      using runs [OF r(2), of "owner a"] by (auto simp: ran_def)
    then show ?thesis using r a(1) assms(6) sets by (auto simp: check_active_def check_active_or_owner_def tx_error_def)
  qed
  from fold_res_runs [where f = "check_active env owner n" and xs = act and I = ?I, OF this 2(2)] obtain s3 where 3: "fold_res (check_active env owner n) act s2 = Inr s3" "?I s3" by blast
  have "\<exists>e'. check_owner env owner n owner_approvals a e = Inr e' \<and> ?I e'" if a: "a \<in> set own" "?I e" for a e
  proof -
    obtain r e' where "check_authority env n (owner a) e = Inr (r, e')" "?I e'" "ok (owner a) \<longrightarrow> r"
      using runs [OF a(2), of "owner a"] by (auto simp: ran_def)
    then show ?thesis using a assms(7) sets by (auto simp: check_owner_def tx_error_def)
  qed
  from fold_res_runs [where f = "check_owner env owner n owner_approvals" and xs = own and I = ?I, OF this 3(2)] obtain s4 where 4: "fold_res (check_owner env owner n owner_approvals) own s3 = Inr s4" by blast
  show ?thesis
    unfolding verify_authority_def req Let_def env_def [symmetric] B s1_def [symmetric] prod.case
    using 2(1) 3(1) 4 assms(2) sets by (simp add: tx_error_def)
qed

subsection \<open>Examples\<close>

text \<open>Account 10 is controlled by key 1, or by key 2 together with account 11; account 11 by key 3.\<close>

definition demo_active :: "account_id_type \<Rightarrow> (nat, nat) authority option" where
  "demo_active a =
     (if a = 10 then Some \<lparr>weight_threshold = 2, account_auths = [(11, 1)], key_auths = [(1, 2), (2, 1)], address_auths = []\<rparr>
      else if a = 11 then Some \<lparr>weight_threshold = 1, account_auths = [], key_auths = [(3, 1)], address_auths = []\<rparr>
      else None)"

definition demo_op :: "(nat, nat) operation_auths" where
  "demo_op = \<lparr>fee_payer = 10, required_active_authorities = [], required_owner_authorities = [], required_authorities = []\<rparr>"

lemma demo_ran: "x \<in> ran demo_active \<union> ran (\<lambda>_. None) \<Longrightarrow> address_auths x = [] \<and> small x"
  by (auto simp: ran_def demo_active_def small_def split: if_splits)

lemma demo_needs: "needs_active [demo_op] = {10}" "needs_owner [demo_op] = {}" "needs_other [demo_op] = {}"
  by (auto simp: needs_active_def needs_owner_def needs_other_def demo_op_def)

lemma demo_verifies: "verify_authority [demo_op] [2, 3] demo_active (\<lambda>_. None) (\<lambda>_. []) GRAPHENE_MAX_SIG_CHECK_DEPTH False {} {} = Inr ()"
  by code_simp

lemma demo_satisfied:
  "satisfied_within demo_active (\<lambda>k. k \<in> set [1, 2]) (\<lambda>_. False) {GRAPHENE_TEMP_ACCOUNT} GRAPHENE_MAX_SIG_CHECK_DEPTH (the (demo_active 10))"
  by code_simp


theorem verify_authority_complete_witness:
  "verify_authority [demo_op] [1, 2] demo_active (\<lambda>_. None) (\<lambda>_. []) GRAPHENE_MAX_SIG_CHECK_DEPTH False {} {} \<in> {Inr (), Inl (Other_Exception ''tx_irrelevant_sig'')}"
proof (rule verify_authority_complete)
  show "\<forall>a\<in>needs_active [demo_op]. a \<in> {GRAPHENE_TEMP_ACCOUNT} \<union> {} \<union> {}
      \<or> (\<exists>x. demo_active a = Some x \<and> satisfied_within demo_active (\<lambda>k. k \<in> set [1, 2]) (\<lambda>_. False) ({GRAPHENE_TEMP_ACCOUNT} \<union> {} \<union> {}) GRAPHENE_MAX_SIG_CHECK_DEPTH x)
      \<or> (\<exists>x. None = Some x \<and> satisfied_within demo_active (\<lambda>k. k \<in> set [1, 2]) (\<lambda>_. False) ({GRAPHENE_TEMP_ACCOUNT} \<union> {} \<union> {}) GRAPHENE_MAX_SIG_CHECK_DEPTH x)"
    using demo_satisfied by (simp add: demo_needs demo_active_def)
qed (use demo_ran in \<open>auto simp: demo_needs GRAPHENE_COMMITTEE_ACCOUNT_def\<close>)

end
