(* ===== verification/Blocks.thy ===== *)
theory Blocks
  imports KHC_Prelude
begin

unbundle bit_operations_syntax

text \<open>
  Block headers, block ids and the Merkle root of a block: \<open>libraries/chain/protocol/block.cpp\<close> and
  \<open>block.hpp\<close>.

  A block id is the first 160 bits of a hash whose first 32-bit word is replaced by the number of
  the block in reversed byte order; \<open>hash0\<close> is that word and \<open>hash_rest\<close> the other 128 bits.  The
  hash functions and \<open>endian_reverse_u32\<close> belong to the \<open>fc\<close> library and are arguments; what is used
  of the latter, that reversing twice gives the word back, is the locale \<open>byte_order\<close>.
  What a header holds besides the fields used here (the Merkle root, the extensions, the signature
  and the transactions) is the field \<open>body\<close> of an arbitrary type.
\<close>

record block_id_type =
  hash0 :: u32
  hash_rest :: u128

definition null_block_id :: block_id_type where
  "null_block_id = \<lparr>hash0 = 0, hash_rest = 0\<rparr>"

record 'b signed_block =
  previous :: block_id_type
  timestamp :: nat
  block_witness :: nat
  body :: 'b

record 'b block_lib =
  endian_reverse_u32 :: "u32 \<Rightarrow> u32"
  sha224_hash :: "'b signed_block \<Rightarrow> block_id_type"

definition num_from_id :: "'b block_lib \<Rightarrow> block_id_type \<Rightarrow> u32" where
  "num_from_id L bid = endian_reverse_u32 L (hash0 bid)"

definition block_num :: "'b block_lib \<Rightarrow> 'b signed_block \<Rightarrow> u32" where
  "block_num L b = num_from_id L (previous b) + 1"

definition block_id :: "'b block_lib \<Rightarrow> 'b signed_block \<Rightarrow> block_id_type" where
  "block_id L b = (sha224_hash L b)\<lparr>hash0 := endian_reverse_u32 L (block_num L b)\<rparr>"

locale byte_order =
  fixes L :: "'b block_lib"
  assumes endian_involution: "endian_reverse_u32 L (endian_reverse_u32 L w) = w"
begin

text \<open>The number of a block can be read off its id.\<close>

lemma num_from_block_id [simp]: "num_from_id L (block_id L b) = block_num L b"
  by (simp add: num_from_id_def block_id_def endian_involution)

lemma block_num_of_child: "previous c = block_id L b \<Longrightarrow> block_num L c = block_num L b + 1"
  by (simp add: block_num_def [of L c])

end

text \<open>Reversal of the four bytes of a word satisfies the law.\<close>

definition reverse_bytes :: "u32 \<Rightarrow> u32" where
  "reverse_bytes w = push_bit 24 (take_bit 8 w) OR push_bit 16 (take_bit 8 (drop_bit 8 w))
     OR push_bit 8 (take_bit 8 (drop_bit 16 w)) OR drop_bit 24 w"

lemma bit_reverse_bytes: "n < 32 \<Longrightarrow> bit (reverse_bytes w) n =
    (if n < 8 then bit w (n + 24) else if n < 16 then bit w (n + 8) else if n < 24 then bit w (n - 8) else bit w (n - 24))"
  by (auto simp: reverse_bytes_def bit_simps add.commute dest: bit_imp_le_length)

lemma reverse_bytes_involution: "reverse_bytes (reverse_bytes w) = w"
  by (rule bit_word_eqI) (auto simp: bit_reverse_bytes)

definition demo_block_lib :: "nat block_lib" where
  "demo_block_lib = \<lparr>endian_reverse_u32 = reverse_bytes,
     sha224_hash = (\<lambda>b. \<lparr>hash0 = 0, hash_rest = of_nat (body b)\<rparr>)\<rparr>"

interpretation demo_blocks: byte_order demo_block_lib
  by unfold_locales (simp add: demo_block_lib_def reverse_bytes_involution)

subsection \<open>The Merkle root\<close>

text \<open>\<open>calculate_merkle_root\<close> hashes the digests in pairs, in place: \<open>ids[k++] = hash(ids[i], ids[i+1])\<close>.
  The hash of a pair, the final hash and the default checksum are arguments.\<close>

function merkle_row :: "('d \<Rightarrow> 'd \<Rightarrow> 'd) \<Rightarrow> nat \<Rightarrow> nat \<Rightarrow> nat \<Rightarrow> 'd list \<Rightarrow> nat \<times> 'd list" where
  "merkle_row hash_pair i_max i k ids =
     (if i < i_max then merkle_row hash_pair i_max (i + 2) (k + 1) (ids[k := hash_pair (ids ! i) (ids ! (i + 1))])
      else (k, ids))"
  by pat_completeness auto
termination by (relation "measure (\<lambda>(_, i_max, i, _, _). i_max - i)") auto

declare merkle_row.simps [simp del]

definition merkle_level :: "('d \<Rightarrow> 'd \<Rightarrow> 'd) \<Rightarrow> nat \<Rightarrow> 'd list \<Rightarrow> nat \<times> 'd list" where
  "merkle_level hash_pair n ids =
     (let i_max = n - n mod 2; (k, ids1) = merkle_row hash_pair i_max 0 0 ids in
      if n mod 2 = 1 then (k + 1, ids1[k := ids1 ! i_max]) else (k, ids1))"

lemma merkle_row_count: "fst (merkle_row h m i k ids) = k + (m - i + 1) div 2"
proof (induction h m i k ids rule: merkle_row.induct)
  case (1 h m i k ids)
  show ?case
  proof (cases "i < m")
    case True
    then have "fst (merkle_row h m i k ids) = (k + 1) + (m - (i + 2) + 1) div 2"
      using 1 by (simp add: merkle_row.simps [of h m i])
    also have "\<dots> = k + (m - i + 1) div 2" using True by (cases "m = i + 1") auto
    finally show ?thesis .
  qed (simp add: merkle_row.simps)
qed

lemma merkle_level_count: "fst (merkle_level h n ids) = (n + 1) div 2"
  using merkle_row_count [of h "n - n mod 2" 0 0 ids]
  by (auto simp: merkle_level_def Let_def split: prod.splits)

function merkle_loop :: "('d \<Rightarrow> 'd \<Rightarrow> 'd) \<Rightarrow> nat \<Rightarrow> 'd list \<Rightarrow> 'd list" where
  "merkle_loop hash_pair n ids =
     (if n > 1 then (case merkle_level hash_pair n ids of (k, ids') \<Rightarrow> merkle_loop hash_pair k ids') else ids)"
  by pat_completeness auto
termination
proof (relation "measure (\<lambda>(_, n, _). n)", goal_cases)
  case (2 h n ids k ids')
  then show ?case using merkle_level_count [of h n ids] by (cases "merkle_level h n ids") simp
qed simp

declare merkle_loop.simps [simp del]

definition calculate_merkle_root :: "('d \<Rightarrow> 'd \<Rightarrow> 'd) \<Rightarrow> ('d \<Rightarrow> 'c) \<Rightarrow> 'c \<Rightarrow> ('t \<Rightarrow> 'd) \<Rightarrow> 't list \<Rightarrow> 'c" where
  "calculate_merkle_root hash_pair checksum default_checksum merkle_digest transactions =
     (if length transactions = 0 then default_checksum
      else let ids = map merkle_digest transactions in
           checksum (merkle_loop hash_pair (length ids) ids ! 0))"

text \<open>The reference: a new list for every level of the tree, an odd last digest moves up unchanged.\<close>

fun pair_up :: "('d \<Rightarrow> 'd \<Rightarrow> 'd) \<Rightarrow> 'd list \<Rightarrow> 'd list" where
  "pair_up h (x # y # zs) = h x y # pair_up h zs"
| "pair_up h xs = xs"

lemma length_pair_up: "length (pair_up h xs) = (length xs + 1) div 2"
  by (induction h xs rule: pair_up.induct) auto

function merkle_tree :: "('d \<Rightarrow> 'd \<Rightarrow> 'd) \<Rightarrow> 'd list \<Rightarrow> 'd" where
  "merkle_tree h xs = (if length xs > 1 then merkle_tree h (pair_up h xs) else hd xs)"
  by pat_completeness auto
termination by (relation "measure (\<lambda>(h, xs). length xs)") (auto simp: length_pair_up)

declare merkle_tree.simps [simp del]

lemma pair_up_append: "even (length xs) \<Longrightarrow> pair_up h (xs @ ys) = pair_up h xs @ pair_up h ys"
  by (induction h xs rule: pair_up.induct) auto

lemma merkle_row_pairs:
  assumes "i = 2 * k" "i \<le> m" "even m" "m \<le> length ids"
  shows "take (m div 2) (snd (merkle_row h m i k ids)) = take k ids @ pair_up h (drop i (take m ids))
    \<and> drop m (snd (merkle_row h m i k ids)) = drop m ids \<and> length (snd (merkle_row h m i k ids)) = length ids"
  using assms
proof (induction h m i k ids rule: merkle_row.induct)
  case (1 h m i k ids)
  show ?case
  proof (cases "i < m")
    case True
    then have i2: "i + 2 \<le> m" using 1(2,4) by presburger
    let ?ids = "ids[k := h (ids ! i) (ids ! (i + 1))]"
    have "drop i (take m ids) = ids ! i # ids ! (i + 1) # drop (i + 2) (take m ids)"
    proof -
      have len: "i + 1 < length (take m ids)" using i2 1(5) by simp
      have "drop i (take m ids) = take m ids ! i # take m ids ! (i + 1) # drop (i + 2) (take m ids)"
        using Cons_nth_drop_Suc [of i "take m ids"] Cons_nth_drop_Suc [of "i + 1" "take m ids"] len by simp
      then show ?thesis using i2 by simp
    qed
    moreover have "drop (i + 2) (take m ?ids) = drop (i + 2) (take m ids)"
      using 1(2) by (simp add: take_update_swap drop_update_cancel)
    moreover have "take (k + 1) ?ids = take k ids @ [h (ids ! i) (ids ! (i + 1))]"
      using 1(2,3,5) True by (simp add: take_Suc_conv_app_nth)
    moreover have "drop m ?ids = drop m ids" using 1(2) True by (simp add: drop_update_cancel)
    ultimately show ?thesis
      using 1(1) [OF True] 1(2-5) i2 True by (simp add: merkle_row.simps [of h m "2 * k"])
  next
    case False
    then have "k = m div 2" "i = m" using 1(2,3) by auto
    then show ?thesis by (simp add: merkle_row.simps)
  qed
qed

lemma merkle_level_pairs:
  assumes "n \<le> length ids" "merkle_level h n ids = (k, ids')"
  shows "take k ids' = pair_up h (take n ids) \<and> k \<le> length ids'"
proof -
  let ?m = "n - n mod 2"
  have m: "even ?m" "?m \<le> length ids" using assms(1) by (auto simp: minus_mod_eq_mult_div)
  obtain k1 ids1 where r: "merkle_row h ?m 0 0 ids = (k1, ids1)" by fastforce
  have k1: "k1 = ?m div 2" using merkle_row_count [of h ?m 0 0 ids] m(1) r by (simp add: even_add)
  have row: "take k1 ids1 = pair_up h (take ?m ids)" "drop ?m ids1 = drop ?m ids" "length ids1 = length ids"
    using merkle_row_pairs [of 0 0 ?m ids h] m r k1 by auto
  show ?thesis
  proof (cases "n mod 2 = 1")
    case True
    then have n: "n = ?m + 1" by presburger
    then have last: "take n ids = take ?m ids @ [ids ! ?m]" using assms(1) by (metis add.commute plus_1_eq_Suc take_Suc_conv_app_nth Suc_le_eq)
    have "ids1 ! ?m = ids ! ?m" using row(2,3) n assms(1) by (metis Suc_le_eq add.commute hd_drop_conv_nth plus_1_eq_Suc)
    moreover have "even (length (take ?m ids))" using m by simp
    ultimately have "pair_up h (take n ids) = take k1 ids1 @ [ids ! ?m]"
      using pair_up_append [of "take ?m ids" h "[ids ! ?m]"] last row(1) by simp
    moreover have "k = k1 + 1" "ids' = ids1[k1 := ids1 ! ?m]" using assms(2) r True by (simp_all add: merkle_level_def)
    moreover have "k1 < length ids1" using k1 row(3) n assms(1) by linarith
    ultimately show ?thesis using \<open>ids1 ! ?m = ids ! ?m\<close> row(1) by (simp add: take_Suc_conv_app_nth)
  next
    case False
    then have "?m = n" by simp
    then show ?thesis using False assms r row k1 by (auto simp: merkle_level_def)
  qed
qed

lemma merkle_loop_tree:
  assumes "0 < n" "n \<le> length ids"
  shows "merkle_loop h n ids ! 0 = merkle_tree h (take n ids)"
  using assms
proof (induction h n ids rule: merkle_loop.induct)
  case (1 h n ids)
  show ?case
  proof (cases "n > 1")
    case True
    obtain k ids' where lv: "merkle_level h n ids = (k, ids')" by fastforce
    have k: "k = (n + 1) div 2" using merkle_level_count [of h n ids] lv by simp
    note pairs = merkle_level_pairs [OF 1(3) lv]
    have "merkle_loop h k ids' ! 0 = merkle_tree h (take k ids')"
      using 1(1) [OF True lv [symmetric]] k pairs True by simp
    then show ?thesis using True pairs 1(3) lv
      by (simp add: merkle_loop.simps [of h n] merkle_tree.simps [of h "take n ids"])
  next
    case False
    then have "n = 1" "ids \<noteq> []" using 1(2,3) by auto
    then show ?thesis by (simp add: merkle_loop.simps merkle_tree.simps hd_conv_nth)
  qed
qed

text \<open>C28: The in-place computation of \<open>calculate_merkle_root\<close> returns for every list of transactions and
  gives the root of the binary hash tree over their digests: the checksum of the value obtained by
  hashing neighbours level by level, where an odd last digest moves up unchanged; a block without
  transactions has the default checksum.\<close>

theorem merkle_root_is_tree:
  "calculate_merkle_root h checksum default_checksum digest txs =
     (if txs = [] then default_checksum else checksum (merkle_tree h (map digest txs)))"
  using merkle_loop_tree [of "length txs" "map digest txs" h] by (simp add: calculate_merkle_root_def Let_def)

end
