(* ===== verification/Fork_DB.thy ===== *)
theory Fork_DB
  imports Blocks
begin

text \<open>
  The fork database: \<open>libraries/chain/fork_database.cpp\<close>, \<open>fork_database.hpp\<close>.  It keeps the
  recent blocks of all forks as a tree whose nodes point to their parent, the head being the block
  with the highest number seen so far.

  Nodes are shared objects: a node has an address, \<open>heap\<close> maps addresses to nodes, and the
  containers hold addresses.  \<open>prev\<close> is a weak pointer: \<open>lock\<close> yields the parent only while a
  shared pointer to it exists, that is while it is in one of the two containers, is the head, or is
  referenced by a caller (\<open>pinned\<close>).  The containers list their nodes in the order of insertion; a
  node whose id is present already is not inserted (\<open>hashed_unique\<close>).
\<close>

record 'b fork_item =
  fi_num :: u32
  fi_id :: block_id_type
  fi_data :: "'b signed_block"
  fi_prev :: "nat option"

record 'b fork_db =
  heap :: "nat \<rightharpoonup> 'b fork_item"
  next_addr :: nat
  fdb_index :: "nat list"
  unlinked_index :: "nat list"
  fdb_head :: "nat option"
  fdb_max_size :: u32
  pinned :: "nat set"

definition fork_item_of :: "'b block_lib \<Rightarrow> 'b signed_block \<Rightarrow> 'b fork_item" where
  "fork_item_of L b = \<lparr>fi_num = block_num L b, fi_id = block_id L b, fi_data = b, fi_prev = None\<rparr>"

definition node :: "'b fork_db \<Rightarrow> nat \<Rightarrow> 'b fork_item" where
  "node s a = the (heap s a)"

definition alive :: "'b fork_db \<Rightarrow> nat \<Rightarrow> bool" where
  "alive s a \<longleftrightarrow> a \<in> set (fdb_index s) \<or> a \<in> set (unlinked_index s) \<or> fdb_head s = Some a \<or> a \<in> pinned s"

definition lock_prev :: "'b fork_db \<Rightarrow> nat \<Rightarrow> nat option" where
  "lock_prev s a = (case fi_prev (node s a) of None \<Rightarrow> None | Some p \<Rightarrow> if alive s p then Some p else None)"

definition find_id :: "'b fork_db \<Rightarrow> nat list \<Rightarrow> block_id_type \<Rightarrow> nat option" where
  "find_id s idx bid = List.find (\<lambda>a. fi_id (node s a) = bid) idx"

definition insert_item :: "'b fork_db \<Rightarrow> nat list \<Rightarrow> nat \<Rightarrow> nat list" where
  "insert_item s idx a = (if find_id s idx (fi_id (node s a)) = None then idx @ [a] else idx)"

definition fdb_init :: "'b fork_db" where
  "fdb_init = \<lparr>heap = Map.empty, next_addr = 0, fdb_index = [], unlinked_index = [], fdb_head = None,
     fdb_max_size = 1024, pinned = {}\<rparr>"

definition reset :: "'b fork_db \<Rightarrow> 'b fork_db" where
  "reset s = s\<lparr>fdb_head := None, fdb_index := []\<rparr>"

definition pop_block :: "'b fork_db \<Rightarrow> 'b fork_db result" where
  "pop_block s =
     (case fdb_head s of
        None \<Rightarrow> Inl (Assert_Exception ''no blocks to pop'')
      | Some h \<Rightarrow>
          (case lock_prev s h of
             None \<Rightarrow> Inl (Assert_Exception ''poping block would leave head block null'')
           | Some p \<Rightarrow> Inr (s\<lparr>fdb_head := Some p\<rparr>)))"

text \<open>\<open>make_shared\<close>: a new node at a fresh address.\<close>

definition new_item :: "'b fork_item \<Rightarrow> 'b fork_db \<Rightarrow> nat \<times> 'b fork_db" where
  "new_item it s = (next_addr s, s\<lparr>heap := (heap s)(next_addr s \<mapsto> it), next_addr := next_addr s + 1\<rparr>)"

definition start_block :: "'b block_lib \<Rightarrow> 'b signed_block \<Rightarrow> 'b fork_db \<Rightarrow> 'b fork_db" where
  "start_block L b s =
     (let (a, s1) = new_item (fork_item_of L b) s in
      s1\<lparr>fdb_index := insert_item s1 (fdb_index s1) a, fdb_head := Some a\<rparr>)"

text \<open>\<open>item->num > std::max<int64_t>(0, int64_t(_head->num) - _max_size)\<close>, in 64-bit signed
  arithmetic, which is exact on 32-bit operands.\<close>

definition too_old_bound :: "'b fork_db \<Rightarrow> nat \<Rightarrow> int" where
  "too_old_bound s h = max 0 (uint (fi_num (node s h)) - uint (fdb_max_size s))"

definition drop_below :: "'b fork_db \<Rightarrow> int \<Rightarrow> nat list \<Rightarrow> nat list" where
  "drop_below s n idx = filter (\<lambda>a. \<not> uint (fi_num (node s a)) < n) idx"

text \<open>\<open>_push_block\<close> in its two halves: linking the item to its parent, and storing it.\<close>

definition link_item :: "nat \<Rightarrow> 'b fork_db \<Rightarrow> 'b fork_db result" where
  "link_item a s =
     (if fdb_head s \<noteq> None \<and> previous (fi_data (node s a)) \<noteq> null_block_id then
        (case find_id s (fdb_index s) (previous (fi_data (node s a))) of
           None \<Rightarrow> Inl (Other_Exception ''unlinkable_block_exception'')
         | Some p \<Rightarrow> Inr (s\<lparr>heap := (heap s)(a \<mapsto> (node s a)\<lparr>fi_prev := Some p\<rparr>)\<rparr>))
      else Inr s)"

definition store_item :: "nat \<Rightarrow> 'b fork_db \<Rightarrow> 'b fork_db" where
  "store_item a s =
     (let idx = insert_item s (fdb_index s) a in
      case fdb_head s of
        None \<Rightarrow> s\<lparr>fdb_index := idx, fdb_head := Some a\<rparr>
      | Some h \<Rightarrow>
          if fi_num (node s a) > fi_num (node s h) then
            let num = fi_num (node s a);
                min_num = num - min (fdb_max_size s) num in
            s\<lparr>fdb_index := drop_below s (uint min_num) idx, fdb_head := Some a,
               unlinked_index := filter (\<lambda>x. fi_num (node s x) \<noteq> num - fdb_max_size s) (unlinked_index s)\<rparr>
          else s\<lparr>fdb_index := idx\<rparr>)"

definition push_item :: "nat \<Rightarrow> 'b fork_db \<Rightarrow> 'b fork_db result" where
  "push_item a s =
     require (case fdb_head s of None \<Rightarrow> True | Some h \<Rightarrow> uint (fi_num (node s a)) > too_old_bound s h)
       ''attempting to push a block that is too old''
    (bind_res (link_item a s) (\<lambda>s1. Inr (store_item a s1)))"

text \<open>\<open>push_block\<close>: an unlinkable block is logged and the exception rethrown before the item could be
  stored in the unlinked index; after a success the new head is returned.\<close>

definition push_block :: "'b block_lib \<Rightarrow> 'b signed_block \<Rightarrow> 'b fork_db \<Rightarrow> (nat option \<times> 'b fork_db) result" where
  "push_block L b s =
     (let (a, s1) = new_item (fork_item_of L b) s in
      bind_res (push_item a s1) (\<lambda>s2. Inr (fdb_head s2, s2)))"

definition set_max_size :: "u32 \<Rightarrow> 'b fork_db \<Rightarrow> 'b fork_db" where
  "set_max_size n s =
     (let s1 = s\<lparr>fdb_max_size := n\<rparr> in
      case fdb_head s1 of
        None \<Rightarrow> s1
      | Some h \<Rightarrow> s1\<lparr>fdb_index := drop_below s1 (too_old_bound s1 h) (fdb_index s1),
                     unlinked_index := drop_below s1 (too_old_bound s1 h) (unlinked_index s1)\<rparr>)"

definition is_known_block :: "'b fork_db \<Rightarrow> block_id_type \<Rightarrow> bool" where
  "is_known_block s bid \<longleftrightarrow> find_id s (fdb_index s) bid \<noteq> None \<or> find_id s (unlinked_index s) bid \<noteq> None"

definition fetch_block :: "'b fork_db \<Rightarrow> block_id_type \<Rightarrow> nat option" where
  "fetch_block s bid =
     (case find_id s (fdb_index s) bid of Some a \<Rightarrow> Some a | None \<Rightarrow> find_id s (unlinked_index s) bid)"

definition fetch_block_by_number :: "'b fork_db \<Rightarrow> u32 \<Rightarrow> nat list" where
  "fetch_block_by_number s n = filter (\<lambda>a. fi_num (node s a) = n) (fdb_index s)"

definition set_head :: "nat option \<Rightarrow> 'b fork_db \<Rightarrow> 'b fork_db" where
  "set_head h s = s\<lparr>fdb_head := h\<rparr>"

definition fdb_remove :: "block_id_type \<Rightarrow> 'b fork_db \<Rightarrow> 'b fork_db" where
  "fdb_remove bid s = s\<lparr>fdb_index := filter (\<lambda>a. fi_id (node s a) \<noteq> bid) (fdb_index s)\<rparr>"

subsection \<open>Branches\<close>

text \<open>\<open>fetch_branch_from\<close>.  The loops follow parent pointers; \<open>None\<close> would be a loop that does not
  end.\<close>

partial_function (option) walk_down :: "'b block_lib \<Rightarrow> 'b fork_db \<Rightarrow> u32 \<Rightarrow> nat \<Rightarrow> nat list \<Rightarrow> (nat \<times> nat list) result option" where
  "walk_down L s n a acc =
     (if block_num L (fi_data (node s a)) > n then
        (case lock_prev s a of
           None \<Rightarrow> Some (Inl (Assert_Exception ''first_branch''))
         | Some p \<Rightarrow> walk_down L s n p (acc @ [a]))
      else Some (Inr (a, acc)))"

partial_function (option) walk_both :: "'b fork_db \<Rightarrow> nat \<Rightarrow> nat \<Rightarrow> nat list \<Rightarrow> nat list \<Rightarrow> (nat list \<times> nat list) result option" where
  "walk_both s a b acc1 acc2 =
     (if previous (fi_data (node s a)) \<noteq> previous (fi_data (node s b)) then
        (case lock_prev s a of
           None \<Rightarrow> Some (Inl (Assert_Exception ''first_branch''))
         | Some p \<Rightarrow>
             (case lock_prev s b of
                None \<Rightarrow> Some (Inl (Assert_Exception ''second_branch''))
              | Some q \<Rightarrow> walk_both s p q (acc1 @ [a]) (acc2 @ [b])))
      else Some (Inr (acc1 @ [a], acc2 @ [b])))"

definition fetch_branch_from :: "'b block_lib \<Rightarrow> 'b fork_db \<Rightarrow> block_id_type \<Rightarrow> block_id_type
    \<Rightarrow> (nat list \<times> nat list) result option" where
  "fetch_branch_from L s first second =
     (case find_id s (fdb_index s) first of
        None \<Rightarrow> Some (Inl (Assert_Exception ''first_branch_itr''))
      | Some a \<Rightarrow>
          (case find_id s (fdb_index s) second of
             None \<Rightarrow> Some (Inl (Assert_Exception ''second_branch_itr''))
           | Some b \<Rightarrow>
               Option.bind (walk_down L s (block_num L (fi_data (node s b))) a []) (\<lambda>r1.
                 case r1 of Inl e \<Rightarrow> Some (Inl e)
                 | Inr (a', acc1) \<Rightarrow>
                     Option.bind (walk_down L s (block_num L (fi_data (node s a'))) b []) (\<lambda>r2.
                       case r2 of Inl e \<Rightarrow> Some (Inl e)
                       | Inr (b', acc2) \<Rightarrow> walk_both s a' b' acc1 acc2))))"

subsection \<open>The invariant\<close>

text \<open>Every node carries the number and the id of its block, a parent is older than its child and has
  the id the child names, and the containers hold nodes with distinct ids.\<close>

definition item_ok :: "'b block_lib \<Rightarrow> 'b fork_db \<Rightarrow> nat \<Rightarrow> 'b fork_item \<Rightarrow> bool" where
  "item_ok L s a it \<longleftrightarrow> a < next_addr s \<and> fi_num it = block_num L (fi_data it) \<and> fi_id it = block_id L (fi_data it)
     \<and> (\<forall>p. fi_prev it = Some p \<longrightarrow> p < a \<and> 0 < fi_num it
          \<and> (\<exists>q. heap s p = Some q \<and> fi_id q = previous (fi_data it)))"

definition fork_wf :: "'b block_lib \<Rightarrow> 'b fork_db \<Rightarrow> bool" where
  "fork_wf L s \<longleftrightarrow> (\<forall>a it. heap s a = Some it \<longrightarrow> item_ok L s a it)
     \<and> set (fdb_index s) \<subseteq> dom (heap s) \<and> (\<forall>h. fdb_head s = Some h \<longrightarrow> h \<in> dom (heap s))
     \<and> distinct (map (\<lambda>a. fi_id (node s a)) (fdb_index s))"

lemma fork_wf_item: "fork_wf L s \<Longrightarrow> heap s a = Some it \<Longrightarrow> item_ok L s a it"
  by (simp add: fork_wf_def)

lemma find_id_Some: "find_id s idx bid = Some a \<Longrightarrow> a \<in> set idx \<and> fi_id (node s a) = bid"
  by (auto simp: find_id_def find_Some_iff)

lemma find_id_None: "find_id s idx bid = None \<longleftrightarrow> (\<forall>a\<in>set idx. fi_id (node s a) \<noteq> bid)"
  by (auto simp: find_id_def find_None_iff)

lemma set_insert_item: "set (insert_item s idx a) \<subseteq> insert a (set idx)"
  by (auto simp: insert_item_def)

lemma distinct_insert_item:
  "distinct (map (\<lambda>a. fi_id (node s a)) idx) \<Longrightarrow> distinct (map (\<lambda>a. fi_id (node s a)) (insert_item s idx a))"
  by (auto simp: insert_item_def find_id_None)

lemma distinct_map_filter: "distinct (map f xs) \<Longrightarrow> distinct (map f (filter P xs))"
  by (induction xs) auto

lemma node_cong: "heap s' = heap s \<Longrightarrow> node s' = node s"
  by (simp add: node_def fun_eq_iff)

lemma item_ok_cong: "heap s' = heap s \<Longrightarrow> next_addr s' = next_addr s \<Longrightarrow> item_ok L s' = item_ok L s"
  by (simp add: item_ok_def fun_eq_iff)

text \<open>Changes of the containers keep the invariant when they only drop nodes.\<close>

lemma fork_wf_containers:
  assumes "fork_wf L s" "set idx \<subseteq> dom (heap s)" "distinct (map (\<lambda>a. fi_id (node s a)) idx)"
    and "\<And>h. hd' = Some h \<Longrightarrow> h \<in> dom (heap s)"
  shows "fork_wf L (s\<lparr>fdb_index := idx, unlinked_index := u, fdb_head := hd', fdb_max_size := n, pinned := ps\<rparr>)"
    (is "fork_wf L ?s")
proof -
  have "node ?s = node s" by (rule node_cong) simp
  moreover have "item_ok L ?s = item_ok L s" by (rule item_ok_cong) simp_all
  ultimately show ?thesis using assms unfolding fork_wf_def by simp
qed

lemma fork_wf_new_item:
  assumes "fork_wf L s" "new_item (fork_item_of L b) s = (a, s1)"
  shows "fork_wf L s1" "a = next_addr s" "node s1 a = fork_item_of L b" "a \<in> dom (heap s1)" "fdb_index s1 = fdb_index s"
    "fdb_head s1 = fdb_head s" "fdb_max_size s1 = fdb_max_size s" "next_addr s1 = a + 1" "\<And>x. x \<in> dom (heap s) \<Longrightarrow> node s1 x = node s x"
    "heap s a = None" "pinned s1 = pinned s" "unlinked_index s1 = unlinked_index s" "dom (heap s1) = insert a (dom (heap s))"
proof -
  have a: "a = next_addr s" and s1: "s1 = s\<lparr>heap := (heap s)(a \<mapsto> fork_item_of L b), next_addr := a + 1\<rparr>"
    using assms(2) by (auto simp: new_item_def)
  have fresh: "heap s a = None" using fork_wf_item [OF assms(1), of a] by (cases "heap s a") (auto simp: item_ok_def a)
  have old: "x \<in> dom (heap s) \<Longrightarrow> node s1 x = node s x" for x using fresh by (auto simp: s1 node_def)
  have "item_ok L s1 x it" if "heap s1 x = Some it" for x it
  proof (cases "x = a")
    case True
    with that show ?thesis by (auto simp: s1 item_ok_def fork_item_of_def)
  next
    case False
    with that have "item_ok L s x it" using fork_wf_item [OF assms(1)] by (simp add: s1)
    then show ?thesis using fresh by (auto simp: item_ok_def s1 a)
  qed
  moreover have "map (\<lambda>x. fi_id (node s1 x)) (fdb_index s) = map (\<lambda>x. fi_id (node s x)) (fdb_index s)"
  proof (rule map_cong [OF refl])
    fix x assume "x \<in> set (fdb_index s)"
    then have "x \<in> dom (heap s)" using assms(1) by (auto simp: fork_wf_def)
    then show "fi_id (node s1 x) = fi_id (node s x)" by (simp add: old)
  qed
  moreover have "distinct (map (\<lambda>x. fi_id (node s x)) (fdb_index s))" using assms(1) by (simp add: fork_wf_def)
  moreover have "set (fdb_index s) \<subseteq> dom (heap s1)" "\<And>h. fdb_head s = Some h \<Longrightarrow> h \<in> dom (heap s1)"
    "fdb_index s1 = fdb_index s" "fdb_head s1 = fdb_head s"
    using assms(1) by (auto simp: fork_wf_def s1)
  ultimately show "fork_wf L s1" by (simp add: fork_wf_def del: map_eq_conv)
  show "a = next_addr s" "node s1 a = fork_item_of L b" "a \<in> dom (heap s1)" "fdb_index s1 = fdb_index s"
    "fdb_head s1 = fdb_head s" "fdb_max_size s1 = fdb_max_size s" "next_addr s1 = a + 1" "\<And>x. x \<in> dom (heap s) \<Longrightarrow> node s1 x = node s x"
    "heap s a = None" "pinned s1 = pinned s" "unlinked_index s1 = unlinked_index s" "dom (heap s1) = insert a (dom (heap s))"
    using a fresh old by (auto simp: s1 node_def)
qed

text \<open>Linking the newest node to its parent.\<close>

lemma fork_wf_link:
  assumes "fork_wf L s" "heap s a = Some it" "fi_prev it = None" "heap s p = Some q" "p < a" "0 < fi_num it"
    and "fi_id q = previous (fi_data it)"
  shows "fork_wf L (s\<lparr>heap := (heap s)(a \<mapsto> it\<lparr>fi_prev := Some p\<rparr>)\<rparr>)" (is "fork_wf L ?s")
proof -
  have ids: "fi_id (node ?s x) = fi_id (node s x)" for x using assms(2) by (simp add: node_def)
  have "item_ok L ?s x jt" if "heap ?s x = Some jt" for x jt
  proof (cases "x = a")
    case True
    with that have "jt = it\<lparr>fi_prev := Some p\<rparr>" by simp
    then show ?thesis using fork_wf_item [OF assms(1,2)] True assms(4-7) by (auto simp: item_ok_def)
  next
    case False
    with that have "item_ok L s x jt" using fork_wf_item [OF assms(1)] by simp
    then show ?thesis using assms(2) by (auto simp: item_ok_def)
  qed
  moreover have "map (\<lambda>x. fi_id (node ?s x)) (fdb_index s) = map (\<lambda>x. fi_id (node s x)) (fdb_index s)"
    using ids by simp
  ultimately show ?thesis using assms(1) by (simp add: fork_wf_def del: fun_upd_apply map_eq_conv) auto
qed

subsection \<open>Operations keep the invariant\<close>

lemma store_item_frame:
  "store_item a s = s\<lparr>fdb_index := fdb_index (store_item a s), unlinked_index := unlinked_index (store_item a s),
     fdb_head := fdb_head (store_item a s)\<rparr>"
  by (cases s) (auto simp: store_item_def Let_def split: option.splits)

lemma store_item_head:
  "fdb_head (store_item a s) = (case fdb_head s of None \<Rightarrow> Some a
     | Some h \<Rightarrow> if fi_num (node s h) < fi_num (node s a) then Some a else Some h)"
  by (auto simp: store_item_def Let_def split: option.splits)

lemma store_item_index:
  "\<exists>n. fdb_index (store_item a s) = drop_below s n (insert_item s (fdb_index s) a) \<and> n \<le> uint (fi_num (node s a))"
proof -
  have "drop_below s 0 idx = idx" for idx by (simp add: drop_below_def)
  then have all: "idx = drop_below s 0 idx \<and> (0 :: int) \<le> uint w" for idx and w :: u32 by simp
  have "uint (num - min m num) \<le> uint num" for num m :: u32
    by (simp add: word_le_def [symmetric] word_sub_le)
  with all show ?thesis
    by (auto simp: store_item_def Let_def split: option.splits)
qed

lemma set_drop_below: "set (drop_below s n idx) \<subseteq> set idx"
  by (auto simp: drop_below_def)

lemma fork_wf_store_item:
  assumes "fork_wf L s" "a \<in> dom (heap s)"
  shows "fork_wf L (store_item a s)"
proof -
  obtain n where idx: "fdb_index (store_item a s) = drop_below s n (insert_item s (fdb_index s) a)"
    using store_item_index [of a s] by blast
  have "set (fdb_index (store_item a s)) \<subseteq> dom (heap s)"
    using set_drop_below [of s n] set_insert_item [of s "fdb_index s" a] assms by (fastforce simp: idx fork_wf_def)
  moreover have "distinct (map (\<lambda>a. fi_id (node s a)) (fdb_index (store_item a s)))"
    using assms(1) distinct_insert_item [of s "fdb_index s" a]
    by (auto simp: idx drop_below_def fork_wf_def intro: distinct_map_filter)
  moreover have "\<And>h. fdb_head (store_item a s) = Some h \<Longrightarrow> h \<in> dom (heap s)"
    using assms by (auto simp: store_item_head fork_wf_def split: option.splits if_splits)
  ultimately have "fork_wf L (s\<lparr>fdb_index := fdb_index (store_item a s), unlinked_index := unlinked_index (store_item a s),
     fdb_head := fdb_head (store_item a s), fdb_max_size := fdb_max_size s, pinned := pinned s\<rparr>)"
    by (intro fork_wf_containers [OF assms(1)]) auto
  then show ?thesis by (subst store_item_frame) simp
qed

lemma push_block_cases:
  assumes "push_block L b s = Inr (hd', s')" "fork_wf L s"
  obtains s1 s2 where "new_item (fork_item_of L b) s = (next_addr s, s1)" "link_item (next_addr s) s1 = Inr s2"
    "s' = store_item (next_addr s) s2" "hd' = fdb_head s'" "fork_wf L s2"
    "\<And>h. fdb_head s = Some h \<Longrightarrow> too_old_bound s h < uint (block_num L b)"
    "\<And>x. x \<in> dom (heap s) \<Longrightarrow> node s2 x = node s x"
    "node s2 (next_addr s) = (fork_item_of L b)\<lparr>fi_prev := (if fdb_head s \<noteq> None \<and> previous b \<noteq> null_block_id
       then find_id s (fdb_index s) (previous b) else None)\<rparr>"
    "fdb_head s2 = fdb_head s" "fdb_index s2 = fdb_index s" "fdb_max_size s2 = fdb_max_size s"
    "dom (heap s2) = insert (next_addr s) (dom (heap s))"
    "fdb_head s \<noteq> None \<Longrightarrow> previous b \<noteq> null_block_id \<Longrightarrow> find_id s (fdb_index s) (previous b) \<noteq> None"
proof -
  let ?a = "next_addr s"
  obtain s1 where s1: "new_item (fork_item_of L b) s = (?a, s1)" by (simp add: new_item_def)
  note new = fork_wf_new_item [OF assms(2) s1]
  from assms(1) s1 obtain s2 where s2: "link_item ?a s1 = Inr s2" "s' = store_item ?a s2" "hd' = fdb_head s'"
    and old: "case fdb_head s1 of None \<Rightarrow> True | Some h \<Rightarrow> uint (fi_num (node s1 ?a)) > too_old_bound s1 h"
    by (auto simp: push_block_def push_item_def)
  have same: "x \<in> set (fdb_index s) \<Longrightarrow> node s1 x = node s x" for x
    using new(9) assms(2) unfolding fork_wf_def by blast
  have find: "find_id s1 (fdb_index s) bid = find_id s (fdb_index s) bid" for bid
    unfolding find_id_def by (rule find_cong) (simp_all add: same)
  have bound: "too_old_bound s1 h = too_old_bound s h" if "fdb_head s = Some h" for h
    using new(7,9) assms(2) that by (auto simp: too_old_bound_def fork_wf_def)
  have c1: "\<And>h. fdb_head s = Some h \<Longrightarrow> too_old_bound s h < uint (block_num L b)"
    using old bound new(3,6) by (auto simp: fork_item_of_def)
  have "fork_wf L s2 \<and> (\<forall>x\<in>dom (heap s). node s2 x = node s x)
    \<and> node s2 ?a = (fork_item_of L b)\<lparr>fi_prev := (if fdb_head s \<noteq> None \<and> previous b \<noteq> null_block_id
       then find_id s (fdb_index s) (previous b) else None)\<rparr>
    \<and> fdb_head s2 = fdb_head s \<and> fdb_index s2 = fdb_index s \<and> fdb_max_size s2 = fdb_max_size s
    \<and> dom (heap s2) = insert ?a (dom (heap s))
    \<and> (fdb_head s \<noteq> None \<longrightarrow> previous b \<noteq> null_block_id \<longrightarrow> find_id s (fdb_index s) (previous b) \<noteq> None)"
  proof (cases "fdb_head s \<noteq> None \<and> previous b \<noteq> null_block_id")
    case False
    then have "s2 = s1" using s2(1) new(3,6) by (auto simp: link_item_def fork_item_of_def)
    then show ?thesis using False new by (auto simp: fork_item_of_def)
  next
    case True
    then obtain p where p: "find_id s (fdb_index s) (previous b) = Some p"
      and s2': "s2 = s1\<lparr>heap := (heap s1)(?a \<mapsto> (fork_item_of L b)\<lparr>fi_prev := Some p\<rparr>)\<rparr>"
      using s2(1) new(3,5,6) find by (auto simp: link_item_def fork_item_of_def split: option.splits)
    have pin: "p \<in> dom (heap s)" "fi_id (node s p) = previous b"
      using find_id_Some [OF p] assms(2) by (auto simp: fork_wf_def)
    then obtain q where q: "heap s1 p = Some q" "fi_id q = previous b" using new(9) [OF pin(1)] new(13)
      by (metis domD insertI2 node_def option.sel)
    have lt: "p < ?a" using fork_wf_item [OF assms(2)] pin(1) by (auto simp: item_ok_def)
    have pos: "0 < fi_num (fork_item_of L b)"
    proof -
      obtain h where "fdb_head s = Some h" using True by blast
      from c1 [OF this] have "0 < uint (block_num L b)" by (simp add: too_old_bound_def)
      then show ?thesis by (simp add: fork_item_of_def word_less_def)
    qed
    have "heap s1 ?a = Some (fork_item_of L b)" using new(3,4) by (auto simp: node_def)
    then have "fork_wf L s2" unfolding s2'
      by (rule fork_wf_link [OF new(1) _ _ q(1) lt pos]) (simp_all add: fork_item_of_def q(2))
    moreover have "\<forall>x\<in>dom (heap s). node s2 x = node s x" using new(9,10) by (auto simp: s2' node_def)
    ultimately show ?thesis using True p new by (simp add: s2' node_def)
  qed
  then show ?thesis using that s1 s2 c1 by blast
qed

text \<open>What the users of the fork database can do to it; a caller only makes a node the head that it got
  from the database, and it may hold references to nodes.\<close>

inductive fork_step :: "'b block_lib \<Rightarrow> 'b fork_db \<Rightarrow> 'b fork_db \<Rightarrow> bool" for L where
  step_start: "fork_step L s (start_block L b s)"
| step_push: "push_block L b s = Inr (h, s') \<Longrightarrow> fork_step L s s'"
| step_pop: "pop_block s = Inr s' \<Longrightarrow> fork_step L s s'"
| step_reset: "fork_step L s (reset s)"
| step_resize: "fork_step L s (set_max_size n s)"
| step_remove: "fork_step L s (fdb_remove bid s)"
| step_set_head: "(\<And>a. h = Some a \<Longrightarrow> a \<in> dom (heap s)) \<Longrightarrow> fork_step L s (set_head h s)"
| step_pin: "fork_step L s (s\<lparr>pinned := ps\<rparr>)"

lemma fork_wf_index_head:
  assumes "fork_wf L s" "set idx \<subseteq> set (fdb_index s)" "distinct (map (\<lambda>a. fi_id (node s a)) idx)"
  shows "fork_wf L (s\<lparr>fdb_index := idx\<rparr>)"
  using fork_wf_containers [OF assms(1) _ assms(3), where hd' = "fdb_head s" and u = "unlinked_index s" and n = "fdb_max_size s" and ps = "pinned s"] assms
  by (simp add: fork_wf_def) blast

lemma fork_step_wf:
  assumes "fork_step L s s'" "fork_wf L s"
  shows "fork_wf L s'"
  using assms
proof (induction rule: fork_step.induct)
  case (step_start s b)
  obtain s1 where s1: "new_item (fork_item_of L b) s = (next_addr s, s1)" by (simp add: new_item_def)
  note new = fork_wf_new_item [OF step_start s1]
  have "set (insert_item s1 (fdb_index s1) (next_addr s)) \<subseteq> dom (heap s1)"
    using set_insert_item [of s1 "fdb_index s1"] new(1,4) by (fastforce simp: fork_wf_def)
  then have "fork_wf L (s1\<lparr>fdb_index := insert_item s1 (fdb_index s1) (next_addr s), unlinked_index := unlinked_index s1,
      fdb_head := Some (next_addr s), fdb_max_size := fdb_max_size s1, pinned := pinned s1\<rparr>)"
    using new(1,4) by (intro fork_wf_containers distinct_insert_item) (auto simp: fork_wf_def)
  then show ?case by (simp add: start_block_def s1)
next
  case (step_push b s h s')
  from step_push(1,2) obtain s2 where "fork_wf L s2" "s' = store_item (next_addr s) s2"
    "dom (heap s2) = insert (next_addr s) (dom (heap s))" by (rule push_block_cases)
  then show ?case by (simp add: fork_wf_store_item)
next
  case (step_pop s s')
  then obtain h p where hp: "fdb_head s = Some h" "lock_prev s h = Some p" "s' = s\<lparr>fdb_head := Some p\<rparr>"
    by (auto simp: pop_block_def split: option.splits)
  then obtain it where "heap s h = Some it" "fi_prev it = Some p"
    using step_pop(2) by (auto simp: lock_prev_def node_def fork_wf_def split: option.splits if_splits)
  then have "p \<in> dom (heap s)" using fork_wf_item [OF step_pop(2), of h it] by (auto simp: item_ok_def)
  then show ?case
    using fork_wf_containers [OF step_pop(2), where idx = "fdb_index s" and hd' = "Some p" and u = "unlinked_index s" and n = "fdb_max_size s" and ps = "pinned s"] step_pop(2)
    by (simp add: hp(3) fork_wf_def)
next
  case (step_reset s)
  then show ?case
    using fork_wf_containers [OF step_reset, where idx = "[]" and hd' = None and u = "unlinked_index s" and n = "fdb_max_size s" and ps = "pinned s"]
    by (simp add: reset_def) (metis (no_types, lifting) fork_db.surjective fork_db.update_convs)
next
  case (step_resize s n)
  show ?case
  proof (cases "fdb_head s")
    case None
    then have "set_max_size n s = s\<lparr>fdb_index := fdb_index s, unlinked_index := unlinked_index s, fdb_head := fdb_head s,
        fdb_max_size := n, pinned := pinned s\<rparr>" by (simp add: set_max_size_def)
    moreover have "fork_wf L \<dots>" using step_resize by (intro fork_wf_containers) (simp_all add: fork_wf_def)
    ultimately show ?thesis by simp
  next
    case (Some h)
    let ?s = "s\<lparr>fdb_max_size := n\<rparr>"
    have "node ?s = node s" by (rule node_cong) simp
    then have "fork_wf L (s\<lparr>fdb_index := drop_below ?s (too_old_bound ?s h) (fdb_index s),
        unlinked_index := drop_below ?s (too_old_bound ?s h) (unlinked_index s), fdb_head := fdb_head s,
        fdb_max_size := n, pinned := pinned s\<rparr>)"
      using step_resize set_drop_below [of ?s _ "fdb_index s"]
      by (intro fork_wf_containers) (auto simp: fork_wf_def drop_below_def intro: distinct_map_filter)
    moreover have "set_max_size n s = s\<lparr>fdb_index := drop_below ?s (too_old_bound ?s h) (fdb_index s),
        unlinked_index := drop_below ?s (too_old_bound ?s h) (unlinked_index s), fdb_head := fdb_head s,
        fdb_max_size := n, pinned := pinned s\<rparr>"
      using Some by (cases s) (simp add: set_max_size_def Let_def)
    ultimately show ?thesis by simp
  qed
next
  case (step_remove s bid)
  then show ?case unfolding fdb_remove_def
    by (intro fork_wf_index_head) (auto simp: fork_wf_def intro: distinct_map_filter)
next
  case (step_set_head h s)
  then show ?case
    using fork_wf_containers [OF step_set_head(2), where idx = "fdb_index s" and hd' = h and u = "unlinked_index s" and n = "fdb_max_size s" and ps = "pinned s"]
    by (simp add: set_head_def fork_wf_def)
next
  case (step_pin s ps)
  then show ?case
    using fork_wf_containers [OF step_pin, where idx = "fdb_index s" and hd' = "fdb_head s" and u = "unlinked_index s" and n = "fdb_max_size s" and ps = ps]
    by (simp add: fork_wf_def)
qed

lemma fork_wf_init: "fork_wf L fdb_init"
  by (simp add: fork_wf_def fdb_init_def)

lemma fork_reachable_wf: "(fork_step L)\<^sup>*\<^sup>* fdb_init s \<Longrightarrow> fork_wf L s"
  by (induction rule: rtranclp_induct) (auto intro: fork_wf_init fork_step_wf)

subsection \<open>Branches\<close>

definition linked :: "'b fork_db \<Rightarrow> nat list \<Rightarrow> bool" where
  "linked s xs \<longleftrightarrow> successively (\<lambda>x y. fi_prev (node s x) = Some y) xs"

definition live_path :: "'b fork_db \<Rightarrow> nat list \<Rightarrow> bool" where
  "live_path s xs \<longleftrightarrow> successively (\<lambda>x y. lock_prev s x = Some y) xs"

lemma lock_prev_prev: "lock_prev s a = Some p \<Longrightarrow> fi_prev (node s a) = Some p"
  by (auto simp: lock_prev_def split: option.splits if_splits)

lemma live_linked: "live_path s xs \<Longrightarrow> linked s xs"
  by (auto simp: live_path_def linked_def elim!: successively_mono dest: lock_prev_prev)

abbreviation (input) "bnum L s a \<equiv> block_num L (fi_data (node s a))"
abbreviation (input) "bprev s a \<equiv> previous (fi_data (node s a))"

context byte_order
begin

lemma parent_facts:
  assumes "fork_wf L s" "a \<in> dom (heap s)" "fi_prev (node s a) = Some p"
  shows "p < a" "p \<in> dom (heap s)" "unat (bnum L s a) = unat (bnum L s p) + 1"
proof -
  obtain it where it: "heap s a = Some it" using assms(2) by blast
  then have ok: "item_ok L s a it" "fi_prev it = Some p" using fork_wf_item [OF assms(1)] assms(3) by (auto simp: node_def)
  then obtain q where q: "p < a" "0 < fi_num it" "heap s p = Some q" "fi_id q = previous (fi_data it)"
    by (auto simp: item_ok_def)
  then have "previous (fi_data it) = block_id L (fi_data q)" using fork_wf_item [OF assms(1) q(3)] by (simp add: item_ok_def)
  then have "block_num L (fi_data it) = block_num L (fi_data q) + 1" by (rule block_num_of_child)
  moreover have "block_num L (fi_data it) \<noteq> 0" using ok(1) q(2) by (auto simp: item_ok_def)
  ultimately show "unat (bnum L s a) = unat (bnum L s p) + 1"
    using it q(3) by (simp add: node_def) (metis Suc_eq_plus1 add.commute unatSuc)
  show "p < a" "p \<in> dom (heap s)" using q by auto
qed

lemma linked_num:
  assumes "fork_wf L s" "linked s xs" "xs \<noteq> []" "hd xs \<in> dom (heap s)"
  shows "unat (bnum L s (hd xs)) = unat (bnum L s (last xs)) + (length xs - 1) \<and> last xs \<in> dom (heap s)"
  using assms(2-4)
proof (induction xs rule: induct_list012)
  case (3 x y zs)
  then have "fi_prev (node s x) = Some y" "linked s (y # zs)" by (auto simp: linked_def)
  moreover from this(1) have "unat (bnum L s x) = unat (bnum L s y) + 1" "y \<in> dom (heap s)"
    using parent_facts [OF assms(1), of x y] 3(5) by auto
  ultimately show ?case using 3(2) by simp
qed simp_all

text \<open>The first two loops end, and succeed when the chain reaches down far enough.\<close>

lemma walk_down_result:
  assumes "fork_wf L s" "a \<in> dom (heap s)"
  shows "\<exists>r. walk_down L s n a acc = Some r \<and>
    (\<forall>a' acc'. r = Inr (a', acc') \<longrightarrow> a' \<in> dom (heap s) \<and> \<not> n < bnum L s a' \<and> (n \<le> bnum L s a \<longrightarrow> bnum L s a' = n) \<and>
      (\<exists>path. acc' = acc @ path \<and> hd (path @ [a']) = a \<and> live_path s (path @ [a']) \<and> (bnum L s a \<le> n \<longrightarrow> path = [])))"
  using assms(2)
proof (induction a arbitrary: acc rule: less_induct)
  case (less a)
  show ?case
  proof (cases "n < bnum L s a")
    case False
    then show ?thesis using less(2) by (subst walk_down.simps) (auto simp: live_path_def)
  next
    case True
    show ?thesis
    proof (cases "lock_prev s a")
      case None
      then show ?thesis using True by (subst walk_down.simps) simp
    next
      case (Some p)
      note pf = parent_facts [OF assms(1) less(2) lock_prev_prev [OF Some]]
      have "n \<le> bnum L s p" using True pf(3) by (simp add: word_less_nat_alt word_le_nat_alt)
      moreover obtain r where r: "walk_down L s n p (acc @ [a]) = Some r" and
        props: "\<forall>a' acc'. r = Inr (a', acc') \<longrightarrow> a' \<in> dom (heap s) \<and> \<not> n < bnum L s a' \<and> (n \<le> bnum L s p \<longrightarrow> bnum L s a' = n) \<and>
        (\<exists>path. acc' = (acc @ [a]) @ path \<and> hd (path @ [a']) = p \<and> live_path s (path @ [a']) \<and> (bnum L s p \<le> n \<longrightarrow> path = []))"
        using less(1) [OF pf(1,2)] by blast
      ultimately have w: "walk_down L s n a acc = Some r" using True Some by (subst walk_down.simps) simp
      have "a' \<in> dom (heap s) \<and> \<not> n < bnum L s a' \<and> bnum L s a' = n \<and>
        (\<exists>path. acc' = acc @ path \<and> hd (path @ [a']) = a \<and> live_path s (path @ [a']))" if "r = Inr (a', acc')" for a' acc'
      proof -
        from props that \<open>n \<le> bnum L s p\<close> obtain path where *: "a' \<in> dom (heap s)" "\<not> n < bnum L s a'" "bnum L s a' = n"
          "acc' = acc @ a # path" "hd (path @ [a']) = p" "live_path s (path @ [a'])" by auto
        then show ?thesis using Some
          by (intro conjI exI [of _ "a # path"]) (auto simp: live_path_def successively_Cons)
      qed
      with w have "walk_down L s n a acc = Some r" "\<forall>a' acc'. r = Inr (a', acc') \<longrightarrow> a' \<in> dom (heap s) \<and> \<not> n < bnum L s a' \<and> bnum L s a' = n \<and>
        (\<exists>path. acc' = acc @ path \<and> hd (path @ [a']) = a \<and> live_path s (path @ [a']))" by blast+
      moreover have "\<not> bnum L s a \<le> n" using True by simp
      ultimately show ?thesis by blast
    qed
  qed
qed

lemma walk_down_succeeds:
  assumes "fork_wf L s" "hd xs \<in> dom (heap s)" "live_path s xs" "xs \<noteq> []" "\<not> n < bnum L s (last xs)"
  shows "\<exists>a' acc' ys. walk_down L s n (hd xs) acc = Some (Inr (a', acc')) \<and> live_path s ys \<and> ys \<noteq> [] \<and> hd ys = a' \<and> last ys = last xs"
  using assms(2-5)
proof (induction xs arbitrary: acc rule: induct_list012)
  case (2 x)
  then have "walk_down L s n x acc = Some (Inr (x, acc))" by (subst walk_down.simps) simp
  then show ?case by (force simp: live_path_def)
next
  case (3 x y zs)
  then have xy: "lock_prev s x = Some y" "live_path s (y # zs)" by (auto simp: live_path_def)
  then have "y \<in> dom (heap s)" using parent_facts(2) [OF assms(1) _ lock_prev_prev, of x y] 3(3) by simp
  then show ?case
  proof (cases "n < bnum L s x")
    case True
    then have "walk_down L s n x acc = walk_down L s n y (acc @ [x])" using xy by (subst walk_down.simps) simp
    then show ?thesis using 3(2) [of "acc @ [x]"] xy 3(5,6) \<open>y \<in> dom (heap s)\<close> by simp
  next
    case False
    then have "walk_down L s n x acc = Some (Inr (x, acc))" by (subst walk_down.simps) simp
    then show ?thesis using 3(4) by fastforce
  qed
qed simp

lemma walk_both_result:
  assumes "fork_wf L s" "a \<in> dom (heap s)" "b \<in> dom (heap s)"
  shows "\<exists>r. walk_both s a b acc1 acc2 = Some r \<and>
    (\<forall>b1 b2. r = Inr (b1, b2) \<longrightarrow> (\<exists>p1 p2. b1 = acc1 @ p1 \<and> b2 = acc2 @ p2 \<and> length p1 = length p2 \<and> p1 \<noteq> [] \<and>
      hd p1 = a \<and> hd p2 = b \<and> live_path s p1 \<and> live_path s p2 \<and> bprev s (last p1) = bprev s (last p2) \<and>
      (\<forall>(x, y)\<in>set (butlast (zip p1 p2)). bprev s x \<noteq> bprev s y)))"
  using assms(2,3)
proof (induction a arbitrary: b acc1 acc2 rule: less_induct)
  case (less a)
  show ?case
  proof (cases "bprev s a = bprev s b")
    case True
    then show ?thesis by (subst walk_both.simps) (auto simp: live_path_def intro!: exI [of _ "[a]"] exI [of _ "[b]"])
  next
    case False
    show ?thesis
    proof (cases "\<exists>p q. lock_prev s a = Some p \<and> lock_prev s b = Some q")
      case True
      then obtain p q where pq: "lock_prev s a = Some p" "lock_prev s b = Some q" by blast
      note pf = parent_facts [OF assms(1) less(2) lock_prev_prev [OF pq(1)]]
      note qf = parent_facts [OF assms(1) less(3) lock_prev_prev [OF pq(2)]]
      obtain r where r: "walk_both s p q (acc1 @ [a]) (acc2 @ [b]) = Some r" and props:
        "\<forall>b1 b2. r = Inr (b1, b2) \<longrightarrow> (\<exists>p1 p2. b1 = (acc1 @ [a]) @ p1 \<and> b2 = (acc2 @ [b]) @ p2 \<and> length p1 = length p2 \<and> p1 \<noteq> [] \<and>
        hd p1 = p \<and> hd p2 = q \<and> live_path s p1 \<and> live_path s p2 \<and> bprev s (last p1) = bprev s (last p2) \<and>
        (\<forall>(x, y)\<in>set (butlast (zip p1 p2)). bprev s x \<noteq> bprev s y))"
        using less(1) [OF pf(1,2) qf(2), of "acc1 @ [a]" "acc2 @ [b]"] by blast
      have w: "walk_both s a b acc1 acc2 = Some r" using False pq r by (subst walk_both.simps) simp
      have "\<exists>p1 p2. b1 = acc1 @ p1 \<and> b2 = acc2 @ p2 \<and> length p1 = length p2 \<and> p1 \<noteq> [] \<and>
        hd p1 = a \<and> hd p2 = b \<and> live_path s p1 \<and> live_path s p2 \<and> bprev s (last p1) = bprev s (last p2) \<and>
        (\<forall>(x, y)\<in>set (butlast (zip p1 p2)). bprev s x \<noteq> bprev s y)" if "r = Inr (b1, b2)" for b1 b2
      proof -
        from props that obtain p1 p2 where *: "b1 = acc1 @ a # p1" "b2 = acc2 @ b # p2" "length p1 = length p2" "p1 \<noteq> []"
          "hd p1 = p" "hd p2 = q" "live_path s p1" "live_path s p2" "bprev s (last p1) = bprev s (last p2)"
          "\<forall>(x, y)\<in>set (butlast (zip p1 p2)). bprev s x \<noteq> bprev s y" by auto
        have "p2 \<noteq> []" "zip p1 p2 \<noteq> []" using *(3,4) by auto
        then have "butlast (zip (a # p1) (b # p2)) = (a, b) # butlast (zip p1 p2)" by simp
        then show ?thesis using * False pq \<open>p2 \<noteq> []\<close>
          by (intro exI [of _ "a # p1"] exI [of _ "b # p2"]) (simp add: live_path_def successively_Cons)
      qed
      then show ?thesis using w by blast
    next
      case False2: False
      then show ?thesis using False by (subst walk_both.simps) (auto split: option.splits)
    qed
  qed
qed

lemma walk_both_succeeds:
  assumes "live_path s xs" "live_path s ys" "length xs = length ys" "xs \<noteq> []" "bprev s (last xs) = bprev s (last ys)"
  shows "\<exists>r. walk_both s (hd xs) (hd ys) acc1 acc2 = Some (Inr r)"
  using assms
proof (induction xs arbitrary: ys acc1 acc2 rule: induct_list012)
  case (2 x)
  then obtain y where "ys = [y]" by (metis length_0_conv length_Suc_conv list.size(3) One_nat_def list.size(4))
  then show ?case using 2 by (subst walk_both.simps) simp
next
  case (3 x x' xs)
  then obtain y y' ys' where ys: "ys = y # y' # ys'" by (metis length_Suc_conv list.size(4) Suc_eq_plus1)
  show ?case
  proof (cases "bprev s x = bprev s y")
    case True
    then show ?thesis by (subst walk_both.simps) (simp add: ys)
  next
    case False
    then have "walk_both s x y acc1 acc2 = walk_both s x' y' (acc1 @ [x]) (acc2 @ [y])"
      using 3(3,4) ys by (subst walk_both.simps) (simp add: live_path_def)
    then show ?thesis using 3(2) [of "y' # ys'" "acc1 @ [x]" "acc2 @ [y]"] 3(3-7) ys by (simp add: live_path_def)
  qed
qed simp

end

context byte_order
begin

lemma live_path_join:
  assumes "live_path s (p @ [a])" "live_path s q" "q \<noteq> []" "hd q = a"
  shows "live_path s (p @ q)"
  using assms by (auto simp: live_path_def successively_append_iff)

lemma fetch_branch_result:
  assumes "fork_wf L s" "find_id s (fdb_index s) first = Some a" "find_id s (fdb_index s) second = Some b"
  shows "\<exists>r. fetch_branch_from L s first second = Some r \<and> (\<forall>b1 b2. r = Inr (b1, b2) \<longrightarrow>
    b1 \<noteq> [] \<and> b2 \<noteq> [] \<and> hd b1 = a \<and> hd b2 = b \<and> live_path s b1 \<and> live_path s b2 \<and> bprev s (last b1) = bprev s (last b2) \<and>
    (\<forall>k. 0 < k \<and> k < length b1 \<and> k < length b2 \<longrightarrow> bprev s (rev b1 ! k) \<noteq> bprev s (rev b2 ! k)))"
proof -
  have dom: "a \<in> dom (heap s)" "b \<in> dom (heap s)"
    using find_id_Some [OF assms(2)] find_id_Some [OF assms(3)] assms(1) by (auto simp: fork_wf_def)
  obtain r1 where r1: "walk_down L s (bnum L s b) a [] = Some r1" and
    p1: "\<And>a' acc1. r1 = Inr (a', acc1) \<Longrightarrow> a' \<in> dom (heap s) \<and> \<not> bnum L s b < bnum L s a' \<and> hd (acc1 @ [a']) = a
        \<and> live_path s (acc1 @ [a']) \<and> (bnum L s a \<le> bnum L s b \<longrightarrow> acc1 = []) \<and> (bnum L s b \<le> bnum L s a \<longrightarrow> bnum L s a' = bnum L s b)"
    using walk_down_result [OF assms(1) dom(1), of "bnum L s b" "[]"] by auto
  show ?thesis
  proof (cases r1)
    case (Inl e)
    then show ?thesis using assms r1 by (simp add: fetch_branch_from_def)
  next
    case (Inr x)
    then obtain a' acc1 where x: "r1 = Inr (a', acc1)" by (cases x) auto
    note A = p1 [OF x]
    obtain r2 where r2: "walk_down L s (bnum L s a') b [] = Some r2" and
      p2: "\<And>b' acc2. r2 = Inr (b', acc2) \<Longrightarrow> b' \<in> dom (heap s) \<and> hd (acc2 @ [b']) = b \<and> live_path s (acc2 @ [b'])
          \<and> (bnum L s b \<le> bnum L s a' \<longrightarrow> acc2 = [])"
      using walk_down_result [OF assms(1) dom(2), of "bnum L s a'" "[]"] by auto
    show ?thesis
    proof (cases r2)
      case (Inl e)
      then show ?thesis using assms r1 r2 x by (simp add: fetch_branch_from_def)
    next
      case (Inr y)
      then obtain b' acc2 where y: "r2 = Inr (b', acc2)" by (cases y) auto
      note B = p2 [OF y]
      have one: "acc1 = [] \<or> acc2 = []"
        using A B by (cases "bnum L s a \<le> bnum L s b") auto
      obtain r where r: "walk_both s a' b' acc1 acc2 = Some r" and p3:
        "\<And>b1 b2. r = Inr (b1, b2) \<Longrightarrow> (\<exists>q1 q2. b1 = acc1 @ q1 \<and> b2 = acc2 @ q2 \<and> length q1 = length q2 \<and> q1 \<noteq> [] \<and>
        hd q1 = a' \<and> hd q2 = b' \<and> live_path s q1 \<and> live_path s q2 \<and> bprev s (last q1) = bprev s (last q2) \<and>
        (\<forall>(x, y)\<in>set (butlast (zip q1 q2)). bprev s x \<noteq> bprev s y))"
        using walk_both_result [OF assms(1), of a' b' acc1 acc2] A B by blast
      have "b1 \<noteq> [] \<and> b2 \<noteq> [] \<and> hd b1 = a \<and> hd b2 = b \<and> live_path s b1 \<and> live_path s b2 \<and> bprev s (last b1) = bprev s (last b2) \<and>
        (\<forall>k. 0 < k \<and> k < length b1 \<and> k < length b2 \<longrightarrow> bprev s (rev b1 ! k) \<noteq> bprev s (rev b2 ! k))" if "r = Inr (b1, b2)" for b1 b2
      proof -
        from p3 [OF that] obtain q1 q2 where q: "b1 = acc1 @ q1" "b2 = acc2 @ q2" "length q1 = length q2" "q1 \<noteq> []"
          "hd q1 = a'" "hd q2 = b'" "live_path s q1" "live_path s q2" "bprev s (last q1) = bprev s (last q2)"
          "\<forall>(x, y)\<in>set (butlast (zip q1 q2)). bprev s x \<noteq> bprev s y" by blast
        have q2: "q2 \<noteq> []" using q(3,4) by auto
        have "bprev s (rev b1 ! k) \<noteq> bprev s (rev b2 ! k)" if "0 < k" "k < length b1" "k < length b2" for k
        proof -
          have k: "k < length q1" using one that q by auto
          let ?i = "length q1 - 1 - k"
          have "butlast (zip q1 q2) ! ?i = (q1 ! ?i, q2 ! ?i)" "?i < length (butlast (zip q1 q2))"
            using k that(1) q(3) by (auto simp: nth_butlast)
          then have "(q1 ! ?i, q2 ! ?i) \<in> set (butlast (zip q1 q2))" by (metis nth_mem)
          moreover have "rev b1 ! k = q1 ! ?i" "rev b2 ! k = q2 ! ?i"
            using k q(1-3) by (simp_all add: nth_append rev_nth)
          ultimately show ?thesis using q(10) by auto
        qed
        moreover have "hd b1 = a" "hd b2 = b" using A B q q2 by (auto simp: hd_append split: if_splits)
        moreover have "live_path s b1" "live_path s b2"
          using live_path_join [of s acc1 a' q1] live_path_join [of s acc2 b' q2] A B q q2 by simp_all
        ultimately show ?thesis using q q2 by simp
      qed
      moreover have "fetch_branch_from L s first second = Some r"
        using assms r1 r2 x y r by (simp add: fetch_branch_from_def)
      ultimately show ?thesis by blast
    qed
  qed
qed

lemma fetch_branch_succeeds:
  assumes "fork_wf L s" "find_id s (fdb_index s) first = Some a" "find_id s (fdb_index s) second = Some b"
    and "live_path s xs" "xs \<noteq> []" "hd xs = a" "live_path s ys" "ys \<noteq> []" "hd ys = b" "bprev s (last xs) = bprev s (last ys)"
  shows "\<exists>b1 b2. fetch_branch_from L s first second = Some (Inr (b1, b2))"
proof -
  have dom: "a \<in> dom (heap s)" "b \<in> dom (heap s)"
    using find_id_Some [OF assms(2)] find_id_Some [OF assms(3)] assms(1) by (auto simp: fork_wf_def)
  have num: "bnum L s (last xs) = bnum L s (last ys)" using assms(10) by (simp add: block_num_def)
  have lx: "unat (bnum L s a) = unat (bnum L s (last xs)) + (length xs - 1)"
    using linked_num [OF assms(1) live_linked [OF assms(4)] assms(5)] dom assms(6) by simp
  have ly: "unat (bnum L s b) = unat (bnum L s (last ys)) + (length ys - 1)"
    using linked_num [OF assms(1) live_linked [OF assms(7)] assms(8)] dom assms(9) by simp
  have "\<not> bnum L s b < bnum L s (last xs)" using ly num by (simp add: word_less_nat_alt)
  then obtain a' acc1 xs' where w1: "walk_down L s (bnum L s b) a [] = Some (Inr (a', acc1))"
    and x': "live_path s xs'" "xs' \<noteq> []" "hd xs' = a'" "last xs' = last xs"
    using walk_down_succeeds [OF assms(1) _ assms(4,5), of "bnum L s b" "[]"] dom assms(6) by auto
  have a': "a' \<in> dom (heap s)" "\<not> bnum L s b < bnum L s a'"
    using walk_down_result [OF assms(1) dom(1), of "bnum L s b" "[]"] w1 by auto
  have lx': "unat (bnum L s a') = unat (bnum L s (last xs)) + (length xs' - 1)"
    using linked_num [OF assms(1) live_linked [OF x'(1)] x'(2)] a' x' by simp
  have "\<not> bnum L s a' < bnum L s (last ys)" using lx' num by (simp add: word_less_nat_alt)
  then obtain b' acc2 ys' where w2: "walk_down L s (bnum L s a') b [] = Some (Inr (b', acc2))"
    and y': "live_path s ys'" "ys' \<noteq> []" "hd ys' = b'" "last ys' = last ys"
    using walk_down_succeeds [OF assms(1) _ assms(7,8), of "bnum L s a'" "[]"] dom assms(9) by auto
  have b': "b' \<in> dom (heap s)" "bnum L s b' = bnum L s a'"
    using walk_down_result [OF assms(1) dom(2), of "bnum L s a'" "[]"] w2 a'(2) by (auto simp: not_less)
  have "unat (bnum L s b') = unat (bnum L s (last ys)) + (length ys' - 1)"
    using linked_num [OF assms(1) live_linked [OF y'(1)] y'(2)] b' y' by simp
  then have "length xs' = length ys'" using lx' b'(2) num x'(2) y'(2)
    by (metis Suc_diff_1 add_left_cancel length_greater_0_conv)
  then obtain r where "walk_both s a' b' acc1 acc2 = Some (Inr r)"
    using walk_both_succeeds [OF x'(1) y'(1)] x' y' assms(10) by metis
  then show ?thesis using assms(2,3) w1 w2 by (cases r) (simp add: fetch_branch_from_def)
qed

end

text \<open>C23: \<open>fetch_branch_from\<close> always returns.  When it does not fail it gives, for two known blocks, the
  two chains of parents that lead from them to the most recent common ancestor: each starts at its
  block, follows parent pointers, the last blocks of both have the same previous block, and no earlier
  pair at equal height has.  It does not fail when both blocks are known and the nodes of such a pair
  of chains are still referenced.\<close>

theorem fetch_branch_common_ancestor:
  assumes "byte_order L" "(fork_step L)\<^sup>*\<^sup>* fdb_init s"
  shows "\<exists>r. fetch_branch_from L s first second = Some r
    \<and> (\<forall>b1 b2. r = Inr (b1, b2) \<longrightarrow>
        b1 \<noteq> [] \<and> b2 \<noteq> [] \<and> fi_id (node s (hd b1)) = first \<and> fi_id (node s (hd b2)) = second \<and> linked s b1 \<and> linked s b2
        \<and> previous (fi_data (node s (last b1))) = previous (fi_data (node s (last b2)))
        \<and> (\<forall>k. 0 < k \<and> k < length b1 \<and> k < length b2 \<longrightarrow>
             previous (fi_data (node s (rev b1 ! k))) \<noteq> previous (fi_data (node s (rev b2 ! k)))))
    \<and> ((\<exists>xs ys. xs \<noteq> [] \<and> ys \<noteq> [] \<and> live_path s xs \<and> live_path s ys
          \<and> find_id s (fdb_index s) first = Some (hd xs) \<and> find_id s (fdb_index s) second = Some (hd ys)
          \<and> previous (fi_data (node s (last xs))) = previous (fi_data (node s (last ys))))
        \<longrightarrow> (\<exists>b1 b2. r = Inr (b1, b2)))"
proof (cases "find_id s (fdb_index s) first = None \<or> find_id s (fdb_index s) second = None")
  case True
  then show ?thesis by (auto simp: fetch_branch_from_def split: option.splits)
next
  case False
  then obtain a b where ab: "find_id s (fdb_index s) first = Some a" "find_id s (fdb_index s) second = Some b" by auto
  have wf: "fork_wf L s" by (rule fork_reachable_wf [OF assms(2)])
  obtain r where r: "fetch_branch_from L s first second = Some r" "\<forall>b1 b2. r = Inr (b1, b2) \<longrightarrow>
    b1 \<noteq> [] \<and> b2 \<noteq> [] \<and> hd b1 = a \<and> hd b2 = b \<and> live_path s b1 \<and> live_path s b2
    \<and> previous (fi_data (node s (last b1))) = previous (fi_data (node s (last b2)))
    \<and> (\<forall>k. 0 < k \<and> k < length b1 \<and> k < length b2 \<longrightarrow>
         previous (fi_data (node s (rev b1 ! k))) \<noteq> previous (fi_data (node s (rev b2 ! k))))"
    using byte_order.fetch_branch_result [OF assms(1) wf ab] by blast
  moreover have "fi_id (node s a) = first" "fi_id (node s b) = second" using find_id_Some ab by blast+
  moreover have "\<exists>b1 b2. r = Inr (b1, b2)" if "xs \<noteq> []" "ys \<noteq> []" "live_path s xs" "live_path s ys"
      "find_id s (fdb_index s) first = Some (hd xs)" "find_id s (fdb_index s) second = Some (hd ys)"
      "previous (fi_data (node s (last xs))) = previous (fi_data (node s (last ys)))" for xs ys
    using byte_order.fetch_branch_succeeds [OF assms(1) wf that(5,6,3,1) refl that(4,2) refl that(7)] r(1) by auto
  ultimately show ?thesis
  proof (intro exI [of _ r] conjI, goal_cases)
    case 2
    show ?case
    proof (intro allI impI, goal_cases)
      case (1 b1 b2)
      then show ?case using 2(2,3,4) live_linked [of s b1] live_linked [of s b2] by simp
    qed
  next
    case 3
    then show ?case by blast
  qed
qed

text \<open>C24: Pushing a block keeps the fork database a tree whose head is the longest fork.  In every
  reachable state, a successful push returns the new head: the pushed block if its number exceeds that
  of the old head (or there was none), the old head otherwise; the block is known afterwards, its parent
  was known before unless it has none, and if the head had the highest number before it has it after.\<close>

theorem push_block_head:
  assumes "byte_order L" "(fork_step L)\<^sup>*\<^sup>* fdb_init s" "push_block L b s = Inr (h, s')"
  shows "\<exists>a. h = Some a \<and> fdb_head s' = h \<and> is_known_block s' (block_id L b)
    \<and> fi_data (node s' a) = (case fdb_head s of None \<Rightarrow> b
         | Some g \<Rightarrow> if fi_num (node s g) < block_num L b then b else fi_data (node s g))
    \<and> (fdb_head s \<noteq> None \<and> previous b \<noteq> null_block_id \<longrightarrow> is_known_block s (previous b))
    \<and> ((\<forall>g x. fdb_head s = Some g \<and> x \<in> set (fdb_index s) \<longrightarrow> fi_num (node s x) \<le> fi_num (node s g)) \<and> fdb_head s \<noteq> None
        \<longrightarrow> (\<forall>x\<in>set (fdb_index s'). fi_num (node s' x) \<le> fi_num (node s' a)))"
proof -
  have wf: "fork_wf L s" by (rule fork_reachable_wf [OF assms(2)])
  let ?a = "next_addr s"
  from assms(3) wf obtain s1 s2 where *: "s' = store_item ?a s2" "h = fdb_head s'" "fork_wf L s2"
    "\<And>x. x \<in> dom (heap s) \<Longrightarrow> node s2 x = node s x"
    "node s2 ?a = (fork_item_of L b)\<lparr>fi_prev := (if fdb_head s \<noteq> None \<and> previous b \<noteq> null_block_id
       then find_id s (fdb_index s) (previous b) else None)\<rparr>"
    "fdb_head s2 = fdb_head s" "fdb_index s2 = fdb_index s"
    "fdb_head s \<noteq> None \<Longrightarrow> previous b \<noteq> null_block_id \<Longrightarrow> find_id s (fdb_index s) (previous b) \<noteq> None"
    by (rule push_block_cases) blast
  have node: "node s' = node s2" unfolding *(1) by (subst store_item_frame) (rule node_cong, simp)
  have new: "fi_num (node s2 ?a) = block_num L b" "fi_id (node s2 ?a) = block_id L b" "fi_data (node s2 ?a) = b"
    using *(5) by (simp_all add: fork_item_of_def)
  have head: "h = (case fdb_head s of None \<Rightarrow> Some ?a
     | Some g \<Rightarrow> if fi_num (node s g) < block_num L b then Some ?a else Some g)"
    using *(2,4,6) wf new(1) by (auto simp: *(1) store_item_head fork_wf_def split: option.splits)
  have old: "\<And>g. fdb_head s = Some g \<Longrightarrow> node s2 g = node s g" "\<And>x. x \<in> set (fdb_index s) \<Longrightarrow> node s2 x = node s x"
    using *(4) wf unfolding fork_wf_def by blast+
  obtain n where idx: "fdb_index s' = drop_below s2 n (insert_item s2 (fdb_index s) ?a)" "n \<le> uint (block_num L b)"
    using store_item_index [of ?a s2] *(1,7) new by auto
  have "\<exists>x\<in>set (fdb_index s'). fi_id (node s2 x) = block_id L b"
  proof (cases "find_id s2 (fdb_index s) (block_id L b)")
    case None
    then have "?a \<in> set (fdb_index s')" using idx new by (simp add: insert_item_def drop_below_def)
    then show ?thesis using new(2) by blast
  next
    case (Some x)
    then have x: "x \<in> set (fdb_index s)" "fi_id (node s2 x) = block_id L b" using find_id_Some by blast+
    then obtain it where "heap s x = Some it" using wf by (auto simp: fork_wf_def)
    then have "fi_num (node s2 x) = num_from_id L (fi_id (node s2 x))"
      using fork_wf_item [OF wf, of x it] old(2) [OF x(1)] byte_order.num_from_block_id [OF assms(1)]
      by (simp add: item_ok_def node_def)
    then have "fi_num (node s2 x) = block_num L b" using x(2) byte_order.num_from_block_id [OF assms(1)] by simp
    then have "x \<in> set (fdb_index s')" using idx x Some by (simp add: insert_item_def drop_below_def new)
    then show ?thesis using x(2) by blast
  qed
  then have known: "is_known_block s' (block_id L b)" by (auto simp: is_known_block_def find_id_None node)
  have "\<forall>x\<in>set (fdb_index s'). fi_num (node s' x) \<le> fi_num (node s' a)"
    if hyp: "\<forall>g x. fdb_head s = Some g \<and> x \<in> set (fdb_index s) \<longrightarrow> fi_num (node s x) \<le> fi_num (node s g)" "fdb_head s \<noteq> None" "h = Some a" for a
  proof
    fix x assume "x \<in> set (fdb_index s')"
    then have "x = ?a \<or> x \<in> set (fdb_index s)"
      using set_drop_below [of s2 n] set_insert_item [of s2 "fdb_index s" ?a] by (auto simp: idx)
    moreover obtain g where g: "fdb_head s = Some g" using hyp(2) by blast
    ultimately show "fi_num (node s' x) \<le> fi_num (node s' a)"
      using hyp head old new by (fastforce simp: node split: if_splits)
  qed
  moreover obtain a where a: "h = Some a" using head by (auto split: option.splits if_splits)
  moreover have "fi_data (node s' a) = (case fdb_head s of None \<Rightarrow> b
         | Some g \<Rightarrow> if fi_num (node s g) < block_num L b then b else fi_data (node s g))"
    using head a old(1) new(3) by (auto simp: node split: option.splits if_splits)
  moreover have "fdb_head s \<noteq> None \<and> previous b \<noteq> null_block_id \<longrightarrow> is_known_block s (previous b)"
    using *(8) by (auto simp: is_known_block_def)
  ultimately show ?thesis using known *(2) by (intro exI [of _ a] conjI impI) (assumption | simp)+
qed

subsection \<open>A small tree\<close>

text \<open>A root and two blocks on it.\<close>

definition demo_block :: "block_id_type \<Rightarrow> nat \<Rightarrow> nat signed_block" where
  "demo_block prev n = \<lparr>previous = prev, timestamp = n, block_witness = 0, body = n\<rparr>"

definition demo_root :: "nat signed_block" where
  "demo_root = demo_block null_block_id 1"

definition demo_child :: "nat \<Rightarrow> nat signed_block" where
  "demo_child n = demo_block (block_id demo_block_lib demo_root) n"

definition demo_tree :: "nat fork_db" where
  "demo_tree = \<lparr>heap = [0 \<mapsto> fork_item_of demo_block_lib demo_root,
       1 \<mapsto> (fork_item_of demo_block_lib (demo_child 2))\<lparr>fi_prev := Some 0\<rparr>,
       2 \<mapsto> (fork_item_of demo_block_lib (demo_child 3))\<lparr>fi_prev := Some 0\<rparr>],
     next_addr = 3, fdb_index = [0, 1, 2], unlinked_index = [], fdb_head = Some 1, fdb_max_size = 1024, pinned = {}\<rparr>"

lemma demo_block_facts [simp]:
  "block_num demo_block_lib demo_root = 1" "block_num demo_block_lib (demo_child n) = 2"
  "previous demo_root = null_block_id" "previous (demo_child n) = block_id demo_block_lib demo_root"
  "hash_rest (block_id demo_block_lib demo_root) = 1" "hash_rest (block_id demo_block_lib (demo_child n)) = of_nat n"
proof -
  have "reverse_bytes 0 = 0" by (simp add: reverse_bytes_def)
  then show root: "block_num demo_block_lib demo_root = 1"
    by (simp add: block_num_def num_from_id_def demo_root_def demo_block_def null_block_id_def demo_block_lib_def)
  show "previous demo_root = null_block_id" "previous (demo_child n) = block_id demo_block_lib demo_root"
    by (simp_all add: demo_root_def demo_child_def demo_block_def)
  then show "block_num demo_block_lib (demo_child n) = 2" using demo_blocks.block_num_of_child root by simp
  show "hash_rest (block_id demo_block_lib demo_root) = 1" "hash_rest (block_id demo_block_lib (demo_child n)) = of_nat n"
    by (simp_all add: block_id_def demo_block_lib_def demo_root_def demo_child_def demo_block_def)
qed

lemma demo_ids [simp]:
  "block_id demo_block_lib demo_root \<noteq> null_block_id"
  "block_id demo_block_lib (demo_child 2) \<noteq> block_id demo_block_lib demo_root"
  "block_id demo_block_lib demo_root \<noteq> block_id demo_block_lib (demo_child 2)"
  "block_id demo_block_lib (demo_child 3) \<noteq> block_id demo_block_lib demo_root"
  "block_id demo_block_lib demo_root \<noteq> block_id demo_block_lib (demo_child 3)"
  "block_id demo_block_lib (demo_child 2) \<noteq> block_id demo_block_lib (demo_child 3)"
  by (auto dest!: arg_cong [where f = hash_rest] simp: null_block_id_def)

lemmas fork_eval = push_block_def new_item_def push_item_def link_item_def store_item_def insert_item_def find_id_def
  drop_below_def too_old_bound_def node_def fork_item_of_def Let_def

definition demo_start :: "nat fork_db" where
  "demo_start = start_block demo_block_lib demo_root fdb_init"

definition demo_mid :: "nat fork_db" where
  "demo_mid = demo_tree\<lparr>heap := (heap demo_tree)(2 := None), next_addr := 2, fdb_index := [0, 1]\<rparr>"

lemma demo_push_first: "push_block demo_block_lib (demo_child 2) demo_start = Inr (Some 1, demo_mid)"
  by (simp add: fork_eval demo_start_def start_block_def fdb_init_def demo_mid_def demo_tree_def fun_eq_iff)

lemma demo_push_second: "push_block demo_block_lib (demo_child 3) demo_mid = Inr (Some 1, demo_tree)"
  by (simp add: fork_eval demo_mid_def demo_tree_def fun_eq_iff)

lemma demo_start_reachable: "(fork_step demo_block_lib)\<^sup>*\<^sup>* fdb_init demo_start"
  unfolding demo_start_def by (rule r_into_rtranclp) (rule step_start)

lemma demo_tree_reachable: "(fork_step demo_block_lib)\<^sup>*\<^sup>* fdb_init demo_tree"
  using demo_start_reachable step_push [OF demo_push_first] step_push [OF demo_push_second]
  by (meson rtranclp.rtrancl_into_rtrancl)

theorem fetch_branch_common_ancestor_witness:
  "\<exists>b1 b2. fetch_branch_from demo_block_lib demo_tree (block_id demo_block_lib (demo_child 2))
     (block_id demo_block_lib (demo_child 3)) = Some (Inr (b1, b2)) \<and> linked demo_tree b1 \<and> linked demo_tree b2"
proof -
  have "find_id demo_tree (fdb_index demo_tree) (block_id demo_block_lib (demo_child 2)) = Some 1"
    "find_id demo_tree (fdb_index demo_tree) (block_id demo_block_lib (demo_child 3)) = Some 2"
    by (simp_all add: find_id_def node_def demo_tree_def fork_item_of_def)
  moreover have "previous (fi_data (node demo_tree 1)) = previous (fi_data (node demo_tree 2))"
    by (simp add: node_def demo_tree_def fork_item_of_def)
  ultimately have "\<exists>xs ys. xs \<noteq> [] \<and> ys \<noteq> [] \<and> live_path demo_tree xs \<and> live_path demo_tree ys
      \<and> find_id demo_tree (fdb_index demo_tree) (block_id demo_block_lib (demo_child 2)) = Some (hd xs)
      \<and> find_id demo_tree (fdb_index demo_tree) (block_id demo_block_lib (demo_child 3)) = Some (hd ys)
      \<and> previous (fi_data (node demo_tree (last xs))) = previous (fi_data (node demo_tree (last ys)))"
    by (intro exI [of _ "[1]"] exI [of _ "[2]"]) (simp add: live_path_def)
  then show ?thesis
    using fetch_branch_common_ancestor [OF demo_blocks.byte_order_axioms demo_tree_reachable,
        of "block_id demo_block_lib (demo_child 2)" "block_id demo_block_lib (demo_child 3)"] by blast
qed

theorem push_block_head_witness:
  "\<exists>a. fdb_head demo_mid = Some a \<and> fi_data (node demo_mid a) = demo_child 2
     \<and> is_known_block demo_mid (block_id demo_block_lib (demo_child 2))"
proof -
  have "fdb_head demo_start = Some 0" "fi_num (node demo_start 0) = 1"
    by (simp_all add: demo_start_def start_block_def new_item_def fdb_init_def node_def fork_item_of_def)
  then show ?thesis
    using push_block_head [OF demo_blocks.byte_order_axioms demo_start_reachable demo_push_first] by auto
qed

end
