(* ===== verification/Spec2Isabelle.thy ===== *)
theory Spec2Isabelle
  imports Undo_Refinement Supply Authority_Check Fork_DB Names
begin

text \<open>
  \<^bold>\<open>The program.\<close> The knowhowchain node is a graphene block chain with crowd-funded project assets.
  A block is a list of transactions, a transaction a list of operations; every operation is
  evaluated against an in-memory object database and then applied to it. The database keeps an undo
  history, so that a failed transaction, a pending block or the blocks of a losing fork can be taken
  back. The fork database keeps the tree of recent blocks from which the chain with the highest head
  is chosen. Witnesses produce blocks in slots, in an order shuffled each round. At maintenance the
  life cycle of projects advances.

  \<^bold>\<open>The theories\<close>, in the order of their dependencies. The paths are relative to
  \<open>src/libraries\<close>.

  \<^item> \<open>KHC_Prelude\<close>: error values, the checked arithmetic results, and list and option lemmas.
  \<^item> \<open>Fc_Lib\<close>: the part of the fc library (not in the sources) that the chain relies on. Its checked
    integers are a record of functions; the locale \<open>fc_arith\<close> states their documented behaviour and
    is interpreted on a 64-bit implementation.
  \<^item> \<open>Undo_DB\<close>: \<open>db/undo_database.cpp\<close> and the session class. A store of objects, the stack of undo
    states with old values, new and removed objects, and all operations on them.
    \<open>Undo_Refinement\<close>: an abstract database that keeps a stack of snapshots, and the
    simulation between the two.
  \<^item> \<open>Asset_Price\<close>: \<open>chain/protocol/asset.cpp\<close>: asset amounts, prices, rounding, call prices and price
    feeds. The 128-bit products of the code are integers with the range checks written out.
  \<^item> \<open>Names\<close>: \<open>chain/protocol/account.cpp\<close>, \<open>protocol/asset_ops.cpp\<close>, \<open>chain/asset_object.cpp\<close> and
    \<open>khc/util.cpp\<close>: which account names and symbols are valid; printing and parsing of amounts.
  \<^item> \<open>Object_Table\<close>: \<open>db/generic_index.hpp\<close>: a table of objects with ever-growing instance numbers,
    with the locale \<open>object_index\<close> of what a client may rely on.
  \<^item> \<open>Chain_DB\<close>: the chain objects of \<open>chain/include\<close> as records, the database record, balances
    (\<open>db_balance.cpp\<close>), white and black lists (\<open>is_authorized_asset.cpp\<close>).
  \<^item> \<open>Evaluator\<close>: the generic evaluator with fees (\<open>evaluator.cpp\<close>) and the transfers
    (\<open>transfer_evaluator.cpp\<close>).
  \<^item> \<open>Vesting\<close>: both vesting policies, the vesting operations, lazy vesting deposits, and the
    distribution of fees (\<open>vesting_balance_object.cpp\<close>, \<open>vesting_balance_evaluator.cpp\<close>,
    \<open>account_object.cpp\<close>, \<open>db_balance.cpp\<close>).
  \<^item> \<open>Financing\<close>: investments in projects, issue of project tokens, refunds and claims
    (\<open>financing_evaluator.cpp\<close>), and the maintenance of projects (\<open>db_maint.cpp\<close>).
    \<open>Financing_Escrow\<close>: the step relation of these operations and the escrow invariant.
  \<^item> \<open>Conservation\<close>: what is held of an asset and what of its supply is unaccounted for; that transfers, vesting,
    financing and fees leave it unchanged.
  \<^item> \<open>Fee_Schedule\<close>: \<open>protocol/fee_schedule.cpp\<close>: the fee of an operation in the fee asset, and the validation of chain
    parameters.
  \<^item> \<open>Margin\<close>: \<open>market_object.cpp\<close>: how much debt a margin call has to cover to reach the target ratio.
  \<^item> \<open>Market\<close>: the order books, market fees, filling, culling and cancelling of orders (\<open>db_market.cpp\<close>).
    \<open>Matching\<close>: matches, margin calls, black swans, global settlement and revival, new limit orders (\<open>db_market.cpp\<close>,
    \<open>db_update.cpp\<close>), and the operations of \<open>market_evaluator.cpp\<close>. The branches before and after each hard fork
    are kept.
  \<^item> \<open>Market_Ledger\<close>, \<open>Matching_Ledger\<close>, \<open>Order_Ledger\<close>: by how much each step of the market shifts the books of an asset;
    the steps of every operation add up to zero.
  \<^item> \<open>Price_Ratio\<close>: the product of a price and a ratio, shrunk to 64 bits (\<open>protocol/asset.cpp\<close>).
  \<^item> \<open>Feeds\<close>: price feeds and their median (\<open>asset_object.cpp\<close>).
  \<^item> \<open>Asset_Ops\<close>, \<open>Bitasset_Ops\<close>: the operations of \<open>asset_evaluator.cpp\<close> with the validation of \<open>protocol/asset_ops.cpp\<close>: creation
    (project and market-issued assets), issue, reserve, fee pools, claims, updates; the options and feed producers of market-issued assets,
    settlements and feed publications.
  \<^item> \<open>Settlement\<close>: expiry of orders and feeds, the forced settlements of a market and the limit of their volume (\<open>db_update.cpp\<close>), and the
    maintenance of market-issued assets with the repairs of the hard forks (\<open>db_maint.cpp\<close>).
  \<^item> \<open>Asset_Ledger\<close>, \<open>Settlement_Ledger\<close>, \<open>Issuer_Ledger\<close>, \<open>Creation_Ledger\<close>: by how much these operations shift the books of an asset.
    \<open>Chain_Frame\<close>: what the other operations leave unchanged.
  \<^item> \<open>Supply\<close>: all modelled operations, block updates and maintenance steps as one step relation on the database, the invariant of its
    states, and the conservation of every asset along every execution.
  \<^item> \<open>Authority\<close>: weighted authorities of keys, accounts and addresses, and the check of a transaction's signatures
    (\<open>protocol/authority.hpp\<close>, \<open>protocol/operations.cpp\<close>, \<open>protocol/transaction.cpp\<close>). \<open>Authority_Check\<close>: when an authority is satisfied,
    as an inductive predicate without a bound and as a function with one; that the check with its caches accepts nothing beyond the first
    and everything within the second.
  \<^item> \<open>Blocks\<close>, \<open>Fork_DB\<close>: \<open>protocol/block.cpp\<close> and \<open>fork_database.cpp\<close>. Fork items live in an explicit
    heap because they hold weak pointers to their parents; an item dropped from the index can no
    longer be reached from its children.
  \<^item> \<open>Witness_Schedule\<close>: \<open>db_witness_schedule.cpp\<close> and the per-block updates of \<open>db_update.cpp\<close>.

  \<^bold>\<open>Conventions.\<close> Every exception of the code is a left value (\<open>Inl\<close>) of a sum; a check of an
  operation that the code makes in \<open>do_evaluate\<close> precedes the changes of \<open>do_apply\<close>, as in the code.
  An operation that throws leaves no state: the undo session of the caller takes the changes back,
  which is the subject of \<open>Undo_Refinement\<close>. Share amounts are integers in the 64-bit range, with
  the checks of the code's safe integers; block numbers, slots and masks that wrap are words or
  written with \<open>mod\<close>.

  \<^bold>\<open>What the theorems show.\<close> The undo log behaves as a stack of snapshots, so undo, merge and commit
  restore exactly. No sequence of steps creates or destroys an asset outside its recorded supply, and every state it reaches is
  well-formed. The current feed is a median of the feeds alive; a price times a ratio moves in the direction of the ratio. A transaction
  is accepted only with every authority it needs. The KHD
  of a project equals what was invested less what was paid out; refunds, issues and claims divide
  it exactly. A vesting balance never pays out more than has vested. Prices are ordered and rounded
  as documented. The fork database finds the common ancestor of two branches, always ends, and its head is a
  highest block. Slots and times are inverse, the schedule is fair, and a block becomes irreversible only
  with a supermajority. Amount strings round-trip.

  \<^bold>\<open>Termination.\<close> The loops of the code are structural recursions or have a measure. The walks of the
  fork database, which end only because parents have smaller numbers, are
  \<open>partial_function (option)\<close> definitions with a proof that they return. The \<open>while\<close> loops of the market are run by
  \<open>run_loop\<close>, a \<open>partial_function (option)\<close> whose endless run is the error \<open>Nontermination\<close>: a result of a market operation
  is a result of loops that ended, and that the fee and margin searches end is proved.

  \<^bold>\<open>Not modelled.\<close> Networking, wallet, the remote interfaces, plugins and programs (input and
  output around the chain library); signatures and hashing (parameters); block application and storage on disk; the operations on
  accounts, witnesses, committee members, workers, proposals, withdrawal permissions and blinded transfers; votes and budgets of the
  maintenance.
\<close>

end
